(* ===== verification/Go_Prelude.thy ===== *)
theory Go_Prelude
  imports Main "HOL-Library.Sublist" "HOL-Library.Signed_Division"
begin

text \<open>
  The part of Go's language and standard library that the modelled packages use, and the generic
  lemmas the component theories share.

  A Go \<open>string\<close> or \<open>[]byte\<close> is a \<^typ>\<open>string\<close>, a list of 8-bit characters, so \<open>length\<close> counts
  bytes as \<open>len\<close> does. A Go \<open>int\<close> is an \<^typ>\<open>int\<close>: the modelled \<open>int\<close> values are lengths, line
  numbers and token counts, which stay far below \<open>2^63\<close>; durations, where the source guards against
  overflow, are kept at 64 bits in the theory that models them. Integer division truncates
  towards zero, which is \<open>sdiv\<close> of \<open>HOL-Library.Signed_Division\<close>. \<open>strings\<close>,
  \<open>strconv\<close> and \<open>unicode/utf8\<close> functions keep their Go names. \<open>strings.Index\<close> returns
  \<^const>\<open>None\<close> where Go returns \<open>-1\<close>.
\<close>

named_theorems go_string \<open>facts on the string functions\<close>
named_theorems go_slice \<open>facts on slices and index loops\<close>

abbreviation nl :: char where
  "nl \<equiv> CHR 0x0A"

abbreviation len :: "'a list \<Rightarrow> int" where
  "len xs \<equiv> int (length xs)"

section \<open>Slices\<close>

text \<open>\<open>xs[i:j]\<close> for indices in range.\<close>

definition slice :: "'a list \<Rightarrow> nat \<Rightarrow> nat \<Rightarrow> 'a list" where
  "slice xs i j = take (j - i) (drop i xs)"

lemma length_slice [simp]: "length (slice xs i j) = min (j - i) (length xs - i)"
  by (simp add: slice_def min.commute)

lemma slice_same [simp]: "slice xs i i = []"
  by (simp add: slice_def)

lemma slice_append [go_slice]:
  assumes "i \<le> j" "j \<le> k"
  shows "slice xs i j @ slice xs j k = slice xs i k"
proof -
  have "drop i xs = take (j - i) (drop i xs) @ drop j xs"
    using assms by (metis append_take_drop_id drop_drop le_add_diff_inverse2)
  then have "take (k - i) (drop i xs) = take (j - i) (drop i xs) @ take (k - j) (drop j xs)"
    using assms
    by (smt (verit) add.commute append_take_drop_id diff_diff_eq drop_drop drop_take le_add_diff_inverse
        min.absorb1 take_take take_drop diff_le_mono le_Suc_ex diff_add_inverse)
  then show ?thesis
    by (simp add: slice_def)
qed

lemma slice_Suc [go_slice]:
  "i \<le> j \<Longrightarrow> j < length xs \<Longrightarrow> slice xs i (Suc j) = slice xs i j @ [xs ! j]"
  unfolding slice_def by (simp add: Suc_diff_le take_Suc_conv_app_nth)

lemma slice_nth [simp]: "i + k < j \<Longrightarrow> j \<le> length xs \<Longrightarrow> slice xs i j ! k = xs ! (i + k)"
  by (simp add: slice_def)

lemma take_slice_drop [go_slice]: "i \<le> j \<Longrightarrow> take i xs @ slice xs i j @ drop j xs = xs"
  unfolding slice_def
  by (metis append_take_drop_id drop_drop le_add_diff_inverse2)

lemma slice_drop [go_slice]: "i \<le> j \<Longrightarrow> slice xs i j @ drop j xs = drop i xs"
  unfolding slice_def by (metis append_take_drop_id drop_drop le_add_diff_inverse2)

lemma slice_eqI [go_slice]:
  assumes "i \<le> i'" "i' \<le> length xs" "j' = j + (i' - i)" "j' \<le> length ys"
    and "\<And>k. k < i' - i \<Longrightarrow> xs ! (i + k) = ys ! (j + k)"
  shows "slice xs i i' = slice ys j j'"
  using assms by (intro nth_equalityI) (auto simp: slice_def)

section \<open>Package strings\<close>

definition HasPrefix :: "string \<Rightarrow> string \<Rightarrow> bool" where
  "HasPrefix s p = (take (length p) s = p)"

definition TrimPrefix :: "string \<Rightarrow> string \<Rightarrow> string" where
  "TrimPrefix s p = (if HasPrefix s p then drop (length p) s else s)"

definition TrimSuffix :: "string \<Rightarrow> string \<Rightarrow> string" where
  "TrimSuffix s p =
     (if length p \<le> length s \<and> drop (length s - length p) s = p
      then take (length s - length p) s else s)"

fun Index :: "string \<Rightarrow> string \<Rightarrow> nat option" where
  "Index [] sub = (if sub = [] then Some 0 else None)"
| "Index (c # s) sub =
     (if HasPrefix (c # s) sub then Some 0 else map_option Suc (Index s sub))"

lemma HasPrefix_length: "HasPrefix s p \<Longrightarrow> length p \<le> length s"
  unfolding HasPrefix_def by (metis length_take min.cobounded1)

lemma Index_bound: "Index s sub = Some i \<Longrightarrow> i + length sub \<le> length s"
  by (induction s sub arbitrary: i rule: Index.induct)
    (auto split: if_splits dest!: HasPrefix_length)

text \<open>
  \<open>strings.Count\<close> of non-overlapping occurrences; every caller in the model passes a non-empty
  \<open>sub\<close>.
\<close>

function Count :: "string \<Rightarrow> string \<Rightarrow> nat" where
  "Count s sub =
     (if sub = [] then Suc (length s)
      else case Index s sub of
             None \<Rightarrow> 0
           | Some i \<Rightarrow> Suc (Count (drop (i + length sub) s) sub))"
  by pat_completeness auto
termination
proof (relation "measure (\<lambda>(s, _). length s)", simp)
  fix s sub i
  assume "sub \<noteq> ([] :: string)" and "Index s sub = Some i"
  then have "0 < length sub" "i + length sub \<le> length s"
    using Index_bound by simp_all
  then show "((drop (i + length sub) s, sub), s, sub) \<in> measure (\<lambda>(s, _). length s)"
    by (simp del: length_greater_0_conv)
qed

declare Count.simps [simp del]

text \<open>\<open>strings.Replace(s, old, new, 1)\<close> for a non-empty \<open>old\<close>.\<close>

definition Replace1 :: "string \<Rightarrow> string \<Rightarrow> string \<Rightarrow> string" where
  "Replace1 s old new =
     (case Index s old of
        None \<Rightarrow> s
      | Some i \<Rightarrow> take i s @ new @ drop (i + length old) s)"

text \<open>\<open>strings.Split\<close> and \<open>strings.SplitN\<close> with a one-byte separator.\<close>

fun Split :: "string \<Rightarrow> char \<Rightarrow> string list" where
  "Split [] c = [[]]"
| "Split (x # xs) c =
     (if x = c then [] # Split xs c
      else case Split xs c of [] \<Rightarrow> [[x]] | l # ls \<Rightarrow> (x # l) # ls)"

fun Join :: "string list \<Rightarrow> string \<Rightarrow> string" where
  "Join [] sep = []"
| "Join [x] sep = x"
| "Join (x # y # ys) sep = x @ sep @ Join (y # ys) sep"

definition SplitN :: "string \<Rightarrow> char \<Rightarrow> nat \<Rightarrow> string list" where
  "SplitN s c n =
     (let parts = Split s c in
      if n = 0 then []
      else if length parts \<le> n then parts
      else take (n - 1) parts @ [Join (drop (n - 1) parts) [c]])"

text \<open>
  \<open>strings.TrimSpace\<close> removes the code points of Unicode's White\_Space property at both
  ends; \<open>goSpaces\<close> lists their UTF-8 encodings.
\<close>

definition goSpaces :: "string list" where
  "goSpaces =
     map (\<lambda>b. [char_of b]) [9, 10, 11, 12, 13, 32 :: nat]
     @ map (\<lambda>b. [char_of (194 :: nat), char_of b]) [133, 160 :: nat]
     @ [[char_of (225 :: nat), char_of (154 :: nat), char_of (128 :: nat)]]
     @ map (\<lambda>b. [char_of (226 :: nat), char_of (128 :: nat), char_of b])
         [128, 129, 130, 131, 132, 133, 134, 135, 136, 137, 138, 168, 169, 175 :: nat]
     @ [[char_of (226 :: nat), char_of (129 :: nat), char_of (159 :: nat)],
        [char_of (227 :: nat), char_of (128 :: nat), char_of (128 :: nat)]]"

definition leadingWith :: "string list \<Rightarrow> string \<Rightarrow> string option" where
  "leadingWith ws s = find (\<lambda>w. w \<noteq> [] \<and> HasPrefix s w) ws"

function trimLeft :: "string list \<Rightarrow> string \<Rightarrow> string" where
  "trimLeft ws s =
     (case leadingWith ws s of
        None \<Rightarrow> s
      | Some w \<Rightarrow> trimLeft ws (drop (length w) s))"
  by pat_completeness auto
termination
proof (relation "measure (\<lambda>(_, s). length s)", simp)
  fix ws s w
  assume "leadingWith ws s = Some w"
  then have "0 < length w" and "length w \<le> length s"
    by (auto simp: leadingWith_def find_Some_iff dest: HasPrefix_length)
  then show "((ws, drop (length w) s), ws, s) \<in> measure (\<lambda>(_, s). length s)"
    by (simp del: length_greater_0_conv)
qed

declare trimLeft.simps [simp del]

definition TrimSpace :: "string \<Rightarrow> string" where
  "TrimSpace s = rev (trimLeft (map rev goSpaces) (rev (trimLeft goSpaces s)))"

section \<open>Package strconv and the verb \<open>%d\<close>\<close>

definition digit :: "nat \<Rightarrow> char" where
  "digit d = char_of (48 + d)"

fun natDigits :: "nat \<Rightarrow> string" where
  "natDigits n = (if n < 10 then [digit n] else natDigits (n div 10) @ [digit (n mod 10)])"

declare natDigits.simps [simp del]

definition Itoa :: "int \<Rightarrow> string" where
  "Itoa i = (if i < 0 then CHR ''-'' # natDigits (nat (- i)) else natDigits (nat i))"

lemma natDigits_mono: "n \<le> m \<Longrightarrow> length (natDigits n) \<le> length (natDigits m)"
proof (induction m arbitrary: n rule: natDigits.induct)
  case (1 m)
  show ?case
  proof (cases "n < 10")
    case True
    then show ?thesis
      by (subst natDigits.simps, subst (2) natDigits.simps) auto
  next
    case False
    then have "\<not> m < 10" and "n div 10 \<le> m div 10"
      using "1.prems" by (auto intro: div_le_mono)
    then show ?thesis
      using "1.IH" False by (subst natDigits.simps, subst (2) natDigits.simps) simp
  qed
qed

lemma Itoa_length_mono: "n \<le> m \<Longrightarrow> length (Itoa (int n)) \<le> length (Itoa (int m))"
  by (simp add: Itoa_def natDigits_mono)

definition isDigit :: "char \<Rightarrow> bool" where
  "isDigit c = (48 \<le> (of_char c :: nat) \<and> (of_char c :: nat) \<le> 57)"

definition digitsVal :: "string \<Rightarrow> nat" where
  "digitsVal s = foldl (\<lambda>acc c. 10 * acc + ((of_char c :: nat) - 48)) 0 s"

text \<open>
  \<open>strconv.Atoi\<close>: an optional sign and one or more decimal digits, in the range of a 64-bit
  signed integer; anything else is an error (\<^const>\<open>None\<close>).
\<close>

definition Atoi :: "string \<Rightarrow> int option" where
  "Atoi s =
     (let (neg, ds) = (case s of
          [] \<Rightarrow> (False, [])
        | c # r \<Rightarrow> if c = CHR ''-'' then (True, r) else if c = CHR ''+'' then (False, r)
                 else (False, s));
          v = (if neg then - int (digitsVal ds) else int (digitsVal ds))
      in if ds = [] \<or> \<not> list_all isDigit ds then None
         else if v < - (2 ^ 63) \<or> 2 ^ 63 \<le> v then None
         else Some v)"

text \<open>An equation for \<open>Atoi\<close> that computes on integers.\<close>

definition digitsInt :: "string \<Rightarrow> int" where
  "digitsInt s = foldl (\<lambda>acc c. 10 * acc + (of_char c - 48)) 0 s"

lemma int_digitsVal: "list_all isDigit s \<Longrightarrow> int (digitsVal s) = digitsInt s"
proof (induction s rule: rev_induct)
  case (snoc c s)
  then have "int (of_char c - 48 :: nat) = of_char c - 48"
    by (simp add: isDigit_def of_nat_diff of_nat_of_char)
  then show ?case
    using snoc by (simp add: digitsVal_def digitsInt_def)
qed (simp add: digitsVal_def digitsInt_def)

lemma Atoi_code [code]:
  "Atoi s =
     (let (neg, ds) = (case s of
          [] \<Rightarrow> (False, [])
        | c # r \<Rightarrow> if c = CHR ''-'' then (True, r) else if c = CHR ''+'' then (False, r)
                 else (False, s))
      in if ds = [] \<or> \<not> list_all isDigit ds then None
         else let v = (if neg then - digitsInt ds else digitsInt ds)
              in if v < - (2 ^ 63) \<or> 2 ^ 63 \<le> v then None else Some v)"
  unfolding Atoi_def Let_def by (auto simp: int_digitsVal split: prod.splits)

lemma of_char_digit: "d < 10 \<Longrightarrow> (of_char (digit d) :: nat) = 48 + d"
  by (simp add: digit_def)

lemma isDigit_digit [simp]: "d < 10 \<Longrightarrow> isDigit (digit d)"
  by (simp add: isDigit_def of_char_digit)

lemma natDigits_isDigit: "list_all isDigit (natDigits n)"
  by (induction n rule: natDigits.induct) (subst natDigits.simps, auto)

lemma natDigits_not_Nil [simp]: "natDigits n \<noteq> []"
  by (subst natDigits.simps) simp

lemma digitsVal_natDigits [simp]: "digitsVal (natDigits n) = n"
proof (induction n rule: natDigits.induct)
  case (1 n)
  then show ?case
    by (subst natDigits.simps) (auto simp: digitsVal_def of_char_digit)
qed

lemma natDigits_inj [simp]: "natDigits m = natDigits n \<longleftrightarrow> m = n"
  by (metis digitsVal_natDigits)

text \<open>A decimal number and what follows a non-digit separator are read back uniquely.\<close>

lemma digits_separated:
  assumes "list_all isDigit xs" "list_all isDigit ys" "\<not> isDigit c" "xs @ c # s = ys @ c # t"
  shows "xs = ys \<and> s = t"
  using assms
proof (induction xs arbitrary: ys)
  case Nil
  then show ?case by (cases ys) auto
next
  case (Cons x xs)
  then show ?case by (cases ys) auto
qed

lemma Atoi_natDigits: "n < 2 ^ 63 \<Longrightarrow> Atoi (natDigits n) = Some (int n)"
proof -
  assume n: "n < 2 ^ 63"
  obtain c r where cr: "natDigits n = c # r"
    by (cases "natDigits n") auto
  then have "isDigit c"
    using natDigits_isDigit [of n] by simp
  then have "c \<noteq> CHR ''-''" "c \<noteq> CHR ''+''"
    by (auto simp: isDigit_def)
  then show ?thesis
    using n natDigits_isDigit [of n] by (simp add: Atoi_def cr digitsVal_natDigits [of n, unfolded cr])
qed

section \<open>Package unicode/utf8\<close>

text \<open>\<open>utf8.RuneStart\<close>: the top two bits of the byte are not \<open>10\<close>.\<close>

definition RuneStart :: "char \<Rightarrow> bool" where
  "RuneStart b = ((of_char b :: nat) div 64 \<noteq> 2)"

section \<open>Machine integers\<close>

text \<open>Go's \<open>int\<close> and \<open>int64\<close> on a 64-bit platform: arithmetic wraps to two's complement.\<close>

definition MaxInt :: int where "MaxInt = 2 ^ 63 - 1"
definition MinInt :: int where "MinInt = - (2 ^ 63)"

definition wrap64 :: "int \<Rightarrow> int" where
  "wrap64 x = (x + 2 ^ 63) mod 2 ^ 64 - 2 ^ 63"

definition isInt64 :: "int \<Rightarrow> bool" where
  "isInt64 x = (MinInt \<le> x \<and> x \<le> MaxInt)"

lemma wrap64_id: "isInt64 x \<Longrightarrow> wrap64 x = x"
  by (simp add: isInt64_def wrap64_def MaxInt_def MinInt_def)

lemma isInt64_wrap64 [simp]: "isInt64 (wrap64 x)"
proof -
  have "0 \<le> (x + 2 ^ 63) mod 2 ^ 64" "(x + 2 ^ 63) mod 2 ^ 64 < 2 ^ 64"
    by (rule pos_mod_sign pos_mod_bound; simp)+
  then show ?thesis
    by (simp add: isInt64_def wrap64_def MaxInt_def MinInt_def)
qed

end
