(* ===== verification/Messages.thy ===== *)
theory Messages
  imports Go_Prelude
begin

text \<open>
  The shared conversation types of \<open>types/messages.go\<close>, the thinking-block filter of
  \<open>types/thinking.go\<close> and the wire view of \<open>types/toolresultwire.go\<close>.

  A nil \<open>json.RawMessage\<close> and an empty one are the empty string, which every modelled function
  treats alike. \<open>ReplayFields\<close>, a map whose values are only summed over, is an association
  list. The JSON codec that \<open>reencode\<close> and \<open>searchResultWireView\<close> call is the argument
  \<open>reenc\<close>: given a kind and a payload it returns the lean payload, or \<^const>\<open>None\<close> when
  the payload does not decode.
\<close>

record ContentBlock =
  Type :: string
  Text :: string
  ID :: string
  Name :: string
  Input :: string
  ToolUseID :: string
  Content :: string
  IsError :: bool
  ThoughtSignature :: string
  ToolReferences :: "string list"
  Structured :: string
  Kind :: string
  Origin :: string

record Message =
  Role :: string
  MContent :: "ContentBlock list"
  Synthetic :: bool
  MOrigin :: string
  ReplayFields :: "(string \<times> string) list"

text \<open>Go's zero value of a content block, for composite literals.\<close>

definition zeroBlock :: ContentBlock where
  "zeroBlock = \<lparr>Type = [], Text = [], ID = [], Name = [], Input = [], ToolUseID = [],
     Content = [], IsError = False, ThoughtSignature = [], ToolReferences = [],
     Structured = [], Kind = [], Origin = []\<rparr>"

definition textBlock :: "string \<Rightarrow> ContentBlock" where
  "textBlock t = zeroBlock\<lparr>Type := ''text'', Text := t\<rparr>"

text \<open>Literals for examples.\<close>

definition toolUseBlock :: "string \<Rightarrow> string \<Rightarrow> ContentBlock" where
  "toolUseBlock i n = zeroBlock\<lparr>Type := ''tool_use'', ID := i, Name := n\<rparr>"

definition toolResultBlock :: "string \<Rightarrow> string \<Rightarrow> ContentBlock" where
  "toolResultBlock i c = zeroBlock\<lparr>Type := ''tool_result'', ToolUseID := i, Content := c\<rparr>"

definition mkMessage :: "string \<Rightarrow> ContentBlock list \<Rightarrow> Message" where
  "mkMessage r bs = \<lparr>Role = r, MContent = bs, Synthetic = False, MOrigin = [], ReplayFields = []\<rparr>"

lemmas message_literals = zeroBlock_def textBlock_def toolUseBlock_def toolResultBlock_def mkMessage_def

section \<open>Thinking blocks\<close>

definition IsThinkingBlock :: "ContentBlock \<Rightarrow> bool" where
  "IsThinkingBlock b = (Type b = ''thinking'' \<or> Type b = ''redacted_thinking'')"

fun containsThinking :: "ContentBlock list \<Rightarrow> bool" where
  "containsThinking [] = False"
| "containsThinking (b # bs) = (if IsThinkingBlock b then True else containsThinking bs)"

text \<open>
  The loop of \<open>StripThinkingBlocks\<close>: \<open>out\<close> is nil until the first message with a thinking
  block, from then on the messages copied so far.
\<close>

fun stripLoop :: "Message list option \<Rightarrow> Message list \<Rightarrow> Message list \<Rightarrow> Message list option" where
  "stripLoop out done [] = out"
| "stripLoop out done (msg # rest) =
     (if \<not> containsThinking (MContent msg)
      then stripLoop (map_option (\<lambda>o'. o' @ [msg]) out) (done @ [msg]) rest
      else let o' = (case out of None \<Rightarrow> done | Some o' \<Rightarrow> o');
               kept = filter (\<lambda>b. \<not> IsThinkingBlock b) (MContent msg)
           in stripLoop (Some (o' @ [msg\<lparr>MContent := kept\<rparr>])) (done @ [msg]) rest)"

definition StripThinkingBlocks :: "Message list \<Rightarrow> Message list" where
  "StripThinkingBlocks messages =
     (case stripLoop None [] messages of None \<Rightarrow> messages | Some out \<Rightarrow> out)"

section \<open>The wire view of a tool result\<close>

definition builtinKinds :: "string list" where
  "builtinKinds = [''file_excerpt'', ''search_result'', ''find_result'', ''command_result'',
     ''command_output_chunk'', ''git_status'', ''git_changed_files'', ''git_diff'', ''git_show'']"

definition ToolResultWireEnvelope ::
  "(string \<Rightarrow> string \<Rightarrow> string option) \<Rightarrow> ContentBlock \<Rightarrow> string" where
  "ToolResultWireEnvelope reenc b =
     (if Structured b = [] \<or> Structured b = Content b then []
      else let trimmed = TrimSpace (Structured b) in
        if trimmed = [] \<or> hd trimmed \<noteq> CHR ''{'' then Structured b
        else if Kind b \<in> set builtinKinds
        then (case reenc (Kind b) (Structured b) of
                None \<Rightarrow> Structured b
              | Some lean \<Rightarrow> lean)
        else Structured b)"

section \<open>Well-formed histories\<close>

text \<open>
  What every provider requires of a request: the history opens with a user message that carries
  no tool result, roles alternate, and the results in a message answer exactly the calls of the
  assistant message before it. A trailing assistant message may have open calls.
\<close>

definition toolUseIDs :: "Message \<Rightarrow> string list" where
  "toolUseIDs m = map ID (filter (\<lambda>b. Type b = ''tool_use'') (MContent m))"

definition toolResultIDs :: "Message \<Rightarrow> string list" where
  "toolResultIDs m = map ToolUseID (filter (\<lambda>b. Type b = ''tool_result'') (MContent m))"

definition answers :: "Message \<Rightarrow> Message \<Rightarrow> bool" where
  "answers p m =
     (if Role p = ''assistant''
      then Role m = ''user'' \<and> set (toolResultIDs m) = set (toolUseIDs p)
      else Role m = ''assistant'' \<and> toolResultIDs m = [])"

fun exchanges :: "Message \<Rightarrow> Message list \<Rightarrow> bool" where
  "exchanges p [] = True"
| "exchanges p (m # ms) = (answers p m \<and> exchanges m ms)"

fun wf_history :: "Message list \<Rightarrow> bool" where
  "wf_history [] = True"
| "wf_history (m # ms) = (Role m = ''user'' \<and> toolResultIDs m = [] \<and> exchanges m ms)"

lemma exchanges_append:
  "exchanges p (xs @ ys) = (exchanges p xs \<and> exchanges (last (p # xs)) ys)"
  by (induction xs arbitrary: p) auto

lemma exchanges_drop:
  assumes "exchanges p ms" "k < length ms"
  shows "answers (last (p # take k ms)) (ms ! k) \<and> exchanges (ms ! k) (drop (Suc k) ms)"
proof -
  have "ms = take k ms @ ms ! k # drop (Suc k) ms"
    using assms(2) by (rule id_take_nth_drop)
  then have "exchanges p (take k ms @ ms ! k # drop (Suc k) ms)"
    using assms(1) by metis
  then show ?thesis
    unfolding exchanges_append by auto
qed

text \<open>
  A history whose task is followed by the part of a well-formed history from one of its assistant
  messages on is well formed: the pairing argument behind every compaction that drops exchanges.
\<close>

lemma wf_history_pin:
  assumes wf: "wf_history ms" and ct: "0 < ct" "ct < length ms"
    and role: "Role (ms ! ct) = ''assistant''"
  shows "wf_history (ms ! 0 # drop ct ms)"
proof -
  obtain m ms' where ms: "ms = m # ms'"
    using ct by (cases ms) auto
  obtain k where k: "ct = Suc k" "k < length ms'"
    using ct ms by (cases ct) auto
  let ?a = "ms' ! k"
  have "answers (last (m # take k ms')) ?a" "exchanges ?a (drop (Suc k) ms')"
    using exchanges_drop [of m ms' k] wf k(2) by (auto simp: ms)
  moreover from this(1) role have "toolResultIDs ?a = []" "Role ?a = ''assistant''"
    by (auto simp: answers_def ms k split: if_splits)
  moreover have "drop ct ms = ?a # drop (Suc k) ms'"
    using k by (simp add: ms Cons_nth_drop_Suc)
  ultimately show ?thesis
    using wf by (auto simp: ms answers_def)
qed

section \<open>Removing thinking blocks\<close>

definition withoutThinking :: "Message \<Rightarrow> Message" where
  "withoutThinking m = m\<lparr>MContent := filter (\<lambda>b. \<not> IsThinkingBlock b) (MContent m)\<rparr>"

lemma containsThinking_iff: "containsThinking bs = (\<exists>b \<in> set bs. IsThinkingBlock b)"
  by (induction bs) auto

lemma withoutThinking_id: "\<not> containsThinking (MContent m) \<Longrightarrow> withoutThinking m = m"
  by (auto simp: withoutThinking_def containsThinking_iff filter_id_conv)

lemma stripLoop_spec:
  "(out = None \<longrightarrow> map withoutThinking done = done) \<Longrightarrow>
   (\<forall>o'. out = Some o' \<longrightarrow> o' = map withoutThinking done) \<Longrightarrow>
   (case stripLoop out done rest of None \<Rightarrow> done @ rest | Some o' \<Rightarrow> o')
     = map withoutThinking (done @ rest)"
proof (induction rest arbitrary: out "done")
  case Nil
  then show ?case by (cases out) auto
next
  case (Cons m rest)
  show ?case
  proof (cases "containsThinking (MContent m)")
    case True
    let ?o = "case out of None \<Rightarrow> done | Some o' \<Rightarrow> o'"
    have "?o = map withoutThinking done"
      using Cons.prems by (cases out) auto
    then show ?thesis
      using True Cons.IH [of "Some (?o @ [withoutThinking m])" "done @ [m]"]
      by (simp add: Let_def withoutThinking_def cong: option.case_cong)
  next
    case False
    then show ?thesis
      using Cons.prems Cons.IH [of "map_option (\<lambda>o'. o' @ [m]) out" "done @ [m]"]
      by (cases out) (simp_all add: withoutThinking_id cong: option.case_cong)
  qed
qed

lemma StripThinkingBlocks_eq: "StripThinkingBlocks messages = map withoutThinking messages"
  using stripLoop_spec [of None "[]" messages] by (simp add: StripThinkingBlocks_def cong: option.case_cong)

lemma toolIDs_withoutThinking [simp]:
  "toolUseIDs (withoutThinking m) = toolUseIDs m"
  "toolResultIDs (withoutThinking m) = toolResultIDs m"
  "Role (withoutThinking m) = Role m"
proof -
  have "filter (\<lambda>b. Type b = t) (filter (\<lambda>b. \<not> IsThinkingBlock b) bs) = filter (\<lambda>b. Type b = t) bs"
    if "t = ''tool_use'' \<or> t = ''tool_result''" for t bs
    using that by (induction bs) (auto simp: IsThinkingBlock_def)
  then show "toolUseIDs (withoutThinking m) = toolUseIDs m"
    "toolResultIDs (withoutThinking m) = toolResultIDs m"
    by (simp_all add: toolUseIDs_def toolResultIDs_def withoutThinking_def)
qed (simp add: withoutThinking_def)

lemma exchanges_map_same:
  assumes "\<And>m. Role (f m) = Role m" "\<And>m. toolUseIDs (f m) = toolUseIDs m"
    "\<And>m. toolResultIDs (f m) = toolResultIDs m"
  shows "exchanges (f p) (map f ms) = exchanges p ms"
  by (induction ms arbitrary: p) (auto simp: answers_def assms)

lemma wf_history_withoutThinking: "wf_history (map withoutThinking ms) = wf_history ms"
  by (cases ms) (simp_all add: exchanges_map_same)

end
