(* ===== verification/Context_Base.thy ===== *)
theory Context_Base
  imports Messages
begin

text \<open>
  The shared part of package \<open>context\<close>: the budget and event types of \<open>context.go\<close>, the
  exchange-boundary helpers of \<open>pairing.go\<close>, the token estimates of
  \<open>slidingwindow.go\<close> and \<open>FitLimit\<close> of \<open>fit.go\<close>. The interface locale
  \<open>context_strategy\<close> states what the loop relies on in every strategy.
\<close>

record TokenBudget =
  MaxTokens :: int
  CurrentTokens :: int
  ReserveForResponse :: int

record CompactionEvent =
  Strategy :: string
  MessagesBefore :: int
  MessagesAfter :: int
  TokensBefore :: int
  TokensAfter :: int
  ToolResultsCleared :: int
  Warnings :: "string list"

section \<open>Exchange boundaries (pairing.go)\<close>

fun lastExchangeLoop :: "Message list \<Rightarrow> nat \<Rightarrow> nat" where
  "lastExchangeLoop messages 0 = 0"
| "lastExchangeLoop messages (Suc i) =
     (if Role (messages ! Suc i) = ''assistant'' then Suc i else lastExchangeLoop messages i)"

definition lastExchangeStart :: "Message list \<Rightarrow> nat" where
  "lastExchangeStart messages = lastExchangeLoop messages (length messages - 1)"

function pairSafeCutLoop :: "Message list \<Rightarrow> nat \<Rightarrow> nat \<Rightarrow> nat" where
  "pairSafeCutLoop messages i lst =
     (if i < lst
      then if Role (messages ! i) = ''assistant'' then i
           else pairSafeCutLoop messages (Suc i) lst
      else lst)"
  by pat_completeness auto
termination
  by (relation "measure (\<lambda>(_, i, lst). lst - i)") auto

declare pairSafeCutLoop.simps [simp del]

definition pairSafeCut :: "Message list \<Rightarrow> nat \<Rightarrow> nat" where
  "pairSafeCut messages candidate =
     (let lst = lastExchangeStart messages in
      if lst = 0 then 0 else pairSafeCutLoop messages (max candidate 1) lst)"

definition pinTask :: "Message list \<Rightarrow> nat \<Rightarrow> Message list" where
  "pinTask messages c = messages ! 0 # drop c messages"

definition minimalHistory :: "Message list \<Rightarrow> Message list \<times> bool" where
  "minimalHistory messages =
     (let c = lastExchangeStart messages in
      if c \<le> 1 then (messages, False) else (pinTask messages c, True))"

section \<open>Token estimates (slidingwindow.go, summarise.go)\<close>

definition charsPerToken :: int where "charsPerToken = 4"
definition messageOverheadTokens :: int where "messageOverheadTokens = 4"
definition blockOverheadTokens :: int where "blockOverheadTokens = 3"

lemmas estimate_consts = charsPerToken_def messageOverheadTokens_def blockOverheadTokens_def

definition estimateBlockTokens ::
  "(string \<Rightarrow> string \<Rightarrow> string option) \<Rightarrow> ContentBlock \<Rightarrow> int" where
  "estimateBlockTokens reenc block =
     (let references = sum_list (map len (ToolReferences block)) in
      blockOverheadTokens + sum_list (map (\<lambda>field. field sdiv charsPerToken)
        [len (Text block), len (Content block), len (Input block), len (ID block),
         len (Name block), len (ToolUseID block), len (ToolResultWireEnvelope reenc block),
         references]))"

definition estimateTokens ::
  "(string \<Rightarrow> string \<Rightarrow> string option) \<Rightarrow> Message \<Rightarrow> int" where
  "estimateTokens reenc msg =
     (let tot = messageOverheadTokens + sum_list (map (estimateBlockTokens reenc) (MContent msg));
          replay = sum_list (map (\<lambda>(_, v). len v) (ReplayFields msg))
      in tot + replay sdiv charsPerToken)"

definition estimateHistory ::
  "(string \<Rightarrow> string \<Rightarrow> string option) \<Rightarrow> Message list \<Rightarrow> int" where
  "estimateHistory reenc messages = sum_list (map (estimateTokens reenc) messages)"

section \<open>The fit limit (fit.go)\<close>

definition fitMarginPercent :: int where "fitMarginPercent = 10"

definition FitLimit :: "TokenBudget \<Rightarrow> int" where
  "FitLimit budget =
     (let available = MaxTokens budget - ReserveForResponse budget in
      if available \<le> 0 then available
      else available - (available * fitMarginPercent) sdiv 100)"

section \<open>Lemmas\<close>

lemma sdiv_nonneg [simp]: "0 \<le> (a::int) \<Longrightarrow> 0 \<le> b \<Longrightarrow> a sdiv b = a div b"
  by (auto simp: signed_divide_int_def sgn_if)

lemma lastExchangeLoop_le: "lastExchangeLoop ms n \<le> n"
  by (induction n) auto

lemma lastExchangeLoop_role:
  "lastExchangeLoop ms n \<noteq> 0 \<Longrightarrow> Role (ms ! lastExchangeLoop ms n) = ''assistant''"
  by (induction n) (auto split: if_splits)

lemma lastExchangeLoop_greatest:
  "0 < i \<Longrightarrow> i \<le> n \<Longrightarrow> Role (ms ! i) = ''assistant'' \<Longrightarrow> i \<le> lastExchangeLoop ms n"
  by (induction n) (auto simp: le_Suc_eq)

lemma lastExchangeStart_less: "lastExchangeStart ms \<noteq> 0 \<Longrightarrow> lastExchangeStart ms < length ms"
  unfolding lastExchangeStart_def
  using lastExchangeLoop_le [of ms "length ms - 1"] by (cases ms) auto

lemma lastExchangeStart_role:
  "lastExchangeStart ms \<noteq> 0 \<Longrightarrow> Role (ms ! lastExchangeStart ms) = ''assistant''"
  unfolding lastExchangeStart_def by (rule lastExchangeLoop_role)

lemma lastExchangeStart_greatest:
  "0 < i \<Longrightarrow> i < length ms \<Longrightarrow> Role (ms ! i) = ''assistant'' \<Longrightarrow> i \<le> lastExchangeStart ms"
  unfolding lastExchangeStart_def by (intro lastExchangeLoop_greatest) auto

lemma pairSafeCutLoop_spec:
  "i \<le> lst \<Longrightarrow>
   i \<le> pairSafeCutLoop ms i lst \<and> pairSafeCutLoop ms i lst \<le> lst \<and>
   (pairSafeCutLoop ms i lst < lst \<longrightarrow> Role (ms ! pairSafeCutLoop ms i lst) = ''assistant'') \<and>
   (\<forall>k. i \<le> k \<and> k < pairSafeCutLoop ms i lst \<longrightarrow> Role (ms ! k) \<noteq> ''assistant'')"
proof (induction ms i lst rule: pairSafeCutLoop.induct)
  case (1 ms i lst)
  show ?case
  proof (cases "i < lst \<and> Role (ms ! i) \<noteq> ''assistant''")
    case True
    then have unfold: "pairSafeCutLoop ms i lst = pairSafeCutLoop ms (Suc i) lst"
      by (subst pairSafeCutLoop.simps) simp
    have "k = i \<or> Suc i \<le> k" if "i \<le> k" for k
      using that by auto
    then show ?thesis
      using "1.IH" True unfolding unfold by (auto dest: Suc_leD)
  next
    case False
    then have "pairSafeCutLoop ms i lst = (if i < lst then i else lst)"
      by (subst pairSafeCutLoop.simps) simp
    then show ?thesis
      using False "1.prems" by auto
  qed
qed

lemma pairSafeCut_props:
  assumes "lastExchangeStart ms \<noteq> 0"
  shows "Role (ms ! pairSafeCut ms c) = ''assistant''"
    and "0 < pairSafeCut ms c"
    and "pairSafeCut ms c \<le> lastExchangeStart ms"
    and "pairSafeCut ms c < length ms"
proof -
  let ?l = "lastExchangeStart ms"
  have eq: "pairSafeCut ms c = pairSafeCutLoop ms (max c 1) ?l"
    using assms by (simp add: pairSafeCut_def Let_def)
  have spec: "0 < pairSafeCutLoop ms i ?l \<and> pairSafeCutLoop ms i ?l \<le> ?l
     \<and> Role (ms ! pairSafeCutLoop ms i ?l) = ''assistant''" if "0 < i" for i
  proof (cases "i \<le> ?l")
    case True
    then show ?thesis
      using pairSafeCutLoop_spec [OF True, of ms] that lastExchangeStart_role [OF assms]
      by (cases "pairSafeCutLoop ms i ?l < ?l") auto
  next
    case False
    then have "pairSafeCutLoop ms i ?l = ?l"
      by (subst pairSafeCutLoop.simps) simp
    then show ?thesis
      using assms lastExchangeStart_role [OF assms] by simp
  qed
  show "Role (ms ! pairSafeCut ms c) = ''assistant''" "0 < pairSafeCut ms c"
    "pairSafeCut ms c \<le> ?l"
    using spec [of "max c 1"] unfolding eq by auto
  then show "pairSafeCut ms c < length ms"
    using lastExchangeStart_less [OF assms] by simp
qed

lemma pairSafeCut_nonzeroD: "pairSafeCut ms c \<noteq> 0 \<Longrightarrow> lastExchangeStart ms \<noteq> 0"
  by (auto simp: pairSafeCut_def Let_def split: if_splits)

lemma wf_history_pinTask:
  assumes "wf_history ms" "0 < c" "c < length ms" "Role (ms ! c) = ''assistant''"
  shows "wf_history (pinTask ms c)"
  unfolding pinTask_def using assms by (rule wf_history_pin)

lemma wf_history_minimalHistory: "wf_history ms \<Longrightarrow> wf_history (fst (minimalHistory ms))"
  using lastExchangeStart_less [of ms] lastExchangeStart_role [of ms]
  by (auto simp: minimalHistory_def Let_def intro!: wf_history_pinTask)

lemma hd_pinTask [simp]: "ms \<noteq> [] \<Longrightarrow> hd (pinTask ms c) = hd ms"
  by (simp add: pinTask_def hd_conv_nth)

lemma pinTask_not_Nil [simp]: "pinTask ms c \<noteq> []"
  by (simp add: pinTask_def)

lemma length_pinTask [simp]: "length (pinTask ms c) = Suc (length ms - c)"
  by (simp add: pinTask_def)

lemma hd_minimalHistory: "ms \<noteq> [] \<Longrightarrow> hd (fst (minimalHistory ms)) = hd ms"
  by (simp add: minimalHistory_def Let_def)

lemma length_minimalHistory: "length (fst (minimalHistory ms)) \<le> length ms"
  using lastExchangeStart_less [of ms] by (auto simp: minimalHistory_def Let_def)

lemma sum_len_nonneg [simp]: "0 \<le> sum_list (map len xss)"
  by (induction xss) auto

lemma estimateBlockTokens_nonneg: "0 \<le> estimateBlockTokens reenc b"
  by (simp add: estimateBlockTokens_def Let_def estimate_consts pos_imp_zdiv_nonneg_iff)

lemma estimateTokens_nonneg: "0 \<le> estimateTokens reenc m"
proof -
  have "0 \<le> sum_list (map (\<lambda>(_, v). len v) (ReplayFields m))"
    by (rule sum_list_nonneg) auto
  moreover have "0 \<le> sum_list (map (estimateBlockTokens reenc) (MContent m))"
    by (rule sum_list_nonneg) (auto simp: estimateBlockTokens_nonneg)
  ultimately show ?thesis
    by (simp add: estimateTokens_def Let_def estimate_consts)
qed

lemma sum_estimateTokens_nonneg [simp]: "0 \<le> sum_list (map (estimateTokens reenc) ms)"
  by (rule sum_list_nonneg) (auto simp: estimateTokens_nonneg)

lemma FitLimit_bounds:
  assumes "ReserveForResponse b < MaxTokens b"
  shows "9 * (MaxTokens b - ReserveForResponse b) \<le> 10 * FitLimit b"
    and "10 * FitLimit b < 9 * (MaxTokens b - ReserveForResponse b) + 10"
proof -
  let ?a = "MaxTokens b - ReserveForResponse b"
  have "FitLimit b = ?a - (?a * 10) div 100"
    using assms by (simp add: FitLimit_def Let_def fitMarginPercent_def)
  moreover have "(?a * 10) div 100 = ?a div 10"
    by simp
  ultimately have lim: "FitLimit b = ?a - ?a div 10"
    by simp
  show "9 * ?a \<le> 10 * FitLimit b"
    unfolding lim by presburger
  show "10 * FitLimit b < 9 * ?a + 10"
    unfolding lim by presburger
qed

section \<open>The strategy interface (context.go)\<close>

text \<open>
  \<open>ContextStrategy.Prepare\<close> over a strategy state, which it returns updated, and
  \<open>LastCompaction\<close>. What the loop relies on: a well-formed history stays well formed, the
  message count does not grow, and a non-empty history keeps its task's role and a first message.
\<close>

locale context_strategy =
  fixes prepare :: "'s \<Rightarrow> Message list \<Rightarrow> TokenBudget \<Rightarrow> Message list \<times> 's"
    and lastCompaction :: "'s \<Rightarrow> CompactionEvent option"
    and inv :: "'s \<Rightarrow> bool"
  assumes prepare_wf: "inv s \<Longrightarrow> wf_history ms \<Longrightarrow> wf_history (fst (prepare s ms b))"
    and prepare_length: "inv s \<Longrightarrow> length (fst (prepare s ms b)) \<le> length ms"
    and prepare_nonempty: "inv s \<Longrightarrow> ms \<noteq> [] \<Longrightarrow> fst (prepare s ms b) \<noteq> []"
    and prepare_inv: "inv s \<Longrightarrow> inv (snd (prepare s ms b))"
    and compaction_counts: "inv s \<Longrightarrow> lastCompaction (snd (prepare s ms b)) = Some e \<Longrightarrow>
          MessagesBefore e = len ms \<and> MessagesAfter e = len (fst (prepare s ms b))"
begin

text \<open>A run prepares one request per turn from the history of that turn.\<close>

fun prepareTurns :: "'s \<Rightarrow> (Message list \<times> TokenBudget) list \<Rightarrow> Message list list" where
  "prepareTurns s [] = []"
| "prepareTurns s ((ms, b) # rest) =
     (case prepare s ms b of (r, s') \<Rightarrow> r # prepareTurns s' rest)"

lemma prepareTurns_wf:
  "inv s \<Longrightarrow> \<forall>(ms, b) \<in> set reqs. wf_history ms \<Longrightarrow> \<forall>r \<in> set (prepareTurns s reqs). wf_history r"
proof (induction s reqs rule: prepareTurns.induct)
  case (1 s)
  then show ?case by simp
next
  case (2 s ms b rest)
  obtain r s' where eq: "prepare s ms b = (r, s')"
    by (cases "prepare s ms b")
  have "wf_history r" "inv s'"
    using prepare_wf [of s ms b] prepare_inv [of s ms b] "2.prems" by (auto simp: eq)
  then show ?case
    using "2.IH" [OF eq [symmetric]] "2.prems" by (simp add: eq)
qed

end

end
