(* ===== verification/Sliding_Window.thy ===== *)
theory Sliding_Window
  imports Context_Base
begin

text \<open>
  \<open>SlidingWindowStrategy\<close> of \<open>slidingwindow.go\<close>. The only state of the strategy is its
  last compaction event, so \<open>Prepare\<close> returns the prepared messages with that event. The theory
  shows that the cut is exactly as deep as the budget asks for, that the recorded sizes are the
  sizes of the histories, and interprets the strategy interface.
\<close>

abbreviation event :: "string \<Rightarrow> Message list \<Rightarrow> Message list \<Rightarrow> int \<Rightarrow> int \<Rightarrow> CompactionEvent" where
  "event strategy before after tokensBefore tokensAfter \<equiv>
     \<lparr>Strategy = strategy, MessagesBefore = len before, MessagesAfter = len after,
      TokensBefore = tokensBefore, TokensAfter = tokensAfter, ToolResultsCleared = 0,
      Warnings = []\<rparr>"

function dropLoop ::
  "(string \<Rightarrow> string \<Rightarrow> string option) \<Rightarrow> Message list \<Rightarrow> nat \<Rightarrow> int \<Rightarrow> nat \<Rightarrow> int \<Rightarrow> nat \<times> int" where
  "dropLoop reenc messages lst available candidate tot =
     (if candidate < lst \<and> tot > available
      then dropLoop reenc messages lst available (Suc candidate)
             (tot - estimateTokens reenc (messages ! candidate))
      else (candidate, tot))"
  by pat_completeness auto
termination
  by (relation "measure (\<lambda>(_, _, lst, _, candidate, _). lst - candidate)") auto

declare dropLoop.simps [simp del]

definition SlidingWindowPrepare ::
  "(string \<Rightarrow> string \<Rightarrow> string option) \<Rightarrow> Message list \<Rightarrow> TokenBudget
     \<Rightarrow> Message list \<times> CompactionEvent option" where
  "SlidingWindowPrepare reenc messages budget =
     (let available = FitLimit budget in
      if available \<le> 0
      then let (result, compacted) = minimalHistory messages in
           (result, if compacted
              then Some (event ''sliding-window'' messages result (CurrentTokens budget) 0)
              else None)
      else if CurrentTokens budget \<le> available then (messages, None)
      else
        let lst = lastExchangeStart messages;
            (candidate, tot) = dropLoop reenc messages lst available 1 (CurrentTokens budget);
            c = pairSafeCut messages candidate
        in if c \<le> 1 then (messages, None)
           else
             let tot' = tot - sum_list (map (estimateTokens reenc) (slice messages candidate c));
                 result = pinTask messages c
             in (result,
                 Some (event ''sliding-window'' messages result (CurrentTokens budget) tot')))"

section \<open>The drop loop\<close>

definition droppedTokens ::
  "(string \<Rightarrow> string \<Rightarrow> string option) \<Rightarrow> Message list \<Rightarrow> nat \<Rightarrow> int" where
  "droppedTokens reenc ms c = sum_list (map (estimateTokens reenc) (slice ms 1 c))"

lemma droppedTokens_Suc:
  assumes "1 \<le> c" "c < length ms"
  shows "droppedTokens reenc ms (Suc c) = droppedTokens reenc ms c + estimateTokens reenc (ms ! c)"
  using assms by (simp add: droppedTokens_def slice_Suc)

lemma droppedTokens_append:
  "1 \<le> c \<Longrightarrow> c \<le> d \<Longrightarrow>
   droppedTokens reenc ms d = droppedTokens reenc ms c + sum_list (map (estimateTokens reenc) (slice ms c d))"
  using slice_append [of 1 c d ms] unfolding droppedTokens_def
  by (metis map_append sum_list_append)

lemma dropLoop_spec:
  assumes "1 \<le> c" "c \<le> lst" "lst < length ms" "tot = cur - droppedTokens reenc ms c"
    and "dropLoop reenc ms lst available c tot = (c', tot')"
    and "\<forall>k. 1 \<le> k \<and> k < c \<longrightarrow> cur - droppedTokens reenc ms k > available"
  shows "c \<le> c' \<and> c' \<le> lst \<and> tot' = cur - droppedTokens reenc ms c'
    \<and> (c' < lst \<longrightarrow> tot' \<le> available)
    \<and> (\<forall>k. 1 \<le> k \<and> k < c' \<longrightarrow> cur - droppedTokens reenc ms k > available)"
  using assms
proof (induction reenc ms lst available c tot rule: dropLoop.induct)
  case (1 reenc ms lst available c tot)
  show ?case
  proof (cases "c < lst \<and> tot > available")
    case True
    then have "dropLoop reenc ms lst available (Suc c) (tot - estimateTokens reenc (ms ! c))
        = (c', tot')"
      using "1.prems"(5) by (subst (asm) dropLoop.simps) simp
    moreover have "\<forall>k. 1 \<le> k \<and> k < Suc c \<longrightarrow> cur - droppedTokens reenc ms k > available"
      using "1.prems" True by (auto simp: less_Suc_eq)
    ultimately show ?thesis
      using "1.IH" [OF True] "1.prems" True by (auto simp: droppedTokens_Suc dest: Suc_leD)
  next
    case False
    then have "c' = c" "tot' = tot"
      using "1.prems"(5) by (subst (asm) dropLoop.simps; simp)+
    then show ?thesis
      using False "1.prems" by auto
  qed
qed

lemma estimateHistory_pinTask:
  assumes "0 < c" "c < length ms"
  shows "estimateHistory reenc (pinTask ms c) = estimateHistory reenc ms - droppedTokens reenc ms c"
proof -
  have "take 1 ms = [ms ! 0]"
    using assms by (cases ms) auto
  then have "estimateHistory reenc (take 1 ms @ slice ms 1 c @ drop c ms)
      = estimateTokens reenc (ms ! 0) + droppedTokens reenc ms c + estimateHistory reenc (drop c ms)"
    by (simp add: estimateHistory_def droppedTokens_def)
  moreover have "take 1 ms @ slice ms 1 c @ drop c ms = ms"
    using assms(1) by (intro take_slice_drop) simp
  ultimately have "estimateHistory reenc ms
      = estimateTokens reenc (ms ! 0) + droppedTokens reenc ms c + estimateHistory reenc (drop c ms)"
    by metis
  then show ?thesis
    by (simp add: pinTask_def estimateHistory_def)
qed

text \<open>The two outcomes of the over-budget branch, with everything the caller can rely on.\<close>

lemma SlidingWindowPrepare_cases:
  assumes avail: "0 < FitLimit b" and over: "FitLimit b < CurrentTokens b"
    and "SlidingWindowPrepare reenc ms b = (r, ev)"
  obtains (kept) "r = ms" "ev = None" "lastExchangeStart ms \<le> 1 \<or> Role (ms ! 1) = ''assistant''
      \<and> CurrentTokens b - droppedTokens reenc ms 1 \<le> FitLimit b"
  | (dropped) c where "1 < c" "c < length ms" "Role (ms ! c) = ''assistant''" "r = pinTask ms c"
      "ev = Some (event ''sliding-window'' ms r (CurrentTokens b)
              (CurrentTokens b - droppedTokens reenc ms c))"
      "c = lastExchangeStart ms \<or> CurrentTokens b - droppedTokens reenc ms c \<le> FitLimit b"
      "\<forall>k. 1 \<le> k \<and> k < c \<and> Role (ms ! k) = ''assistant'' \<longrightarrow>
             CurrentTokens b - droppedTokens reenc ms k > FitLimit b"
proof (cases "lastExchangeStart ms = 0")
  case True
  then have "r = ms" "ev = None"
    using assms by (auto simp: SlidingWindowPrepare_def Let_def pairSafeCut_def split: prod.splits)
  then show thesis
    using True kept by simp
next
  case False
  let ?l = "lastExchangeStart ms" and ?cur = "CurrentTokens b" and ?av = "FitLimit b"
  obtain cand tot where loop: "dropLoop reenc ms ?l ?av 1 ?cur = (cand, tot)"
    by force
  have spec: "1 \<le> cand \<and> cand \<le> ?l \<and> tot = ?cur - droppedTokens reenc ms cand
      \<and> (cand < ?l \<longrightarrow> tot \<le> ?av)
      \<and> (\<forall>k. 1 \<le> k \<and> k < cand \<longrightarrow> ?cur - droppedTokens reenc ms k > ?av)"
    by (rule dropLoop_spec [OF _ _ lastExchangeStart_less [OF False] _ loop])
      (use False in \<open>auto simp: droppedTokens_def\<close>)
  define c where "c = pairSafeCut ms cand"
  have cut: "Role (ms ! c) = ''assistant''" "0 < c" "c \<le> ?l" "c < length ms"
    using pairSafeCut_props [OF False, of cand] by (simp_all add: c_def)
  have "c = pairSafeCutLoop ms cand ?l"
    using False spec by (simp add: c_def pairSafeCut_def Let_def max_absorb1)
  then have between: "cand \<le> c" "\<forall>k. cand \<le> k \<and> k < c \<longrightarrow> Role (ms ! k) \<noteq> ''assistant''"
    using pairSafeCutLoop_spec [of cand ?l ms] spec by auto
  have mono: "droppedTokens reenc ms cand \<le> droppedTokens reenc ms c"
    using between(1) spec droppedTokens_append [of cand c reenc ms]
    by simp
  have fits: "c = ?l \<or> ?cur - droppedTokens reenc ms c \<le> ?av"
    using spec mono cut(3) between(1) by fastforce
  show thesis
  proof (cases "c \<le> 1")
    case True
    then have "r = ms" "ev = None"
      using assms loop by (auto simp: SlidingWindowPrepare_def Let_def c_def)
    moreover have "c = 1"
      using True cut(2) by simp
    ultimately show thesis
      using kept fits cut(1) by auto
  next
    case False
    then have "(r, ev) = (pinTask ms c, Some (event ''sliding-window'' ms (pinTask ms c) ?cur
        (tot - sum_list (map (estimateTokens reenc) (slice ms cand c)))))"
      using assms loop by (auto simp: SlidingWindowPrepare_def Let_def c_def)
    moreover have "tot - sum_list (map (estimateTokens reenc) (slice ms cand c))
        = ?cur - droppedTokens reenc ms c"
      using spec between(1) droppedTokens_append [of cand c reenc ms] by simp
    ultimately show thesis
      using dropped [of c] False cut fits spec between(2) by (metis not_le_imp_less prod.inject)
  qed
qed

section \<open>The strategy interface\<close>

lemma SlidingWindowPrepare_wf:
  assumes "wf_history ms"
  shows "wf_history (fst (SlidingWindowPrepare reenc ms b))"
proof (cases "0 < FitLimit b \<and> FitLimit b < CurrentTokens b")
  case True
  obtain r ev where eq: "SlidingWindowPrepare reenc ms b = (r, ev)"
    by force
  show ?thesis
    by (rule SlidingWindowPrepare_cases [of b reenc ms r ev])
      (use True assms eq in \<open>auto intro: wf_history_pinTask\<close>)
next
  case False
  then show ?thesis
    using assms wf_history_minimalHistory [OF assms]
    by (auto simp: SlidingWindowPrepare_def Let_def split: prod.splits)
qed

lemma SlidingWindowPrepare_counts:
  assumes "SlidingWindowPrepare reenc ms b = (r, ev)"
  shows "length r \<le> length ms \<and> (ms \<noteq> [] \<longrightarrow> r \<noteq> [] \<and> hd r = hd ms)
    \<and> (\<forall>e. ev = Some e \<longrightarrow> MessagesBefore e = len ms \<and> MessagesAfter e = len r)"
proof (cases "0 < FitLimit b \<and> FitLimit b < CurrentTokens b")
  case True
  show ?thesis
    by (rule SlidingWindowPrepare_cases [of b reenc ms r ev]) (use True assms in auto)
next
  case False
  moreover have "length (fst (minimalHistory ms)) \<le> length ms"
    by (rule length_minimalHistory)
  moreover have "ms \<noteq> [] \<longrightarrow> fst (minimalHistory ms) \<noteq> [] \<and> hd (fst (minimalHistory ms)) = hd ms"
    by (auto simp: minimalHistory_def Let_def pinTask_def hd_conv_nth)
  ultimately show ?thesis
    using assms by (auto simp: SlidingWindowPrepare_def Let_def split: prod.splits if_splits)
qed

lemma SlidingWindowPrepare_suffix:
  "suffix (drop (lastExchangeStart ms) ms) (fst (SlidingWindowPrepare reenc ms b))"
proof (cases "0 < FitLimit b \<and> FitLimit b < CurrentTokens b")
  case True
  obtain r ev where eq: "SlidingWindowPrepare reenc ms b = (r, ev)"
    by force
  have deeper: "suffix (drop (lastExchangeStart ms) ms) (drop c ms)" if "c \<le> lastExchangeStart ms" for c
    using that by (metis le_add_diff_inverse2 drop_drop suffix_drop)
  show ?thesis
  proof (rule SlidingWindowPrepare_cases [of b reenc ms r ev])
    fix c
    assume "1 < c" "c < length ms" "Role (ms ! c) = ''assistant''" "r = pinTask ms c"
    then show ?thesis
      using deeper [of c] lastExchangeStart_greatest [of c ms]
      by (simp add: eq pinTask_def suffix_Cons)
  qed (use True eq in \<open>auto simp: suffix_drop\<close>)
next
  case False
  then show ?thesis
    by (auto simp: SlidingWindowPrepare_def Let_def minimalHistory_def pinTask_def suffix_drop
        suffix_Cons split: prod.splits if_splits)
qed

lemma SlidingWindowPrepare_same_length:
  assumes "length (fst (SlidingWindowPrepare reenc ms b)) = length ms"
  shows "fst (SlidingWindowPrepare reenc ms b) = ms"
proof (cases "0 < FitLimit b \<and> FitLimit b < CurrentTokens b")
  case True
  obtain r ev where eq: "SlidingWindowPrepare reenc ms b = (r, ev)"
    by force
  show ?thesis
    by (rule SlidingWindowPrepare_cases [of b reenc ms r ev]) (use True eq assms in auto)
next
  case False
  then show ?thesis
    using assms lastExchangeStart_less [of ms]
    by (auto simp: SlidingWindowPrepare_def Let_def minimalHistory_def split: prod.splits if_splits)
qed

lemma SlidingWindowPrepare_fits:
  assumes "0 < FitLimit b"
  shows "CurrentTokens b - estimateHistory reenc ms
       + estimateHistory reenc (fst (SlidingWindowPrepare reenc ms b)) \<le> FitLimit b
     \<or> fst (SlidingWindowPrepare reenc ms b) = fst (minimalHistory ms)"
proof (cases "FitLimit b < CurrentTokens b")
  case True
  obtain r ev where eq: "SlidingWindowPrepare reenc ms b = (r, ev)"
    by force
  show ?thesis
  proof (rule SlidingWindowPrepare_cases [OF assms True eq])
    assume "r = ms" "lastExchangeStart ms \<le> 1 \<or> Role (ms ! 1) = ''assistant''
      \<and> CurrentTokens b - droppedTokens reenc ms 1 \<le> FitLimit b"
    then show ?thesis
      using True by (auto simp: eq minimalHistory_def droppedTokens_def)
  next
    fix c
    assume "1 < c" "c < length ms" "r = pinTask ms c"
      "c = lastExchangeStart ms \<or> CurrentTokens b - droppedTokens reenc ms c \<le> FitLimit b"
    then show ?thesis
      using estimateHistory_pinTask [of c ms reenc] by (auto simp: eq minimalHistory_def)
  qed
qed (use assms in \<open>simp add: SlidingWindowPrepare_def Let_def\<close>)

interpretation sliding: context_strategy
  "\<lambda>_ ms b. SlidingWindowPrepare reenc ms b" "\<lambda>ev. ev" "\<lambda>_. True"
  for reenc :: "string \<Rightarrow> string \<Rightarrow> string option"
proof (unfold_locales, goal_cases)
  case (1 s ms b)
  then show ?case by (simp add: SlidingWindowPrepare_wf)
next
  case (2 s ms b)
  then show ?case by (metis SlidingWindowPrepare_counts prod.collapse)
next
  case (3 s ms b)
  then show ?case by (metis SlidingWindowPrepare_counts prod.collapse)
next
  case (4 s ms b)
  then show ?case by simp
next
  case (5 s ms b e)
  then show ?case by (metis SlidingWindowPrepare_counts prod.collapse)
qed

section \<open>Properties\<close>

text \<open>
  The requests a sliding window prepares over a run are well formed whenever the histories are:
  roles alternate and every tool result still follows the message with its call. The strategy
  keeps the task, never adds a message, and keeps the last exchange.
\<close>

theorem sliding_window_requests_wf:
  assumes "\<forall>(ms, b) \<in> set reqs. wf_history ms"
  shows "\<forall>(ms, b) \<in> set reqs. wf_history (fst (SlidingWindowPrepare reenc ms b))
      \<and> length (fst (SlidingWindowPrepare reenc ms b)) \<le> length ms
      \<and> (ms \<noteq> [] \<longrightarrow> hd (fst (SlidingWindowPrepare reenc ms b)) = hd ms)
      \<and> (lastExchangeStart ms \<noteq> 0 \<longrightarrow>
           suffix (drop (lastExchangeStart ms) ms) (fst (SlidingWindowPrepare reenc ms b)))"
proof (clarify, intro conjI impI)
  fix ms b
  assume "(ms, b) \<in> set reqs"
  then show "wf_history (fst (SlidingWindowPrepare reenc ms b))"
    using assms sliding.prepare_wf by auto
  show "length (fst (SlidingWindowPrepare reenc ms b)) \<le> length ms"
    by (rule sliding.prepare_length) simp
  show "hd (fst (SlidingWindowPrepare reenc ms b)) = hd ms" if "ms \<noteq> []"
    using that SlidingWindowPrepare_counts by (metis prod.collapse)
  show "suffix (drop (lastExchangeStart ms) ms) (fst (SlidingWindowPrepare reenc ms b))"
    by (rule SlidingWindowPrepare_suffix)
qed

definition threeExchanges :: "Message list" where
  "threeExchanges =
     [mkMessage ''user'' [textBlock ''task''],
      mkMessage ''assistant'' [toolUseBlock ''t1'' ''read_file''],
      mkMessage ''user'' [toolResultBlock ''t1'' ''one two three four''],
      mkMessage ''assistant'' [toolUseBlock ''t2'' ''read_file''],
      mkMessage ''user'' [toolResultBlock ''t2'' ''five''],
      mkMessage ''assistant'' [textBlock ''finished'']]"

definition tightBudget :: TokenBudget where
  "tightBudget = \<lparr>MaxTokens = 60, CurrentTokens = 62, ReserveForResponse = 0\<rparr>"

theorem sliding_window_requests_wf_witness:
  "length (fst (SlidingWindowPrepare (\<lambda>_ _. None) threeExchanges tightBudget)) = 4
   \<and> wf_history (fst (SlidingWindowPrepare (\<lambda>_ _. None) threeExchanges tightBudget))"
proof -
  have "\<forall>(ms, b) \<in> set [(threeExchanges, tightBudget)]. wf_history ms"
    by code_simp
  from sliding_window_requests_wf [OF this, of "\<lambda>_ _. None"]
  have "wf_history (fst (SlidingWindowPrepare (\<lambda>_ _. None) threeExchanges tightBudget))"
    by simp
  moreover have "length (fst (SlidingWindowPrepare (\<lambda>_ _. None) threeExchanges tightBudget)) = 4"
    by code_simp
  ultimately show ?thesis by simp
qed

text \<open>
  C16: when the window drops exchanges it drops as few as the budget allows. The size it records is
  the size of the history it returns; that size meets the limit unless only the task and the last
  exchange are left; and every shallower cut at an exchange boundary would have exceeded the limit.
\<close>

theorem sliding_window_exact_cut:
  assumes "0 < FitLimit b" "FitLimit b < CurrentTokens b"
    and "SlidingWindowPrepare reenc ms b = (r, Some e)"
  shows "\<exists>c. 1 < c \<and> c < length ms \<and> Role (ms ! c) = ''assistant'' \<and> r = pinTask ms c
     \<and> TokensAfter e = CurrentTokens b - estimateHistory reenc ms + estimateHistory reenc r
     \<and> (TokensAfter e \<le> FitLimit b \<or> c = lastExchangeStart ms)
     \<and> (\<forall>k. 1 \<le> k \<and> k < c \<and> Role (ms ! k) = ''assistant'' \<longrightarrow>
          FitLimit b < CurrentTokens b - estimateHistory reenc ms + estimateHistory reenc (pinTask ms k))"
proof (rule SlidingWindowPrepare_cases [OF assms])
  fix c
  assume c: "1 < c" "c < length ms" "Role (ms ! c) = ''assistant''" "r = pinTask ms c"
    and e: "Some e = Some (event ''sliding-window'' ms r (CurrentTokens b)
              (CurrentTokens b - droppedTokens reenc ms c))"
    and fits: "c = lastExchangeStart ms \<or> CurrentTokens b - droppedTokens reenc ms c \<le> FitLimit b"
    and least: "\<forall>k. 1 \<le> k \<and> k < c \<and> Role (ms ! k) = ''assistant'' \<longrightarrow>
             CurrentTokens b - droppedTokens reenc ms k > FitLimit b"
  have "estimateHistory reenc (pinTask ms k) = estimateHistory reenc ms - droppedTokens reenc ms k"
    if "1 \<le> k" "k \<le> c" for k
    using that c(2) by (intro estimateHistory_pinTask) auto
  then show ?thesis
    using c e fits least by (intro exI [of _ c]) auto
qed simp

theorem sliding_window_exact_cut_witness:
  "\<exists>r e c. SlidingWindowPrepare (\<lambda>_ _. None) threeExchanges tightBudget = (r, Some e)
     \<and> r = pinTask threeExchanges c
     \<and> (TokensAfter e \<le> FitLimit tightBudget \<or> c = lastExchangeStart threeExchanges)"
proof -
  have "snd (SlidingWindowPrepare (\<lambda>_ _. None) threeExchanges tightBudget) \<noteq> None"
    "0 < FitLimit tightBudget" "FitLimit tightBudget < CurrentTokens tightBudget"
    by code_simp+
  then obtain r e where "SlidingWindowPrepare (\<lambda>_ _. None) threeExchanges tightBudget = (r, Some e)"
    by (cases "SlidingWindowPrepare (\<lambda>_ _. None) threeExchanges tightBudget") auto
  then show ?thesis
    using sliding_window_exact_cut [OF \<open>0 < FitLimit tightBudget\<close> \<open>FitLimit tightBudget < CurrentTokens tightBudget\<close>]
    by blast
qed

end
