(* ===== verification/Context_Fit.thy ===== *)
theory Context_Fit
  imports Context_Base
begin

text \<open>
  Truncation of tool results, \<open>fit.go\<close>. \<open>historyView\<close> is the copy-on-write view of a
  history; \<open>resultTruncator\<close>, which embeds it in Go, extends the record. The relation
  \<open>trimmedHistory\<close> says what a view may change: the body of tool results and nothing else. The
  accounting lemmas relate the bytes removed to the truncator's \<open>need\<close>.
\<close>

definition truncationSlackChars :: int where "truncationSlackChars = 8"
definition truncationKeepChars :: int where "truncationKeepChars = 500"

definition truncationMarker :: "int \<Rightarrow> string" where
  "truncationMarker removed =
     [nl] @ ''[...truncated '' @ Itoa removed @ '' bytes...]'' @ [nl]"

section \<open>Cutting one string\<close>

fun headLoop :: "string \<Rightarrow> nat \<Rightarrow> nat" where
  "headLoop content 0 = 0"
| "headLoop content (Suc h) =
     (if \<not> RuneStart (content ! Suc h) then headLoop content h else Suc h)"

function tailLoop :: "string \<Rightarrow> nat \<Rightarrow> nat" where
  "tailLoop content t =
     (if t < length content \<and> \<not> RuneStart (content ! t) then tailLoop content (Suc t) else t)"
  by pat_completeness auto
termination
  by (relation "measure (\<lambda>(content, t). length content - t)") auto

declare tailLoop.simps [simp del]

definition truncateHeadTail :: "string \<Rightarrow> nat \<Rightarrow> string" where
  "truncateHeadTail content keep =
     (if len content \<le> 2 * int keep + len (truncationMarker (len content)) then content
      else let h = headLoop content keep; t = tailLoop content (length content - keep)
           in take h content @ truncationMarker (int (t - h)) @ drop t content)"

section \<open>The copy-on-write view\<close>

record historyView =
  hvMessages :: "Message list"
  hvView :: "Message list option"
  hvCopied :: "nat list"

record resultTruncator = historyView +
  trCut :: int
  trNeed :: int

definition hv_result :: "'a historyView_scheme \<Rightarrow> Message list" where
  "hv_result v = (case hvView v of None \<Rightarrow> hvMessages v | Some vs \<Rightarrow> vs)"

definition hv_current :: "'a historyView_scheme \<Rightarrow> nat \<Rightarrow> Message" where
  "hv_current v i = (case hvView v of Some vs \<Rightarrow> vs ! i | None \<Rightarrow> hvMessages v ! i)"

definition hv_writable :: "nat \<Rightarrow> 'a historyView_scheme \<Rightarrow> 'a historyView_scheme" where
  "hv_writable i v =
     (let v1 = (case hvView v of
                  None \<Rightarrow> v\<lparr>hvView := Some (hvMessages v), hvCopied := []\<rparr>
                | Some _ \<Rightarrow> v)
      in if i \<in> set (hvCopied v1) then v1
         else v1\<lparr>hvView := map_option (\<lambda>vs. vs[i := (vs ! i)\<lparr>MContent := MContent (hvMessages v1 ! i)\<rparr>])
                             (hvView v1),
                 hvCopied := i # hvCopied v1\<rparr>)"

text \<open>Assignment to \<open>content[j]\<close> of the slice \<open>writable(i)\<close> returned.\<close>

definition putBlock :: "nat \<Rightarrow> nat \<Rightarrow> ContentBlock \<Rightarrow> Message list \<Rightarrow> Message list" where
  "putBlock i j b ms = ms[i := (ms ! i)\<lparr>MContent := (MContent (ms ! i))[j := b]\<rparr>]"

definition hv_assign :: "nat \<Rightarrow> nat \<Rightarrow> ContentBlock \<Rightarrow> 'a historyView_scheme \<Rightarrow> 'a historyView_scheme" where
  "hv_assign i j b v = v\<lparr>hvView := map_option (putBlock i j b) (hvView v)\<rparr>"

section \<open>The truncation passes\<close>

text \<open>The body of the two nested loops of \<open>pass\<close> at block \<open>j\<close> of message \<open>i\<close>.\<close>

definition passBlock :: "int \<Rightarrow> nat \<Rightarrow> nat \<Rightarrow> resultTruncator \<Rightarrow> resultTruncator" where
  "passBlock minSize i j t =
     (let block = MContent (hv_current t i) ! j;
          size = len (Content block) + len (Structured block)
      in if Type block \<noteq> ''tool_result'' \<or> size < minSize then t
         else
           let fromContent = trNeed t + truncationSlackChars - len (Structured block);
               keep = (len (Content block) - fromContent
                        - len (truncationMarker (len (Content block)))) sdiv 2;
               truncated = truncateHeadTail (Content block) (nat (max keep 0));
               saved = size - len truncated
           in if saved \<le> truncationSlackChars then t
              else (hv_assign i j (block\<lparr>Content := truncated, Structured := [], Kind := []\<rparr>)
                      (hv_writable i t))
                   \<lparr>trNeed := trNeed t - (saved - truncationSlackChars), trCut := trCut t + 1\<rparr>)"

definition blockPositions :: "Message list \<Rightarrow> (nat \<times> nat) list" where
  "blockPositions ms =
     concat (map (\<lambda>i. map (Pair i) [0..<length (MContent (ms ! i))]) [0..<length ms])"

fun passLoop :: "int \<Rightarrow> (nat \<times> nat) list \<Rightarrow> resultTruncator \<Rightarrow> resultTruncator" where
  "passLoop minSize [] t = t"
| "passLoop minSize ((i, j) # ps) t =
     (if trNeed t \<le> 0 then t else passLoop minSize ps (passBlock minSize i j t))"

definition truncatePass :: "int \<Rightarrow> resultTruncator \<Rightarrow> resultTruncator" where
  "truncatePass minSize t = passLoop minSize (blockPositions (hvMessages t)) t"

definition newTruncator :: "Message list \<Rightarrow> int \<Rightarrow> resultTruncator" where
  "newTruncator ms excess =
     \<lparr>hvMessages = ms, hvView = None, hvCopied = [], trCut = 0, trNeed = excess * 4\<rparr>"

definition runTruncator :: "Message list \<Rightarrow> int \<Rightarrow> resultTruncator" where
  "runTruncator ms excess =
     truncatePass 0 (truncatePass (2 * truncationKeepChars + 1) (newTruncator ms excess))"

definition TruncateToolResults :: "Message list \<Rightarrow> int \<Rightarrow> Message list \<times> int" where
  "TruncateToolResults ms excess =
     (if excess \<le> 0 then (ms, 0)
      else let t = runTruncator ms excess in
        case hvView t of None \<Rightarrow> (ms, 0) | Some vs \<Rightarrow> (vs, trCut t))"

section \<open>What a cut keeps of a string\<close>

lemma headLoop_le: "headLoop s k \<le> k"
  by (induction k) auto

lemma headLoop_boundary: "headLoop s k = 0 \<or> RuneStart (s ! headLoop s k)"
  by (induction k) auto

lemma tailLoop_ge: "t \<le> tailLoop s t"
proof (induction s t rule: tailLoop.induct)
  case (1 s t)
  then show ?case by (subst tailLoop.simps) (auto dest: Suc_leD)
qed

lemma tailLoop_boundary:
  "t \<le> length s \<Longrightarrow> tailLoop s t = length s \<or> tailLoop s t < length s \<and> RuneStart (s ! tailLoop s t)"
proof (induction s t rule: tailLoop.induct)
  case (1 s t)
  then show ?case by (cases "t < length s \<and> \<not> RuneStart (s ! t)") (auto simp: tailLoop.simps [of s t])
qed

lemma length_truncationMarker_mono:
  "n \<le> m \<Longrightarrow> length (truncationMarker (int n)) \<le> length (truncationMarker (int m))"
  by (simp add: truncationMarker_def Itoa_length_mono)

text \<open>A cut keeps a prefix and a suffix on code-point boundaries and is shorter than the input.\<close>

lemma truncateHeadTail_cut:
  assumes "2 * int keep + len (truncationMarker (len s)) < len s"
  obtains h t where "h \<le> keep" "length s - keep \<le> t" "t \<le> length s" "h \<le> t"
    "truncateHeadTail s keep = take h s @ truncationMarker (int (t - h)) @ drop t s"
    "h = 0 \<or> RuneStart (s ! h)" "t = length s \<or> RuneStart (s ! t)"
proof
  let ?h = "headLoop s keep" and ?t = "tailLoop s (length s - keep)"
  show "?h \<le> keep" by (rule headLoop_le)
  show "length s - keep \<le> ?t" by (rule tailLoop_ge)
  show "?t \<le> length s" "?t = length s \<or> RuneStart (s ! ?t)"
    using tailLoop_boundary [of "length s - keep" s] by auto
  show "?h = 0 \<or> RuneStart (s ! ?h)" by (rule headLoop_boundary)
  show "?h \<le> ?t"
    using assms headLoop_le [of s keep] tailLoop_ge [of "length s - keep" s] by linarith
  show "truncateHeadTail s keep = take ?h s @ truncationMarker (int (?t - ?h)) @ drop ?t s"
    using assms by (simp add: truncateHeadTail_def Let_def)
qed

lemma truncateHeadTail_keep:
  "len s \<le> 2 * int keep + len (truncationMarker (len s)) \<Longrightarrow> truncateHeadTail s keep = s"
  by (simp add: truncateHeadTail_def)

lemma truncateHeadTail_length:
  assumes "2 * int keep + len (truncationMarker (len s)) < len s"
  shows "len (truncateHeadTail s keep) \<le> 2 * int keep + len (truncationMarker (len s))"
proof -
  from assms obtain h t where ht: "h \<le> keep" "length s - keep \<le> t" "t \<le> length s" "h \<le> t"
    and eq: "truncateHeadTail s keep = take h s @ truncationMarker (int (t - h)) @ drop t s"
    by (rule truncateHeadTail_cut)
  have "length (truncationMarker (int (t - h))) \<le> length (truncationMarker (len s))"
    using ht by (intro length_truncationMarker_mono) simp
  then show ?thesis
    using ht unfolding eq by (simp add: min_def) linarith
qed

lemma truncateHeadTail_shrinks: "length (truncateHeadTail s keep) \<le> length s"
proof (cases "2 * int keep + len (truncationMarker (len s)) < len s")
  case True
  then show ?thesis
    using truncateHeadTail_length [OF True] by linarith
next
  case False
  then show ?thesis by (simp add: truncateHeadTail_keep)
qed

lemma truncateHeadTail_0:
  "truncateHeadTail s 0 = s \<or> truncateHeadTail s 0 = truncationMarker (len s)"
  by (auto simp: truncateHeadTail_def Let_def tailLoop.simps [of s "length s"])

section \<open>What a view may change\<close>

definition trimmedBlock :: "ContentBlock \<Rightarrow> ContentBlock \<Rightarrow> bool" where
  "trimmedBlock b b' =
     (b' = b \<or> Type b = ''tool_result'' \<and> b' = b\<lparr>Content := Content b', Structured := [], Kind := []\<rparr>)"

definition trimmedMessage :: "Message \<Rightarrow> Message \<Rightarrow> bool" where
  "trimmedMessage m m' =
     (m' = m\<lparr>MContent := MContent m'\<rparr> \<and> list_all2 trimmedBlock (MContent m) (MContent m'))"

abbreviation trimmedHistory :: "Message list \<Rightarrow> Message list \<Rightarrow> bool" where
  "trimmedHistory \<equiv> list_all2 trimmedMessage"

lemma trimmedBlock_refl [simp]: "trimmedBlock b b"
  by (simp add: trimmedBlock_def)

lemma trimmedBlock_trans: "trimmedBlock a b \<Longrightarrow> trimmedBlock b c \<Longrightarrow> trimmedBlock a c"
  unfolding trimmedBlock_def by (cases a; cases b; cases c) auto

lemma trimmedMessage_refl [simp]: "trimmedMessage m m"
  by (simp add: trimmedMessage_def list_all2_refl)

lemma trimmedHistory_refl [simp]: "trimmedHistory ms ms"
  by (simp add: list_all2_refl)

lemma trimmedMessage_role: "trimmedMessage m m' \<Longrightarrow> Role m' = Role m"
  unfolding trimmedMessage_def by (metis Message.select_convs(1) Message.surjective Message.update_convs(2))

lemma trimmedBlock_keeps:
  "trimmedBlock b b' \<Longrightarrow> Type b' = Type b \<and> ID b' = ID b \<and> ToolUseID b' = ToolUseID b"
  unfolding trimmedBlock_def by (cases b; cases b') auto

lemma filter_map_list_all2:
  assumes "list_all2 R xs ys" "\<And>x y. R x y \<Longrightarrow> P y = P x \<and> f y = f x"
  shows "map f (filter P ys) = map f (filter P xs)"
  using assms(1) by (induction rule: list_all2_induct) (auto dest: assms(2))

lemma trimmedMessage_ids:
  assumes "trimmedMessage m m'"
  shows "toolUseIDs m' = toolUseIDs m" "toolResultIDs m' = toolResultIDs m"
  using assms unfolding trimmedMessage_def toolUseIDs_def toolResultIDs_def
  by (auto intro!: filter_map_list_all2 [where R = trimmedBlock] dest: trimmedBlock_keeps)

lemma exchanges_trimmed:
  "trimmedHistory ms ms' \<Longrightarrow> trimmedMessage p p' \<Longrightarrow> exchanges p' ms' = exchanges p ms"
proof (induction arbitrary: p p' rule: list_all2_induct)
  case Nil
  then show ?case by simp
next
  case (Cons m ms m' ms')
  then show ?case
    by (simp add: answers_def trimmedMessage_role trimmedMessage_ids)
qed

lemma wf_history_trimmed: "trimmedHistory ms ms' \<Longrightarrow> wf_history ms' = wf_history ms"
  by (cases ms; cases ms')
    (auto simp: exchanges_trimmed trimmedMessage_role trimmedMessage_ids)

lemma trimmedHistory_putBlock:
  assumes "trimmedHistory ms vs" "i < length vs" "j < length (MContent (vs ! i))"
    and "trimmedBlock (MContent (vs ! i) ! j) b"
  shows "trimmedHistory ms (putBlock i j b vs)"
proof -
  have i: "i < length ms" and m: "trimmedMessage (ms ! i) (vs ! i)"
    using assms(1,2) by (auto simp: list_all2_conv_all_nth)
  then have "trimmedBlock (MContent (ms ! i) ! j) b"
    using assms(3,4) trimmedBlock_trans
    unfolding trimmedMessage_def list_all2_conv_all_nth by (metis (full_types))
  then have "list_all2 trimmedBlock (MContent (ms ! i)) ((MContent (vs ! i))[j := b])"
    using m assms(3) by (auto simp: trimmedMessage_def list_all2_conv_all_nth nth_list_update)
  then have "trimmedMessage (ms ! i) ((vs ! i)\<lparr>MContent := (MContent (vs ! i))[j := b]\<rparr>)"
    using m unfolding trimmedMessage_def
    by (metis Message.select_convs(2) Message.surjective Message.update_convs(2))
  then show ?thesis
    using assms(1,2) by (auto simp: putBlock_def list_all2_conv_all_nth nth_list_update)
qed

section \<open>The view follows the writes\<close>

definition hv_inv :: "'a historyView_scheme \<Rightarrow> bool" where
  "hv_inv v =
     (case hvView v of
        None \<Rightarrow> True
      | Some vs \<Rightarrow> trimmedHistory (hvMessages v) vs
          \<and> (\<forall>i < length vs. i \<notin> set (hvCopied v) \<longrightarrow> vs ! i = hvMessages v ! i))"

lemma hv_inv_truncator [simp]:
  fixes t :: resultTruncator
  shows "hv_inv (t\<lparr>trNeed := n, trCut := c\<rparr>) = hv_inv t"
  by (cases "hvView t") (simp_all add: hv_inv_def)

lemma hv_current_result: "hv_current v i = hv_result v ! i"
  by (simp add: hv_current_def hv_result_def split: option.splits)

lemma hv_inv_trimmed: "hv_inv v \<Longrightarrow> trimmedHistory (hvMessages v) (hv_result v)"
  by (auto simp: hv_inv_def hv_result_def split: option.splits)

lemma hv_inv_length:
  assumes "hv_inv v"
  shows "length (hv_result v) = length (hvMessages v)"
    and "i < length (hvMessages v) \<Longrightarrow>
           length (MContent (hv_result v ! i)) = length (MContent (hvMessages v ! i))"
  using hv_inv_trimmed [OF assms] by (auto simp: list_all2_conv_all_nth trimmedMessage_def)

lemma hv_writable_spec:
  assumes "hv_inv v" "i < length (hvMessages v)"
  shows "hvView (hv_writable i v) = Some (hv_result v)" "i \<in> set (hvCopied (hv_writable i v))"
    "hvMessages (hv_writable i v) = hvMessages v" "hv_inv (hv_writable i v)"
proof -
  have "vs[i := (vs ! i)\<lparr>MContent := MContent (hvMessages v ! i)\<rparr>] = vs"
    if "hvView v = Some vs" "i \<notin> set (hvCopied v)" for vs
    using that assms by (auto simp: hv_inv_def list_all2_lengthD list_update_same_conv)
  then show "hvView (hv_writable i v) = Some (hv_result v)"
    "i \<in> set (hvCopied (hv_writable i v))" "hvMessages (hv_writable i v) = hvMessages v"
    "hv_inv (hv_writable i v)"
    using assms by (auto simp: hv_writable_def hv_result_def hv_inv_def Let_def split: option.splits)
qed

lemma hv_write_spec:
  fixes v :: "'a historyView_scheme"
  assumes inv: "hv_inv v" and i: "i < length (hvMessages v)"
    and j: "j < length (MContent (hv_result v ! i))"
    and b: "trimmedBlock (MContent (hv_result v ! i) ! j) b"
  defines "v' \<equiv> hv_assign i j b (hv_writable i v)"
  shows "hvView v' = Some (putBlock i j b (hv_result v))" "hvMessages v' = hvMessages v"
    "hv_inv v'"
proof -
  note w = hv_writable_spec [OF inv i]
  show view: "hvView v' = Some (putBlock i j b (hv_result v))"
    and msgs: "hvMessages v' = hvMessages v"
    by (simp_all add: v'_def hv_assign_def w)
  have "trimmedHistory (hvMessages v) (putBlock i j b (hv_result v))"
    using hv_inv_trimmed [OF inv] hv_inv_length(1) [OF inv] i j b
    by (intro trimmedHistory_putBlock) auto
  moreover have "putBlock i j b (hv_result v) ! k = hvMessages v ! k"
    if "k < length (hv_result v)" "k \<notin> set (hvCopied (hv_writable i v))" for k
    using that w by (cases "k = i") (auto simp: putBlock_def hv_inv_def)
  ultimately show "hv_inv v'"
    using view msgs by (auto simp: hv_inv_def v'_def hv_assign_def putBlock_def)
qed

section \<open>Sums over blocks\<close>

definition blockSum :: "(ContentBlock \<Rightarrow> int) \<Rightarrow> Message list \<Rightarrow> int" where
  "blockSum w ms = sum_list (map (\<lambda>m. sum_list (map w (MContent m))) ms)"

lemma sum_list_update_int:
  "k < length xs \<Longrightarrow> sum_list (map f (xs[k := x])) = sum_list (map f xs) - f (xs ! k) + (f x :: int)"
proof (induction xs arbitrary: k)
  case (Cons y ys)
  then show ?case by (cases k) auto
qed simp

lemma blockSum_putBlock:
  "i < length ms \<Longrightarrow> j < length (MContent (ms ! i)) \<Longrightarrow>
   blockSum w (putBlock i j b ms) = blockSum w ms - w (MContent (ms ! i) ! j) + w b"
  by (simp add: blockSum_def putBlock_def sum_list_update_int)

definition messageTokens :: "Message \<Rightarrow> int" where
  "messageTokens m = 4 + sum_list (map (\<lambda>(_, v). len v) (ReplayFields m)) div 4"

lemma sum_replay_nonneg [simp]: "0 \<le> sum_list (map (\<lambda>(_, v). len v) fs)"
  by (rule sum_list_nonneg) auto

lemma messageTokens_ge: "4 \<le> messageTokens m"
  by (simp add: messageTokens_def pos_imp_zdiv_nonneg_iff)

lemma estimateTokens_blocks:
  "estimateTokens reenc m = messageTokens m + sum_list (map (estimateBlockTokens reenc) (MContent m))"
  by (simp add: estimateTokens_def Let_def messageTokens_def estimate_consts)

lemma estimateHistory_blocks:
  "estimateHistory reenc ms
     = sum_list (map messageTokens ms) + blockSum (estimateBlockTokens reenc) ms"
  by (simp add: estimateHistory_def estimateTokens_blocks [abs_def] sum_list_addf blockSum_def)

lemma messageTokens_trimmed:
  "trimmedHistory ms vs \<Longrightarrow> sum_list (map messageTokens vs) = sum_list (map messageTokens ms)"
proof (induction rule: list_all2_induct)
  case (Cons m ms m' vs)
  have "ReplayFields m' = ReplayFields m"
    using Cons(1) unfolding trimmedMessage_def by (cases m; cases m') auto
  then show ?case
    using Cons.IH by (simp add: messageTokens_def)
qed simp

section \<open>One block of a pass\<close>

definition bodySize :: "ContentBlock \<Rightarrow> int" where
  "bodySize b = len (Content b) + len (Structured b)"

definition cutBlock :: "nat \<Rightarrow> ContentBlock \<Rightarrow> ContentBlock" where
  "cutBlock keep b = b\<lparr>Content := truncateHeadTail (Content b) keep, Structured := [], Kind := []\<rparr>"

lemma cutBlock_sel [simp]:
  "Content (cutBlock k b) = truncateHeadTail (Content b) k" "Structured (cutBlock k b) = []"
  "Type (cutBlock k b) = Type b"
  by (simp_all add: cutBlock_def)

lemma trimmedBlock_cutBlock: "Type b = ''tool_result'' \<Longrightarrow> trimmedBlock b (cutBlock k b)"
  by (simp add: trimmedBlock_def cutBlock_def)

text \<open>A positive keep means the block alone can meet the need.\<close>

lemma positive_keep_meets_need:
  assumes keep: "keep = (len c - (need + slack - s) - len (truncationMarker (len c))) sdiv 2"
    and pos: "0 < keep"
  shows "need + slack \<le> len c + s - len (truncateHeadTail c (nat keep))"
proof -
  let ?x = "len c - (need + slack - s) - len (truncationMarker (len c))"
  have "0 \<le> ?x"
  proof (rule ccontr)
    assume "\<not> 0 \<le> ?x"
    then have "?x sdiv 2 \<le> 0"
      by (simp add: signed_divide_int_def sgn_if)
    then show False
      using keep pos by linarith
  qed
  then have "keep = ?x div 2"
    using keep by simp
  then have two: "2 * int (nat keep) + len (truncationMarker (len c)) \<le> len c - (need + slack - s)"
    using pos by linarith
  show ?thesis
  proof (cases "len c \<le> 2 * int (nat keep) + len (truncationMarker (len c))")
    case True
    then show ?thesis
      using two by (simp add: truncateHeadTail_keep)
  next
    case False
    then have "len (truncateHeadTail c (nat keep)) \<le> 2 * int (nat keep) + len (truncationMarker (len c))"
      by (intro truncateHeadTail_length) simp
    then show ?thesis
      using two by linarith
  qed
qed

text \<open>A block that truncation can no longer shorten by more than the slack.\<close>

definition fullyCut :: "ContentBlock \<Rightarrow> bool" where
  "fullyCut b =
     (bodySize b - len (truncateHeadTail (Content b) 0) \<le> truncationSlackChars
      \<or> Structured b = [] \<and> (\<exists>n. Content b = truncationMarker n))"

lemma passBlock_cases:
  fixes t :: resultTruncator
  assumes inv: "hv_inv t" and i: "i < length (hvMessages t)"
    and j: "j < length (MContent (hvMessages t ! i))" and need: "0 < trNeed t"
  defines "b \<equiv> MContent (hv_result t ! i) ! j"
  obtains (skip) "passBlock minSize i j t = t"
      "Type b = ''tool_result'' \<Longrightarrow> minSize \<le> bodySize b \<Longrightarrow> fullyCut b"
  | (cut) k where "Type b = ''tool_result''"
      "hvView (passBlock minSize i j t) = Some (putBlock i j (cutBlock k b) (hv_result t))"
      "hvMessages (passBlock minSize i j t) = hvMessages t" "hv_inv (passBlock minSize i j t)"
      "trNeed (passBlock minSize i j t)
         = trNeed t - (bodySize b - bodySize (cutBlock k b) - truncationSlackChars)"
      "trCut (passBlock minSize i j t) = trCut t + 1"
      "0 < trNeed (passBlock minSize i j t) \<Longrightarrow> fullyCut (cutBlock k b)"
proof -
  define keep where "keep = (len (Content b) - (trNeed t + truncationSlackChars - len (Structured b))
       - len (truncationMarker (len (Content b)))) sdiv 2"
  define k where "k = nat (max keep 0)"
  define saved where "saved = bodySize b - len (truncateHeadTail (Content b) k)"
  have unfold: "passBlock minSize i j t =
     (if Type b \<noteq> ''tool_result'' \<or> bodySize b < minSize \<or> saved \<le> truncationSlackChars then t
      else (hv_assign i j (cutBlock k b) (hv_writable i t))
             \<lparr>trNeed := trNeed t - (saved - truncationSlackChars), trCut := trCut t + 1\<rparr>)"
    by (simp add: passBlock_def Let_def hv_current_result saved_def k_def keep_def b_def
        bodySize_def cutBlock_def)
  have meets: "trNeed t + truncationSlackChars \<le> saved" if "0 < keep"
    using positive_keep_meets_need [OF keep_def that] that
    by (simp add: saved_def k_def bodySize_def)
  show thesis
  proof (cases "Type b \<noteq> ''tool_result'' \<or> bodySize b < minSize \<or> saved \<le> truncationSlackChars")
    case True
    moreover have "fullyCut b" if "Type b = ''tool_result''" "minSize \<le> bodySize b"
    proof -
      have "saved \<le> truncationSlackChars"
        using True that by auto
      moreover from this have "k = 0"
        using meets need by (cases "0 < keep") (auto simp: k_def)
      ultimately show ?thesis
        by (simp add: fullyCut_def saved_def)
    qed
    ultimately show thesis
      using skip by (simp add: unfold)
  next
    case False
    then have tr: "Type b = ''tool_result''"
      by simp
    have j': "j < length (MContent (hv_result t ! i))"
      using hv_inv_length(2) [OF inv i] j by simp
    note w = hv_write_spec [OF inv i j' trimmedBlock_cutBlock [of _ k, OF tr [unfolded b_def]], folded b_def]
    have "fullyCut (cutBlock k b)" if "0 < trNeed t - (saved - truncationSlackChars)"
    proof -
      have "k = 0"
        using meets that by (cases "0 < keep") (auto simp: k_def)
      moreover have "truncateHeadTail (Content b) 0 = truncationMarker (len (Content b))"
        if "truncateHeadTail (Content b) 0 \<noteq> Content b"
        using truncateHeadTail_0 [of "Content b"] that by simp
      ultimately show ?thesis
        by (cases "truncateHeadTail (Content b) 0 = Content b")
          (auto simp: fullyCut_def bodySize_def truncationSlackChars_def)
    qed
    with False show thesis
      using w tr by (intro cut [of k]) (simp_all add: unfold saved_def bodySize_def)
  qed
qed

section \<open>Whole passes\<close>

lemma blockPositions_set:
  "set (blockPositions ms) = {(i, j). i < length ms \<and> j < length (MContent (ms ! i))}"
  by (auto simp: blockPositions_def)

lemma passLoop_invariant:
  assumes step: "\<And>t i j. hvMessages t = ms \<Longrightarrow> hv_inv t \<Longrightarrow> P t \<Longrightarrow> 0 < trNeed t \<Longrightarrow> i < length ms \<Longrightarrow>
      j < length (MContent (ms ! i)) \<Longrightarrow> P (passBlock minSize i j t)"
    and "set ps \<subseteq> set (blockPositions ms)" "hvMessages t = ms" "hv_inv t" "P t"
  shows "hvMessages (passLoop minSize ps t) = ms \<and> hv_inv (passLoop minSize ps t) \<and> P (passLoop minSize ps t)"
  using assms(2-)
proof (induction ps arbitrary: t)
  case (Cons p ps)
  obtain i j where p: "p = (i, j)"
    by (cases p)
  show ?case
  proof (cases "trNeed t \<le> 0")
    case False
    have ij: "i < length ms" "j < length (MContent (ms ! i))"
      using Cons.prems(1) by (auto simp: p blockPositions_set)
    have "hvMessages (passBlock minSize i j t) = ms \<and> hv_inv (passBlock minSize i j t)"
      by (rule passBlock_cases [of t i j minSize]) (use Cons.prems ij False in auto)
    moreover have "P (passBlock minSize i j t)"
      using step [of t i j] Cons.prems ij False by simp
    ultimately show ?thesis
      using Cons.IH [of "passBlock minSize i j t"] Cons.prems(1) False by (simp add: p)
  qed (use Cons.prems in \<open>simp add: p\<close>)
qed simp

section \<open>The result of a truncation\<close>

text \<open>
  \<open>need\<close> falls by the bytes removed, less the slack of each cut.
\<close>

definition ledgerOk :: "Message list \<Rightarrow> int \<Rightarrow> resultTruncator \<Rightarrow> bool" where
  "ledgerOk ms n t =
     (trNeed t = n - (blockSum bodySize ms - blockSum bodySize (hv_result t))
        + truncationSlackChars * trCut t
      \<and> 0 \<le> trCut t \<and> (hvView t = None \<longleftrightarrow> trCut t = 0))"

lemma hv_result_Some: "hvView t = Some vs \<Longrightarrow> hv_result t = vs"
  by (simp add: hv_result_def)

lemma passBlock_truncated:
  assumes "hvMessages t = ms" "hv_inv t" "ledgerOk ms n t" "0 < trNeed t" "i < length ms"
    "j < length (MContent (ms ! i))"
  shows "ledgerOk ms n (passBlock minSize i j t)"
proof (rule passBlock_cases [of t i j minSize])
  fix k
  let ?b = "MContent (hv_result t ! i) ! j" and ?t' = "passBlock minSize i j t"
  assume c: "hvView ?t' = Some (putBlock i j (cutBlock k ?b) (hv_result t))"
    "trNeed ?t' = trNeed t - (bodySize ?b - bodySize (cutBlock k ?b) - truncationSlackChars)"
    "trCut ?t' = trCut t + 1"
  have "i < length (hv_result t)" "j < length (MContent (hv_result t ! i))"
    using hv_inv_length [OF assms(2)] assms by auto
  then have "blockSum bodySize (hv_result ?t')
      = blockSum bodySize (hv_result t) - bodySize ?b + bodySize (cutBlock k ?b)"
    unfolding hv_result_Some [OF c(1)] by (rule blockSum_putBlock)
  then show ?thesis
    using assms(3) c by (simp add: ledgerOk_def algebra_simps)
qed (use assms in auto)

lemma truncatePass_invariant:
  assumes "\<And>t i j. hvMessages t = ms \<Longrightarrow> hv_inv t \<Longrightarrow> P t \<Longrightarrow> 0 < trNeed t \<Longrightarrow> i < length ms \<Longrightarrow>
      j < length (MContent (ms ! i)) \<Longrightarrow> P (passBlock minSize i j t)"
    and "hvMessages t = ms" "hv_inv t" "P t"
  shows "hvMessages (truncatePass minSize t) = ms \<and> hv_inv (truncatePass minSize t)
    \<and> P (truncatePass minSize t)"
  unfolding truncatePass_def
  by (rule passLoop_invariant) (use assms in auto)

lemma runTruncator_invariant:
  assumes "\<And>minSize t i j. hvMessages t = ms \<Longrightarrow> hv_inv t \<Longrightarrow> P t \<Longrightarrow> 0 < trNeed t \<Longrightarrow>
      i < length ms \<Longrightarrow> j < length (MContent (ms ! i)) \<Longrightarrow> P (passBlock minSize i j t)"
    and "P (newTruncator ms excess)"
  shows "hvMessages (runTruncator ms excess) = ms \<and> hv_inv (runTruncator ms excess)
    \<and> P (runTruncator ms excess)"
proof -
  let ?t1 = "truncatePass (2 * truncationKeepChars + 1) (newTruncator ms excess)"
  have "hvMessages ?t1 = ms \<and> hv_inv ?t1 \<and> P ?t1"
    by (rule truncatePass_invariant) (use assms in \<open>auto simp: newTruncator_def hv_inv_def\<close>)
  then show ?thesis
    unfolding runTruncator_def by (intro truncatePass_invariant) (use assms(1) in auto)
qed

lemma runTruncator_truncated:
  "hv_inv (runTruncator ms excess)" "hvMessages (runTruncator ms excess) = ms"
  "ledgerOk ms (4 * excess) (runTruncator ms excess)"
proof -
  have "ledgerOk ms (4 * excess) (newTruncator ms excess)"
    by (simp add: ledgerOk_def newTruncator_def hv_result_def)
  then show "hv_inv (runTruncator ms excess)" "hvMessages (runTruncator ms excess) = ms"
    "ledgerOk ms (4 * excess) (runTruncator ms excess)"
    using runTruncator_invariant [of ms "ledgerOk ms (4 * excess)" excess] passBlock_truncated
    by blast+
qed

text \<open>When the second pass ends with need left, it has cut every tool result as far as it goes.\<close>

lemma passBlock_other:
  assumes "hvMessages t = ms" "hv_inv t" "0 < trNeed t" "i < length ms"
    "j < length (MContent (ms ! i))" "(i', j') \<noteq> (i, j)"
  shows "MContent (hv_result (passBlock minSize i j t) ! i') ! j' = MContent (hv_result t ! i') ! j'"
proof (rule passBlock_cases [of t i j minSize])
  fix k
  assume "hvView (passBlock minSize i j t)
    = Some (putBlock i j (cutBlock k (MContent (hv_result t ! i) ! j)) (hv_result t))"
  then have "hv_result (passBlock minSize i j t)
    = putBlock i j (cutBlock k (MContent (hv_result t ! i) ! j)) (hv_result t)"
    by (rule hv_result_Some)
  then show ?thesis
    using assms hv_inv_length [OF assms(2)]
    by (cases "i' = i"; cases "j' = j") (simp_all add: putBlock_def)
qed (use assms in auto)

lemma passBlock_fullyCut:
  assumes "hvMessages t = ms" "hv_inv t" "0 < trNeed t" "i < length ms"
    "j < length (MContent (ms ! i))" "0 < trNeed (passBlock 0 i j t)"
    "Type (MContent (hv_result (passBlock 0 i j t) ! i) ! j) = ''tool_result''"
  shows "fullyCut (MContent (hv_result (passBlock 0 i j t) ! i) ! j)"
proof (rule passBlock_cases [of t i j 0])
  assume "passBlock 0 i j t = t"
    and "Type (MContent (hv_result t ! i) ! j) = ''tool_result'' \<Longrightarrow>
      0 \<le> bodySize (MContent (hv_result t ! i) ! j) \<Longrightarrow> fullyCut (MContent (hv_result t ! i) ! j)"
  then show ?thesis
    using assms(7) by (simp add: bodySize_def)
next
  fix k
  let ?b = "MContent (hv_result t ! i) ! j"
  assume v: "hvView (passBlock 0 i j t) = Some (putBlock i j (cutBlock k ?b) (hv_result t))"
    and f: "0 < trNeed (passBlock 0 i j t) \<Longrightarrow> fullyCut (cutBlock k ?b)"
  have "MContent (hv_result (passBlock 0 i j t) ! i) ! j = cutBlock k ?b"
    unfolding hv_result_Some [OF v]
    using assms hv_inv_length [OF assms(2)] by (simp add: putBlock_def)
  then show ?thesis
    using f assms(6) by simp
qed (use assms in auto)

lemma passLoop_fullyCut:
  assumes "set ps \<subseteq> set (blockPositions ms)" "hvMessages t = ms" "hv_inv t"
    "0 < trNeed (passLoop 0 ps t)" "(i, j) \<in> set ps \<or> P (MContent (hv_result t ! i) ! j)"
    "\<And>b. P b = (Type b = ''tool_result'' \<longrightarrow> fullyCut b)"
  shows "P (MContent (hv_result (passLoop 0 ps t) ! i) ! j)"
  using assms(1-5)
proof (induction ps arbitrary: t)
  case (Cons p ps)
  obtain i' j' where p: "p = (i', j')"
    by (cases p)
  have need: "\<not> trNeed t \<le> 0"
    using Cons.prems(4) by (auto simp: p)
  have ij: "i' < length ms" "j' < length (MContent (ms ! i'))"
    using Cons.prems(1) by (auto simp: p blockPositions_set)
  let ?t' = "passBlock 0 i' j' t"
  have inv: "hvMessages ?t' = ms" "hv_inv ?t'"
    using passLoop_invariant [of ms "\<lambda>_. True" 0 "[(i', j')]" t] Cons.prems need
    by (auto simp: p)
  have need': "0 < trNeed (passLoop 0 ps ?t')"
    using Cons.prems(4) need by (simp add: p)
  then have "0 < trNeed ?t'"
    by (cases ps) (auto split: if_splits)
  then have "(i, j) \<in> set ps \<or> P (MContent (hv_result ?t' ! i) ! j)"
    using Cons.prems need ij passBlock_other [of t ms i' j' i j 0] passBlock_fullyCut [of t ms i' j']
    by (cases "(i, j) = (i', j')") (auto simp: p assms(6))
  then show ?case
    using Cons.IH [of ?t'] inv need' Cons.prems(1) need by (simp add: p)
qed simp

lemma runTruncator_fullyCut:
  assumes "0 < trNeed (runTruncator ms excess)" "m \<in> set (hv_result (runTruncator ms excess))"
    "b \<in> set (MContent m)" "Type b = ''tool_result''"
  shows "fullyCut b"
proof -
  let ?t = "runTruncator ms excess"
  let ?t1 = "truncatePass (2 * truncationKeepChars + 1) (newTruncator ms excess)"
  note len = hv_inv_length [OF runTruncator_truncated(1), unfolded runTruncator_truncated(2)]
  obtain i j where ij: "i < length ms" "j < length (MContent (ms ! i))"
    "b = MContent (hv_result ?t ! i) ! j"
    using assms(2,3) len by (metis in_set_conv_nth)
  have t1: "hvMessages ?t1 = ms" "hv_inv ?t1"
    using truncatePass_invariant [of ms "\<lambda>_. True" _ "newTruncator ms excess"]
    by (auto simp: newTruncator_def hv_inv_def)
  have "?t = passLoop 0 (blockPositions ms) ?t1"
    using t1 by (simp add: runTruncator_def truncatePass_def [of 0])
  then show ?thesis
    using passLoop_fullyCut [of "blockPositions ms" ms ?t1 i j "\<lambda>b. Type b = ''tool_result'' \<longrightarrow> fullyCut b"]
      t1 assms(1,4) ij by (auto simp: blockPositions_set)
qed

text \<open>
  Truncating a history changes nothing but the bodies of tool results, so it stays well formed;
  and either the bytes removed cover the excess at four bytes per token, with the rounding slack of
  every cut on top, or no tool result can be cut any further.
\<close>

theorem TruncateToolResults_contract:
  assumes "TruncateToolResults ms excess = (v, c)"
  shows "trimmedHistory ms v \<and> wf_history v = wf_history ms
    \<and> (0 < excess \<longrightarrow>
         4 * excess + truncationSlackChars * c \<le> blockSum bodySize ms - blockSum bodySize v
         \<or> (\<forall>m \<in> set v. \<forall>b \<in> set (MContent m). Type b = ''tool_result'' \<longrightarrow> fullyCut b))"
proof (cases "excess \<le> 0")
  case True
  then show ?thesis
    using assms by (simp add: TruncateToolResults_def)
next
  case False
  let ?t = "runTruncator ms excess"
  have led: "ledgerOk ms (4 * excess) ?t" and msgs: "hvMessages ?t = ms"
    by (rule runTruncator_truncated)+
  then have v: "v = hv_result ?t" and c: "c = trCut ?t"
    using assms False
    by (auto simp: TruncateToolResults_def Let_def hv_result_def ledgerOk_def split: option.splits)
  have "trimmedHistory ms v"
    using hv_inv_trimmed [OF runTruncator_truncated(1), of ms excess] msgs v by simp
  moreover have "4 * excess + truncationSlackChars * c \<le> blockSum bodySize ms - blockSum bodySize v"
    if "trNeed ?t \<le> 0"
    using led that unfolding ledgerOk_def v c by linarith
  moreover have "fullyCut b"
    if "\<not> trNeed ?t \<le> 0" "m \<in> set v" "b \<in> set (MContent m)" "Type b = ''tool_result''" for m b
    using that runTruncator_fullyCut [of ms excess m b] by (simp add: v)
  ultimately show ?thesis
    by (metis wf_history_trimmed)
qed

definition longResult :: "Message list" where
  "longResult =
     [mkMessage ''user'' [textBlock ''fix it''],
      mkMessage ''assistant'' [toolUseBlock ''t1'' ''run_command''],
      mkMessage ''user'' [toolResultBlock ''t1'' (replicate 160 CHR ''x'')]]"

theorem TruncateToolResults_contract_witness:
  "snd (TruncateToolResults longResult 20) = 1
   \<and> trimmedHistory longResult (fst (TruncateToolResults longResult 20))
   \<and> wf_history (fst (TruncateToolResults longResult 20))"
proof -
  have "snd (TruncateToolResults longResult 20) = 1" "wf_history longResult"
    by code_simp+
  moreover obtain v c where vc: "TruncateToolResults longResult 20 = (v, c)"
    by fastforce
  ultimately show ?thesis
    using TruncateToolResults_contract [OF vc] by simp
qed

text \<open>
  C12: cutting a string never lengthens it; when it cuts, it keeps a prefix and a suffix of at most
  \<open>keep\<close> bytes each, both ending on code-point boundaries, around the marker that names the bytes
  removed, and the result is within twice the kept size and one marker.
\<close>

theorem truncateHeadTail_contract:
  "truncateHeadTail s keep = s
   \<or> (\<exists>h t. h \<le> keep \<and> length s - keep \<le> t \<and> t \<le> length s \<and> h \<le> t
        \<and> truncateHeadTail s keep = take h s @ truncationMarker (int (t - h)) @ drop t s
        \<and> (h = 0 \<or> RuneStart (s ! h)) \<and> (t = length s \<or> RuneStart (s ! t))
        \<and> len (truncateHeadTail s keep) \<le> 2 * int keep + len (truncationMarker (len s))
        \<and> length (truncateHeadTail s keep) < length s)"
proof (cases "2 * int keep + len (truncationMarker (len s)) < len s")
  case True
  have "len (truncateHeadTail s keep) \<le> 2 * int keep + len (truncationMarker (len s))"
    using True by (rule truncateHeadTail_length)
  moreover from this have "length (truncateHeadTail s keep) < length s"
    using True by linarith
  ultimately show ?thesis
    using truncateHeadTail_cut [OF True] by metis
next
  case False
  then show ?thesis by (simp add: truncateHeadTail_keep)
qed

end
