(* ===== verification/Clear_Results.thy ===== *)
theory Clear_Results
  imports Sliding_Window Context_Fit
begin

text \<open>
  \<open>ClearToolResultsStrategy\<close> of \<open>clearresults.go\<close>, with \<open>hashMessages\<close> and
  \<open>slidingWindowFallback\<close> of \<open>summarise.go\<close>. The strategy's \<open>cleared\<close> map, whose iteration
  order does not matter, is a list of distinct references. SHA-256 is the argument \<open>sha\<close>.
\<close>

section \<open>Hashing a history (summarise.go)\<close>

definition FormatBool :: "bool \<Rightarrow> string" where
  "FormatBool b = (if b then ''true'' else ''false'')"

definition hashField :: "string \<Rightarrow> string" where
  "hashField value' = Itoa (len value') @ '':'' @ value'"

definition hashBlock :: "ContentBlock \<Rightarrow> string" where
  "hashBlock b = concat (map hashField [Type b, Text b, Content b, Name b, ID b, ToolUseID b])"

definition hashMessage :: "Message \<Rightarrow> string" where
  "hashMessage m =
     hashField (Role m) @ hashField (FormatBool (Synthetic m))
     @ hashField (Itoa (len (MContent m))) @ concat (map hashBlock (MContent m))"

definition hashMessages :: "(string \<Rightarrow> string) \<Rightarrow> Message list \<Rightarrow> string" where
  "hashMessages sha messages = sha (concat (map hashMessage messages))"

definition slidingWindowFallback ::
  "(string \<Rightarrow> string \<Rightarrow> string option) \<Rightarrow> Message list \<Rightarrow> TokenBudget \<Rightarrow> Message list" where
  "slidingWindowFallback reenc messages budget = fst (SlidingWindowPrepare reenc messages budget)"

section \<open>State\<close>

definition DefaultClearKeep :: int where "DefaultClearKeep = 3"
definition defaultClearAtLeastPercent :: int where "defaultClearAtLeastPercent = 25"

definition ClearedToolResultPlaceholder :: string where
  "ClearedToolResultPlaceholder =
     ''[Tool result cleared by the harness to save context. Run the tool again if you need this output.]''"

definition clearFallbackWarning :: string where
  "clearFallbackWarning = ''clear-tool-results: clearing tool results cannot keep the history within the context budget; dropping the oldest exchanges, which invalidates the prompt cache on every turn that drops one''"

record ClearToolResultsConfig =
  Keep :: int
  ClearAtLeast :: int
  ExcludeTools :: "string list"
  InternalName :: "(string \<Rightarrow> string) option"

record resultRef =
  rrMessage :: nat
  rrBlock :: nat
  rrToolUseID :: string

record clearCandidate =
  ccRef :: resultRef
  ccReclaim :: int

record ClearToolResultsStrategy =
  csKeep :: int
  csClearAtLeast :: int
  csExcluded :: "string list"
  csInternalName :: "(string \<Rightarrow> string) option"
  csCleared :: "resultRef list"
  csTaskHash :: string
  csWarnedFallback :: bool
  csLastCompaction :: "CompactionEvent option"

definition NewClearToolResultsStrategy :: "ClearToolResultsConfig \<Rightarrow> ClearToolResultsStrategy" where
  "NewClearToolResultsStrategy cfg =
     \<lparr>csKeep = max (Keep cfg) 0, csClearAtLeast = ClearAtLeast cfg, csExcluded = ExcludeTools cfg,
      csInternalName = InternalName cfg, csCleared = [], csTaskHash = [], csWarnedFallback = False,
      csLastCompaction = None\<rparr>"

section \<open>Clearing one result\<close>

definition clearedBlock :: "ContentBlock \<Rightarrow> ContentBlock" where
  "clearedBlock block =
     block\<lparr>Content := ClearedToolResultPlaceholder, Structured := [], Kind := []\<rparr>"

definition clearReclaim :: "(string \<Rightarrow> string \<Rightarrow> string option) \<Rightarrow> ContentBlock \<Rightarrow> int" where
  "clearReclaim reenc block = estimateBlockTokens reenc block - estimateBlockTokens reenc (clearedBlock block)"

definition clearResult ::
  "(string \<Rightarrow> string \<Rightarrow> string option) \<Rightarrow> historyView \<Rightarrow> resultRef \<Rightarrow> historyView \<times> int" where
  "clearResult reenc hv ref =
     (if rrMessage ref \<ge> length (hvMessages hv)
         \<or> rrBlock ref \<ge> length (MContent (hvMessages hv ! rrMessage ref)) then (hv, 0)
      else let block = MContent (hvMessages hv ! rrMessage ref) ! rrBlock ref in
        if Type block \<noteq> ''tool_result'' \<or> ToolUseID block \<noteq> rrToolUseID ref then (hv, 0)
        else (hv_assign (rrMessage ref) (rrBlock ref) (clearedBlock block) (hv_writable (rrMessage ref) hv),
              clearReclaim reenc block))"

text \<open>The loop that re-applies the cleared set and counts what it reclaims.\<close>

fun applyCleared ::
  "(string \<Rightarrow> string \<Rightarrow> string option) \<Rightarrow> resultRef list \<Rightarrow> historyView \<Rightarrow> int \<Rightarrow> historyView \<times> int" where
  "applyCleared reenc [] hv tokens = (hv, tokens)"
| "applyCleared reenc (ref # refs) hv tokens =
     (case clearResult reenc hv ref of (hv', r) \<Rightarrow> applyCleared reenc refs hv' (tokens - r))"

section \<open>Choosing a batch\<close>

definition forgetOtherHistory ::
  "(string \<Rightarrow> string) \<Rightarrow> Message list \<Rightarrow> ClearToolResultsStrategy \<Rightarrow> ClearToolResultsStrategy" where
  "forgetOtherHistory sha messages s =
     (let hash = hashMessages sha (take 1 messages) in
      if hash = csTaskHash s then s
      else s\<lparr>csTaskHash := hash, csCleared := [], csWarnedFallback := False\<rparr>)"

definition batchMinimum :: "ClearToolResultsStrategy \<Rightarrow> int \<Rightarrow> int" where
  "batchMinimum s trigger =
     (if csClearAtLeast s > 0 then csClearAtLeast s
      else max ((trigger * defaultClearAtLeastPercent) sdiv 100) 1)"

definition isExcluded :: "ClearToolResultsStrategy \<Rightarrow> Message list \<Rightarrow> resultRef \<Rightarrow> bool" where
  "isExcluded s view ref =
     (if csExcluded s = [] \<or> rrMessage ref = 0 then False
      else case find (\<lambda>block. Type block = ''tool_use'' \<and> ID block = rrToolUseID ref)
                  (MContent (view ! (rrMessage ref - 1))) of
             None \<Rightarrow> False
           | Some block \<Rightarrow>
               if Name block \<in> set (csExcluded s) then True
               else case csInternalName s of
                      None \<Rightarrow> False
                    | Some f \<Rightarrow> f (Name block) \<in> set (csExcluded s))"

definition allResults ::
  "(string \<Rightarrow> string \<Rightarrow> string option) \<Rightarrow> Message list \<Rightarrow> clearCandidate list" where
  "allResults reenc view =
     map (\<lambda>(i, j). let block = MContent (view ! i) ! j in
             \<lparr>ccRef = \<lparr>rrMessage = i, rrBlock = j, rrToolUseID = ToolUseID block\<rparr>,
              ccReclaim = clearReclaim reenc block\<rparr>)
       (filter (\<lambda>(i, j). Type (MContent (view ! i) ! j) = ''tool_result'') (blockPositions view))"

definition candidates ::
  "(string \<Rightarrow> string \<Rightarrow> string option) \<Rightarrow> ClearToolResultsStrategy \<Rightarrow> Message list \<Rightarrow> clearCandidate list" where
  "candidates reenc s view =
     (let all = allResults reenc view;
          older = take (nat (max (len all - csKeep s) 0)) all;
          lst = length view - 1
      in filter (\<lambda>c.
           \<not> (ccReclaim c \<le> 0 \<or> ccRef c \<in> set (csCleared s) \<or> isExcluded s view (ccRef c))
           \<and> \<not> (rrMessage (ccRef c) = lst \<and> Role (view ! lst) = ''user'')) older)"

fun takeBatch :: "int \<Rightarrow> int \<Rightarrow> clearCandidate list \<Rightarrow> clearCandidate list \<times> int" where
  "takeBatch need reclaimed [] = ([], reclaimed)"
| "takeBatch need reclaimed (c # cs) =
     (let r = reclaimed + ccReclaim c in
      if r \<ge> need then ([c], r)
      else case takeBatch need r cs of (cs', r') \<Rightarrow> (c # cs', r'))"

definition selectBatch ::
  "(string \<Rightarrow> string \<Rightarrow> string option) \<Rightarrow> ClearToolResultsStrategy \<Rightarrow> Message list \<Rightarrow> int \<Rightarrow> int
     \<Rightarrow> clearCandidate list \<times> int" where
  "selectBatch reenc s view need minimum =
     (let cs = candidates reenc s view in
      if sum_list (map ccReclaim cs) < minimum then ([], 0) else takeBatch need 0 cs)"

section \<open>Prepare\<close>

fun clearBatch ::
  "(string \<Rightarrow> string \<Rightarrow> string option) \<Rightarrow> clearCandidate list \<Rightarrow> historyView \<Rightarrow> resultRef list
     \<Rightarrow> historyView \<times> resultRef list" where
  "clearBatch reenc [] hv cleared = (hv, cleared)"
| "clearBatch reenc (c # cs) hv cleared =
     clearBatch reenc cs (fst (clearResult reenc hv (ccRef c)))
       (if ccRef c \<in> set cleared then cleared else cleared @ [ccRef c])"

definition ClearPrepare ::
  "(string \<Rightarrow> string \<Rightarrow> string option) \<Rightarrow> (string \<Rightarrow> string) \<Rightarrow> ClearToolResultsStrategy \<Rightarrow>
   Message list \<Rightarrow> TokenBudget \<Rightarrow> Message list \<times> ClearToolResultsStrategy" where
  "ClearPrepare reenc sha s0 messages budget =
     (if messages = [] then (messages, s0\<lparr>csLastCompaction := None\<rparr>)
      else
        let s = forgetOtherHistory sha messages (s0\<lparr>csLastCompaction := None\<rparr>);
            (hv, tokens) = applyCleared reenc (csCleared s)
              \<lparr>hvMessages = messages, hvView = None, hvCopied = []\<rparr> (CurrentTokens budget);
            trigger = FitLimit budget
        in if trigger > 0 \<and> tokens \<le> trigger then (hv_result hv, s)
           else
             let minimum = batchMinimum s trigger;
                 (batch, reclaimed) = (if trigger > 0
                   then selectBatch reenc s (hv_result hv) (max minimum (tokens - trigger)) minimum
                   else ([], 0));
                 (hv', cleared') = clearBatch reenc batch hv (csCleared s);
                 s' = s\<lparr>csCleared := cleared'\<rparr>;
                 view = hv_result hv';
                 tokensAfter = tokens - reclaimed;
                 ev = \<lparr>Strategy = ''clear-tool-results'', MessagesBefore = len messages,
                       MessagesAfter = 0, TokensBefore = tokens, TokensAfter = 0,
                       ToolResultsCleared = len batch, Warnings = []\<rparr>
             in if trigger > 0 \<and> tokensAfter \<le> trigger
                then (view, s'\<lparr>csLastCompaction :=
                        Some (ev\<lparr>MessagesAfter := len view, TokensAfter := tokensAfter\<rparr>)\<rparr>)
                else
                  let result = slidingWindowFallback reenc view (budget\<lparr>CurrentTokens := tokensAfter\<rparr>)
                  in if batch = [] \<and> length result = length view then (view, s')
                     else
                       let ev' = ev\<lparr>MessagesAfter := len result,
                             TokensAfter := tokensAfter - estimateHistory reenc view
                                            + estimateHistory reenc result\<rparr>;
                           warn = (length result < length view \<and> \<not> csWarnedFallback s')
                       in (result,
                           s'\<lparr>csWarnedFallback := csWarnedFallback s' \<or> warn,
                              csLastCompaction := Some (if warn
                                then ev'\<lparr>Warnings := [clearFallbackWarning]\<rparr> else ev')\<rparr>))"

section \<open>The view of a cleared set\<close>

definition blockRef :: "nat \<Rightarrow> nat \<Rightarrow> ContentBlock \<Rightarrow> resultRef" where
  "blockRef i j b = \<lparr>rrMessage = i, rrBlock = j, rrToolUseID = ToolUseID b\<rparr>"

definition clearBlockAt :: "resultRef list \<Rightarrow> nat \<Rightarrow> nat \<Rightarrow> ContentBlock \<Rightarrow> ContentBlock" where
  "clearBlockAt R i j b =
     (if Type b = ''tool_result'' \<and> blockRef i j b \<in> set R then clearedBlock b else b)"

definition clearMessageAt :: "resultRef list \<Rightarrow> nat \<Rightarrow> Message \<Rightarrow> Message" where
  "clearMessageAt R i m =
     m\<lparr>MContent := map (\<lambda>j. clearBlockAt R i j (MContent m ! j)) [0..<length (MContent m)]\<rparr>"

text \<open>The history with exactly the results in \<open>R\<close> replaced by the placeholder.\<close>

definition clearView :: "resultRef list \<Rightarrow> Message list \<Rightarrow> Message list" where
  "clearView R ms = map (\<lambda>i. clearMessageAt R i (ms ! i)) [0..<length ms]"

lemma length_clearView [simp]: "length (clearView R ms) = length ms"
  by (simp add: clearView_def)

lemma nth_clearView [simp]: "i < length ms \<Longrightarrow> clearView R ms ! i = clearMessageAt R i (ms ! i)"
  by (simp add: clearView_def)

lemma length_clearMessageAt [simp]: "length (MContent (clearMessageAt R i m)) = length (MContent m)"
  by (simp add: clearMessageAt_def)

lemma nth_clearMessageAt [simp]:
  "j < length (MContent m) \<Longrightarrow> MContent (clearMessageAt R i m) ! j = clearBlockAt R i j (MContent m ! j)"
  by (simp add: clearMessageAt_def)

lemma clearMessageAt_Nil: "(\<And>j. blockRef i j (MContent m ! j) \<notin> set R) \<Longrightarrow> clearMessageAt R i m = m"
  by (cases m) (auto simp: clearMessageAt_def clearBlockAt_def intro!: nth_equalityI)

lemma clearMessageAt_cong:
  assumes "\<And>j. (blockRef i j (MContent m ! j) \<in> set R) = (blockRef i j (MContent m ! j) \<in> set R')"
  shows "clearMessageAt R i m = clearMessageAt R' i m"
  unfolding clearMessageAt_def clearBlockAt_def by (simp add: assms)

lemma clearView_Nil [simp]: "clearView [] ms = ms"
  by (intro nth_equalityI) (simp_all add: clearMessageAt_Nil)

lemma clearView_append:
  assumes "\<forall>r \<in> set R. rrMessage r < length ms"
  shows "clearView R (ms @ new) = clearView R ms @ new"
proof (intro nth_equalityI)
  fix i
  assume i: "i < length (clearView R (ms @ new))"
  show "clearView R (ms @ new) ! i = (clearView R ms @ new) ! i"
  proof (cases "i < length ms")
    case True
    then show ?thesis by (simp add: nth_append)
  next
    case False
    then have "clearMessageAt R i (new ! (i - length ms)) = new ! (i - length ms)"
      using assms by (intro clearMessageAt_Nil) (force simp: blockRef_def)
    then show ?thesis
      using i False by (simp add: nth_append)
  qed
qed simp

lemma trimmedBlock_cleared: "Type b = ''tool_result'' \<Longrightarrow> trimmedBlock b (clearedBlock b)"
  by (simp add: trimmedBlock_def clearedBlock_def)

lemma clearedBlock_idem [simp]: "clearedBlock (clearedBlock b) = clearedBlock b"
  by (simp add: clearedBlock_def)

lemma clearedBlock_sel [simp]: "Type (clearedBlock b) = Type b" "ToolUseID (clearedBlock b) = ToolUseID b"
  by (simp_all add: clearedBlock_def)

lemma trimmedHistory_clearView: "trimmedHistory ms (clearView R ms)"
  by (auto simp: list_all2_conv_all_nth trimmedMessage_def clearBlockAt_def trimmedBlock_cleared)
    (simp add: clearMessageAt_def)

lemma clearMessageAt_snoc:
  assumes "j < length (MContent m)" "Type (MContent m ! j) = ''tool_result''"
    "r = blockRef i j (MContent m ! j)"
  shows "(clearMessageAt R i m)\<lparr>MContent :=
            (MContent (clearMessageAt R i m))[j := clearedBlock (MContent m ! j)]\<rparr>
       = clearMessageAt (R @ [r]) i m"
proof -
  have "(MContent (clearMessageAt R i m))[j := clearedBlock (MContent m ! j)]
      = MContent (clearMessageAt (R @ [r]) i m)"
  proof (intro nth_equalityI)
    fix k
    assume k: "k < length ((MContent (clearMessageAt R i m))[j := clearedBlock (MContent m ! j)])"
    show "(MContent (clearMessageAt R i m))[j := clearedBlock (MContent m ! j)] ! k
        = MContent (clearMessageAt (R @ [r]) i m) ! k"
      using assms k by (cases "k = j") (auto simp: clearBlockAt_def blockRef_def)
  qed simp
  then show ?thesis
    by (cases m) (simp add: clearMessageAt_def)
qed

text \<open>A reference that names a result of the history, and what clearing it reclaims.\<close>

definition validRef :: "Message list \<Rightarrow> resultRef \<Rightarrow> bool" where
  "validRef ms r =
     (rrMessage r < length ms \<and> rrBlock r < length (MContent (ms ! rrMessage r))
      \<and> Type (MContent (ms ! rrMessage r) ! rrBlock r) = ''tool_result''
      \<and> ToolUseID (MContent (ms ! rrMessage r) ! rrBlock r) = rrToolUseID r)"

definition reclaimOf ::
  "(string \<Rightarrow> string \<Rightarrow> string option) \<Rightarrow> Message list \<Rightarrow> resultRef \<Rightarrow> int" where
  "reclaimOf reenc ms r =
     (if validRef ms r then clearReclaim reenc (MContent (ms ! rrMessage r) ! rrBlock r) else 0)"

lemma clearView_snoc_invalid:
  assumes "\<not> validRef ms r"
  shows "clearView (R @ [r]) ms = clearView R ms"
proof (intro nth_equalityI)
  fix i
  assume i: "i < length (clearView (R @ [r]) ms)"
  have "clearMessageAt (R @ [r]) i (ms ! i) = clearMessageAt R i (ms ! i)"
    using assms i by (auto simp: clearMessageAt_def clearBlockAt_def validRef_def blockRef_def
        intro!: arg_cong [of _ _ "\<lambda>bs. (ms ! i)\<lparr>MContent := bs\<rparr>"])
  then show "clearView (R @ [r]) ms ! i = clearView R ms ! i"
    using i by simp
qed simp

lemma clearView_snoc_valid:
  assumes "validRef ms r"
  shows "putBlock (rrMessage r) (rrBlock r) (clearedBlock (MContent (ms ! rrMessage r) ! rrBlock r))
           (clearView R ms) = clearView (R @ [r]) ms"
proof (intro nth_equalityI)
  let ?i = "rrMessage r" and ?j = "rrBlock r"
  let ?put = "putBlock ?i ?j (clearedBlock (MContent (ms ! ?i) ! ?j)) (clearView R ms)"
  have r: "?i < length ms" "?j < length (MContent (ms ! ?i))" "r = blockRef ?i ?j (MContent (ms ! ?i) ! ?j)"
    "Type (MContent (ms ! ?i) ! ?j) = ''tool_result''"
    using assms by (auto simp: validRef_def blockRef_def)
  fix i
  assume i: "i < length ?put"
  show "?put ! i = clearView (R @ [r]) ms ! i"
  proof (cases "i = ?i")
    case True
    then show ?thesis
      using r clearMessageAt_snoc [of ?j "ms ! ?i" r ?i R] by (simp add: putBlock_def)
  next
    case False
    then have "clearMessageAt (R @ [r]) i (ms ! i) = clearMessageAt R i (ms ! i)"
      by (intro clearMessageAt_cong) (auto simp: blockRef_def)
    then show ?thesis
      using i False by (simp add: putBlock_def)
  qed
qed (simp add: putBlock_def)

definition clearedHv :: "resultRef list \<Rightarrow> Message list \<Rightarrow> historyView \<Rightarrow> bool" where
  "clearedHv R ms hv = (hvMessages hv = ms \<and> hv_inv hv \<and> hv_result hv = clearView R ms)"

lemma clearResult_spec:
  assumes "clearedHv R ms hv"
  shows "clearedHv (R @ [r]) ms (fst (clearResult reenc hv r))"
    and "snd (clearResult reenc hv r) = reclaimOf reenc ms r"
proof -
  let ?i = "rrMessage r" and ?j = "rrBlock r"
  let ?b = "MContent (ms ! ?i) ! ?j"
  have hv: "hvMessages hv = ms" "hv_inv hv" "hv_result hv = clearView R ms"
    using assms by (simp_all add: clearedHv_def)
  have eq: "clearResult reenc hv r =
     (if validRef ms r then (hv_assign ?i ?j (clearedBlock ?b) (hv_writable ?i hv), clearReclaim reenc ?b)
      else (hv, 0))"
    by (auto simp: clearResult_def validRef_def hv(1) Let_def)
  then show "snd (clearResult reenc hv r) = reclaimOf reenc ms r"
    by (simp add: reclaimOf_def)
  show "clearedHv (R @ [r]) ms (fst (clearResult reenc hv r))"
  proof (cases "validRef ms r")
    case True
    then have r: "?i < length ms" "?j < length (MContent (ms ! ?i))" "Type ?b = ''tool_result''"
      by (auto simp: validRef_def)
    then have "trimmedBlock (MContent (hv_result hv ! ?i) ! ?j) (clearedBlock ?b)"
      by (auto simp: hv(3) clearBlockAt_def trimmedBlock_cleared)
    then show ?thesis
      using hv_write_spec [of hv ?i ?j "clearedBlock ?b"] hv r True clearView_snoc_valid [OF True, of R]
      by (simp add: eq clearedHv_def hv_result_def)
  next
    case False
    then show ?thesis
      using hv by (simp add: eq clearedHv_def clearView_snoc_invalid)
  qed
qed

lemma applyCleared_spec:
  "clearedHv R ms hv \<Longrightarrow> applyCleared reenc refs hv tokens = (hv', tokens') \<Longrightarrow>
   clearedHv (R @ refs) ms hv' \<and> tokens' = tokens - sum_list (map (reclaimOf reenc ms) refs)"
proof (induction refs arbitrary: R hv tokens)
  case (Cons r refs)
  have "applyCleared reenc refs (fst (clearResult reenc hv r)) (tokens - reclaimOf reenc ms r) = (hv', tokens')"
    using Cons.prems clearResult_spec(2) [OF Cons.prems(1), of reenc r]
    by (simp add: case_prod_unfold)
  from Cons.IH [OF clearResult_spec(1) [OF Cons.prems(1)] this]
  show ?case by simp
qed simp

lemma clearBatch_spec:
  assumes "clearedHv R ms hv" "distinct (map ccRef batch)" "set (map ccRef batch) \<inter> set R = {}"
    "clearBatch reenc batch hv R = (hv', R')"
  shows "clearedHv R' ms hv' \<and> R' = R @ map ccRef batch"
  using assms
proof (induction batch arbitrary: R hv)
  case (Cons c cs)
  have "clearBatch reenc cs (fst (clearResult reenc hv (ccRef c))) (R @ [ccRef c]) = (hv', R')"
    using Cons.prems by auto
  with Cons.IH [OF clearResult_spec(1) [OF Cons.prems(1)]] Cons.prems(2,3)
  show ?case by auto
qed simp

section \<open>Accounting\<close>

lemma estimateHistory_clearView:
  "distinct R \<Longrightarrow> estimateHistory reenc (clearView R ms)
     = estimateHistory reenc ms - sum_list (map (reclaimOf reenc ms) R)"
proof (induction R rule: rev_induct)
  case (snoc r R)
  have same: "sum_list (map messageTokens (clearView R' ms)) = sum_list (map messageTokens ms)" for R'
    by (rule messageTokens_trimmed [OF trimmedHistory_clearView])
  show ?case
  proof (cases "validRef ms r")
    case True
    let ?i = "rrMessage r" and ?j = "rrBlock r"
    have r: "?i < length ms" "?j < length (MContent (ms ! ?i))"
      "blockRef ?i ?j (MContent (ms ! ?i) ! ?j) = r"
      using True by (auto simp: validRef_def blockRef_def)
    then have "MContent (clearView R ms ! ?i) ! ?j = MContent (ms ! ?i) ! ?j"
      using snoc.prems by (simp add: clearBlockAt_def)
    then have "blockSum (estimateBlockTokens reenc) (clearView (R @ [r]) ms)
        = blockSum (estimateBlockTokens reenc) (clearView R ms) - reclaimOf reenc ms r"
      using r True by (simp flip: clearView_snoc_valid [OF True]
          add: blockSum_putBlock reclaimOf_def clearReclaim_def)
    then show ?thesis
      using snoc by (simp add: estimateHistory_blocks same)
  next
    case False
    then show ?thesis
      using snoc by (simp add: clearView_snoc_invalid reclaimOf_def)
  qed
qed simp

lemma distinct_blockPositions: "distinct (blockPositions ms)"
proof -
  have "distinct (concat (map (\<lambda>i. map (Pair i) [0..<n i]) [0..<k]))" for n :: "nat \<Rightarrow> nat" and k
    by (induction k) (auto simp: distinct_map inj_on_def)
  then show ?thesis
    by (simp add: blockPositions_def)
qed

lemma takeBatch_prefix:
  "takeBatch need acc cs = (b, r) \<Longrightarrow> prefix b cs \<and> r = acc + sum_list (map ccReclaim b)
     \<and> (need \<le> r \<or> b = cs)"
proof (induction cs arbitrary: acc b r)
  case (Cons c cs)
  show ?case
  proof (cases "acc + ccReclaim c \<ge> need")
    case True
    then show ?thesis using Cons.prems by (auto simp: Let_def)
  next
    case False
    then obtain b' where b': "takeBatch need (acc + ccReclaim c) cs = (b', r)" "b = c # b'"
      using Cons.prems by (auto simp: Let_def split: prod.splits)
    then show ?thesis using Cons.IH [OF b'(1)] by auto
  qed
qed simp

lemma allResults_refs:
  "map ccRef (allResults reenc view)
     = map (\<lambda>(i, j). blockRef i j (MContent (view ! i) ! j))
         (filter (\<lambda>(i, j). Type (MContent (view ! i) ! j) = ''tool_result'') (blockPositions view))"
  by (simp add: allResults_def blockRef_def Let_def case_prod_unfold)

lemma distinct_allResults: "distinct (map ccRef (allResults reenc view))"
  unfolding allResults_refs
  by (auto simp: distinct_map distinct_blockPositions inj_on_def blockRef_def)

lemma set_candidates:
  "c \<in> set (candidates reenc s view) \<Longrightarrow>
     c \<in> set (take (nat (max (len (allResults reenc view) - csKeep s) 0)) (allResults reenc view))
     \<and> ccRef c \<notin> set (csCleared s) \<and> \<not> isExcluded s view (ccRef c) \<and> 0 < ccReclaim c
     \<and> \<not> (rrMessage (ccRef c) = length view - 1 \<and> Role (view ! (length view - 1)) = ''user'')"
  by (auto simp: candidates_def Let_def)

lemma candidate_result:
  assumes "c \<in> set (allResults reenc view)"
  shows "validRef view (ccRef c)" "ccReclaim c = reclaimOf reenc view (ccRef c)"
  using assms by (auto simp: allResults_def blockPositions_set validRef_def reclaimOf_def Let_def)

lemma distinct_candidates: "distinct (map ccRef (candidates reenc s view))"
proof -
  have "distinct (map ccRef (filter P (take n (allResults reenc view))))" for P n
    by (intro distinct_map_filter) (simp add: distinct_allResults distinct_take flip: take_map)
  then show ?thesis
    by (simp add: candidates_def Let_def)
qed

lemma selectBatch_spec:
  assumes "selectBatch reenc s view need minimum = (batch, reclaimed)"
  shows "prefix batch (candidates reenc s view)" "reclaimed = sum_list (map ccReclaim batch)"
    "batch \<noteq> [] \<Longrightarrow> minimum \<le> sum_list (map ccReclaim (candidates reenc s view))"
    "batch \<noteq> [] \<Longrightarrow> need \<le> reclaimed \<or> batch = candidates reenc s view"
  using assms takeBatch_prefix [of need 0 "candidates reenc s view" batch reclaimed]
  by (auto simp: selectBatch_def Let_def split: if_splits)

lemma batch_refs:
  assumes "prefix batch (candidates reenc s view)"
  shows "distinct (map ccRef batch)" "set (map ccRef batch) \<inter> set (csCleared s) = {}"
proof -
  from assms obtain rest where "candidates reenc s view = batch @ rest"
    by (auto simp: prefix_def)
  then show "distinct (map ccRef batch)" "set (map ccRef batch) \<inter> set (csCleared s) = {}"
    using distinct_candidates [of reenc s view] set_candidates [of _ reenc s view] by fastforce+
qed


lemma selectBatch_enough:
  assumes "selectBatch reenc s view need minimum = (batch, reclaimed)" "batch \<noteq> []" "minimum \<le> need"
  shows "minimum \<le> reclaimed" "need \<le> reclaimed \<or> batch = candidates reenc s view"
  using selectBatch_spec [OF assms(1)] assms(2,3) by auto

lemma candidate_reclaim:
  assumes "c \<in> set (candidates reenc s (clearView (csCleared s) ms))"
  shows "ccReclaim c = reclaimOf reenc ms (ccRef c)"
proof -
  let ?v = "clearView (csCleared s) ms" and ?r = "ccRef c"
  have c: "c \<in> set (allResults reenc ?v)" "?r \<notin> set (csCleared s)"
    using set_candidates [OF assms] by (auto dest: in_set_takeD)
  from candidate_result [OF c(1)]
  have v: "validRef ?v ?r" "ccReclaim c = reclaimOf reenc ?v ?r"
    by auto
  have block: "MContent (?v ! rrMessage ?r) ! rrBlock ?r = MContent (ms ! rrMessage ?r) ! rrBlock ?r"
    using v(1) c(2) by (cases ?r) (auto simp: validRef_def clearBlockAt_def blockRef_def)
  then have "validRef ms ?r"
    using v(1) by (auto simp: validRef_def)
  then show ?thesis
    using v block by (simp add: reclaimOf_def)
qed

lemma batch_reclaim:
  assumes "prefix batch (candidates reenc s (clearView (csCleared s) ms))"
  shows "sum_list (map ccReclaim batch) = sum_list (map (reclaimOf reenc ms) (map ccRef batch))"
proof -
  have "map ccReclaim batch = map (\<lambda>c. reclaimOf reenc ms (ccRef c)) batch"
    using set_mono_prefix [OF assms] by (intro map_cong) (auto intro: candidate_reclaim)
  then show ?thesis
    by (simp only: map_map comp_def)
qed

section \<open>The outcomes of Prepare\<close>

abbreviation clearInv :: "ClearToolResultsStrategy \<Rightarrow> bool" where
  "clearInv s \<equiv> distinct (csCleared s)"

definition clearTokens ::
  "(string \<Rightarrow> string \<Rightarrow> string option) \<Rightarrow> resultRef list \<Rightarrow> Message list \<Rightarrow> TokenBudget \<Rightarrow> int" where
  "clearTokens reenc R ms b = CurrentTokens b - estimateHistory reenc ms + estimateHistory reenc (clearView R ms)"

lemma clearInv_forget [simp]: "clearInv s \<Longrightarrow> clearInv (forgetOtherHistory sha ms s)"
  by (simp add: forgetOtherHistory_def Let_def)

text \<open>
  What one call did: the batch it cleared, the cleared set it kept and the view it fell back from.
\<close>

lemma ClearPrepare_cases:
  assumes ms: "ms \<noteq> []" and inv: "clearInv s0"
    and prep: "ClearPrepare reenc sha s0 ms b = (r, s')"
  obtains s batch view tokens reclaimed where
    "s = forgetOtherHistory sha ms (s0\<lparr>csLastCompaction := None\<rparr>)"
    "csCleared s' = csCleared s @ map ccRef batch"
    "csTaskHash s' = csTaskHash s" "csKeep s' = csKeep s"
    "prefix batch (candidates reenc s (clearView (csCleared s) ms))"
    "tokens = clearTokens reenc (csCleared s) ms b"
    "batch \<noteq> [] \<Longrightarrow> 0 < FitLimit b \<and> FitLimit b < tokens \<and> batchMinimum s (FitLimit b) \<le> reclaimed
       \<and> (tokens - FitLimit b \<le> reclaimed \<or> batch = candidates reenc s (clearView (csCleared s) ms))"
    "reclaimed = sum_list (map ccReclaim batch)"
    "view = clearView (csCleared s') ms"
    "tokens - reclaimed = clearTokens reenc (csCleared s') ms b"
    "r = view \<and> 0 < FitLimit b \<and> tokens - reclaimed \<le> FitLimit b
       \<or> r = slidingWindowFallback reenc view (b\<lparr>CurrentTokens := tokens - reclaimed\<rparr>)"
    "csLastCompaction s' = None \<Longrightarrow> batch = [] \<and> length r = length ms"
    "\<And>e. csLastCompaction s' = Some e \<Longrightarrow> MessagesBefore e = len ms \<and> MessagesAfter e = len r
       \<and> ToolResultsCleared e = len batch \<and> TokensBefore e = tokens
       \<and> TokensAfter e = CurrentTokens b - estimateHistory reenc ms + estimateHistory reenc r"
proof -
  define s where "s = forgetOtherHistory sha ms (s0\<lparr>csLastCompaction := None\<rparr>)"
  have inv_s: "distinct (csCleared s)"
    unfolding s_def by (rule clearInv_forget) (use inv in simp)
  obtain hv tokens where app: "applyCleared reenc (csCleared s)
      \<lparr>hvMessages = ms, hvView = None, hvCopied = []\<rparr> (CurrentTokens b) = (hv, tokens)"
    by force
  have start: "clearedHv [] ms \<lparr>hvMessages = ms, hvView = None, hvCopied = []\<rparr>"
    by (simp add: clearedHv_def hv_inv_def hv_result_def)
  from applyCleared_spec [OF start app]
  have hv: "clearedHv (csCleared s) ms hv" and tokens: "tokens = clearTokens reenc (csCleared s) ms b"
    using estimateHistory_clearView [OF inv_s, of reenc ms] by (auto simp: clearTokens_def)
  have view: "hv_result hv = clearView (csCleared s) ms"
    using hv by (simp add: clearedHv_def)
  show thesis
  proof (cases "0 < FitLimit b \<and> tokens \<le> FitLimit b")
    case True
    then have "r = clearView (csCleared s) ms" "s' = s"
      using prep ms view by (auto simp: ClearPrepare_def app s_def [symmetric] Let_def)
    moreover have "csLastCompaction s = None"
      by (simp add: s_def forgetOtherHistory_def Let_def)
    ultimately show thesis
      using that [of s "[]" tokens 0 r] tokens True by (simp add: s_def)
  next
    case False
    define minimum where "minimum = batchMinimum s (FitLimit b)"
    obtain batch reclaimed where sel: "(if 0 < FitLimit b
        then selectBatch reenc s (hv_result hv) (max minimum (tokens - FitLimit b)) minimum
        else ([], 0)) = (batch, reclaimed)"
      by force
    have batch: "prefix batch (candidates reenc s (clearView (csCleared s) ms))"
        "reclaimed = sum_list (map ccReclaim batch)"
        "batch \<noteq> [] \<Longrightarrow> 0 < FitLimit b \<and> FitLimit b < tokens \<and> minimum \<le> reclaimed
          \<and> (tokens - FitLimit b \<le> reclaimed \<or> batch = candidates reenc s (clearView (csCleared s) ms))"
      using sel False by (auto simp: view split: if_splits dest: selectBatch_spec selectBatch_enough)
    obtain hv' cleared' where cb: "clearBatch reenc batch hv (csCleared s) = (hv', cleared')"
      by force
    have cb': "clearedHv cleared' ms hv'" "cleared' = csCleared s @ map ccRef batch"
      using clearBatch_spec [OF hv batch_refs [OF batch(1)] cb] by auto
    have dist: "distinct cleared'"
      using batch_refs [OF batch(1)] inv_s by (auto simp: cb'(2))
    have after: "tokens - reclaimed = clearTokens reenc cleared' ms b"
      using estimateHistory_clearView [OF dist, of reenc ms] estimateHistory_clearView [OF inv_s, of reenc ms]
      by (simp add: tokens clearTokens_def cb'(2) batch(2) batch_reclaim [OF batch(1)])
    define view where "view = clearView cleared' ms"
    have view': "hv_result hv' = view"
      using cb'(1) by (simp add: clearedHv_def view_def)
    define fallback where
      "fallback = slidingWindowFallback reenc view (b\<lparr>CurrentTokens := tokens - reclaimed\<rparr>)"
    have same: "fallback = view" if "length fallback = length view"
      using that unfolding fallback_def slidingWindowFallback_def
      by (rule SlidingWindowPrepare_same_length)
    have before: "csLastCompaction s = None"
      by (simp add: s_def forgetOtherHistory_def Let_def)
    note step = that [OF s_def _ _ _ batch(1) tokens batch(3) [unfolded minimum_def] batch(2)]
    let ?ev = "\<lambda>after tok ws. \<lparr>Strategy = ''clear-tool-results'', MessagesBefore = len ms,
      MessagesAfter = len after, TokensBefore = tokens, TokensAfter = tok,
      ToolResultsCleared = len batch, Warnings = ws\<rparr>"
    let ?warn = "length fallback < length view \<and> \<not> csWarnedFallback s"
    have out: "ClearPrepare reenc sha s0 ms b =
       (if 0 < FitLimit b \<and> tokens - reclaimed \<le> FitLimit b
        then (view, s\<lparr>csCleared := cleared', csLastCompaction := Some (?ev view (tokens - reclaimed) [])\<rparr>)
        else if batch = [] \<and> length fallback = length view then (view, s\<lparr>csCleared := cleared'\<rparr>)
        else (fallback, s\<lparr>csCleared := cleared', csWarnedFallback := csWarnedFallback s \<or> ?warn,
           csLastCompaction := Some (?ev fallback
             (tokens - reclaimed - estimateHistory reenc view + estimateHistory reenc fallback)
             (if ?warn then [clearFallbackWarning] else []))\<rparr>))"
      unfolding ClearPrepare_def s_def [symmetric] Let_def app prod.case minimum_def [symmetric] sel cb
        view' fallback_def [symmetric] if_not_P [OF ms] if_not_P [OF False]
      by simp
    consider (fits) "0 < FitLimit b \<and> tokens - reclaimed \<le> FitLimit b"
      | (noop) "\<not> (0 < FitLimit b \<and> tokens - reclaimed \<le> FitLimit b)" "batch = []" "length fallback = length view"
      | (window) "\<not> (0 < FitLimit b \<and> tokens - reclaimed \<le> FitLimit b)" "\<not> (batch = [] \<and> length fallback = length view)"
      by blast
    then show thesis
    proof cases
      case fits
      then have "r = view" "s' = s\<lparr>csCleared := cleared', csLastCompaction := Some (?ev view (tokens - reclaimed) [])\<rparr>"
        using prep by (auto simp: out)
      note r = this
      show thesis
        by (rule step [of view]) (use r fits cb'(2) after in \<open>auto simp: view_def clearTokens_def\<close>)
    next
      case noop
      then have "r = fallback" "s' = s\<lparr>csCleared := cleared'\<rparr>"
        using prep same [OF noop(3)] unfolding out if_not_P [OF noop(1)] by auto
      note r = this
      show thesis
        by (rule step [of view]) (use r noop cb'(2) after before in \<open>auto simp: view_def fallback_def\<close>)
    next
      case window
      then obtain w ws where "r = fallback" "s' = s\<lparr>csCleared := cleared', csWarnedFallback := w,
          csLastCompaction := Some (?ev fallback
             (tokens - reclaimed - estimateHistory reenc view + estimateHistory reenc fallback) ws)\<rparr>"
        using prep unfolding out if_not_P [OF window(1)] if_not_P [OF window(2)] by blast
      note r = this
      show thesis
        by (rule step [of view]) (use r cb'(2) after in \<open>auto simp: view_def fallback_def clearTokens_def\<close>)
    qed
  qed
qed

section \<open>The strategy interface\<close>

lemma ClearPrepare_Nil [simp]: "ClearPrepare reenc sha s [] b = ([], s\<lparr>csLastCompaction := None\<rparr>)"
  by (simp add: ClearPrepare_def)

lemma ClearPrepare_result:
  assumes "clearInv s0" "ClearPrepare reenc sha s0 ms b = (r, s')"
  shows "clearInv s'"
    and "\<exists>R t. r = clearView R ms \<or> r = fst (SlidingWindowPrepare reenc (clearView R ms) (b\<lparr>CurrentTokens := t\<rparr>))"
proof -
  have "clearInv s' \<and> (\<exists>R t. r = clearView R ms
      \<or> r = fst (SlidingWindowPrepare reenc (clearView R ms) (b\<lparr>CurrentTokens := t\<rparr>)))"
  proof (cases "ms = []")
    case True
    then have "r = clearView [] ms" "s' = s0\<lparr>csLastCompaction := None\<rparr>"
      using assms(2) by auto
    then show ?thesis
      using assms(1) by (metis ClearToolResultsStrategy.select_convs(5) ClearToolResultsStrategy.surjective ClearToolResultsStrategy.update_convs(8))
  next
    case False
    from assms show ?thesis
    proof (elim ClearPrepare_cases [OF False])
      fix s batch view tokens reclaimed
      assume "s = forgetOtherHistory sha ms (s0\<lparr>csLastCompaction := None\<rparr>)"
        and cleared: "csCleared s' = csCleared s @ map ccRef batch"
        and batch: "prefix batch (candidates reenc s (clearView (csCleared s) ms))"
        and "view = clearView (csCleared s') ms"
          "r = view \<and> 0 < FitLimit b \<and> tokens - reclaimed \<le> FitLimit b
            \<or> r = slidingWindowFallback reenc view (b\<lparr>CurrentTokens := tokens - reclaimed\<rparr>)"
      moreover from this have "clearInv s"
        using assms(1) by simp
      ultimately show ?thesis
        using batch_refs [OF batch] by (auto simp: slidingWindowFallback_def)
    qed
  qed
  then show "clearInv s'" and "\<exists>R t. r = clearView R ms
      \<or> r = fst (SlidingWindowPrepare reenc (clearView R ms) (b\<lparr>CurrentTokens := t\<rparr>))"
    by auto
qed

lemma wf_history_clearView [simp]: "wf_history (clearView R ms) = wf_history ms"
  by (rule wf_history_trimmed [OF trimmedHistory_clearView])

lemma clearView_eq_Nil [simp]: "clearView R ms = [] \<longleftrightarrow> ms = []"
  by (metis length_0_conv length_clearView)

interpretation clearing: context_strategy "ClearPrepare reenc sha" csLastCompaction clearInv
  for reenc :: "string \<Rightarrow> string \<Rightarrow> string option" and sha :: "string \<Rightarrow> string"
proof (unfold_locales, goal_cases)
  case (1 s ms b)
  then show ?case
    using ClearPrepare_result(2) [of s reenc sha ms b] SlidingWindowPrepare_wf
    by (metis prod.collapse wf_history_clearView)
next
  case (2 s ms b)
  then show ?case
    using ClearPrepare_result(2) [of s reenc sha ms b] sliding.prepare_length
    by (metis prod.collapse length_clearView order_refl)
next
  case (3 s ms b)
  then show ?case
    using ClearPrepare_result(2) [of s reenc sha ms b] sliding.prepare_nonempty
    by (metis prod.collapse clearView_eq_Nil)
next
  case (4 s ms b)
  then show ?case
    using ClearPrepare_result(1) by (metis prod.collapse)
next
  case (5 s ms b e)
  show ?case
  proof (cases "ms = []")
    case False
    obtain r s' where eq: "ClearPrepare reenc sha s ms b = (r, s')"
      by force
    show ?thesis
      using False 5 by (elim ClearPrepare_cases [OF _ _ eq]) (auto simp: eq)
  qed (use 5 in auto)
qed

section \<open>Runs over an append-only history\<close>

inductive clearRun ::
  "(string \<Rightarrow> string \<Rightarrow> string option) \<Rightarrow> (string \<Rightarrow> string) \<Rightarrow> ClearToolResultsConfig \<Rightarrow>
   Message list \<Rightarrow> ClearToolResultsStrategy \<Rightarrow> bool"
  for reenc sha cfg where
  start: "clearRun reenc sha cfg [] (NewClearToolResultsStrategy cfg)"
| turn: "clearRun reenc sha cfg ms s \<Longrightarrow>
         clearRun reenc sha cfg (ms @ new) (snd (ClearPrepare reenc sha s (ms @ new) b))"

definition refsWithin :: "Message list \<Rightarrow> ClearToolResultsStrategy \<Rightarrow> bool" where
  "refsWithin ms s = (clearInv s \<and> (\<forall>r \<in> set (csCleared s). rrMessage r < length ms))"

lemma forget_cleared:
  "set (csCleared (forgetOtherHistory sha ms (s\<lparr>csLastCompaction := None\<rparr>))) \<subseteq> set (csCleared s)"
  by (auto simp: forgetOtherHistory_def Let_def)

lemma batch_valid:
  assumes "prefix batch (candidates reenc s view)" "r \<in> set (map ccRef batch)"
  shows "validRef view r"
  using assms set_mono_prefix [OF assms(1)]
  by (auto dest!: set_candidates in_set_takeD simp: candidate_result subset_iff)

lemma ClearPrepare_refsWithin:
  assumes "refsWithin ms0 s0" "length ms0 \<le> length ms" "ClearPrepare reenc sha s0 ms b = (r, s')"
  shows "refsWithin ms s'"
proof (cases "ms = []")
  case True
  then show ?thesis using assms by (auto simp: refsWithin_def)
next
  case False
  have inv: "clearInv s0"
    using assms(1) by (simp add: refsWithin_def)
  from False inv assms(3) have "\<forall>r \<in> set (csCleared s'). rrMessage r < length ms"
  proof (rule ClearPrepare_cases)
    fix s batch
    assume s: "s = forgetOtherHistory sha ms (s0\<lparr>csLastCompaction := None\<rparr>)"
      and cleared: "csCleared s' = csCleared s @ map ccRef batch"
      and batch: "prefix batch (candidates reenc s (clearView (csCleared s) ms))"
    have "rrMessage r < length ms" if "r \<in> set (csCleared s)" for r
      using that forget_cleared [of sha ms s0] assms(1,2) by (force simp: s refsWithin_def)
    moreover have "rrMessage r < length ms" if "r \<in> set (map ccRef batch)" for r
      using batch_valid [OF batch that] by (simp add: validRef_def)
    ultimately show ?thesis
      by (auto simp: cleared)
  qed
  then show ?thesis
    using ClearPrepare_result(1) [OF inv assms(3)] by (simp add: refsWithin_def)
qed

lemma clearRun_refsWithin: "clearRun reenc sha cfg ms s \<Longrightarrow> refsWithin ms s"
proof (induction rule: clearRun.induct)
  case start
  then show ?case by (simp add: refsWithin_def NewClearToolResultsStrategy_def)
next
  case (turn ms s new b)
  show ?case by (rule ClearPrepare_refsWithin [OF turn.IH _ surjective_pairing]) simp
qed

text \<open>A call that reports no compaction re-applies the cleared set it was given.\<close>

lemma ClearPrepare_full_length:
  assumes "ms \<noteq> []" "clearInv s0" "ClearPrepare reenc sha s0 ms b = (r, s')" "length r = length ms"
  shows "r = clearView (csCleared s') ms" "csTaskHash s' = hashMessages sha (take 1 ms)"
proof -
  from assms(1-3) have "r = clearView (csCleared s') ms \<and> csTaskHash s' = hashMessages sha (take 1 ms)"
  proof (rule ClearPrepare_cases)
    fix s batch view tokens reclaimed
    assume "s = forgetOtherHistory sha ms (s0\<lparr>csLastCompaction := None\<rparr>)" "csTaskHash s' = csTaskHash s"
      and "view = clearView (csCleared s') ms"
      "r = view \<and> 0 < FitLimit b \<and> tokens - reclaimed \<le> FitLimit b
            \<or> r = slidingWindowFallback reenc view (b\<lparr>CurrentTokens := tokens - reclaimed\<rparr>)"
    then show ?thesis
      using assms(4) SlidingWindowPrepare_same_length [of reenc view "b\<lparr>CurrentTokens := tokens - reclaimed\<rparr>"]
      by (auto simp: slidingWindowFallback_def forgetOtherHistory_def Let_def)
  qed
  then show "r = clearView (csCleared s') ms" "csTaskHash s' = hashMessages sha (take 1 ms)"
    by auto
qed

lemma ClearPrepare_quiet:
  assumes "ms \<noteq> []" "clearInv s0" "ClearPrepare reenc sha s0 ms b = (r, s')" "csLastCompaction s' = None"
    and "csTaskHash s0 = hashMessages sha (take 1 ms)"
  shows "r = clearView (csCleared s0) ms"
proof -
  from assms(1-3) have "length r = length ms \<and> csCleared s' = csCleared s0"
  proof (rule ClearPrepare_cases)
    fix s batch
    assume "s = forgetOtherHistory sha ms (s0\<lparr>csLastCompaction := None\<rparr>)"
      "csCleared s' = csCleared s @ map ccRef batch"
      "csLastCompaction s' = None \<Longrightarrow> batch = [] \<and> length r = length ms"
    then show ?thesis
      using assms(4,5) by (simp add: forgetOtherHistory_def)
  qed
  then show ?thesis
    using ClearPrepare_full_length(1) [OF assms(1-3)] by simp
qed

text \<open>Clearing changes neither the positions of results nor the calls they answer.\<close>

definition resultRefs :: "Message list \<Rightarrow> resultRef list" where
  "resultRefs ms = map (\<lambda>(i, j). blockRef i j (MContent (ms ! i) ! j))
     (filter (\<lambda>(i, j). Type (MContent (ms ! i) ! j) = ''tool_result'') (blockPositions ms))"

lemma blockPositions_clearView [simp]: "blockPositions (clearView R ms) = blockPositions ms"
  unfolding blockPositions_def length_clearView
  by (intro arg_cong [of _ _ concat] map_cong) auto

lemma clearBlockAt_sel [simp]:
  "Type (clearBlockAt R i j b) = Type b" "ToolUseID (clearBlockAt R i j b) = ToolUseID b"
  by (simp_all add: clearBlockAt_def)

lemma resultRefs_clearView: "resultRefs (clearView R ms) = resultRefs ms"
proof -
  have "Type (MContent (clearView R ms ! i) ! j) = Type (MContent (ms ! i) ! j)"
    "blockRef i j (MContent (clearView R ms ! i) ! j) = blockRef i j (MContent (ms ! i) ! j)"
    if "(i, j) \<in> set (blockPositions ms)" for i j
    using that by (auto simp: blockPositions_set blockRef_def)
  then show ?thesis
    unfolding resultRefs_def blockPositions_clearView
    by (intro map_cong filter_cong) auto
qed

lemma find_map_index:
  assumes "\<And>j x. P (f j x) = P x" "\<And>j x. P x \<Longrightarrow> f j x = x"
  shows "find P (map (\<lambda>j. f j (xs ! j)) [0..<length xs]) = find P xs"
  using assms
proof (induction xs arbitrary: f)
  case (Cons x xs)
  have "map (\<lambda>j. f j ((x # xs) ! j)) [0..<length (x # xs)]
      = f 0 x # map (\<lambda>j. f (Suc j) (xs ! j)) [0..<length xs]"
    by (simp add: map_upt_Suc del: upt_Suc)
  then show ?case
    using Cons.IH [of "\<lambda>j. f (Suc j)"] Cons.prems by (cases "P x") auto
qed simp

lemma find_clearMessageAt:
  "find (\<lambda>b. Type b = ''tool_use'' \<and> Q b) (MContent (clearMessageAt R i m))
     = find (\<lambda>b. Type b = ''tool_use'' \<and> Q b) (MContent m)"
  unfolding clearMessageAt_def
  by (simp, rule find_map_index) (auto simp: clearBlockAt_def)

lemma isExcluded_clearView:
  assumes "rrMessage r < length ms"
  shows "isExcluded s (clearView R ms) r = isExcluded s ms r"
  using assms by (simp add: isExcluded_def find_clearMessageAt)

lemma Role_clearView: "i < length ms \<Longrightarrow> Role (clearView R ms ! i) = Role (ms ! i)"
  by (simp add: clearMessageAt_def)

section \<open>Properties\<close>

definition longResults :: "Message list" where
  "longResults =
     [mkMessage ''user'' [textBlock ''task''],
      mkMessage ''assistant'' [toolUseBlock ''t1'' ''read_file''],
      mkMessage ''user'' [toolResultBlock ''t1'' (replicate 400 (CHR ''x''))],
      mkMessage ''assistant'' [toolUseBlock ''t2'' ''read_file''],
      mkMessage ''user'' [toolResultBlock ''t2'' (replicate 400 (CHR ''y''))]]"

definition clearCfg :: ClearToolResultsConfig where
  "clearCfg = \<lparr>Keep = 1, ClearAtLeast = 20, ExcludeTools = [''search''], InternalName = None\<rparr>"

definition clearBudget :: "int \<Rightarrow> TokenBudget" where
  "clearBudget maxTokens = \<lparr>MaxTokens = maxTokens, CurrentTokens = 250, ReserveForResponse = 0\<rparr>"

abbreviation firstClear :: "Message list \<times> ClearToolResultsStrategy" where
  "firstClear \<equiv> ClearPrepare (\<lambda>_ _. None) (take 8) (NewClearToolResultsStrategy clearCfg) longResults (clearBudget 250)"

text \<open>
  C17: between batches the prepared history is the previous one plus the new messages. In a run that
  starts from a fresh strategy and only appends to the history, a turn that drops no message is
  followed, when the next turn reports no compaction, by exactly its own prepared history with the
  new messages appended, which is what keeps the provider's prompt cache valid.
\<close>

theorem clear_results_prefix_stable:
  assumes run: "clearRun reenc sha cfg ms0 s0" and ms: "ms = ms0 @ new0" "ms \<noteq> []"
    and first: "ClearPrepare reenc sha s0 ms b1 = (r1, s1)" "length r1 = length ms"
    and second: "ClearPrepare reenc sha s1 (ms @ new) b2 = (r2, s2)" "csLastCompaction s2 = None"
  shows "r2 = r1 @ new"
proof -
  have inv: "refsWithin ms0 s0" "clearInv s0"
    using clearRun_refsWithin [OF run] by (auto simp: refsWithin_def)
  have within: "refsWithin ms s1"
    by (rule ClearPrepare_refsWithin [OF inv(1) _ first(1)]) (simp add: ms)
  have r1: "r1 = clearView (csCleared s1) ms" "csTaskHash s1 = hashMessages sha (take 1 (ms @ new))"
    using ClearPrepare_full_length [OF ms(2) inv(2) first] ms(2) by (cases ms; auto)+
  have "r2 = clearView (csCleared s1) (ms @ new)"
    using ms(2) within r1(2) by (intro ClearPrepare_quiet [OF _ _ second]) (auto simp: refsWithin_def)
  then show ?thesis
    using within clearView_append r1(1) by (simp add: refsWithin_def)
qed

theorem clear_results_prefix_stable_witness:
  "csCleared (snd firstClear) = [\<lparr>rrMessage = 2, rrBlock = 0, rrToolUseID = ''t1''\<rparr>]
   \<and> fst (ClearPrepare (\<lambda>_ _. None) (take 8) (snd firstClear)
            (longResults @ [mkMessage ''assistant'' [textBlock ''ok'']]) (clearBudget 400))
       = fst firstClear @ [mkMessage ''assistant'' [textBlock ''ok'']]"
proof -
  have "length (fst firstClear) = length longResults" "longResults \<noteq> []"
    "csLastCompaction (snd (ClearPrepare (\<lambda>_ _. None) (take 8) (snd firstClear)
        (longResults @ [mkMessage ''assistant'' [textBlock ''ok'']]) (clearBudget 400))) = None"
    by code_simp+
  from clear_results_prefix_stable [OF clearRun.start _ this(2) surjective_pairing this(1)
      surjective_pairing this(3)]
  have "fst (ClearPrepare (\<lambda>_ _. None) (take 8) (snd firstClear)
            (longResults @ [mkMessage ''assistant'' [textBlock ''ok'']]) (clearBudget 400))
       = fst firstClear @ [mkMessage ''assistant'' [textBlock ''ok'']]"
    by simp
  moreover have "csCleared (snd firstClear) = [\<lparr>rrMessage = 2, rrBlock = 0, rrToolUseID = ''t1''\<rparr>]"
    by code_simp
  ultimately show ?thesis by simp
qed

text \<open>
  What a clearing batch may touch. Every result a call newly clears is a result of the history
  with at least Keep results after it, is not in a trailing user message, and does not answer a call
  to an excluded tool. A call clears only when the view exceeds a positive fit limit, and then
  reclaims at least the batch minimum and either brings the request within the limit or clears
  every candidate.
\<close>

theorem clear_results_batch_protects:
  assumes "ms \<noteq> []" "distinct (csCleared s0)" "0 \<le> csKeep s0"
    and "ClearPrepare reenc sha s0 ms b = (r, s')"
    and s: "s = forgetOtherHistory sha ms s0" and ref: "ref \<in> set (csCleared s') - set (csCleared s)"
  shows "ref \<in> set (take (nat (len (resultRefs ms) - csKeep s)) (resultRefs ms))
     \<and> \<not> (rrMessage ref = length ms - 1 \<and> Role (ms ! (length ms - 1)) = ''user'')
     \<and> \<not> isExcluded s ms ref
     \<and> 0 < FitLimit b \<and> FitLimit b < clearTokens reenc (csCleared s) ms b
     \<and> batchMinimum s (FitLimit b)
         \<le> clearTokens reenc (csCleared s) ms b - clearTokens reenc (csCleared s') ms b
     \<and> (clearTokens reenc (csCleared s') ms b \<le> FitLimit b
        \<or> (\<forall>c \<in> set (candidates reenc s (clearView (csCleared s) ms)). ccRef c \<in> set (csCleared s')))"
  using assms(1,2,4)
proof (rule ClearPrepare_cases)
  fix s1 batch view tokens reclaimed
  assume s1: "s1 = forgetOtherHistory sha ms (s0\<lparr>csLastCompaction := None\<rparr>)"
    and cleared: "csCleared s' = csCleared s1 @ map ccRef batch"
    and batch: "prefix batch (candidates reenc s1 (clearView (csCleared s1) ms))"
      "batch \<noteq> [] \<Longrightarrow> 0 < FitLimit b \<and> FitLimit b < tokens \<and> batchMinimum s1 (FitLimit b) \<le> reclaimed
       \<and> (tokens - FitLimit b \<le> reclaimed \<or> batch = candidates reenc s1 (clearView (csCleared s1) ms))"
    and tokens: "tokens = clearTokens reenc (csCleared s1) ms b"
      "tokens - reclaimed = clearTokens reenc (csCleared s') ms b"
  have s1': "s1 = s\<lparr>csLastCompaction := None\<rparr>"
    by (simp add: s1 s forgetOtherHistory_def Let_def)
  have excl: "isExcluded s1 = isExcluded s"
    by (intro ext) (simp add: s1' isExcluded_def cong: option.case_cong)
  then have same: "csCleared s1 = csCleared s" "batchMinimum s1 = batchMinimum s"
    "candidates reenc s1 = candidates reenc s" "csKeep s1 = csKeep s"
    by (simp_all add: s1' batchMinimum_def [abs_def] candidates_def [abs_def] cong: if_cong)
  note same = same excl
  let ?v = "clearView (csCleared s) ms"
  obtain c where c: "c \<in> set batch" "ref = ccRef c"
    using ref cleared by (auto simp: same)
  then have "c \<in> set (candidates reenc s ?v)"
    using set_mono_prefix [OF batch(1)] by (auto simp: same)
  note cand = set_candidates [OF this]
  have all: "map ccRef (allResults reenc ?v) = resultRefs ms"
    by (metis allResults_refs resultRefs_clearView resultRefs_def)
  then have "len (allResults reenc ?v) = len (resultRefs ms)"
    by (metis length_map)
  moreover have "nat (max k 0) = nat k" for k :: int
    by simp
  ultimately have "ref \<in> set (take (nat (len (resultRefs ms) - csKeep s)) (resultRefs ms))"
    using cand c(2) by (simp add: take_map flip: all)
  moreover have "rrMessage ref < length ms"
    using batch_valid [OF batch(1)] c by (auto simp: same validRef_def)
  moreover have "\<not> (rrMessage ref = length ms - 1 \<and> Role (ms ! (length ms - 1)) = ''user'')"
    using cand c(2) assms(1) Role_clearView [of "length ms - 1" ms "csCleared s"] by simp
  moreover have "batch \<noteq> []"
    using c(1) by auto
  ultimately show ?thesis
    using cand c batch(2) tokens cleared by (auto simp: same isExcluded_clearView)
qed

theorem clear_results_batch_protects_witness:
  "\<lparr>rrMessage = 2, rrBlock = 0, rrToolUseID = ''t1''\<rparr> \<in> set (take 1 (resultRefs longResults))
   \<and> 20 \<le> clearTokens (\<lambda>_ _. None) [] longResults (clearBudget 250)
         - clearTokens (\<lambda>_ _. None) (csCleared (snd firstClear)) longResults (clearBudget 250)"
proof -
  let ?s0 = "NewClearToolResultsStrategy clearCfg"
  have "\<lparr>rrMessage = 2, rrBlock = 0, rrToolUseID = ''t1''\<rparr>
      \<in> set (csCleared (snd firstClear)) - set (csCleared (forgetOtherHistory (take 8) longResults ?s0))"
    "longResults \<noteq> []" "distinct (csCleared ?s0)" "0 \<le> csKeep ?s0"
    by code_simp+
  from clear_results_batch_protects [OF this(2-4) surjective_pairing refl this(1)]
  have "\<lparr>rrMessage = 2, rrBlock = 0, rrToolUseID = ''t1''\<rparr> \<in> set (take
        (nat (len (resultRefs longResults) - csKeep (forgetOtherHistory (take 8) longResults ?s0)))
        (resultRefs longResults))"
    "batchMinimum (forgetOtherHistory (take 8) longResults ?s0) (FitLimit (clearBudget 250))
      \<le> clearTokens (\<lambda>_ _. None) (csCleared (forgetOtherHistory (take 8) longResults ?s0)) longResults (clearBudget 250)
        - clearTokens (\<lambda>_ _. None) (csCleared (snd firstClear)) longResults (clearBudget 250)"
    by blast+
  moreover have "len (resultRefs longResults) = 2" "csKeep (forgetOtherHistory (take 8) longResults ?s0) = 1"
    "batchMinimum (forgetOtherHistory (take 8) longResults ?s0) (FitLimit (clearBudget 250)) = 20"
    "csCleared (forgetOtherHistory (take 8) longResults ?s0) = []"
    by code_simp+
  ultimately show ?thesis by simp
qed

text \<open>
  The sizes the strategy reports are the sizes of the history it returns, and whenever the fit
  limit is positive the prepared history meets it unless only the task and the last exchange of the
  cleared view are left.
\<close>

theorem clear_results_fits:
  assumes "distinct (csCleared s0)" "ClearPrepare reenc sha s0 ms b = (r, s')"
  shows "(\<forall>e. csLastCompaction s' = Some e \<longrightarrow>
       TokensAfter e = CurrentTokens b - estimateHistory reenc ms + estimateHistory reenc r)
   \<and> (0 < FitLimit b \<and> ms \<noteq> [] \<longrightarrow> CurrentTokens b - estimateHistory reenc ms + estimateHistory reenc r \<le> FitLimit b
      \<or> r = fst (minimalHistory (clearView (csCleared s') ms)))"
proof (cases "ms = []")
  case False
  from False assms show ?thesis
  proof (rule ClearPrepare_cases)
    fix s batch view tokens reclaimed
    assume view: "view = clearView (csCleared s') ms"
      and t: "tokens - reclaimed = clearTokens reenc (csCleared s') ms b"
      and r: "r = view \<and> 0 < FitLimit b \<and> tokens - reclaimed \<le> FitLimit b
            \<or> r = slidingWindowFallback reenc view (b\<lparr>CurrentTokens := tokens - reclaimed\<rparr>)"
      and e: "\<And>e. csLastCompaction s' = Some e \<Longrightarrow> MessagesBefore e = len ms \<and> MessagesAfter e = len r
       \<and> ToolResultsCleared e = len batch \<and> TokensBefore e = tokens
       \<and> TokensAfter e = CurrentTokens b - estimateHistory reenc ms + estimateHistory reenc r"
    have limit: "FitLimit (b\<lparr>CurrentTokens := t\<rparr>) = FitLimit b" for t
      by (simp add: FitLimit_def)
    show ?thesis
      using e r t SlidingWindowPrepare_fits [of "b\<lparr>CurrentTokens := tokens - reclaimed\<rparr>" reenc view]
      by (auto simp: limit slidingWindowFallback_def clearTokens_def view)
  qed
qed (use assms in auto)

theorem clear_results_fits_witness:
  "CurrentTokens (clearBudget 250) - estimateHistory (\<lambda>_ _. None) longResults
     + estimateHistory (\<lambda>_ _. None) (fst firstClear) \<le> FitLimit (clearBudget 250)"
proof -
  have "distinct (csCleared (NewClearToolResultsStrategy clearCfg))" "0 < FitLimit (clearBudget 250)"
    "longResults \<noteq> []"
    "length (fst firstClear) \<noteq> length (fst (minimalHistory (clearView (csCleared (snd firstClear)) longResults)))"
    by code_simp+
  with clear_results_fits [OF this(1) surjective_pairing, of "\<lambda>_ _. None" "take 8" longResults "clearBudget 250"]
  show ?thesis
    by metis
qed

end
