(* ===== verification/Loop_Fit.thy ===== *)
theory Loop_Fit
  imports Context_Fit
begin

text \<open>
  The context-fit postcondition of the agentic loop: \<open>fitPreparedRequest\<close> of
  \<open>core/contextfit.go\<close> and the request estimates of \<open>core/types.go\<close>. The span, the metrics
  and the log are left out; the loop field \<open>historyRewritten\<close> the function sets is returned.
\<close>

record ToolDefinition =
  tdName :: string
  Description :: string
  InputSchema :: string
  Deferred :: bool
  Namespace :: string
  NamespaceDescription :: string

definition tokenEstimationDivisor :: int where "tokenEstimationDivisor = 4"
definition toolDefinitionOverheadTokens :: int where "toolDefinitionOverheadTokens = 10"

definition estimateCurrentTokens ::
  "(string \<Rightarrow> string \<Rightarrow> string option) \<Rightarrow> Message list \<Rightarrow> bool \<Rightarrow> int" where
  "estimateCurrentTokens reenc messages structuredResults =
     (let tot = estimateHistory reenc messages;
          envelopes = sum_list (map (\<lambda>msg. sum_list (map
             (\<lambda>block. if Type block = ''tool_result''
                then len (ToolResultWireEnvelope reenc block) sdiv tokenEstimationDivisor else 0)
             (MContent msg))) messages)
      in max (if \<not> structuredResults then tot - envelopes else tot) 1)"

definition estimateSystemPromptTokens :: "string \<Rightarrow> int" where
  "estimateSystemPromptTokens systemPrompt =
     len systemPrompt sdiv tokenEstimationDivisor + messageOverheadTokens"

definition estimateLoadedToolDefinitionTokens ::
  "ToolDefinition list \<Rightarrow> (string \<Rightarrow> bool) option \<Rightarrow> int" where
  "estimateLoadedToolDefinitionTokens tools loaded =
     sum_list (map (\<lambda>t.
       if Deferred t \<and> (case loaded of None \<Rightarrow> True | Some f \<Rightarrow> \<not> f (tdName t)) then 0
       else toolDefinitionOverheadTokens
            + len (tdName t) sdiv tokenEstimationDivisor
            + len (Description t) sdiv tokenEstimationDivisor
            + len (InputSchema t) sdiv tokenEstimationDivisor) tools)"

text \<open>The sizes the error of \<open>fitPreparedRequest\<close> names, in the order of its message.\<close>

datatype fitError = ContextBudgetExhausted int int int int int int

record fitResult =
  frMessages :: "Message list"
  frTokens :: int
  frError :: "fitError option"
  frRewritten :: bool

definition fitPreparedRequest ::
  "(string \<Rightarrow> string \<Rightarrow> string option) \<Rightarrow> bool \<Rightarrow> (string \<Rightarrow> bool) option \<Rightarrow> Message list \<Rightarrow>
   string \<Rightarrow> ToolDefinition list \<Rightarrow> TokenBudget \<Rightarrow> bool \<Rightarrow> fitResult" where
  "fitPreparedRequest reenc rewritten loaded prepared systemPrompt toolDefs budget structuredResults =
     (let systemTokens = estimateSystemPromptTokens systemPrompt;
          toolTokens = estimateLoadedToolDefinitionTokens toolDefs loaded;
          tokens = estimateCurrentTokens reenc prepared structuredResults + systemTokens + toolTokens;
          limit = FitLimit budget
      in if tokens \<le> limit
         then \<lparr>frMessages = prepared, frTokens = tokens, frError = None, frRewritten = rewritten\<rparr>
         else
           let (fitted0, c) = TruncateToolResults prepared (tokens - limit);
               fitted = (if c > 0 then StripThinkingBlocks fitted0 else fitted0);
               tokens' = (if c > 0
                 then estimateCurrentTokens reenc fitted structuredResults + systemTokens + toolTokens
                 else tokens);
               rewritten' = (rewritten \<or> c > 0)
           in if tokens' \<le> limit
              then \<lparr>frMessages = fitted, frTokens = tokens', frError = None, frRewritten = rewritten'\<rparr>
              else
                let taskTokens = (if fitted \<noteq> []
                      then estimateCurrentTokens reenc (take 1 fitted) structuredResults else 0)
                in \<lparr>frMessages = fitted, frTokens = tokens',
                    frError = Some (ContextBudgetExhausted tokens' systemTokens toolTokens taskTokens
                      (tokens' - systemTokens - toolTokens - taskTokens) c),
                    frRewritten = rewritten'\<rparr>)"

section \<open>The request estimate as a sum over blocks\<close>

definition blockTokens ::
  "(string \<Rightarrow> string \<Rightarrow> string option) \<Rightarrow> bool \<Rightarrow> ContentBlock \<Rightarrow> int" where
  "blockTokens reenc sr b =
     estimateBlockTokens reenc b
     - (if \<not> sr \<and> Type b = ''tool_result'' then len (ToolResultWireEnvelope reenc b) div 4 else 0)"

lemma blockTokens_ge: "3 \<le> blockTokens reenc sr b"
  by (auto simp: blockTokens_def estimateBlockTokens_def Let_def estimate_consts
      pos_imp_zdiv_nonneg_iff)

lemma sum_list_minus:
  "sum_list (map f xs) - sum_list (map g xs) = sum_list (map (\<lambda>x. f x - (g x :: int)) xs)"
  by (induction xs) auto

lemma estimateCurrentTokens_eq:
  "estimateCurrentTokens reenc ms sr
     = max (sum_list (map messageTokens ms) + blockSum (blockTokens reenc sr) ms) 1"
proof -
  note estimateHistory_blocks [of reenc ms]
  moreover have "blockTokens reenc True = estimateBlockTokens reenc"
    by (simp add: blockTokens_def fun_eq_iff)
  moreover have "blockSum (estimateBlockTokens reenc) ms
      - sum_list (map (\<lambda>msg. sum_list (map (\<lambda>block. if Type block = ''tool_result''
          then len (ToolResultWireEnvelope reenc block) sdiv tokenEstimationDivisor else 0)
             (MContent msg))) ms) = blockSum (blockTokens reenc False) ms"
    by (auto simp: blockSum_def blockTokens_def sum_list_minus tokenEstimationDivisor_def
        intro!: arg_cong [of _ _ sum_list] map_cong)
  ultimately show ?thesis
    unfolding estimateCurrentTokens_def Let_def by (cases sr) auto
qed

lemma request_tokens_pos:
  assumes "ms \<noteq> []"
  shows "1 \<le> sum_list (map messageTokens ms) + blockSum (blockTokens reenc sr) ms"
proof -
  have "0 \<le> blockSum (blockTokens reenc sr) ms"
    unfolding blockSum_def
    by (intro sum_list_nonneg) (auto intro!: sum_list_nonneg order_trans [OF _ blockTokens_ge])
  moreover have "4 \<le> sum_list (map messageTokens ms)"
  proof (cases ms)
    case (Cons m ms')
    have "0 \<le> sum_list (map messageTokens ms')"
      by (intro sum_list_nonneg) (auto intro!: order_trans [OF _ messageTokens_ge])
    then show ?thesis
      using messageTokens_ge [of m] by (simp add: Cons)
  qed (use assms in simp)
  ultimately show ?thesis by simp
qed

section \<open>A cut lowers the estimate by at least what it takes off the need\<close>

text \<open>
  The envelope a block carries is either empty or what its estimate counts: the hypothesis under
  which bytes taken from \<open>need\<close> are bytes the estimate measures.
\<close>

definition envelopeCounted ::
  "(string \<Rightarrow> string \<Rightarrow> string option) \<Rightarrow> bool \<Rightarrow> ContentBlock \<Rightarrow> bool" where
  "envelopeCounted reenc sr b =
     (Type b = ''tool_result'' \<longrightarrow>
        Structured b = [] \<or> sr \<and> ToolResultWireEnvelope reenc b = Structured b)"

lemma envelopeCounted_cutBlock [simp]: "envelopeCounted reenc sr (cutBlock k b)"
  by (simp add: envelopeCounted_def)

lemma wireEnvelope_empty [simp]: "Structured b = [] \<Longrightarrow> ToolResultWireEnvelope reenc b = []"
  by (simp add: ToolResultWireEnvelope_def)

lemma blockTokens_cutBlock:
  assumes "Type b = ''tool_result''" "envelopeCounted reenc sr b"
  shows "bodySize b - bodySize (cutBlock k b) - 6
     \<le> 4 * (blockTokens reenc sr b - blockTokens reenc sr (cutBlock k b))"
proof -
  let ?c = "len (Content b)" and ?c' = "len (truncateHeadTail (Content b) k)" and ?s = "len (Structured b)"
  have "blockTokens reenc sr b - blockTokens reenc sr (cutBlock k b)
      = ?c div 4 - ?c' div 4 + ?s div 4"
    using assms by (auto simp: blockTokens_def estimateBlockTokens_def Let_def estimate_consts
        envelopeCounted_def cutBlock_def)
  moreover have "?c - ?c' + ?s - 6 \<le> 4 * (?c div 4 - ?c' div 4 + ?s div 4)"
    by presburger
  ultimately show ?thesis
    by (simp add: bodySize_def)
qed

definition tokensOk ::
  "(string \<Rightarrow> string \<Rightarrow> string option) \<Rightarrow> bool \<Rightarrow> Message list \<Rightarrow> int \<Rightarrow> resultTruncator \<Rightarrow> bool" where
  "tokensOk reenc sr ms n t =
     ((\<forall>m \<in> set (hv_result t). \<forall>b \<in> set (MContent m). envelopeCounted reenc sr b)
      \<and> n \<le> trNeed t + 4 * (blockSum (blockTokens reenc sr) ms
                            - blockSum (blockTokens reenc sr) (hv_result t)))"

lemma putBlock_ball:
  assumes "\<forall>m \<in> set ms. \<forall>b \<in> set (MContent m). P b" "P b'" "i < length ms"
  shows "\<forall>m \<in> set (putBlock i j b' ms). \<forall>b \<in> set (MContent m). P b"
proof -
  have "\<forall>b \<in> set (MContent (ms ! i)). P b"
    using assms(1,3) nth_mem by blast
  then show ?thesis
    using assms unfolding putBlock_def
    by (auto dest!: set_update_subset_insert [THEN subsetD])
qed

lemma passBlock_tokensOk:
  assumes "hvMessages t = ms" "hv_inv t" "tokensOk reenc sr ms n t" "0 < trNeed t" "i < length ms"
    "j < length (MContent (ms ! i))"
  shows "tokensOk reenc sr ms n (passBlock minSize i j t)"
proof (rule passBlock_cases [of t i j minSize])
  fix k
  let ?b = "MContent (hv_result t ! i) ! j" and ?t' = "passBlock minSize i j t"
  assume tr: "Type ?b = ''tool_result''"
    and v: "hvView ?t' = Some (putBlock i j (cutBlock k ?b) (hv_result t))"
    and n: "trNeed ?t' = trNeed t - (bodySize ?b - bodySize (cutBlock k ?b) - truncationSlackChars)"
  have ij: "i < length (hv_result t)" "j < length (MContent (hv_result t ! i))"
    using hv_inv_length [OF assms(2)] assms by auto
  have "envelopeCounted reenc sr ?b"
    using assms(3) ij unfolding tokensOk_def by (meson nth_mem)
  then have "bodySize ?b - bodySize (cutBlock k ?b) - truncationSlackChars
      \<le> 4 * (blockTokens reenc sr ?b - blockTokens reenc sr (cutBlock k ?b))"
    using blockTokens_cutBlock [OF tr, of reenc sr k] by (simp add: truncationSlackChars_def)
  moreover have "\<forall>m \<in> set (hv_result ?t'). \<forall>b \<in> set (MContent m). envelopeCounted reenc sr b"
    unfolding hv_result_Some [OF v]
    by (rule putBlock_ball) (use assms(3) ij in \<open>auto simp: tokensOk_def\<close>)
  ultimately show ?thesis
    using assms(3) n unfolding tokensOk_def hv_result_Some [OF v] blockSum_putBlock [OF ij]
    by (auto simp: algebra_simps)
qed (use assms in auto)

lemma runTruncator_tokensOk:
  assumes "\<forall>m \<in> set ms. \<forall>b \<in> set (MContent m). envelopeCounted reenc sr b"
  shows "tokensOk reenc sr ms (4 * excess) (runTruncator ms excess)"
proof -
  have "tokensOk reenc sr ms (4 * excess) (newTruncator ms excess)"
    using assms by (simp add: tokensOk_def newTruncator_def hv_result_def)
  then show ?thesis
    using runTruncator_invariant [of ms "tokensOk reenc sr ms (4 * excess)" excess] passBlock_tokensOk
    by blast
qed

lemma blockSum_withoutThinking:
  "blockSum (blockTokens reenc sr) (map withoutThinking ms) \<le> blockSum (blockTokens reenc sr) ms"
proof -
  have "sum_list (map w (filter P bs)) \<le> sum_list (map w bs)" if "\<And>b. 0 \<le> w b" for P bs and w :: "ContentBlock \<Rightarrow> int"
    using that by (induction bs) (auto intro: add_increasing)
  then show ?thesis
    unfolding blockSum_def map_map comp_def
    by (intro sum_list_mono) (simp add: withoutThinking_def order_trans [OF _ blockTokens_ge])
qed

lemma messageTokens_same:
  "sum_list (map messageTokens (map withoutThinking ms)) = sum_list (map messageTokens ms)"
  by (simp add: messageTokens_def [abs_def] withoutThinking_def comp_def)

section \<open>The postcondition of the fit check\<close>

lemma TruncateToolResults_eq:
  assumes "0 < excess"
  shows "TruncateToolResults ms excess
     = (hv_result (runTruncator ms excess), trCut (runTruncator ms excess))"
  using assms runTruncator_truncated(2,3) [of ms excess]
  by (auto simp: TruncateToolResults_def Let_def hv_result_def ledgerOk_def split: option.splits)

lemma fit_after_cut:
  assumes ne: "ms \<noteq> []" and env: "\<forall>m \<in> set ms. \<forall>b \<in> set (MContent m). envelopeCounted reenc sr b"
    and excess: "0 < excess" and met: "trNeed (runTruncator ms excess) \<le> 0"
  shows "estimateCurrentTokens reenc (StripThinkingBlocks (hv_result (runTruncator ms excess))) sr
    \<le> estimateCurrentTokens reenc ms sr - excess"
proof -
  let ?v = "hv_result (runTruncator ms excess)"
  let ?tok = "\<lambda>ms. sum_list (map messageTokens ms) + blockSum (blockTokens reenc sr) ms"
  have trimmed: "trimmedHistory ms ?v"
    using hv_inv_trimmed [OF runTruncator_truncated(1), of ms excess] runTruncator_truncated(2)
    by simp
  have "excess \<le> blockSum (blockTokens reenc sr) ms - blockSum (blockTokens reenc sr) ?v"
    using runTruncator_tokensOk [OF env, of excess] met by (auto simp: tokensOk_def)
  then have "?tok (map withoutThinking ?v) \<le> ?tok ms - excess"
    using blockSum_withoutThinking [of reenc sr ?v] messageTokens_trimmed [OF trimmed]
    unfolding messageTokens_same by linarith
  moreover have "1 \<le> ?tok (map withoutThinking ?v)" "1 \<le> ?tok ms"
    using ne trimmed by (intro request_tokens_pos; auto)+
  ultimately show ?thesis
    by (simp add: estimateCurrentTokens_eq StripThinkingBlocks_eq)
qed

lemma withoutThinking_blocks: "b \<in> set (MContent (withoutThinking m)) \<Longrightarrow> b \<in> set (MContent m)"
  by (simp add: withoutThinking_def)


definition smallBudget :: TokenBudget where
  "smallBudget = \<lparr>MaxTokens = 60, CurrentTokens = 0, ReserveForResponse = 10\<rparr>"


definition mirroredResult :: "Message list" where
  "mirroredResult =
     [mkMessage ''user'' [textBlock ''fix it''],
      mkMessage ''assistant'' [toolUseBlock ''t1'' ''run_command''],
      mkMessage ''user'' [(toolResultBlock ''t1'' (replicate 160 CHR ''x''))
        \<lparr>Structured := replicate 170 CHR ''s''\<rparr>]]"

text \<open>
  The fit check can refuse a request that truncation would make fit. The truncator takes the
  bytes of a dropped structured envelope off its need, although the estimate of a provider that is
  not sent the envelope never counted them. Here the envelope alone covers the need, the content
  is left uncut, and the check fails, while cutting that one result meets the limit.
\<close>

theorem fitPreparedRequest_refuses_fittable:
  "frError (fitPreparedRequest (\<lambda>_ _. None) False None mirroredResult [] [] smallBudget False) \<noteq> None
   \<and> trimmedHistory mirroredResult
        (putBlock 2 0 (cutBlock 0 (MContent (mirroredResult ! 2) ! 0)) mirroredResult)
   \<and> estimateCurrentTokens (\<lambda>_ _. None)
        (putBlock 2 0 (cutBlock 0 (MContent (mirroredResult ! 2) ! 0)) mirroredResult) False
      + estimateSystemPromptTokens [] + estimateLoadedToolDefinitionTokens [] None
     \<le> FitLimit smallBudget"
proof -
  have "frError (fitPreparedRequest (\<lambda>_ _. None) False None mirroredResult [] [] smallBudget False) \<noteq> None"
    by code_simp
  moreover have "trimmedHistory mirroredResult
      (putBlock 2 0 (cutBlock 0 (MContent (mirroredResult ! 2) ! 0)) mirroredResult)"
    by (rule trimmedHistory_putBlock [OF trimmedHistory_refl])
      (auto simp: mirroredResult_def message_literals intro!: trimmedBlock_cutBlock)
  moreover have "estimateCurrentTokens (\<lambda>_ _. None)
        (putBlock 2 0 (cutBlock 0 (MContent (mirroredResult ! 2) ! 0)) mirroredResult) False
      + estimateSystemPromptTokens [] + estimateLoadedToolDefinitionTokens [] None
     \<le> FitLimit smallBudget"
    by code_simp
  ultimately show ?thesis by blast
qed

end
