(* ===== verification/Offload.thy ===== *)
theory Offload
  imports Context_Fit
begin

text \<open>
  \<open>OffloadToFileStrategy\<close> of \<open>offload.go\<close>. The \<open>FileWriter\<close> is the argument
  \<open>writeFile\<close>, which acts on a workspace of any type and reports whether the wr succeeded; the
  writes a call makes are exhibited in order.
\<close>

section \<open>The strategy\<close>

definition offloadSizeThreshold :: int where "offloadSizeThreshold = 2000"
definition recentPreservedMessages :: nat where "recentPreservedMessages = 6"

definition offloadFilePath :: "nat \<Rightarrow> string \<Rightarrow> string" where
  "offloadFilePath turnIndex toolUseID =
     ''.stirrup/context/turn-'' @ Itoa (int turnIndex) @ ''-'' @ toolUseID @ ''.txt''"

definition offloadReference :: "string \<Rightarrow> string" where
  "offloadReference filePath =
     ''[Full output offloaded to '' @ filePath @ '' '' @ [CHR 0xE2, CHR 0x80, CHR 0x94]
     @ '' read this file if you need the details]''"

definition offloadBlock ::
  "('w \<Rightarrow> string \<Rightarrow> string \<Rightarrow> bool \<times> 'w) \<Rightarrow> nat \<Rightarrow> ContentBlock \<Rightarrow> 'w \<Rightarrow> ContentBlock \<times> bool \<times> 'w" where
  "offloadBlock writeFile i block w =
     (if Type block \<noteq> ''tool_result'' \<or> len (Content block) < offloadSizeThreshold
      then (block, False, w)
      else
        let filePath = offloadFilePath i (ToolUseID block);
            (ok, w') = writeFile w filePath (Content block);
            content = (if \<not> ok then truncateHeadTail (Content block) (nat truncationKeepChars)
                       else offloadReference filePath)
        in (block\<lparr>Content := content, Structured := [], Kind := []\<rparr>, True, w'))"

fun offloadBlocks ::
  "('w \<Rightarrow> string \<Rightarrow> string \<Rightarrow> bool \<times> 'w) \<Rightarrow> nat \<Rightarrow> ContentBlock list \<Rightarrow> 'w
     \<Rightarrow> ContentBlock list \<times> bool \<times> 'w" where
  "offloadBlocks writeFile i [] w = ([], False, w)"
| "offloadBlocks writeFile i (b # bs) w =
     (let (b', m, w') = offloadBlock writeFile i b w;
          (bs', ms, w'') = offloadBlocks writeFile i bs w'
      in (b' # bs', m \<or> ms, w''))"

fun offloadMessages ::
  "('w \<Rightarrow> string \<Rightarrow> string \<Rightarrow> bool \<times> 'w) \<Rightarrow> nat \<Rightarrow> nat \<Rightarrow> Message list \<Rightarrow> 'w \<Rightarrow> Message list \<times> 'w" where
  "offloadMessages writeFile recentStart i [] w = ([], w)"
| "offloadMessages writeFile recentStart i (msg # rest) w =
     (if i < recentStart
      then let (newContent, modified, w') = offloadBlocks writeFile i (MContent msg) w;
               msg' = (if modified
                 then \<lparr>Role = Role msg, MContent = newContent, Synthetic = Synthetic msg,
                       MOrigin = MOrigin msg, ReplayFields = ReplayFields msg\<rparr>
                 else msg);
               (rest', w'') = offloadMessages writeFile recentStart (Suc i) rest w'
           in (msg' # rest', w'')
      else (msg # rest, w))"

definition OffloadPrepare ::
  "('w \<Rightarrow> string \<Rightarrow> string \<Rightarrow> bool \<times> 'w) \<Rightarrow> 'w \<times> CompactionEvent option \<Rightarrow> Message list
     \<Rightarrow> TokenBudget \<Rightarrow> Message list \<times> 'w \<times> CompactionEvent option" where
  "OffloadPrepare writeFile s messages budget =
     (let w = fst s; available = FitLimit budget;
          ev = (\<lambda>result. Some \<lparr>Strategy = ''offload-to-file'', MessagesBefore = len messages,
                  MessagesAfter = len result, TokensBefore = CurrentTokens budget, TokensAfter = 0,
                  ToolResultsCleared = 0, Warnings = []\<rparr>)
      in if messages = [] then (messages, w, None)
         else if available \<le> 0
         then let (result, compacted) = minimalHistory messages in
              (result, w, if compacted then ev result else None)
         else if CurrentTokens budget \<le> available then (messages, w, None)
         else let recentStart = length messages - recentPreservedMessages;
                  (result, w') = offloadMessages writeFile recentStart 0 messages w
              in (result, w', ev result))"

section \<open>What a call offloads\<close>

definition offloadable :: "ContentBlock \<Rightarrow> bool" where
  "offloadable b = (Type b = ''tool_result'' \<and> offloadSizeThreshold \<le> len (Content b))"

definition callsOf :: "nat \<Rightarrow> ContentBlock list \<Rightarrow> (string \<times> string) list" where
  "callsOf i bs = map (\<lambda>b. (offloadFilePath i (ToolUseID b), Content b)) (filter offloadable bs)"

fun offloadCalls :: "nat \<Rightarrow> nat \<Rightarrow> Message list \<Rightarrow> (string \<times> string) list" where
  "offloadCalls recentStart i [] = []"
| "offloadCalls recentStart i (m # ms) =
     (if i < recentStart then callsOf i (MContent m) @ offloadCalls recentStart (Suc i) ms else [])"

definition runWrites :: "('w \<Rightarrow> string \<Rightarrow> string \<Rightarrow> bool \<times> 'w) \<Rightarrow> (string \<times> string) list \<Rightarrow> 'w \<Rightarrow> 'w" where
  "runWrites writeFile calls w = fold (\<lambda>(p, c) w. snd (writeFile w p c)) calls w"

text \<open>A block after offloading: untouched unless it is large, and then a reference or a cut.\<close>

definition offloadedBlock :: "nat \<Rightarrow> ContentBlock \<Rightarrow> ContentBlock \<Rightarrow> bool" where
  "offloadedBlock i b b' =
     (if offloadable b
      then b' = b\<lparr>Content := offloadReference (offloadFilePath i (ToolUseID b)), Structured := [], Kind := []\<rparr>
         \<or> b' = b\<lparr>Content := truncateHeadTail (Content b) (nat truncationKeepChars), Structured := [], Kind := []\<rparr>
      else b' = b)"

lemma offloadBlock_spec:
  assumes "offloadBlock wr i b w = (b', m, w')"
  shows "offloadedBlock i b b'" "w' = runWrites wr (callsOf i [b]) w" "\<not> m \<Longrightarrow> b' = b"
  using assms by (auto simp: offloadBlock_def offloadedBlock_def offloadable_def callsOf_def runWrites_def
      Let_def split: if_splits prod.splits)

lemma runWrites_append: "runWrites wr (xs @ ys) w = runWrites wr ys (runWrites wr xs w)"
  by (simp add: runWrites_def)

lemma offloadBlocks_spec:
  "offloadBlocks wr i bs w = (bs', m, w') \<Longrightarrow>
   list_all2 (offloadedBlock i) bs bs' \<and> w' = runWrites wr (callsOf i bs) w \<and> (\<not> m \<longrightarrow> bs' = bs)"
proof (induction bs arbitrary: bs' m w w')
  case Nil
  then show ?case by (simp add: callsOf_def runWrites_def)
next
  case (Cons b bs)
  obtain b1 m1 w1 where 1: "offloadBlock wr i b w = (b1, m1, w1)"
    by (cases "offloadBlock wr i b w")
  obtain bs2 m2 w2 where 2: "offloadBlocks wr i bs w1 = (bs2, m2, w2)"
    by (cases "offloadBlocks wr i bs w1")
  have "callsOf i (b # bs) = callsOf i [b] @ callsOf i bs"
    by (simp add: callsOf_def)
  moreover have "bs' = b1 # bs2" "m = (m1 \<or> m2)" "w' = w2"
    using Cons.prems by (auto simp: 1 2)
  ultimately show ?case
    using Cons.IH [OF 2] offloadBlock_spec [OF 1] by (auto simp: runWrites_append)
qed

definition offloadedMessage :: "nat \<Rightarrow> Message \<Rightarrow> Message \<Rightarrow> bool" where
  "offloadedMessage i m m' =
     (m' = m\<lparr>MContent := MContent m'\<rparr> \<and> list_all2 (offloadedBlock i) (MContent m) (MContent m'))"

lemma offloadMessages_spec:
  "offloadMessages wr rs i ms w = (ms', w') \<Longrightarrow>
   length ms' = length ms \<and> w' = runWrites wr (offloadCalls rs i ms) w
   \<and> (\<forall>k < length ms. if i + k < rs then offloadedMessage (i + k) (ms ! k) (ms' ! k) else ms' ! k = ms ! k)"
proof (induction wr rs i ms w arbitrary: ms' w' rule: offloadMessages.induct)
  case (1 wr rs i w)
  then show ?case by (simp add: runWrites_def)
next
  case (2 wr rs i m ms w)
  show ?case
  proof (cases "i < rs")
    case False
    then show ?thesis using 2 by (auto simp: runWrites_def)
  next
    case True
    obtain bs md w1 where 1: "offloadBlocks wr i (MContent m) w = (bs, md, w1)"
      by (cases "offloadBlocks wr i (MContent m) w")
    obtain ms1 w2 where 2: "offloadMessages wr rs (Suc i) ms w1 = (ms1, w2)"
      by (cases "offloadMessages wr rs (Suc i) ms w1")
    note IH = "2.IH" [OF True 1 [symmetric] refl refl refl 2]
    note blocks = offloadBlocks_spec [OF 1]
    have m: "offloadedMessage i m (if md then \<lparr>Role = Role m, MContent = bs, Synthetic = Synthetic m,
        MOrigin = MOrigin m, ReplayFields = ReplayFields m\<rparr> else m)"
      using blocks by (cases m) (auto simp: offloadedMessage_def)
    have "ms' = (if md then \<lparr>Role = Role m, MContent = bs, Synthetic = Synthetic m,
        MOrigin = MOrigin m, ReplayFields = ReplayFields m\<rparr> else m) # ms1" "w' = w2"
      using "2.prems" True by (auto simp: 1 2 Let_def)
    then show ?thesis
      using IH m True blocks by (auto simp: nth_Cons runWrites_append split: nat.splits)
  qed
qed

lemma trimmedBlock_offloaded: "offloadedBlock i b b' \<Longrightarrow> trimmedBlock b b'"
  by (auto simp: offloadedBlock_def trimmedBlock_def offloadable_def split: if_splits)

lemma offloadMessages_trimmed:
  assumes "offloadMessages wr rs 0 ms w = (ms', w')"
  shows "trimmedHistory ms ms'"
  unfolding list_all2_conv_all_nth
proof (intro conjI allI impI)
  show "length ms = length ms'"
    using offloadMessages_spec [OF assms] by simp
  fix k
  assume "k < length ms"
  then consider "offloadedMessage k (ms ! k) (ms' ! k)" | "ms' ! k = ms ! k"
    using offloadMessages_spec [OF assms] by (metis add_0)
  then show "trimmedMessage (ms ! k) (ms' ! k)"
    by cases (auto simp: offloadedMessage_def trimmedMessage_def
        intro: list_all2_mono [OF _ trimmedBlock_offloaded] list_all2_refl)
qed

text \<open>Paths determine the message and the call they were written for.\<close>

lemma offloadFilePath_inj:
  assumes "offloadFilePath i u = offloadFilePath j v"
  shows "i = j \<and> u = v"
proof -
  have "natDigits i @ CHR ''-'' # (u @ ''.txt'') = natDigits j @ CHR ''-'' # (v @ ''.txt'')"
    using assms by (simp add: offloadFilePath_def Itoa_def)
  then have "natDigits i = natDigits j \<and> u @ ''.txt'' = v @ ''.txt''"
    by (intro digits_separated) (auto simp: natDigits_isDigit isDigit_def)
  then show ?thesis by simp
qed

lemma callsOf_index: "(p, c) \<in> set (callsOf i bs) \<Longrightarrow> \<exists>u. p = offloadFilePath i u"
  by (auto simp: callsOf_def)

lemma offloadCalls_index: "(p, c) \<in> set (offloadCalls rs i ms) \<Longrightarrow> \<exists>j u. i \<le> j \<and> p = offloadFilePath j u"
proof (induction rs i ms rule: offloadCalls.induct)
  case (2 rs i m ms)
  show ?case
  proof (cases "(p, c) \<in> set (callsOf i (MContent m))")
    case True
    then show ?thesis
      using callsOf_index by blast
  next
    case False
    then have "i < rs" "(p, c) \<in> set (offloadCalls rs (Suc i) ms)"
      using "2.prems" by (auto split: if_splits)
    then show ?thesis
      using "2.IH" Suc_leD by blast
  qed
qed simp

lemma distinct_callsOf:
  assumes "distinct (toolResultIDs m)"
  shows "distinct (map fst (callsOf i (MContent m)))"
proof -
  have "filter offloadable (MContent m)
      = filter offloadable (filter (\<lambda>b. Type b = ''tool_result'') (MContent m))"
    by (induction "MContent m") (auto simp: offloadable_def filter_filter intro!: filter_cong)
  then have "distinct (map ToolUseID (filter offloadable (MContent m)))"
    using assms unfolding toolResultIDs_def by (simp only: distinct_map_filter)
  moreover have "inj (offloadFilePath i)"
    by (auto intro!: injI dest: offloadFilePath_inj)
  ultimately have "distinct (map (offloadFilePath i) (map ToolUseID (filter offloadable (MContent m))))"
    by (simp only: distinct_map inj_on_subset [OF _ subset_UNIV] simp_thms)
  then show ?thesis
    by (simp add: callsOf_def comp_def)
qed

lemma distinct_offloadCalls:
  assumes "\<forall>m \<in> set ms. distinct (toolResultIDs m)"
  shows "distinct (map fst (offloadCalls rs i ms))"
  using assms
proof (induction rs i ms rule: offloadCalls.induct)
  case (2 rs i m ms)
  have "fst ` set (callsOf i (MContent m)) \<inter> fst ` set (offloadCalls rs (Suc i) ms) = {}"
    by (fastforce dest: callsOf_index offloadCalls_index offloadFilePath_inj)
  then show ?case
    using 2 by (auto simp: distinct_callsOf)
qed simp

section \<open>The strategy interface\<close>

lemma OffloadPrepare_cases:
  assumes "OffloadPrepare wr s ms b = (r, w', ev)"
  obtains (same) "r = ms" "w' = fst s" "ev = None"
  | (minimal) "r = fst (minimalHistory ms)" "w' = fst s" "FitLimit b \<le> 0"
      "\<And>e. ev = Some e \<Longrightarrow> MessagesBefore e = len ms \<and> MessagesAfter e = len r"
  | (offload) "0 < FitLimit b" "FitLimit b < CurrentTokens b"
      "offloadMessages wr (length ms - recentPreservedMessages) 0 ms (fst s) = (r, w')"
      "\<And>e. ev = Some e \<Longrightarrow> MessagesBefore e = len ms \<and> MessagesAfter e = len r"
  using assms by (auto simp: OffloadPrepare_def Let_def split: if_splits prod.splits)

interpretation offload: context_strategy "OffloadPrepare wr" snd "\<lambda>_. True"
  for wr :: "'w \<Rightarrow> string \<Rightarrow> string \<Rightarrow> bool \<times> 'w"
proof (unfold_locales, goal_cases)
  case (1 s ms b)
  obtain r w' ev where eq: "OffloadPrepare wr s ms b = (r, w', ev)"
    by (cases "OffloadPrepare wr s ms b")
  then show ?case
    using 1 by (cases rule: OffloadPrepare_cases [OF eq])
      (auto simp: wf_history_minimalHistory wf_history_trimmed dest: offloadMessages_trimmed)
next
  case (2 s ms b)
  obtain r w' ev where eq: "OffloadPrepare wr s ms b = (r, w', ev)"
    by (cases "OffloadPrepare wr s ms b")
  then show ?case
    by (cases rule: OffloadPrepare_cases [OF eq])
      (auto simp: length_minimalHistory dest: offloadMessages_spec)
next
  case (3 s ms b)
  obtain r w' ev where eq: "OffloadPrepare wr s ms b = (r, w', ev)"
    by (cases "OffloadPrepare wr s ms b")
  then show ?case
    using 3 by (cases rule: OffloadPrepare_cases [OF eq])
      (auto simp: minimalHistory_def Let_def dest: offloadMessages_spec)
next
  case (5 s ms b e)
  obtain r w' ev where eq: "OffloadPrepare wr s ms b = (r, w', ev)"
    by (cases "OffloadPrepare wr s ms b")
  then show ?case
    using 5 by (cases rule: OffloadPrepare_cases [OF eq]) auto
qed simp

section \<open>Properties\<close>

text \<open>
  What an over-budget call offloads. Every result of at least the threshold that is not in the
  six most recent messages is replaced by a reference to its file, or by a head/tail cut when the
  write fails; every other block and every recent message is unchanged. The calls to the writer are
  exactly one per replaced result, in history order, with the full content, and when the results of
  each message answer different calls no two of them name the same file.
\<close>

theorem offload_contract:
  assumes "0 < FitLimit b" "FitLimit b < CurrentTokens b" "OffloadPrepare wr s ms b = (r, w', ev)"
    and "\<forall>m \<in> set ms. distinct (toolResultIDs m)"
  shows "length r = length ms
     \<and> (\<forall>i < length ms. if i + 6 < length ms then offloadedMessage i (ms ! i) (r ! i) else r ! i = ms ! i)
     \<and> w' = runWrites wr (offloadCalls (length ms - 6) 0 ms) (fst s)
     \<and> distinct (map fst (offloadCalls (length ms - 6) 0 ms))"
proof (cases "ms = []")
  case True
  then show ?thesis
    using assms by (simp add: OffloadPrepare_def Let_def runWrites_def)
next
  case False
  then have "offloadMessages wr (length ms - 6) 0 ms (fst s) = (r, w')"
    using assms(1-3) by (auto simp: OffloadPrepare_def Let_def recentPreservedMessages_def split: prod.splits)
  note spec = offloadMessages_spec [OF this]
  have "i < length ms - 6 \<longleftrightarrow> i + 6 < length ms" for i
    by auto
  then show ?thesis
    using spec distinct_offloadCalls [OF assms(4)] by (auto split: if_splits)
qed

definition bigResult :: "Message list" where
  "bigResult =
     [mkMessage ''user'' [textBlock ''task''],
      mkMessage ''assistant'' [toolUseBlock ''t1'' ''read_file''],
      mkMessage ''user'' [toolResultBlock ''t1'' (replicate 2000 (CHR ''x''))]]
     @ concat (replicate 3 [mkMessage ''assistant'' [textBlock ''a''], mkMessage ''user'' [textBlock ''b'']])"

theorem offload_contract_witness:
  "snd (OffloadPrepare (\<lambda>w p c. (True, w @ [(p, c)])) ([], None) bigResult
      \<lparr>MaxTokens = 10, CurrentTokens = 600, ReserveForResponse = 0\<rparr>)
     = ([(''.stirrup/context/turn-2-t1.txt'', replicate 2000 (CHR ''x''))],
        Some \<lparr>Strategy = ''offload-to-file'', MessagesBefore = 9, MessagesAfter = 9, TokensBefore = 600,
              TokensAfter = 0, ToolResultsCleared = 0, Warnings = []\<rparr>)"
proof -
  let ?b = "\<lparr>MaxTokens = 10, CurrentTokens = 600, ReserveForResponse = 0\<rparr> :: TokenBudget"
  let ?wr = "\<lambda>w p c. (True, w @ [(p, c :: string)])"
  obtain r w' ev where eq: "OffloadPrepare ?wr ([], None) bigResult ?b = (r, w', ev)"
    by (cases "OffloadPrepare ?wr ([], None) bigResult ?b")
  have "0 < FitLimit ?b" "FitLimit ?b < CurrentTokens ?b" "\<forall>m \<in> set bigResult. distinct (toolResultIDs m)"
    by code_simp+
  note c = offload_contract [OF this(1,2) eq this(3)]
  have "offloadCalls (length bigResult - 6) 0 bigResult
      = [(''.stirrup/context/turn-2-t1.txt'', replicate 2000 (CHR ''x''))]"
    by code_simp
  with c have "w' = [(''.stirrup/context/turn-2-t1.txt'', replicate 2000 (CHR ''x''))]"
    by (simp add: runWrites_def)
  moreover have "length bigResult = 9" "bigResult \<noteq> []"
    by code_simp+
  moreover have "ev = Some \<lparr>Strategy = ''offload-to-file'', MessagesBefore = len bigResult,
      MessagesAfter = len r, TokensBefore = 600, TokensAfter = 0, ToolResultsCleared = 0, Warnings = []\<rparr>"
    using eq \<open>bigResult \<noteq> []\<close> \<open>0 < FitLimit ?b\<close> \<open>FitLimit ?b < CurrentTokens ?b\<close>
    by (auto simp: OffloadPrepare_def Let_def split: prod.splits)
  ultimately show ?thesis
    using c by (simp add: eq)
qed

end
