(* ===== verification/Loop_Stall.thy ===== *)
theory Loop_Stall
  imports Go_Prelude
begin

text \<open>
  The stall detector of \<open>core/stall.go\<close>. SHA-256 is the argument \<open>sha\<close> and the JSON codec the
  argument \<open>codec\<close>; the regular expression for command-output references is written out. The
  theory shows that the twelve-entry window implements a detector that remembers every call since
  the last nudge, and that a run is ended as stalled only by a repetition after a delivered nudge.
\<close>

section \<open>Call signatures\<close>

definition stallRepeats :: nat where "stallRepeats = 3"
definition maxStallCycleLength :: nat where "maxStallCycleLength = 4"
definition stallWindowSize :: nat where "stallWindowSize = maxStallCycleLength * stallRepeats"
definition maxConsecutiveFailures :: int where "maxConsecutiveFailures = 5"

lemmas stall_consts = stallRepeats_def maxStallCycleLength_def stallWindowSize_def maxConsecutiveFailures_def

definition stallNudgeText :: "int \<Rightarrow> string" where
  "stallNudgeText n = ''The last '' @ Itoa n @ '' tool calls repeated the same pattern with the same results. Change approach, or if the task is complete, finish with a final answer.''"

definition commandOutputRefPrefix :: string where
  "commandOutputRefPrefix = ''stirrup://command-output/''"

text \<open>
  \<open>commandOutputRefPattern.ReplaceAllLiteralString\<close>: the pattern is the prefix, a non-empty run of
  lower-case hexadecimal digits and a slash. Since a slash is not such a digit, a match must take
  the whole run.
\<close>

definition isHexLower :: "char \<Rightarrow> bool" where
  "isHexLower c = (isDigit c \<or> 97 \<le> (of_char c :: nat) \<and> (of_char c :: nat) \<le> 102)"

function replaceRefs :: "string \<Rightarrow> string" where
  "replaceRefs s =
     (case s of [] \<Rightarrow> []
      | c # cs \<Rightarrow>
          if HasPrefix s commandOutputRefPrefix
             \<and> takeWhile isHexLower (drop (length commandOutputRefPrefix) s) \<noteq> []
             \<and> HasPrefix (dropWhile isHexLower (drop (length commandOutputRefPrefix) s)) ''/''
          then commandOutputRefPrefix
               @ replaceRefs (drop 1 (dropWhile isHexLower (drop (length commandOutputRefPrefix) s)))
          else c # replaceRefs cs)"
  by pat_completeness auto
termination
proof (relation "measure length", goal_cases)
  case (2 s c cs)
  have "length (dropWhile isHexLower (drop (length commandOutputRefPrefix) s)) \<le> length s - 25"
    using length_dropWhile_le [of isHexLower "drop (length commandOutputRefPrefix) s"]
    by (simp add: commandOutputRefPrefix_def)
  then show ?case using 2 by simp
qed auto

declare replaceRefs.simps [simp del]

definition stallComparableOutput :: "string \<Rightarrow> string" where
  "stallComparableOutput output =
     (if Index output commandOutputRefPrefix = None then output else replaceRefs output)"

text \<open>
  \<open>encoding/json\<close> as the detector uses it: reading one value (with the unread rest), whether the rest
  holds another token, and marshalling a value with sorted keys.
\<close>

record 'v jsonCodec =
  decode :: "string \<Rightarrow> ('v \<times> string) option"
  atEOF :: "string \<Rightarrow> bool"
  marshal :: "'v \<Rightarrow> string option"

definition canonicalToolInput :: "'v jsonCodec \<Rightarrow> string \<Rightarrow> string" where
  "canonicalToolInput codec input =
     (case decode codec input of
        None \<Rightarrow> input
      | Some (v, rest) \<Rightarrow>
          if \<not> atEOF codec rest then input
          else case marshal codec v of None \<Rightarrow> input | Some out \<Rightarrow> out)"

text \<open>\<open>binary.BigEndian.PutUint64\<close>.\<close>

definition be64 :: "nat \<Rightarrow> string" where
  "be64 n = map (\<lambda>i. char_of (n div 256 ^ (7 - i))) [0..<8]"

lemma be64_code [code]: "be64 n = map (\<lambda>i. char_of (int n div 256 ^ (7 - i))) [0..<8]"
proof -
  have "int n div 256 ^ k = int (n div 256 ^ k)" for k
    by (simp add: zdiv_int)
  then show ?thesis
    by (simp add: be64_def)
qed

definition writeField :: "string \<Rightarrow> string" where
  "writeField b = be64 (length b) @ b"

definition stallPreimage :: "'v jsonCodec \<Rightarrow> string \<Rightarrow> string \<Rightarrow> string \<Rightarrow> bool \<Rightarrow> string" where
  "stallPreimage codec name input output success =
     writeField name @ writeField (canonicalToolInput codec input)
     @ writeField (stallComparableOutput output) @ [if success then char_of (1::nat) else char_of (0::nat)]"

definition stallSignatureOf ::
  "(string \<Rightarrow> string) \<Rightarrow> 'v jsonCodec \<Rightarrow> string \<Rightarrow> string \<Rightarrow> string \<Rightarrow> bool \<Rightarrow> string" where
  "stallSignatureOf sha codec name input output success = sha (stallPreimage codec name input output success)"

section \<open>The detector\<close>

record stallDetector =
  window :: "string list"
  consecutiveFails :: int
  nudged :: bool
  pendingNudge :: string

definition zeroDetector :: stallDetector where
  "zeroDetector = \<lparr>window = [], consecutiveFails = 0, nudged = False, pendingNudge = []\<rparr>"

text \<open>The body of the loop of \<open>repeatedCycleLength\<close> from \<open>length\<close> on.\<close>

definition periodic :: "nat \<Rightarrow> string list \<Rightarrow> bool" where
  "periodic l t = (\<forall>k \<in> {l..<length t}. t ! k = t ! (k - l))"

function cycleLoop :: "string list \<Rightarrow> nat \<Rightarrow> nat" where
  "cycleLoop w l =
     (if l \<le> maxStallCycleLength
      then if length w < l * stallRepeats then 0
           else if periodic l (drop (length w - l * stallRepeats) w) then l
           else cycleLoop w (Suc l)
      else 0)"
  by pat_completeness auto
termination
  by (relation "measure (\<lambda>(w, l). Suc maxStallCycleLength - l)") auto

declare cycleLoop.simps [simp del]

definition repeatedCycleLength :: "stallDetector \<Rightarrow> nat" where
  "repeatedCycleLength s = cycleLoop (window s) 1"

definition recordToolCall ::
  "(string \<Rightarrow> string) \<Rightarrow> 'v jsonCodec \<Rightarrow> string \<Rightarrow> string \<Rightarrow> string \<Rightarrow> bool \<Rightarrow> stallDetector
     \<Rightarrow> string \<times> stallDetector" where
  "recordToolCall sha codec name input output success s0 =
     (let s1 = (if success then s0\<lparr>consecutiveFails := 0\<rparr>
                else s0\<lparr>consecutiveFails := consecutiveFails s0 + 1\<rparr>);
          (s2, cycle) =
            (if pendingNudge s1 = []
             then let w = (if length (window s1) = stallWindowSize then drop 1 (window s1) else window s1);
                      s = s1\<lparr>window := w @ [stallSignatureOf sha codec name input output success]\<rparr>
                  in (s, repeatedCycleLength s)
             else (s1, 0))
      in if cycle > 0 \<and> nudged s2 then (''stalled'', s2)
         else if consecutiveFails s2 \<ge> maxConsecutiveFailures then (''tool_failures'', s2)
         else if cycle > 0
         then ([], s2\<lparr>nudged := True, pendingNudge := stallNudgeText (int (cycle * stallRepeats)), window := []\<rparr>)
         else ([], s2))"

definition takeNudge :: "stallDetector \<Rightarrow> (string \<times> bool) \<times> stallDetector" where
  "takeNudge s = (let text = pendingNudge s in ((text, text \<noteq> []), s\<lparr>pendingNudge := []\<rparr>))"

section \<open>Signatures determine calls\<close>

lemma length_be64 [simp]: "length (be64 n) = 8"
  by (simp add: be64_def)

lemma be64_inj:
  assumes "be64 m = be64 n" "m < 2 ^ 64" "n < 2 ^ 64"
  shows "m = n"
proof -
  have digit: "m div 256 ^ (7 - i) mod 256 = n div 256 ^ (7 - i) mod 256" if "i < 8" for i
  proof -
    have "(char_of (m div 256 ^ (7 - i)) :: char) = char_of (n div 256 ^ (7 - i))"
      using arg_cong [OF assms(1), of "\<lambda>s. s ! i"] that by (simp add: be64_def)
    then show ?thesis by (simp add: char_of_eq_iff take_bit_eq_mod)
  qed
  have step: "m div 256 ^ k = n div 256 ^ k" if "m div 256 ^ Suc k = n div 256 ^ Suc k" "k < 8" for k
  proof -
    have "m div 256 ^ k mod 256 = n div 256 ^ k mod 256"
      using digit [of "7 - k"] that(2) by simp
    moreover have "m div 256 ^ k div 256 = n div 256 ^ k div 256"
      using that(1) by (simp add: div_mult2_eq [symmetric] mult.commute)
    ultimately show ?thesis by (metis div_mult_mod_eq)
  qed
  have "m div 256 ^ (8 - j) = n div 256 ^ (8 - j)" if "j \<le> 8" for j
    using that
  proof (induction j)
    case 0
    then show ?case using assms(2,3) by simp
  next
    case (Suc j)
    have e: "Suc (8 - Suc j) = 8 - j"
      using Suc.prems by simp
    show ?case using step [of "8 - Suc j", unfolded e] Suc by simp
  qed
  from this [of 8] show ?thesis by simp
qed

lemma writeField_inj:
  assumes "writeField a @ x = writeField b @ y" "length a < 2 ^ 64" "length b < 2 ^ 64"
  shows "a = b \<and> x = y"
proof -
  have "be64 (length a) = be64 (length b)" "a @ x = b @ y"
    using assms(1) by (auto simp: writeField_def append_eq_append_conv)
  then show ?thesis
    using be64_inj assms(2,3) by (metis append_eq_append_conv)
qed

section \<open>A detector that forgets nothing\<close>

text \<open>
  The specification keeps every signature since the last nudge was taken and the success of every
  call; it looks for a block of one to four calls that the latest calls repeat three times.
\<close>

definition repeatsThrice :: "nat \<Rightarrow> string list \<Rightarrow> bool" where
  "repeatsThrice l sigs =
     (\<exists>front block. length block = l \<and> sigs = front @ block @ block @ block)"

definition lastThree :: "nat \<Rightarrow> string list \<Rightarrow> bool" where
  "lastThree l sigs =
     (3 * l \<le> length sigs
      \<and> (let t = drop (length sigs - 3 * l) sigs in t = take l t @ take l t @ take l t))"

definition shortestCycle :: "string list \<Rightarrow> nat" where
  "shortestCycle sigs = (case find (\<lambda>l. lastThree l sigs) [1, 2, 3, 4] of None \<Rightarrow> 0 | Some l \<Rightarrow> l)"

record stallSpec =
  since :: "string list"
  oks :: "bool list"
  spNudged :: bool
  spPending :: string

definition initSpec :: stallSpec where
  "initSpec = \<lparr>since = [], oks = [], spNudged = False, spPending = []\<rparr>"

definition specRecord :: "string \<Rightarrow> bool \<Rightarrow> stallSpec \<Rightarrow> string \<times> stallSpec" where
  "specRecord sig ok s0 =
     (let s = s0\<lparr>oks := oks s0 @ [ok],
                 since := (if spPending s0 = [] then since s0 @ [sig] else since s0)\<rparr>;
          cycle = (if spPending s0 = [] then shortestCycle (since s) else 0);
          failing = (5 \<le> length (oks s) \<and> list_all Not (drop (length (oks s) - 5) (oks s)))
      in if cycle > 0 \<and> spNudged s then (''stalled'', s)
         else if failing then (''tool_failures'', s)
         else if cycle > 0
         then ([], s\<lparr>spNudged := True, spPending := stallNudgeText (int (3 * cycle)), since := []\<rparr>)
         else ([], s))"

definition specTake :: "stallSpec \<Rightarrow> (string \<times> bool) \<times> stallSpec" where
  "specTake s = ((spPending s, spPending s \<noteq> []), s\<lparr>spPending := []\<rparr>)"

lemma lastThree_iff: "lastThree l sigs \<longleftrightarrow> repeatsThrice l sigs"
proof
  assume l: "lastThree l sigs"
  let ?t = "drop (length sigs - 3 * l) sigs"
  have "sigs = take (length sigs - 3 * l) sigs @ take l ?t @ take l ?t @ take l ?t"
    using l by (metis append_take_drop_id lastThree_def)
  moreover have "length (take l ?t) = l"
    using l by (simp add: lastThree_def)
  ultimately show "repeatsThrice l sigs"
    unfolding repeatsThrice_def by blast
qed (auto simp: repeatsThrice_def lastThree_def Let_def)

lemma periodic_thrice:
  assumes "length t = 3 * l"
  shows "periodic l t \<longleftrightarrow> t = take l t @ take l t @ take l t"
proof
  assume p: "periodic l t"
  have two: "t ! k = t ! (k - l)" if "l \<le> k" "k < 3 * l" for k
    using p that assms by (simp add: periodic_def)
  show "t = take l t @ take l t @ take l t"
  proof (rule nth_equalityI)
    fix k
    assume k: "k < length t"
    consider "k < l" | "l \<le> k" "k < 2 * l" | "2 * l \<le> k" by linarith
    then show "t ! k = (take l t @ take l t @ take l t) ! k"
    proof cases
      case 3
      have "t ! k = t ! (k - l)" "t ! (k - l) = t ! (k - l - l)"
        using two [of k] two [of "k - l"] 3 k assms by auto
      then show ?thesis using 3 k assms by (simp add: nth_append min_def)
    qed (use k assms two [of k] in \<open>auto simp: nth_append min_def\<close>)
  qed (use assms in simp)
next
  assume t: "t = take l t @ take l t @ take l t"
  define u where "u = take l t"
  have u: "length u = l" "t = u @ u @ u"
    using assms t by (simp_all add: u_def)
  have "t ! k = t ! (k - l)" if "l \<le> k" "k < 3 * l" for k
    using that by (cases "k < 2 * l") (auto simp: u nth_append)
  then show "periodic l t"
    using assms by (simp add: periodic_def)
qed

lemma cycleLoop_shortest: "cycleLoop w 1 = shortestCycle w"
proof -
  have step: "cycleLoop w l = (if l \<le> 4 then if length w < 3 * l then 0
      else if lastThree l w then l else cycleLoop w (Suc l) else 0)" for l
    using periodic_thrice [of "drop (length w - 3 * l) w" l]
    by (subst cycleLoop.simps) (auto simp: stall_consts lastThree_def Let_def mult.commute)
  have short: "\<not> lastThree l w" if "length w < 3 * l" for l
    using that by (simp add: lastThree_def)
  have c4: "cycleLoop w 4 = (if lastThree 4 w then 4 else 0)"
    using short [of 4] by (simp add: step [of 4] step [of 5])
  have c3: "cycleLoop w 3 = (if lastThree 3 w then 3 else cycleLoop w 4)"
    using short [of 3] short [of 4] by (simp add: step [of 3] c4)
  have c2: "cycleLoop w 2 = (if lastThree 2 w then 2 else cycleLoop w 3)"
    using short [of 2] short [of 3] short [of 4] step [of 2] by (simp add: c3 c4)
  have c1: "cycleLoop w 1 = (if lastThree 1 w then 1 else cycleLoop w 2)"
    using short [of 1] short [of 2] short [of 3] short [of 4] step [of 1]
    by (simp add: c2 c3 c4 del: One_nat_def)
  show ?thesis
    by (simp add: c1 c2 c3 c4 shortestCycle_def del: One_nat_def)
qed

lemma lastThree_window: "l \<le> 4 \<Longrightarrow> lastThree l (drop (length w - 12) w) = lastThree l w"
  by (auto simp: lastThree_def Let_def)

lemma shortestCycle_window: "shortestCycle (drop (length w - 12) w) = shortestCycle w"
  by (simp add: shortestCycle_def lastThree_window)

section \<open>Runs\<close>

text \<open>What the loop does with a detector: record a completed call, or collect the nudge.\<close>

datatype stallEvent = Call string string string bool | Take

datatype stallOutput = Outcome string | Nudge string bool

fun stallStep :: "(string \<Rightarrow> string) \<Rightarrow> 'v jsonCodec \<Rightarrow> stallEvent \<Rightarrow> stallDetector \<Rightarrow> stallOutput \<times> stallDetector" where
  "stallStep sha codec (Call name input output ok) s =
     apfst Outcome (recordToolCall sha codec name input output ok s)"
| "stallStep sha codec Take s = apfst (case_prod Nudge) (takeNudge s)"

fun specStep :: "(string \<Rightarrow> string) \<Rightarrow> 'v jsonCodec \<Rightarrow> stallEvent \<Rightarrow> stallSpec \<Rightarrow> stallOutput \<times> stallSpec" where
  "specStep sha codec (Call name input output ok) s =
     apfst Outcome (specRecord (stallSignatureOf sha codec name input output ok) ok s)"
| "specStep sha codec Take s = apfst (case_prod Nudge) (specTake s)"

fun runSteps :: "('e \<Rightarrow> 's \<Rightarrow> 'o \<times> 's) \<Rightarrow> 'e list \<Rightarrow> 's \<Rightarrow> 'o list \<times> 's" where
  "runSteps f [] s = ([], s)"
| "runSteps f (e # es) s = (case f e s of (out, s') \<Rightarrow> apfst ((#) out) (runSteps f es s'))"

definition stallRel :: "stallDetector \<Rightarrow> stallSpec \<Rightarrow> bool" where
  "stallRel s t =
     (window s = drop (length (since t) - 12) (since t)
      \<and> consecutiveFails s = len (takeWhile Not (rev (oks t)))
      \<and> nudged s = spNudged t \<and> pendingNudge s = spPending t)"

lemma five_failures:
  "5 \<le> length (takeWhile Not (rev bs)) \<longleftrightarrow> 5 \<le> length bs \<and> list_all Not (drop (length bs - 5) bs)"
proof -
  have "n \<le> length (takeWhile P xs) \<longleftrightarrow> n \<le> length xs \<and> list_all P (take n xs)" for n and P :: "bool \<Rightarrow> bool" and xs
  proof (induction xs arbitrary: n)
    case (Cons x xs)
    then show ?case by (cases n) auto
  qed simp
  from this [of 5 Not "rev bs"] show ?thesis
    by (simp add: take_rev list_all_rev)
qed

lemma window_snoc:
  assumes "w = drop (length xs - 12) xs"
  shows "(if length w = 12 then drop 1 w else w) @ [x] = drop (length (xs @ [x]) - 12) (xs @ [x])"
proof (cases "12 \<le> length xs")
  case True
  then have "Suc (length xs - 12) = length xs - 11"
    by simp
  then show ?thesis using True assms by simp
qed (use assms in auto)

lemma recordToolCall_refines:
  assumes "stallRel s t"
  shows "rel_prod (=) stallRel (recordToolCall sha codec name input output ok s)
           (specRecord (stallSignatureOf sha codec name input output ok) ok t)"
proof -
  let ?sig = "stallSignatureOf sha codec name input output ok"
  note rel = assms [unfolded stallRel_def]
  have fails: "(if ok then 0 else consecutiveFails s + 1) = len (takeWhile Not (rev (oks t @ [ok])))"
    using rel by simp
  have failing: "maxConsecutiveFailures \<le> (if ok then 0 else consecutiveFails s + 1)
      \<longleftrightarrow> 5 \<le> length (oks t @ [ok]) \<and> list_all Not (drop (length (oks t @ [ok]) - 5) (oks t @ [ok]))"
    unfolding fails maxConsecutiveFailures_def using five_failures [of "oks t @ [ok]"] by linarith
  let ?w = "(if length (window s) = stallWindowSize then drop 1 (window s) else window s) @ [?sig]"
  have w: "?w = drop (length (since t @ [?sig]) - 12) (since t @ [?sig])"
    using window_snoc [of "window s" "since t" ?sig] rel by (simp add: stall_consts)
  then have cycle: "cycleLoop ?w 1 = shortestCycle (since t @ [?sig])"
    by (simp only: cycleLoop_shortest shortestCycle_window)
  show ?thesis
  proof (cases "pendingNudge s = []")
    case True
    then show ?thesis
      using rel w cycle failing fails
      by (cases ok) (auto simp: recordToolCall_def specRecord_def Let_def repeatedCycleLength_def stallRel_def
          stallRepeats_def mult.commute simp del: One_nat_def)
  next
    case False
    then show ?thesis
      using rel failing fails
      by (cases ok) (auto simp: recordToolCall_def specRecord_def Let_def stallRel_def)
  qed
qed

lemma stallStep_refines:
  assumes "stallRel s t"
  shows "rel_prod (=) stallRel (stallStep sha codec e s) (specStep sha codec e t)"
proof (cases e)
  case (Call name input outp ok)
  then show ?thesis
    using recordToolCall_refines [OF assms, of sha codec name input outp ok]
    by (auto simp: rel_prod_sel)
next
  case Take
  then show ?thesis
    using assms by (auto simp: takeNudge_def specTake_def stallRel_def Let_def)
qed

lemma runSteps_refines:
  "stallRel s t \<Longrightarrow>
   rel_prod (=) stallRel (runSteps (stallStep sha codec) es s) (runSteps (specStep sha codec) es t)"
proof (induction es arbitrary: s t)
  case (Cons e es)
  obtain out s' t' where step: "stallStep sha codec e s = (out, s')" "specStep sha codec e t = (out, t')"
      and rel: "stallRel s' t'"
    using stallStep_refines [OF Cons.prems, of sha codec e]
    by (metis rel_prod_sel prod.collapse)
  show ?case
    using Cons.IH [OF rel] by (auto simp: step rel_prod_sel)
qed simp

lemma stallRel_init: "stallRel zeroDetector initSpec"
  by (simp add: stallRel_def zeroDetector_def initSpec_def)

lemma runSteps_snoc:
  "runSteps f (es @ [e]) s =
     (case runSteps f es s of (outs, s1) \<Rightarrow> case f e s1 of (out, s2) \<Rightarrow> (outs @ [out], s2))"
  by (induction es arbitrary: s) (auto split: prod.splits)

fun callSigs :: "(string \<Rightarrow> string) \<Rightarrow> 'v jsonCodec \<Rightarrow> stallEvent list \<Rightarrow> string list" where
  "callSigs sha codec [] = []"
| "callSigs sha codec (Call name input output ok # es) =
     stallSignatureOf sha codec name input output ok # callSigs sha codec es"
| "callSigs sha codec (Take # es) = callSigs sha codec es"

lemma callSigs_append: "callSigs sha codec (xs @ ys) = callSigs sha codec xs @ callSigs sha codec ys"
  by (induction sha codec xs rule: callSigs.induct) auto

text \<open>A nudged detector with nothing pending remembers exactly the calls after a delivered nudge.\<close>

lemma stallNudgeText_not_Nil [simp]: "stallNudgeText n \<noteq> []"
  by (simp add: stallNudgeText_def)

lemma spec_nudge_invariant:
  assumes "runSteps (specStep sha codec) es initSpec = (outs, t)"
  shows "(\<not> spNudged t \<longrightarrow> spPending t = []) \<and> (spPending t \<noteq> [] \<longrightarrow> since t = [])
    \<and> (spNudged t \<and> spPending t = [] \<longrightarrow>
         (\<exists>es1 es2 text. es = es1 @ Take # es2 \<and> since t = callSigs sha codec es2
            \<and> last (fst (runSteps (specStep sha codec) (es1 @ [Take]) initSpec)) = Nudge text True))"
  using assms
proof (induction es arbitrary: outs t rule: rev_induct)
  case Nil
  then show ?case by (auto simp: initSpec_def)
next
  case (snoc e es)
  obtain outs0 t0 where before: "runSteps (specStep sha codec) es initSpec = (outs0, t0)"
    by force
  note IH = snoc.IH [OF before]
  have t: "t = snd (specStep sha codec e t0)"
    using snoc.prems by (simp add: runSteps_snoc before split: prod.splits)
  have later: "\<exists>es1 es2' text. es @ [e] = es1 @ Take # es2' \<and> since t = callSigs sha codec es2'
      \<and> last (fst (runSteps (specStep sha codec) (es1 @ [Take]) initSpec)) = Nudge text True"
    if "spNudged t0" "spPending t0 = []" "since t = since t0 @ callSigs sha codec [e]"
    using IH that by (metis append.assoc append_Cons callSigs_append)
  show ?case
  proof (cases e)
    case Take
    show ?thesis
    proof (cases "spPending t0 = []")
      case True
      then have "t = t0"
        using t Take by (simp add: specTake_def)
      then show ?thesis
        using IH Take later True by simp
    next
      case False
      then have "last (fst (runSteps (specStep sha codec) (es @ [Take]) initSpec)) = Nudge (spPending t0) True"
        by (simp add: runSteps_snoc before specTake_def)
      then show ?thesis
        using Take t False IH
        by (intro conjI impI exI [of _ es] exI [of _ "[]"] exI [of _ "spPending t0"]) (auto simp: specTake_def)
    qed
  next
    case (Call name input outp ok)
    show ?thesis
    proof (cases "spPending t0 = []")
      case True
      then show ?thesis
        using IH t later by (auto simp: Call specRecord_def Let_def)
    next
      case False
      then show ?thesis
        using IH t by (auto simp: Call specRecord_def Let_def)
    qed
  qed
qed

section \<open>Properties\<close>

text \<open>
  C19: over every sequence of recorded calls and collected nudges, the detector with its window of
  twelve signatures and its failure counter gives the same outcomes and nudges as one that remembers
  every call since the last nudge: a repetition is the shortest block of one to four calls that the
  latest calls repeat three times in a row, and tool failures end the run after five failures in a row.
\<close>

theorem stall_detector_refines:
  "fst (runSteps (stallStep sha codec) es zeroDetector) = fst (runSteps (specStep sha codec) es initSpec)"
  using runSteps_refines [OF stallRel_init, of sha codec es] by (simp add: rel_prod_sel)

text \<open>
  C13: a run is ended as stalled only after the model was told. When a call is answered
  \<open>stalled\<close>, an earlier nudge was collected, and the calls recorded since then end with a block
  of one to four calls three times in a row.
\<close>

theorem stalled_only_after_nudge:
  assumes "fst (runSteps (stallStep sha codec) (es @ [e]) zeroDetector) = outs @ [Outcome ''stalled'']"
  shows "\<exists>es1 es2 text l. es @ [e] = es1 @ Take # es2
     \<and> last (fst (runSteps (stallStep sha codec) (es1 @ [Take]) zeroDetector)) = Nudge text True
     \<and> 1 \<le> l \<and> l \<le> 4 \<and> repeatsThrice l (callSigs sha codec es2)"
proof -
  have same: "fst (runSteps (stallStep sha codec) xs zeroDetector) = fst (runSteps (specStep sha codec) xs initSpec)" for xs
    using runSteps_refines [OF stallRel_init, of sha codec xs] by (simp add: rel_prod_sel)
  obtain outs0 t0 where before: "runSteps (specStep sha codec) es initSpec = (outs0, t0)"
    by force
  have out: "fst (specStep sha codec e t0) = Outcome ''stalled''"
    using assms [unfolded same] by (simp add: runSteps_snoc before split: prod.splits)
  obtain name input outp ok where e: "e = Call name input outp ok"
    using out by (cases e) (auto simp: specTake_def)
  let ?sigs = "since t0 @ callSigs sha codec [e]"
  have stalled: "spPending t0 = []" "spNudged t0" "0 < shortestCycle ?sigs"
    using out by (auto simp: e specRecord_def Let_def split: if_splits)
  then obtain l where "lastThree l ?sigs" "l \<in> {1, 2, 3, 4}"
    by (auto simp: shortestCycle_def find_Some_iff split: option.splits if_splits)
  moreover obtain es1 es2 msg where "es = es1 @ Take # es2" "since t0 = callSigs sha codec es2"
      "last (fst (runSteps (specStep sha codec) (es1 @ [Take]) initSpec)) = Nudge msg True"
    using spec_nudge_invariant [OF before] stalled by blast
  ultimately show ?thesis
    by (intro exI [of _ es1] exI [of _ "es2 @ [e]"] exI [of _ msg] exI [of _ l])
      (auto simp: same lastThree_iff callSigs_append)
qed

definition exampleCodec :: "string jsonCodec" where
  "exampleCodec = \<lparr>decode = (\<lambda>s. Some (s, [])), atEOF = (\<lambda>s. s = []), marshal = Some\<rparr>"

definition repeatedCalls :: "stallEvent list" where
  "repeatedCalls = (let c = Call ''read_file'' ''{}'' ''same'' True in [c, c, c, Take, c, c])"

theorem stalled_only_after_nudge_witness:
  "fst (runSteps (stallStep id exampleCodec) (repeatedCalls @ [Call ''read_file'' ''{}'' ''same'' True]) zeroDetector)
     = [Outcome [], Outcome [], Outcome [], Nudge (stallNudgeText 3) True, Outcome [], Outcome []]
       @ [Outcome ''stalled'']
   \<and> (\<exists>es1 es2 l. repeatedCalls @ [Call ''read_file'' ''{}'' ''same'' True] = es1 @ Take # es2
        \<and> l \<le> 4 \<and> repeatsThrice l (callSigs id exampleCodec es2))"
proof -
  have out: "fst (runSteps (stallStep id exampleCodec) (repeatedCalls @ [Call ''read_file'' ''{}'' ''same'' True]) zeroDetector)
     = [Outcome [], Outcome [], Outcome [], Nudge (stallNudgeText 3) True, Outcome [], Outcome []]
       @ [Outcome ''stalled'']"
    by code_simp
  from stalled_only_after_nudge [OF this] out show ?thesis by blast
qed

text \<open>
  The length prefixes make a signature's preimage unambiguous. Two calls have the same preimage
  exactly when they have the same tool name, canonical input, comparable output and success.
\<close>

theorem stall_preimage_injective:
  assumes "length name < 2 ^ 64" "length name' < 2 ^ 64"
    "length (canonicalToolInput codec input) < 2 ^ 64" "length (canonicalToolInput codec input') < 2 ^ 64"
    "length (stallComparableOutput outp) < 2 ^ 64" "length (stallComparableOutput outp') < 2 ^ 64"
  shows "stallPreimage codec name input outp ok = stallPreimage codec name' input' outp' ok'
     \<longleftrightarrow> name = name' \<and> canonicalToolInput codec input = canonicalToolInput codec input'
       \<and> stallComparableOutput outp = stallComparableOutput outp' \<and> ok = ok'"
proof
  assume "stallPreimage codec name input outp ok = stallPreimage codec name' input' outp' ok'"
  then show "name = name' \<and> canonicalToolInput codec input = canonicalToolInput codec input'
       \<and> stallComparableOutput outp = stallComparableOutput outp' \<and> ok = ok'"
    unfolding stallPreimage_def using assms writeField_inj [of "stallComparableOutput outp" "[]" "stallComparableOutput outp'" "[]"]
    by (auto dest!: writeField_inj split: if_splits)
qed (simp add: stallPreimage_def)

theorem stall_preimage_injective_witness:
  "stallPreimage exampleCodec ''ab'' ''c'' ''d'' True \<noteq> stallPreimage exampleCodec ''a'' ''bc'' ''d'' True"
proof -
  have "length ''ab'' < 2 ^ 64" "length ''a'' < 2 ^ 64"
    "length (canonicalToolInput exampleCodec ''c'') < 2 ^ 64"
    "length (canonicalToolInput exampleCodec ''bc'') < 2 ^ 64"
    "length (stallComparableOutput ''d'') < 2 ^ 64"
    by (simp_all add: canonicalToolInput_def exampleCodec_def stallComparableOutput_def commandOutputRefPrefix_def
        HasPrefix_def)
  from stall_preimage_injective [OF this this(5)] show ?thesis by simp
qed

end
