(* ===== verification/Token_Ledger.thy ===== *)
theory Token_Ledger
  imports Loop_Fit "HOL-Library.Multiset"
begin

text \<open>
  Token accounting: \<open>TokenUsage\<close> of \<open>types/runtrace.go\<close>, the tracker of \<open>core/types.go\<close> and the
  run-wide ledger and charging provider of \<open>core/ledger.go\<close>. The ledger's mutex makes each of its
  methods one step, so concurrent callers are a sequence of operations in some order; the theory
  shows that the totals do not depend on it.
\<close>

section \<open>Usage\<close>

record TokenUsage =
  uInput :: int
  uOutput :: int
  uCacheRead :: int
  uCacheWrite :: int
  uReasoning :: int

definition zeroUsage :: TokenUsage where
  "zeroUsage = \<lparr>uInput = 0, uOutput = 0, uCacheRead = 0, uCacheWrite = 0, uReasoning = 0\<rparr>"

definition saturatingAdd :: "int \<Rightarrow> int \<Rightarrow> int" where
  "saturatingAdd a b =
     (if b > 0 \<and> a > MaxInt - b then MaxInt
      else if b < 0 \<and> a < MinInt - b then MinInt
      else wrap64 (a + b))"

definition usageAdd :: "TokenUsage \<Rightarrow> TokenUsage \<Rightarrow> TokenUsage" where
  "usageAdd u w =
     \<lparr>uInput = saturatingAdd (uInput u) (uInput w),
      uOutput = saturatingAdd (uOutput u) (uOutput w),
      uCacheRead = saturatingAdd (uCacheRead u) (uCacheRead w),
      uCacheWrite = saturatingAdd (uCacheWrite u) (uCacheWrite w),
      uReasoning = saturatingAdd (uReasoning u) (uReasoning w)\<rparr>"

definition usageTotal :: "TokenUsage \<Rightarrow> int" where
  "usageTotal u = saturatingAdd (uInput u) (uOutput u)"

text \<open>The fields of a stream event the accounting reads.\<close>

record StreamEvent =
  evType :: string
  InputTokens :: int
  OutputTokens :: int
  CacheReadTokens :: int
  CacheWriteTokens :: int
  ReasoningTokens :: int

definition MergeEvent :: "TokenUsage \<Rightarrow> StreamEvent \<Rightarrow> TokenUsage" where
  "MergeEvent u0 ev =
     (let u = (if InputTokens ev > 0 then zeroUsage else u0);
          pick = (\<lambda>v old. if v > 0 then v else old)
      in \<lparr>uInput = pick (InputTokens ev) (uInput u), uOutput = pick (OutputTokens ev) (uOutput u),
          uCacheRead = pick (CacheReadTokens ev) (uCacheRead u),
          uCacheWrite = pick (CacheWriteTokens ev) (uCacheWrite u),
          uReasoning = pick (ReasoningTokens ev) (uReasoning u)\<rparr>)"

section \<open>The tracker\<close>

record BudgetCheck =
  WithinBudget :: bool
  bcTokens :: TokenUsage
  Reason :: string

definition RecordTurn :: "TokenUsage \<Rightarrow> TokenUsage \<Rightarrow> TokenUsage" where
  "RecordTurn tt usage = usageAdd tt usage"

definition CheckBudget :: "TokenUsage \<Rightarrow> int option \<Rightarrow> BudgetCheck" where
  "CheckBudget tt maxTokenBudget =
     (case maxTokenBudget of
        Some m \<Rightarrow> if usageTotal tt > m
                  then \<lparr>WithinBudget = False, bcTokens = tt, Reason = ''token_limit_exceeded''\<rparr>
                  else \<lparr>WithinBudget = True, bcTokens = tt, Reason = []\<rparr>
      | None \<Rightarrow> \<lparr>WithinBudget = True, bcTokens = tt, Reason = []\<rparr>)"

section \<open>The ledger\<close>

definition maxSpawnsPerRun :: int where "maxSpawnsPerRun = 8"

record TokenLedger =
  tlLimit :: "int option"
  tlTotal :: TokenUsage
  tlAuxiliary :: TokenUsage
  tlExternal :: TokenUsage
  tlSpawns :: int

definition NewTokenLedger :: "int option \<Rightarrow> TokenLedger" where
  "NewTokenLedger limit =
     \<lparr>tlLimit = limit, tlTotal = zeroUsage, tlAuxiliary = zeroUsage, tlExternal = zeroUsage, tlSpawns = 0\<rparr>"

definition Charge :: "TokenUsage \<Rightarrow> TokenLedger \<Rightarrow> TokenLedger" where
  "Charge usage l = l\<lparr>tlTotal := usageAdd (tlTotal l) usage\<rparr>"

definition ChargeAuxiliary :: "TokenUsage \<Rightarrow> TokenLedger \<Rightarrow> TokenLedger" where
  "ChargeAuxiliary usage l =
     l\<lparr>tlTotal := usageAdd (tlTotal l) usage, tlAuxiliary := usageAdd (tlAuxiliary l) usage\<rparr>"

definition ReportExternal :: "TokenUsage \<Rightarrow> TokenLedger \<Rightarrow> TokenLedger" where
  "ReportExternal usage l = l\<lparr>tlExternal := usageAdd (tlExternal l) usage\<rparr>"

definition LedgerCheckBudget :: "TokenLedger \<Rightarrow> BudgetCheck" where
  "LedgerCheckBudget l = CheckBudget (tlTotal l) (tlLimit l)"

datatype spawnError = TooManySpawns | BudgetSpent int int

definition AdmitSpawn :: "TokenLedger \<Rightarrow> (spawnError + int option) \<times> TokenLedger" where
  "AdmitSpawn l =
     (if tlSpawns l \<ge> maxSpawnsPerRun then (Inl TooManySpawns, l)
      else case tlLimit l of
          None \<Rightarrow> (Inr None, l\<lparr>tlSpawns := tlSpawns l + 1\<rparr>)
        | Some limit \<Rightarrow>
            let used = usageTotal (tlTotal l);
                remaining = wrap64 (limit - used)
            in if remaining \<le> 0 then (Inl (BudgetSpent used limit), l)
               else (Inr (Some remaining), l\<lparr>tlSpawns := tlSpawns l + 1\<rparr>))"

definition budgetExhausted :: "TokenUsage \<Rightarrow> TokenLedger \<Rightarrow> int option \<Rightarrow> bool" where
  "budgetExhausted own ledger maxTokenBudget =
     (\<not> WithinBudget (CheckBudget own maxTokenBudget) \<or> \<not> WithinBudget (LedgerCheckBudget ledger))"

section \<open>The charging provider\<close>

text \<open>
  The goroutine of \<open>chargingProvider.Stream\<close>: it merges every completion event of the inner stream,
  whether the events still reach the caller or are drained after cancellation, and charges once when
  the stream ends. \<open>estimate\<close> is the request estimate it falls back to.
\<close>

definition estimateToolDefinitionTokens :: "ToolDefinition list \<Rightarrow> int" where
  "estimateToolDefinitionTokens tools = estimateLoadedToolDefinitionTokens tools None"

fun mergeStream :: "StreamEvent list \<Rightarrow> TokenUsage \<times> bool \<Rightarrow> TokenUsage \<times> bool" where
  "mergeStream [] acc = acc"
| "mergeStream (ev # evs) (usage, completed) =
     (if evType ev = ''message_complete'' then mergeStream evs (MergeEvent usage ev, True)
      else mergeStream evs (usage, completed))"

definition chargingStream ::
  "(string \<Rightarrow> string \<Rightarrow> string option) \<Rightarrow> Message list \<Rightarrow> string \<Rightarrow> ToolDefinition list \<Rightarrow> bool
     \<Rightarrow> StreamEvent list \<Rightarrow> TokenUsage option" where
  "chargingStream reenc msgs system tools structuredResults evs =
     (let (usage, completed) = mergeStream evs (zeroUsage, False);
          usage' = (if completed \<and> uInput usage = 0
                    then usage\<lparr>uInput := estimateCurrentTokens reenc msgs structuredResults
                           + estimateSystemPromptTokens system + estimateToolDefinitionTokens tools\<rparr>
                    else usage)
      in if usage' \<noteq> zeroUsage then Some usage' else None)"

section \<open>Saturating sums\<close>

definition usageOk :: "TokenUsage \<Rightarrow> bool" where
  "usageOk u = list_all (\<lambda>f. 0 \<le> f u \<and> f u \<le> MaxInt) [uInput, uOutput, uCacheRead, uCacheWrite, uReasoning]"

lemma saturatingAdd_nonneg:
  assumes "0 \<le> a" "a \<le> MaxInt" "0 \<le> b" "b \<le> MaxInt"
  shows "saturatingAdd a b = min MaxInt (a + b)"
  using assms by (auto simp: saturatingAdd_def wrap64_id isInt64_def MinInt_def MaxInt_def)

lemma saturatingAdd_clamps:
  assumes "isInt64 a" "isInt64 b"
  shows "saturatingAdd a b = max MinInt (min MaxInt (a + b))"
  using assms by (auto simp: saturatingAdd_def wrap64_id isInt64_def MinInt_def MaxInt_def)

lemma usageOk_zero [simp]: "usageOk zeroUsage"
  by (simp add: usageOk_def zeroUsage_def MaxInt_def)

lemma usageOk_add: "usageOk u \<Longrightarrow> usageOk w \<Longrightarrow> usageOk (usageAdd u w)"
  by (simp add: usageOk_def usageAdd_def saturatingAdd_nonneg MaxInt_def)

text \<open>A running total is the exact sum of what was charged, capped at \<open>MaxInt\<close>.\<close>

definition cappedSum :: "(TokenUsage \<Rightarrow> int) \<Rightarrow> TokenUsage list \<Rightarrow> int" where
  "cappedSum f us = min MaxInt (sum_list (map f us))"

definition sumUsage :: "TokenUsage list \<Rightarrow> TokenUsage" where
  "sumUsage us =
     \<lparr>uInput = cappedSum uInput us, uOutput = cappedSum uOutput us, uCacheRead = cappedSum uCacheRead us,
      uCacheWrite = cappedSum uCacheWrite us, uReasoning = cappedSum uReasoning us\<rparr>"

lemma cappedSum_snoc:
  assumes "\<forall>u \<in> set us. 0 \<le> f u" "0 \<le> f u" "f u \<le> MaxInt"
  shows "saturatingAdd (cappedSum f us) (f u) = cappedSum f (us @ [u])"
proof -
  have "0 \<le> sum_list (map f us)"
    using assms(1) by (intro sum_list_nonneg) auto
  then show ?thesis
    using assms(2,3) by (subst saturatingAdd_nonneg) (auto simp: cappedSum_def MaxInt_def)
qed

lemma sumUsage_snoc:
  assumes "\<forall>w \<in> set us. usageOk w" "usageOk u"
  shows "usageAdd (sumUsage us) u = sumUsage (us @ [u])"
  using assms unfolding usageAdd_def sumUsage_def
  by (auto simp: usageOk_def intro!: cappedSum_snoc)

lemma sumUsage_Nil: "sumUsage [] = zeroUsage"
  by (simp add: sumUsage_def cappedSum_def zeroUsage_def MaxInt_def)

lemma sumUsage_mset: "mset us = mset vs \<Longrightarrow> sumUsage us = sumUsage vs"
  unfolding sumUsage_def cappedSum_def by (simp flip: sum_mset_sum_list)

section \<open>Runs of a shared ledger\<close>

datatype ledgerOp = OpCharge TokenUsage | OpAuxiliary TokenUsage | OpExternal TokenUsage | OpSpawn

fun ledgerStep :: "ledgerOp \<Rightarrow> TokenLedger \<Rightarrow> (spawnError + int option) option \<times> TokenLedger" where
  "ledgerStep (OpCharge u) l = (None, Charge u l)"
| "ledgerStep (OpAuxiliary u) l = (None, ChargeAuxiliary u l)"
| "ledgerStep (OpExternal u) l = (None, ReportExternal u l)"
| "ledgerStep OpSpawn l = apfst Some (AdmitSpawn l)"

fun ledgerRun :: "ledgerOp list \<Rightarrow> TokenLedger \<Rightarrow> (spawnError + int option) option list \<times> TokenLedger" where
  "ledgerRun [] l = ([], l)"
| "ledgerRun (opn # ops) l = (case ledgerStep opn l of (out, l') \<Rightarrow> apfst ((#) out) (ledgerRun ops l'))"

fun opUsage :: "ledgerOp \<Rightarrow> TokenUsage list" where
  "opUsage (OpCharge u) = [u]"
| "opUsage (OpAuxiliary u) = [u]"
| "opUsage (OpExternal u) = [u]"
| "opUsage OpSpawn = []"

fun isCharged :: "ledgerOp \<Rightarrow> bool" where
  "isCharged (OpCharge u) = True"
| "isCharged (OpAuxiliary u) = True"
| "isCharged _ = False"

fun isAuxiliary :: "ledgerOp \<Rightarrow> bool" where
  "isAuxiliary (OpAuxiliary u) = True"
| "isAuxiliary _ = False"

fun isExternal :: "ledgerOp \<Rightarrow> bool" where
  "isExternal (OpExternal u) = True"
| "isExternal _ = False"

abbreviation usages :: "(ledgerOp \<Rightarrow> bool) \<Rightarrow> ledgerOp list \<Rightarrow> TokenUsage list" where
  "usages P ops \<equiv> concat (map opUsage (filter P ops))"

abbreviation opsOk :: "ledgerOp list \<Rightarrow> bool" where
  "opsOk ops \<equiv> \<forall>opn \<in> set ops. \<forall>u \<in> set (opUsage opn). usageOk u"

lemma ledgerRun_snoc:
  "ledgerRun (ops @ [opn]) l =
     (case ledgerRun ops l of (outs, l1) \<Rightarrow> case ledgerStep opn l1 of (out, l2) \<Rightarrow> (outs @ [out], l2))"
  by (induction ops arbitrary: l) (auto split: prod.splits)

lemma AdmitSpawn_keeps:
  "tlTotal (snd (AdmitSpawn l)) = tlTotal l" "tlAuxiliary (snd (AdmitSpawn l)) = tlAuxiliary l"
  "tlExternal (snd (AdmitSpawn l)) = tlExternal l" "tlLimit (snd (AdmitSpawn l)) = tlLimit l"
  by (simp_all add: AdmitSpawn_def Let_def split: option.splits)

lemma ledgerRun_totals:
  assumes "opsOk ops"
  shows "tlTotal (snd (ledgerRun ops (NewTokenLedger limit))) = sumUsage (usages isCharged ops)
    \<and> tlAuxiliary (snd (ledgerRun ops (NewTokenLedger limit))) = sumUsage (usages isAuxiliary ops)
    \<and> tlExternal (snd (ledgerRun ops (NewTokenLedger limit))) = sumUsage (usages isExternal ops)
    \<and> tlLimit (snd (ledgerRun ops (NewTokenLedger limit))) = limit"
  using assms
proof (induction ops rule: rev_induct)
  case Nil
  then show ?case by (simp add: NewTokenLedger_def sumUsage_Nil)
next
  case (snoc opn ops)
  obtain outs l where run: "ledgerRun ops (NewTokenLedger limit) = (outs, l)"
    by force
  have IH: "tlTotal l = sumUsage (usages isCharged ops)" "tlAuxiliary l = sumUsage (usages isAuxiliary ops)"
    "tlExternal l = sumUsage (usages isExternal ops)" "tlLimit l = limit"
    using snoc by (auto simp: run)
  have add: "usageAdd (sumUsage (usages P ops)) u = sumUsage (usages P ops @ [u])" if "usageOk u" for P u
    using snoc.prems that by (intro sumUsage_snoc) auto
  show ?case
    using snoc.prems IH add
    by (cases opn) (auto simp: ledgerRun_snoc run Charge_def ChargeAuxiliary_def ReportExternal_def
        AdmitSpawn_keeps case_prod_unfold)
qed

lemma usages_mset: "mset ops = mset ops' \<Longrightarrow> mset (usages P ops) = mset (usages P ops')"
proof -
  have "mset (usages P xs) = (\<Sum>opn \<in># filter_mset P (mset xs). mset (opUsage opn))" for xs
    by (induction xs) auto
  then show "mset ops = mset ops' \<Longrightarrow> mset (usages P ops) = mset (usages P ops')"
    by simp
qed

lemma usageTotal_mono:
  assumes "usageOk u" "usageOk w"
  shows "usageTotal u \<le> usageTotal (usageAdd u w)"
  using assms by (auto simp: usageTotal_def usageOk_def usageAdd_def saturatingAdd_nonneg MaxInt_def)

lemma ledgerRun_append:
  "ledgerRun (xs @ ys) l = (case ledgerRun xs l of (o1, l1) \<Rightarrow> case ledgerRun ys l1 of (o2, l2) \<Rightarrow> (o1 @ o2, l2))"
  by (induction xs arbitrary: l) (auto split: prod.splits)

lemma ledgerStep_grows:
  assumes "usageOk (tlTotal l)" "\<forall>u \<in> set (opUsage opn). usageOk u"
  shows "usageOk (tlTotal (snd (ledgerStep opn l)))
    \<and> usageTotal (tlTotal l) \<le> usageTotal (tlTotal (snd (ledgerStep opn l)))
    \<and> tlLimit (snd (ledgerStep opn l)) = tlLimit l"
  using assms by (cases opn) (auto simp: Charge_def ChargeAuxiliary_def ReportExternal_def AdmitSpawn_keeps
      usageOk_add usageTotal_mono)

lemma ledgerRun_grows:
  "usageOk (tlTotal l) \<Longrightarrow> opsOk ops \<Longrightarrow>
   usageOk (tlTotal (snd (ledgerRun ops l)))
   \<and> usageTotal (tlTotal l) \<le> usageTotal (tlTotal (snd (ledgerRun ops l)))
   \<and> tlLimit (snd (ledgerRun ops l)) = tlLimit l"
proof (induction ops arbitrary: l)
  case (Cons opn ops)
  note step = ledgerStep_grows [OF Cons.prems(1), of opn]
  have "usageOk (tlTotal (snd (ledgerStep opn l)))"
    using step Cons.prems by simp
  from Cons.IH [OF this] step Cons.prems show ?case
    by (auto split: prod.splits)
qed simp

lemma usageTotal_bounds: "usageOk u \<Longrightarrow> 0 \<le> usageTotal u \<and> usageTotal u \<le> MaxInt"
  by (simp add: usageTotal_def usageOk_def saturatingAdd_nonneg MaxInt_def)

lemma usageOk_new [simp]: "usageOk (tlTotal (NewTokenLedger limit))"
  by (simp add: NewTokenLedger_def)

lemma AdmitSpawn_remaining:
  assumes "usageOk (tlTotal l)" "tlLimit l = Some limit" "0 \<le> limit" "limit \<le> MaxInt"
  shows "AdmitSpawn l =
    (if tlSpawns l \<ge> 8 then (Inl TooManySpawns, l)
     else if limit \<le> usageTotal (tlTotal l) then (Inl (BudgetSpent (usageTotal (tlTotal l)) limit), l)
     else (Inr (Some (limit - usageTotal (tlTotal l))), l\<lparr>tlSpawns := tlSpawns l + 1\<rparr>))"
proof -
  have "wrap64 (limit - usageTotal (tlTotal l)) = limit - usageTotal (tlTotal l)"
    using usageTotal_bounds [OF assms(1)] assms(3,4)
    by (intro wrap64_id) (auto simp: isInt64_def MinInt_def MaxInt_def)
  then show ?thesis
    using assms(2) by (simp add: AdmitSpawn_def maxSpawnsPerRun_def Let_def)
qed

lemma ledgerRun_spawns:
  "ledgerRun ops l = (outs, l') \<Longrightarrow> tlSpawns l \<le> 8 \<Longrightarrow>
   tlSpawns l' = tlSpawns l + len (filter (\<lambda>out. \<exists>b. out = Some (Inr b)) outs) \<and> tlSpawns l' \<le> 8"
proof (induction ops arbitrary: l outs)
  case (Cons opn ops)
  obtain out l1 where step: "ledgerStep opn l = (out, l1)" by force
  obtain outs1 where run: "ledgerRun ops l1 = (outs1, l')" "outs = out # outs1"
    using Cons.prems(1) by (cases "ledgerRun ops l1") (auto simp: step)
  have "tlSpawns l1 = tlSpawns l + (if \<exists>b. out = Some (Inr b) then 1 else 0) \<and> tlSpawns l1 \<le> 8"
    using step Cons.prems(2)
    by (cases opn) (auto simp: Charge_def ChargeAuxiliary_def ReportExternal_def AdmitSpawn_def
        maxSpawnsPerRun_def Let_def split: if_splits option.splits)
  then show ?case
    using Cons.IH [OF run(1)] run(2) by auto
qed simp

lemma ledgerRun_nth:
  "k < length ops \<Longrightarrow> fst (ledgerRun ops l) ! k = fst (ledgerStep (ops ! k) (snd (ledgerRun (take k ops) l)))"
proof (induction ops arbitrary: l k)
  case (Cons opn ops)
  then show ?case by (cases k) (auto split: prod.splits)
qed simp

lemma mergeStream_input:
  "0 \<le> uInput (fst acc) \<Longrightarrow> 0 \<le> uInput (fst (mergeStream evs acc))"
  by (induction evs acc rule: mergeStream.induct) (auto simp: MergeEvent_def zeroUsage_def Let_def)

lemma mergeStream_completed:
  "snd (mergeStream evs (u, c)) \<longleftrightarrow> c \<or> (\<exists>ev \<in> set evs. evType ev = ''message_complete'')"
  by (induction evs arbitrary: u c) auto

lemma mergeStream_incomplete:
  "\<not> snd (mergeStream evs (u, False)) \<Longrightarrow> fst (mergeStream evs (u, False)) = u"
  by (induction evs arbitrary: u) (auto simp: mergeStream_completed)

lemma estimateLoadedToolDefinitionTokens_nonneg: "0 \<le> estimateLoadedToolDefinitionTokens tools loaded"
  unfolding estimateLoadedToolDefinitionTokens_def
  by (rule sum_list_nonneg) (auto simp: toolDefinitionOverheadTokens_def tokenEstimationDivisor_def
      intro!: add_nonneg_nonneg)

lemma estimate_positive:
  "0 < estimateCurrentTokens reenc msgs sr + estimateSystemPromptTokens system
     + estimateToolDefinitionTokens tools"
proof -
  have "1 \<le> estimateCurrentTokens reenc msgs sr" "0 \<le> estimateSystemPromptTokens system"
    by (simp_all add: estimateCurrentTokens_def estimateSystemPromptTokens_def tokenEstimationDivisor_def
        messageOverheadTokens_def Let_def)
  then show ?thesis
    using estimateLoadedToolDefinitionTokens_nonneg [of tools None]
    by (simp add: estimateToolDefinitionTokens_def)
qed

section \<open>Properties\<close>

definition usageOf :: "int \<Rightarrow> int \<Rightarrow> TokenUsage" where
  "usageOf i o' = zeroUsage\<lparr>uInput := i, uOutput := o'\<rparr>"

text \<open>
  However concurrent callers interleave, the ledger's totals are the exact sums of the usage
  charged, capped at the largest integer: the run total counts turns and auxiliary calls, the
  auxiliary figure only the latter, and external guard usage counts toward neither. Two runs of the
  same operations in any order end with the same totals.
\<close>

theorem ledger_totals_order_independent:
  assumes "\<forall>opn \<in> set ops. \<forall>u \<in> set (opUsage opn). usageOk u" "mset ops' = mset ops"
  shows "tlTotal (snd (ledgerRun ops' (NewTokenLedger limit))) = sumUsage (usages isCharged ops)
    \<and> tlAuxiliary (snd (ledgerRun ops' (NewTokenLedger limit))) = sumUsage (usages isAuxiliary ops)
    \<and> tlExternal (snd (ledgerRun ops' (NewTokenLedger limit))) = sumUsage (usages isExternal ops)"
proof -
  have "opsOk ops'"
    using assms by (metis set_mset_mset)
  note totals = ledgerRun_totals [OF this, of limit]
  have "sumUsage (usages P ops') = sumUsage (usages P ops)" for P
    by (rule sumUsage_mset [OF usages_mset [OF assms(2)]])
  then show ?thesis
    using totals by simp
qed

theorem ledger_totals_order_independent_witness:
  "tlTotal (snd (ledgerRun [OpAuxiliary (usageOf 5 2), OpSpawn, OpCharge (usageOf MaxInt 1), OpExternal (usageOf 9 9)]
      (NewTokenLedger None))) = usageOf MaxInt 3"
proof -
  let ?ops = "[OpCharge (usageOf MaxInt 1), OpAuxiliary (usageOf 5 2), OpExternal (usageOf 9 9), OpSpawn]"
  let ?ops' = "[OpAuxiliary (usageOf 5 2), OpSpawn, OpCharge (usageOf MaxInt 1), OpExternal (usageOf 9 9)]"
  have "\<forall>opn \<in> set ?ops. \<forall>u \<in> set (opUsage opn). usageOk u" "mset ?ops' = mset ?ops"
    by (simp_all add: usageOf_def usageOk_def zeroUsage_def MaxInt_def)
  from ledger_totals_order_independent [OF this, of None] show ?thesis
    by (simp add: sumUsage_def cappedSum_def usageOf_def zeroUsage_def MaxInt_def)
qed

text \<open>
  An exceeded token budget stays exceeded. Once the ledger reports the run over its limit, no
  further operation by the parent, a sub-agent or an auxiliary call brings it back within it, and no
  further sub-agent is admitted.
\<close>

theorem ledger_budget_sticky:
  assumes "\<forall>opn \<in> set (ops @ rest). \<forall>u \<in> set (opUsage opn). usageOk u" "0 \<le> limit" "limit \<le> MaxInt"
    and over: "\<not> WithinBudget (LedgerCheckBudget (snd (ledgerRun ops (NewTokenLedger (Some limit)))))"
  shows "\<not> WithinBudget (LedgerCheckBudget (snd (ledgerRun (ops @ rest) (NewTokenLedger (Some limit)))))
     \<and> (\<forall>b. fst (AdmitSpawn (snd (ledgerRun (ops @ rest) (NewTokenLedger (Some limit))))) \<noteq> Inr b)"
proof -
  let ?l0 = "NewTokenLedger (Some limit)" and ?l1 = "snd (ledgerRun ops (NewTokenLedger (Some limit)))"
  let ?l2 = "snd (ledgerRun (ops @ rest) ?l0)"
  have l2: "?l2 = snd (ledgerRun rest ?l1)"
    by (simp add: ledgerRun_append split: prod.splits)
  have first: "usageOk (tlTotal ?l1)" "tlLimit ?l1 = Some limit"
    using ledgerRun_grows [of ?l0 ops] assms(1) by (auto simp: NewTokenLedger_def)
  have second: "usageOk (tlTotal ?l2)" "tlLimit ?l2 = Some limit"
      "usageTotal (tlTotal ?l1) \<le> usageTotal (tlTotal ?l2)"
    using ledgerRun_grows [OF first(1), of rest] assms(1) first(2) by (auto simp: l2)
  have "limit < usageTotal (tlTotal ?l1)"
    using over by (auto simp: LedgerCheckBudget_def CheckBudget_def first split: if_splits)
  then show ?thesis
    using second AdmitSpawn_remaining [OF second(1,2) assms(2,3)]
    by (auto simp: LedgerCheckBudget_def CheckBudget_def)
qed

theorem ledger_budget_sticky_witness:
  "\<not> WithinBudget (LedgerCheckBudget (snd (ledgerRun [OpCharge (usageOf 80 30), OpCharge (usageOf 1 1)]
       (NewTokenLedger (Some 100)))))"
proof -
  have "\<forall>opn \<in> set ([OpCharge (usageOf 80 30)] @ [OpCharge (usageOf 1 1)]). \<forall>u \<in> set (opUsage opn). usageOk u"
    "(0::int) \<le> 100" "(100::int) \<le> MaxInt"
    "\<not> WithinBudget (LedgerCheckBudget (snd (ledgerRun [OpCharge (usageOf 80 30)] (NewTokenLedger (Some 100)))))"
    by code_simp+
  from ledger_budget_sticky [OF this] show ?thesis by simp
qed

text \<open>
  C20: sub-agents are bounded. Over any sequence of operations at most eight spawns are admitted, and
  each admitted budget is positive and at most what the limit leaves at that moment.
\<close>

theorem ledger_spawns_bounded:
  assumes "\<forall>opn \<in> set ops. \<forall>u \<in> set (opUsage opn). usageOk u" "0 \<le> limit" "limit \<le> MaxInt"
    and "ledgerRun ops (NewTokenLedger (Some limit)) = (outs, l)"
  shows "length (filter (\<lambda>out. \<exists>b. out = Some (Inr b)) outs) \<le> 8
     \<and> (\<forall>k < length ops. \<forall>b. outs ! k = Some (Inr b) \<longrightarrow>
          (\<exists>r. b = Some r \<and> 0 < r
             \<and> r = limit - usageTotal (tlTotal (snd (ledgerRun (take k ops) (NewTokenLedger (Some limit)))))))"
proof (intro conjI allI impI)
  show "length (filter (\<lambda>out. \<exists>b. out = Some (Inr b)) outs) \<le> 8"
    using ledgerRun_spawns [OF assms(4)] by (simp add: NewTokenLedger_def)
  fix k b
  let ?l = "snd (ledgerRun (take k ops) (NewTokenLedger (Some limit)))"
  assume k: "k < length ops" "outs ! k = Some (Inr b)"
  have l: "usageOk (tlTotal ?l)" "tlLimit ?l = Some limit"
    using ledgerRun_grows [of "NewTokenLedger (Some limit)" "take k ops"] assms(1)
    by (auto simp: NewTokenLedger_def dest: in_set_takeD)
  have "fst (ledgerStep (ops ! k) ?l) = Some (Inr b)"
    using ledgerRun_nth [OF k(1), of "NewTokenLedger (Some limit)"] k(2) assms(4) by simp
  then show "\<exists>r. b = Some r \<and> 0 < r \<and> r = limit - usageTotal (tlTotal ?l)"
    using AdmitSpawn_remaining [OF l assms(2,3)] by (cases "ops ! k") (auto split: if_splits)
qed

theorem ledger_spawns_bounded_witness:
  "fst (ledgerRun [OpCharge (usageOf 60 10), OpSpawn, OpCharge (usageOf 20 20), OpSpawn] (NewTokenLedger (Some 100)))
     = [None, Some (Inr (Some 30)), None, Some (Inl (BudgetSpent 110 100))]
   \<and> (\<exists>r. Some (30::int) = Some r \<and> 0 < r
        \<and> r = 100 - usageTotal (tlTotal (snd (ledgerRun [OpCharge (usageOf 60 10)] (NewTokenLedger (Some 100))))))"
proof -
  let ?ops = "[OpCharge (usageOf 60 10), OpSpawn, OpCharge (usageOf 20 20), OpSpawn]"
  have outs: "fst (ledgerRun ?ops (NewTokenLedger (Some 100)))
     = [None, Some (Inr (Some 30)), None, Some (Inl (BudgetSpent 110 100))]"
    by code_simp
  have "\<forall>opn \<in> set ?ops. \<forall>u \<in> set (opUsage opn). usageOk u" "(0::int) \<le> 100" "(100::int) \<le> MaxInt"
    by code_simp+
  from ledger_spawns_bounded [OF this surjective_pairing]
  have "\<forall>k < length ?ops. \<forall>b. fst (ledgerRun ?ops (NewTokenLedger (Some 100))) ! k = Some (Inr b) \<longrightarrow>
          (\<exists>r. b = Some r \<and> 0 < r
             \<and> r = 100 - usageTotal (tlTotal (snd (ledgerRun (take k ?ops) (NewTokenLedger (Some 100))))))"
    by blast
  from this [rule_format, of 1 "Some 30"] outs show ?thesis by simp
qed

text \<open>
  The charging provider charges a stream exactly when a completion event arrived, whether or not
  the caller was still reading, and what it charges always has a positive input count: the count the
  provider reported or, failing that, the estimate of the request.
\<close>

theorem charging_stream_charges:
  "(chargingStream reenc msgs system tools sr evs \<noteq> None
      \<longleftrightarrow> (\<exists>ev \<in> set evs. evType ev = ''message_complete''))
   \<and> (\<forall>u. chargingStream reenc msgs system tools sr evs = Some u \<longrightarrow> 0 < uInput u
        \<and> (uInput (fst (mergeStream evs (zeroUsage, False))) \<noteq> 0 \<longrightarrow> u = fst (mergeStream evs (zeroUsage, False))))"
proof -
  obtain u c where m: "mergeStream evs (zeroUsage, False) = (u, c)"
    by force
  have c: "c \<longleftrightarrow> (\<exists>ev \<in> set evs. evType ev = ''message_complete'')"
    using mergeStream_completed [of evs zeroUsage False] by (simp add: m)
  have none: "u = zeroUsage" if "\<not> c"
    using mergeStream_incomplete [of evs zeroUsage] that by (simp add: m)
  have input: "0 \<le> uInput u"
    using mergeStream_input [of "(zeroUsage, False)" evs] unfolding m by (simp add: zeroUsage_def)
  have zero: "uInput zeroUsage = 0"
    by (simp add: zeroUsage_def)
  have pos: "w \<noteq> zeroUsage" if "0 < uInput w" for w
    using that by (auto simp: zeroUsage_def)
  show ?thesis
    using none input pos estimate_positive [of reenc msgs sr system tools] zero
    by (auto simp: chargingStream_def m Let_def simp flip: c)
qed

definition completion :: "int \<Rightarrow> int \<Rightarrow> StreamEvent" where
  "completion i o' = \<lparr>evType = ''message_complete'', InputTokens = i, OutputTokens = o',
     CacheReadTokens = 0, CacheWriteTokens = 0, ReasoningTokens = 0\<rparr>"

theorem charging_stream_charges_witness:
  "chargingStream (\<lambda>_ _. None) [] [] [] True [completion 10 1, completion 0 7] = Some (usageOf 10 7)
   \<and> (\<exists>ev \<in> set [completion 10 1, completion 0 7]. evType ev = ''message_complete'')"
proof -
  have "chargingStream (\<lambda>_ _. None) [] [] [] True [completion 10 1, completion 0 7] = Some (usageOf 10 7)"
    by code_simp
  with charging_stream_charges [of "\<lambda>_ _. None" "[]" "[]" "[]" True "[completion 10 1, completion 0 7]"]
  show ?thesis by auto
qed

end
