(* ===== verification/Turn_Request.thy ===== *)
theory Turn_Request
  imports Token_Ledger
begin

text \<open>
  Re-issuing a model turn: the retry policy of \<open>core/turnretry.go\<close> and the attempt loop of
  \<open>requestProvider\<close> in \<open>core/turnrequest.go\<close>. Durations and instants are counts of nanoseconds at
  64 bits. What the loop observes of the outside world in attempt \<open>n\<close> (the provider's answer,
  cancellation, the clock, the random jitter) is a record given by an environment function; spans,
  logs and transport events are left out, while the retry-outcome metric, the token charges and the
  recorded error turn are returned.
\<close>

section \<open>The retry policy (turnretry.go)\<close>

definition maxTurnRetries :: int where "maxTurnRetries = 2"
definition Millisecond :: int where "Millisecond = 1000000"
definition turnRetryInitialDelayFallback :: int where "turnRetryInitialDelayFallback = 500 * Millisecond"
definition turnRetryMaxDelayFallback :: int where "turnRetryMaxDelayFallback = 16000 * Millisecond"

datatype turnRetryOutcome = Succeeded | Exhausted | BudgetExhausted | NonRetryable | ContextDone

record ProviderRetryConfig =
  MaxAttempts :: int
  InitialDelayMs :: int
  MaxDelayMs :: int
  WallClockBudgetMs :: int

record turnRetryPolicy =
  maxRetries :: int
  initialDelay :: int
  maxDelay :: int
  budget :: int

definition zeroPolicy :: turnRetryPolicy where
  "zeroPolicy = \<lparr>maxRetries = 0, initialDelay = 0, maxDelay = 0, budget = 0\<rparr>"

definition turnRetryPolicyFor ::
  "ProviderRetryConfig option \<Rightarrow> (string \<rightharpoonup> ProviderRetryConfig option) \<Rightarrow> string \<Rightarrow> turnRetryPolicy" where
  "turnRetryPolicyFor defaultRetry providers providerName =
     (let cfg = (case providers providerName of Some (Some named) \<Rightarrow> Some named | _ \<Rightarrow> defaultRetry)
      in case cfg of
           None \<Rightarrow> zeroPolicy
         | Some c \<Rightarrow>
             if MaxAttempts c \<le> 1 then zeroPolicy
             else
               let initial0 = wrap64 (InitialDelayMs c * Millisecond);
                   initial = (if initial0 \<le> 0 then turnRetryInitialDelayFallback else initial0);
                   maxDelay0 = wrap64 (MaxDelayMs c * Millisecond);
                   maxDelay1 = (if maxDelay0 \<le> 0 then turnRetryMaxDelayFallback else maxDelay0)
               in \<lparr>maxRetries = min (MaxAttempts c - 1) maxTurnRetries, initialDelay = initial,
                   maxDelay = maxDelay1, budget = wrap64 (WallClockBudgetMs c * Millisecond)\<rparr>)"

definition delay :: "(int \<Rightarrow> int) \<Rightarrow> turnRetryPolicy \<Rightarrow> nat \<Rightarrow> int" where
  "delay int64N p n =
     (let shifted = wrap64 (initialDelay p * 2 ^ n);
          upper = (if shifted \<le> 0 \<or> shifted > maxDelay p then maxDelay p else shifted)
      in if upper \<le> 0 then 0
         else let half = upper div 2 in half + int64N (upper - half))"

record turnRetrier =
  policy :: turnRetryPolicy
  retries :: nat
  engaged :: bool
  firstFailure :: int

definition newRetrier :: "turnRetryPolicy \<Rightarrow> turnRetrier" where
  "newRetrier p = \<lparr>policy = p, retries = 0, engaged = False, firstFailure = 0\<rparr>"

text \<open>\<open>Time.Sub\<close> saturates; the sum with the delay wraps.\<close>

definition timeSub :: "int \<Rightarrow> int \<Rightarrow> int" where
  "timeSub t u = max MinInt (min MaxInt (t - u))"

datatype nextDecision = Retry int | Stop "turnRetryOutcome option"

definition nextRetry :: "(int \<Rightarrow> int) \<Rightarrow> int \<Rightarrow> turnRetrier \<Rightarrow> nextDecision \<times> turnRetrier" where
  "nextRetry int64N now r0 =
     (if maxRetries (policy r0) = 0 then (Stop None, r0)
      else
        let r = (if \<not> engaged r0 then r0\<lparr>engaged := True, firstFailure := now\<rparr> else r0)
        in if int (retries r) \<ge> maxRetries (policy r) then (Stop (Some Exhausted), r)
           else
             let d = delay int64N (policy r) (retries r)
             in if budget (policy r) > 0 \<and> wrap64 (timeSub now (firstFailure r) + d) > budget (policy r)
                then (Stop (Some BudgetExhausted), r)
                else (Retry d, r\<lparr>retries := retries r + 1\<rparr>))"

definition maxAttempts :: "turnRetrier \<Rightarrow> int" where
  "maxAttempts r = maxRetries (policy r) + 1"

section \<open>The attempt loop (turnrequest.go)\<close>

text \<open>
  What attempt \<open>n\<close> sees: a completed stream with its usage, or a failure with the usage of the
  partial stream if one was opened; the classification of the error; the two readings of the
  context's error; the clock; the jitter; and whether the wait before a retry elapsed.
\<close>

record attemptEnv =
  answer :: "TokenUsage option + TokenUsage"
  isOverflow :: bool
  isRetryable :: bool
  ctxDoneEarly :: bool
  ctxDone :: bool
  clock :: int
  jitter :: "int \<Rightarrow> int"
  sleepElapsed :: bool

record providerAttempt =
  paUsage :: "TokenUsage option"
  paTokens :: TokenUsage
  paInputReported :: bool
  paRetries :: nat
  paFailed :: bool
  paSummary :: "TokenUsage option"
  paAttempts :: nat
  paCharges :: "TokenUsage list"
  paOutcomes :: "turnRetryOutcome list"

definition completeAttempt ::
  "TokenUsage \<Rightarrow> TokenUsage \<Rightarrow> turnRetrier \<Rightarrow> int \<Rightarrow> nat \<Rightarrow> providerAttempt" where
  "completeAttempt usage discarded r requestTokens attemptNo =
     (let inputReported = uInput usage > 0;
          tokens = (if inputReported then usage else usage\<lparr>uInput := requestTokens\<rparr>)
      in \<lparr>paUsage = Some usage, paTokens = usageAdd tokens discarded, paInputReported = inputReported,
          paRetries = retries r, paFailed = False, paSummary = None, paAttempts = attemptNo,
          paCharges = [], paOutcomes = (if engaged r then [Succeeded] else [])\<rparr>)"

definition failedAttempt ::
  "TokenUsage \<Rightarrow> turnRetrier \<Rightarrow> nat \<Rightarrow> turnRetryOutcome option \<Rightarrow> providerAttempt" where
  "failedAttempt discarded r attemptNo outcome =
     \<lparr>paUsage = None, paTokens = discarded, paInputReported = False, paRetries = retries r,
      paFailed = True, paSummary = Some discarded, paAttempts = attemptNo,
      paCharges = [discarded],
      paOutcomes = (case outcome of None \<Rightarrow> [] | Some out \<Rightarrow> [out])\<rparr>"

definition overflowAttempt :: "TokenUsage \<Rightarrow> turnRetrier \<Rightarrow> nat \<Rightarrow> providerAttempt" where
  "overflowAttempt discarded r attemptNo =
     \<lparr>paUsage = None, paTokens = discarded, paInputReported = False, paRetries = retries r,
      paFailed = True, paSummary = None, paAttempts = attemptNo, paCharges = [discarded],
      paOutcomes = []\<rparr>"

lemma nextRetry_Retry:
  assumes "nextRetry rnd now r = (Retry d, r')"
  shows "policy r' = policy r" "retries r' = retries r + 1" "int (retries r) < maxRetries (policy r)"
    "engaged r'" "firstFailure r' = (if engaged r then firstFailure r else now)"
    "d = delay rnd (policy r) (retries r)"
    "0 < budget (policy r) \<Longrightarrow> wrap64 (timeSub now (firstFailure r') + d) \<le> budget (policy r)"
  using assms by (auto simp: nextRetry_def Let_def split: if_splits)

lemma nextRetry_measure:
  "nextRetry rnd now r = (Retry d, r') \<Longrightarrow>
   maxRetries (policy r') - int (retries r') < maxRetries (policy r) - int (retries r)
   \<and> int (retries r) < maxRetries (policy r)"
  using nextRetry_Retry [of rnd now r d r'] by simp

function requestLoop ::
  "(nat \<Rightarrow> attemptEnv) \<Rightarrow> int \<Rightarrow> bool \<Rightarrow> nat \<Rightarrow> turnRetrier \<Rightarrow> TokenUsage \<Rightarrow> providerAttempt" where
  "requestLoop env requestTokens retryOverflow attemptNo r discarded0 =
     (let a = env attemptNo in
      case answer a of
        Inr usage \<Rightarrow> completeAttempt usage discarded0 r requestTokens attemptNo
      | Inl partial \<Rightarrow>
          let discarded = (case partial of None \<Rightarrow> discarded0 | Some u \<Rightarrow> usageAdd discarded0 u);
              overflow = (\<not> ctxDoneEarly a \<and> isOverflow a)
          in if retryOverflow \<and> overflow then overflowAttempt discarded r attemptNo
             else if ctxDone a
             then failedAttempt discarded r attemptNo (if engaged r then Some ContextDone else None)
             else if isRetryable a
             then (case nextRetry (jitter a) (clock a) r of
                     (Stop outcome, r') \<Rightarrow> failedAttempt discarded r' attemptNo outcome
                   | (Retry d, r') \<Rightarrow>
                       if sleepElapsed a
                       then requestLoop env requestTokens retryOverflow (Suc attemptNo) r' discarded
                       else failedAttempt discarded r' attemptNo (Some ContextDone))
             else failedAttempt discarded r attemptNo (if engaged r then Some NonRetryable else None))"
  by pat_completeness auto
termination
proof (relation "measure (\<lambda>(_, _, _, _, r, _). nat (maxRetries (policy r) - int (retries r)))", goal_cases)
  case 2
  then show ?case by (simp add: nextRetry_measure [OF sym])
qed simp

declare requestLoop.simps [simp del]

definition requestProvider ::
  "(nat \<Rightarrow> attemptEnv) \<Rightarrow> int \<Rightarrow> bool \<Rightarrow> bool \<Rightarrow> turnRetryPolicy \<Rightarrow> providerAttempt" where
  "requestProvider env requestTokens retryOverflow isBatch p =
     requestLoop env requestTokens retryOverflow 1 (newRetrier (if isBatch then zeroPolicy else p)) zeroUsage"

section \<open>Facts about the policy\<close>

definition jitterOk :: "(int \<Rightarrow> int) \<Rightarrow> bool" where
  "jitterOk int64N = (\<forall>k > 0. 0 \<le> int64N k \<and> int64N k < k)"

lemma delay_bounds:
  assumes "jitterOk rnd"
  shows "0 \<le> delay rnd p n \<and> delay rnd p n \<le> max 0 (maxDelay p)"
proof -
  have b: "0 \<le> u div 2 + rnd (u - u div 2) \<and> u div 2 + rnd (u - u div 2) < u" if "0 < u" for u
  proof -
    have "0 < u - u div 2" "0 \<le> u div 2"
      using that by auto
    with assms show ?thesis
      unfolding jitterOk_def by fastforce
  qed
  show ?thesis
    using b [of "maxDelay p"] b [of "wrap64 (initialDelay p * 2 ^ n)"]
    by (auto simp: delay_def Let_def)
qed

lemma turnRetryPolicyFor_bounds:
  "0 \<le> maxRetries (turnRetryPolicyFor d ps n)" "maxRetries (turnRetryPolicyFor d ps n) \<le> 2"
  "maxRetries (turnRetryPolicyFor d ps n) \<noteq> 0 \<Longrightarrow>
     0 < initialDelay (turnRetryPolicyFor d ps n) \<and> 0 < maxDelay (turnRetryPolicyFor d ps n)"
  by (auto simp: turnRetryPolicyFor_def Let_def zeroPolicy_def maxTurnRetries_def
      turnRetryInitialDelayFallback_def turnRetryMaxDelayFallback_def Millisecond_def
      split: option.splits)

section \<open>Facts about the loop\<close>

text \<open>The usage the provider reported in attempts \<open>n\<close> to \<open>m\<close>, oldest first.\<close>

definition partialUsage :: "attemptEnv \<Rightarrow> TokenUsage list" where
  "partialUsage a = (case answer a of Inl (Some u) \<Rightarrow> [u] | _ \<Rightarrow> [])"

definition discardedBy :: "(nat \<Rightarrow> attemptEnv) \<Rightarrow> nat \<Rightarrow> nat \<Rightarrow> TokenUsage list" where
  "discardedBy env n m = concat (map (\<lambda>k. partialUsage (env k)) [n..<m])"

lemma discardedBy_Suc: "n < m \<Longrightarrow> discardedBy env n m = partialUsage (env n) @ discardedBy env (Suc n) m"
  by (simp add: discardedBy_def upt_conv_Cons)

lemma discardedBy_same [simp]: "discardedBy env n n = []"
  by (simp add: discardedBy_def)

definition attemptContract ::
  "(nat \<Rightarrow> attemptEnv) \<Rightarrow> int \<Rightarrow> nat \<Rightarrow> turnRetrier \<Rightarrow> TokenUsage \<Rightarrow> providerAttempt \<Rightarrow> bool" where
  "attemptContract env requestTokens n r discarded pa =
     (let m = paAttempts pa; before = fold (\<lambda>u acc. usageAdd acc u) (discardedBy env n m) discarded
      in n \<le> m \<and> int (m - n) \<le> max 0 (maxRetries (policy r) - int (retries r))
         \<and> (if paFailed pa
            then paTokens pa = fold (\<lambda>u acc. usageAdd acc u) (partialUsage (env m)) before
               \<and> paCharges pa = [paTokens pa] \<and> paUsage pa = None
            else (\<exists>u. answer (env m) = Inr u \<and> paUsage pa = Some u \<and> paCharges pa = []
               \<and> paTokens pa = usageAdd (if uInput u > 0 then u else u\<lparr>uInput := requestTokens\<rparr>) before)))"

lemma requestLoop_contract:
  "attemptContract env requestTokens n r discarded (requestLoop env requestTokens retryOverflow n r discarded)"
proof (induction env requestTokens retryOverflow n r discarded rule: requestLoop.induct)
  case (1 env rt ro n r d)
  let ?a = "env n"
  show ?case
  proof (cases "answer ?a")
    case (Inr usage)
    then have "requestLoop env rt ro n r d = completeAttempt usage d r rt n"
      by (subst requestLoop.simps) (simp add: Let_def)
    then show ?thesis
      using Inr by (simp add: attemptContract_def completeAttempt_def Let_def)
  next
    case (Inl partial)
    define d' where "d' = (case partial of None \<Rightarrow> d | Some u \<Rightarrow> usageAdd d u)"
    have d': "d' = fold (\<lambda>u acc. usageAdd acc u) (partialUsage ?a) d"
      by (simp add: d'_def partialUsage_def Inl split: option.splits)
    have stop: "attemptContract env rt n r d (failedAttempt d' r' n outcome)"
        "attemptContract env rt n r d (overflowAttempt d' r' n)" for r' outcome
      by (simp_all add: attemptContract_def failedAttempt_def overflowAttempt_def d' Let_def)
    show ?thesis
    proof (cases "\<not> (ro \<and> \<not> ctxDoneEarly ?a \<and> isOverflow ?a) \<and> \<not> ctxDone ?a \<and> isRetryable ?a \<and> sleepElapsed ?a
        \<and> (\<exists>delay' r'. nextRetry (jitter ?a) (clock ?a) r = (Retry delay', r'))")
      case True
      then obtain w r' where nx: "nextRetry (jitter ?a) (clock ?a) r = (Retry w, r')"
        by blast
      have step: "requestLoop env rt ro n r d = requestLoop env rt ro (Suc n) r' d'"
        using True nx Inl by (subst requestLoop.simps) (auto simp: Let_def d'_def)
      have "attemptContract env rt (Suc n) r' d' (requestLoop env rt ro (Suc n) r' d')"
        unfolding d'_def using True nx by (intro "1.IH" [OF refl Inl refl refl _ _ _ nx [symmetric] refl]) auto
      then show ?thesis
        using nextRetry_Retry [OF nx]
        by (auto simp: step attemptContract_def Let_def discardedBy_Suc Suc_le_eq d' of_nat_diff)
    next
      case False
      then have "\<exists>r' outcome. requestLoop env rt ro n r d \<in> {failedAttempt d' r' n outcome, overflowAttempt d' r' n}"
        using Inl by (subst requestLoop.simps)
          (auto simp: Let_def d'_def split: prod.splits nextDecision.splits if_splits)
      then show ?thesis
        using stop by auto
    qed
  qed
qed

text \<open>An attempt that fails with a retryable error while the run is not cancelled.\<close>

definition hitRetryable :: "attemptEnv \<Rightarrow> bool" where
  "hitRetryable a = ((\<exists>p. answer a = Inl p) \<and> \<not> ctxDone a \<and> isRetryable a)"

lemma nextRetry_Stop:
  assumes "nextRetry rnd now r = (Stop outcome, r')"
  shows "outcome = None \<longleftrightarrow> maxRetries (policy r) = 0"
  using assms by (auto simp: nextRetry_def Let_def split: if_splits)

lemma nextRetry_engaged:
  "nextRetry rnd now r = (Retry w, r') \<Longrightarrow> maxRetries (policy r) \<noteq> 0"
  by (auto simp: nextRetry_def)

lemma requestLoop_outcomes:
  "\<not> ro \<Longrightarrow> engaged r \<longrightarrow> maxRetries (policy r) \<noteq> 0 \<Longrightarrow>
   length (paOutcomes (requestLoop env rt ro n r d)) =
     (if engaged r \<or> maxRetries (policy r) \<noteq> 0
          \<and> (\<exists>k \<in> {n..paAttempts (requestLoop env rt ro n r d)}. hitRetryable (env k)) then 1 else 0)"
proof (induction env rt ro n r d rule: requestLoop.induct)
  case (1 env rt ro n r d)
  let ?a = "env n"
  show ?case
  proof (cases "answer ?a")
    case (Inr usage)
    then have "requestLoop env rt ro n r d = completeAttempt usage d r rt n"
      by (subst requestLoop.simps) (simp add: Let_def)
    moreover have "\<not> hitRetryable ?a"
      using Inr by (simp add: hitRetryable_def)
    ultimately show ?thesis
      by (simp add: completeAttempt_def Let_def)
  next
    case (Inl partial)
    define d' where "d' = (case partial of None \<Rightarrow> d | Some u \<Rightarrow> usageAdd d u)"
    show ?thesis
    proof (cases "ctxDone ?a \<or> \<not> isRetryable ?a")
      case True
      then have "\<exists>out. requestLoop env rt ro n r d = failedAttempt d' r n (if engaged r then Some out else None)"
        using Inl "1.prems" by (subst requestLoop.simps) (auto simp: Let_def d'_def)
      moreover have "\<not> hitRetryable ?a"
        using True by (auto simp: hitRetryable_def)
      ultimately show ?thesis
        by (auto simp: failedAttempt_def)
    next
      case False
      then have hit: "hitRetryable ?a" "isRetryable ?a" "\<not> ctxDone ?a"
        using Inl by (auto simp: hitRetryable_def)
      obtain dec r' where nx: "nextRetry (jitter ?a) (clock ?a) r = (dec, r')"
        by force
      have unfold: "requestLoop env rt ro n r d = (case dec of
            Stop outcome \<Rightarrow> failedAttempt d' r' n outcome
          | Retry w \<Rightarrow> if sleepElapsed ?a then requestLoop env rt ro (Suc n) r' d'
                        else failedAttempt d' r' n (Some ContextDone))"
        using Inl hit "1.prems" by (subst requestLoop.simps) (auto simp: Let_def d'_def nx split: nextDecision.splits)
      show ?thesis
      proof (cases dec)
        case (Stop outcome)
        then show ?thesis
          using nextRetry_Stop [of _ _ r outcome r'] nx hit "1.prems"(2)
          by (auto simp: unfold failedAttempt_def split: option.splits)
      next
        case (Retry w)
        note r' = nextRetry_Retry [OF nx [unfolded Retry]] nextRetry_engaged [OF nx [unfolded Retry]]
        show ?thesis
        proof (cases "sleepElapsed ?a")
          case True
          have IH: "length (paOutcomes (requestLoop env rt ro (Suc n) r' d')) = 1"
            unfolding d'_def using "1.IH" [OF refl Inl refl refl _ _ _ nx [symmetric] Retry] True hit "1.prems" r'
            by auto
          have "n \<le> paAttempts (requestLoop env rt ro n r d)"
            using requestLoop_contract [of env rt n r d ro] by (simp add: attemptContract_def Let_def)
          then show ?thesis
            using IH True r' hit by (auto simp: unfold Retry)
        next
          case False
          then show ?thesis
            using hit r' by (auto simp: unfold Retry failedAttempt_def)
        qed
      qed
    qed
  qed
qed

section \<open>Properties\<close>

definition attemptOf :: "TokenUsage option + TokenUsage \<Rightarrow> bool \<Rightarrow> bool \<Rightarrow> attemptEnv" where
  "attemptOf ans overflow retryable =
     \<lparr>answer = ans, isOverflow = overflow, isRetryable = retryable, ctxDoneEarly = False, ctxDone = False,
      clock = 0, jitter = (\<lambda>k. 0), sleepElapsed = True\<rparr>"

definition retryCfg :: ProviderRetryConfig where
  "retryCfg = \<lparr>MaxAttempts = 3, InitialDelayMs = 500, MaxDelayMs = 16000, WallClockBudgetMs = 90000\<rparr>"

definition retryPolicy :: turnRetryPolicy where
  "retryPolicy = turnRetryPolicyFor (Some retryCfg) (\<lambda>_. None) []"

definition flakyEnv :: "nat \<Rightarrow> attemptEnv" where
  "flakyEnv n = (if n < 3 then attemptOf (Inl (Some (usageOf 10 (int n)))) False True else attemptOf (Inr (usageOf 0 7)) False False)"



text \<open>
  When the caller does not take over context overflows, the turn-scope retry outcome is recorded
  exactly once for a turn that hit a retryable failure with retry enabled, and never otherwise.
\<close>

theorem requestProvider_outcome_once:
  assumes "pa = requestProvider env requestTokens False False p"
  shows "length (paOutcomes pa) =
     (if maxRetries p \<noteq> 0 \<and> (\<exists>k \<in> {1..paAttempts pa}. hitRetryable (env k)) then 1 else 0)"
  using requestLoop_outcomes [of False "newRetrier p" env requestTokens 1 zeroUsage]
  unfolding assms requestProvider_def by (simp add: newRetrier_def)

theorem requestProvider_outcome_once_witness:
  "length (paOutcomes (requestProvider flakyEnv 100 False False retryPolicy)) = 1"
proof -
  have "paAttempts (requestProvider flakyEnv 100 False False retryPolicy) = 3"
    "maxRetries retryPolicy \<noteq> 0" "hitRetryable (flakyEnv 1)"
    by (code_simp, code_simp, simp add: hitRetryable_def flakyEnv_def attemptOf_def)
  then show ?thesis
    using requestProvider_outcome_once [OF refl, of flakyEnv 100 retryPolicy] by auto
qed

text \<open>
  A turn whose first attempt fails retryably and whose retry overflows the context window records
  no retry outcome when the caller takes over overflows, although it hit a retryable failure with
  retry enabled.
\<close>

theorem requestProvider_overflow_loses_outcome:
  "maxRetries retryPolicy \<noteq> 0
   \<and> hitRetryable (attemptOf (Inl None) False True)
   \<and> paRetries (requestProvider (\<lambda>n. if n = 1 then attemptOf (Inl None) False True
                                  else attemptOf (Inl None) True False) 100 True False retryPolicy) = 1
   \<and> paOutcomes (requestProvider (\<lambda>n. if n = 1 then attemptOf (Inl None) False True
                                  else attemptOf (Inl None) True False) 100 True False retryPolicy) = []"
proof (intro conjI)
  show "hitRetryable (attemptOf (Inl None) False True)"
    by (simp add: hitRetryable_def attemptOf_def)
qed code_simp+

text \<open>
  The wait before a retry uses equal jitter and never leaves its bound, even when the doubling of
  the initial delay overflows: it lies between zero and the maximum delay, and while the doubling
  fits 64 bits it is at least half of the smaller of the doubled delay and the maximum and below it.
  A granted retry starts within the wall-clock budget counted from the turn's first failure.
\<close>

theorem retry_delay_and_budget:
  assumes "\<forall>k > 0. 0 \<le> int64N k \<and> int64N k < k" "nextRetry int64N now r = (Retry d, r')"
  shows "0 \<le> d \<and> d \<le> max 0 (maxDelay (policy r))
    \<and> (0 < initialDelay (policy r) \<and> 0 < maxDelay (policy r)
       \<and> initialDelay (policy r) * 2 ^ retries r \<le> MaxInt \<longrightarrow>
         (let u = min (initialDelay (policy r) * 2 ^ retries r) (maxDelay (policy r)) in u div 2 \<le> d \<and> d < u))
    \<and> (0 < budget (policy r) \<and> firstFailure r' \<le> now \<and> now - firstFailure r' + d \<le> MaxInt \<longrightarrow>
         now + d \<le> firstFailure r' + budget (policy r))"
proof -
  note r' = nextRetry_Retry [OF assms(2)]
  have j: "jitterOk int64N"
    using assms(1) by (simp add: jitterOk_def)
  have range: "0 \<le> d \<and> d \<le> max 0 (maxDelay (policy r))"
    using delay_bounds [OF j] r'(6) by simp
  have "u div 2 \<le> d \<and> d < u" if "u = min (initialDelay (policy r) * 2 ^ retries r) (maxDelay (policy r))"
    "0 < initialDelay (policy r)" "0 < maxDelay (policy r)" "initialDelay (policy r) * 2 ^ retries r \<le> MaxInt" for u
  proof -
    have pos: "0 < initialDelay (policy r) * 2 ^ retries r"
      using that(2) by simp
    then have "wrap64 (initialDelay (policy r) * 2 ^ retries r) = initialDelay (policy r) * 2 ^ retries r"
      using that(4) by (intro wrap64_id) (simp add: isInt64_def MinInt_def)
    then have d: "d = u div 2 + int64N (u - u div 2)" and "0 < u"
      using that(1,3) pos by (auto simp: r'(6) delay_def Let_def min_def)
    have "0 < u - u div 2"
      using \<open>0 < u\<close> by auto
    then show ?thesis
      using assms(1) by (fastforce simp: d)
  qed
  moreover have "now + d \<le> firstFailure r' + budget (policy r)"
    if "0 < budget (policy r)" "firstFailure r' \<le> now" "now - firstFailure r' + d \<le> MaxInt"
  proof -
    have "timeSub now (firstFailure r') = now - firstFailure r'"
      using that range by (auto simp: timeSub_def MinInt_def MaxInt_def)
    moreover have "wrap64 (now - firstFailure r' + d) = now - firstFailure r' + d"
      using that range by (intro wrap64_id) (auto simp: isInt64_def MinInt_def)
    ultimately show ?thesis
      using r'(7) [OF that(1)] by simp
  qed
  ultimately show ?thesis
    using range by (simp add: Let_def)
qed

theorem retry_delay_and_budget_witness:
  "nextRetry (\<lambda>k. k div 2) 7 (newRetrier retryPolicy)
     = (Retry 375000000, (newRetrier retryPolicy)\<lparr>retries := 1, engaged := True, firstFailure := 7\<rparr>)
   \<and> 375000000 \<le> max 0 (maxDelay retryPolicy)"
proof -
  have nx: "nextRetry (\<lambda>k. k div 2) 7 (newRetrier retryPolicy)
     = (Retry 375000000, (newRetrier retryPolicy)\<lparr>retries := 1, engaged := True, firstFailure := 7\<rparr>)"
    by code_simp
  have "\<forall>k > 0. 0 \<le> k div 2 \<and> k div 2 < (k :: int)"
    by auto
  from retry_delay_and_budget [OF this nx] nx show ?thesis
    by (simp add: newRetrier_def)
qed

end
