(* ===== verification/Edit_Diff.thy ===== *)
theory Edit_Diff
  imports Go_Prelude
begin

text \<open>
  The line diff of \<open>edit/searchreplace.go\<close>: \<open>splitLines\<close> and \<open>unifiedDiff\<close>. The three nested
  loops of \<open>unifiedDiff\<close> are \<open>matchLoop\<close>, \<open>scanLoop\<close> and \<open>diffLoop\<close>; the last returns the
  hunks it prints. The theory shows that the loops end and that the hunks patch the old lines into
  the new ones.
\<close>

definition splitLines :: "string \<Rightarrow> string list" where
  "splitLines s = (if s = [] then [] else Split (TrimSuffix s [nl]) nl)"

section \<open>The loops\<close>

function matchLoop :: "string list \<Rightarrow> string list \<Rightarrow> nat \<Rightarrow> nat \<Rightarrow> nat \<Rightarrow> nat" where
  "matchLoop old new oi nj m =
     (if oi + m < length old \<and> nj + m < length new \<and> old ! (oi + m) = new ! (nj + m)
      then if Suc m \<ge> 6 then Suc m else matchLoop old new oi nj (Suc m)
      else m)"
  by pat_completeness auto
termination
  by (relation "measure (\<lambda>(old, _, oi, _, m). length old - (oi + m))") auto

declare matchLoop.simps [simp del]

function scanLoop :: "string list \<Rightarrow> string list \<Rightarrow> nat \<Rightarrow> nat \<Rightarrow> nat \<times> nat" where
  "scanLoop old new oi nj =
     (if oi < length old \<or> nj < length new
      then if oi < length old \<and> nj < length new \<and> old ! oi = new ! nj
           then if matchLoop old new oi nj 0 \<ge> 6 then (oi, nj)
                else scanLoop old new (Suc oi) (Suc nj)
           else scanLoop old new (if oi < length old then Suc oi else oi)
                  (if nj < length new then Suc nj else nj)
      else (oi, nj))"
  by pat_completeness auto
termination
  by (relation "measure (\<lambda>(old, new, oi, nj). (length old - oi) + (length new - nj))") auto

declare scanLoop.simps [simp del]

lemma scanLoop_differ:
  assumes "oi < length old \<or> nj < length new" "\<not> (oi < length old \<and> nj < length new \<and> old ! oi = new ! nj)"
  shows "scanLoop old new oi nj = scanLoop old new (if oi < length old then Suc oi else oi)
           (if nj < length new then Suc nj else nj)"
  by (subst scanLoop.simps, subst if_P [OF assms(1)], subst if_not_P [OF assms(2)], rule refl)

lemma scanLoop_bounds:
  "scanLoop old new oi nj = (oi', nj') \<Longrightarrow>
   oi \<le> oi' \<and> nj \<le> nj' \<and> (oi \<le> length old \<longrightarrow> oi' \<le> length old) \<and> (nj \<le> length new \<longrightarrow> nj' \<le> length new)
   \<and> (matchLoop old new oi' nj' 0 \<ge> 6 \<or> oi' \<ge> length old \<and> nj' \<ge> length new)"
proof (induction old new oi nj rule: scanLoop.induct)
  case (1 old new oi nj)
  show ?case
  proof (cases "oi < length old \<or> nj < length new")
    case False
    then show ?thesis
      using "1.prems" by (subst (asm) scanLoop.simps) auto
  next
    case some: True
    show ?thesis
    proof (cases "oi < length old \<and> nj < length new \<and> old ! oi = new ! nj")
      case eq: True
      show ?thesis
      proof (cases "matchLoop old new oi nj 0 \<ge> 6")
        case True
        then show ?thesis
          using "1.prems" some eq by (subst (asm) scanLoop.simps) auto
      next
        case False
        then have "scanLoop old new (Suc oi) (Suc nj) = (oi', nj')"
          using "1.prems" some eq by (subst (asm) scanLoop.simps) simp
        from "1.IH"(1) [OF some eq False this] eq show ?thesis by auto
      qed
    next
      case neq: False
      then have "scanLoop old new (if oi < length old then Suc oi else oi)
          (if nj < length new then Suc nj else nj) = (oi', nj')"
        using "1.prems" scanLoop_differ [OF some neq] by metis
      from "1.IH"(2) [OF some neq this] show ?thesis by (auto split: if_splits)
    qed
  qed
qed

lemma scanLoop_progress:
  assumes "scanLoop old new i j = (oi, nj)" "i < length old \<or> j < length new"
    "\<not> (i < length old \<and> j < length new \<and> old ! i = new ! j)"
  shows "(i < length old \<longrightarrow> i < oi) \<and> (j < length new \<longrightarrow> j < nj)"
proof -
  have "scanLoop old new (if i < length old then Suc i else i) (if j < length new then Suc j else j) = (oi, nj)"
    using assms scanLoop_differ by metis
  from scanLoop_bounds [OF this] show ?thesis by (auto split: if_splits)
qed

text \<open>A printed hunk: its header numbers and its lines by kind.\<close>

record diffHunk =
  dhOldStart :: int
  dhOldLen :: int
  dhNewStart :: int
  dhNewLen :: int
  dhBefore :: "string list"
  dhRemoved :: "string list"
  dhAdded :: "string list"
  dhAfter :: "string list"

definition contextBefore :: nat where "contextBefore = 3"
definition contextAfter :: nat where "contextAfter = 3"

function diffLoop :: "string list \<Rightarrow> string list \<Rightarrow> nat \<Rightarrow> nat \<Rightarrow> diffHunk list" where
  "diffLoop old new i j =
     (if i < length old \<or> j < length new
      then if i < length old \<and> j < length new \<and> old ! i = new ! j
           then diffLoop old new (Suc i) (Suc j)
           else
             let hunkStartOld = i - contextBefore;
                 hunkStartNew = int j - (int i - int hunkStartOld);
                 (oi, nj) = scanLoop old new i j;
                 hunkEndOld = min (oi + contextAfter) (length old);
                 hunkEndNew = min (nj + contextAfter) (length new)
             in \<lparr>dhOldStart = int hunkStartOld + 1, dhOldLen = int hunkEndOld - int hunkStartOld,
                 dhNewStart = hunkStartNew + 1, dhNewLen = int hunkEndNew - hunkStartNew,
                 dhBefore = slice old hunkStartOld i, dhRemoved = slice old i oi,
                 dhAdded = slice new j nj, dhAfter = slice old oi hunkEndOld\<rparr>
                # diffLoop old new hunkEndOld hunkEndNew
      else [])"
  by pat_completeness auto
termination
proof (relation "measure (\<lambda>(old, new, i, j). (length old - i) + (length new - j))", goal_cases)
  case (3 old new i j so sn p oi nj eo en)
  then have scan: "scanLoop old new i j = (oi, nj)"
    by simp
  have "(i < length old \<longrightarrow> i < oi) \<and> (j < length new \<longrightarrow> j < nj)"
    by (rule scanLoop_progress [OF scan 3(1,2)])
  moreover have "i \<le> oi" "j \<le> nj"
    using scanLoop_bounds [OF scan] by auto
  ultimately show ?case
    using 3 by auto
qed auto

declare diffLoop.simps [simp del]

definition renderHunk :: "diffHunk \<Rightarrow> string" where
  "renderHunk h =
     ''@@ -'' @ Itoa (dhOldStart h) @ '','' @ Itoa (dhOldLen h) @ '' +'' @ Itoa (dhNewStart h) @ '',''
       @ Itoa (dhNewLen h) @ '' @@'' @ [nl]
     @ concat (map (\<lambda>l. '' '' @ l @ [nl]) (dhBefore h))
     @ concat (map (\<lambda>l. ''-'' @ l @ [nl]) (dhRemoved h))
     @ concat (map (\<lambda>l. ''+'' @ l @ [nl]) (dhAdded h))
     @ concat (map (\<lambda>l. '' '' @ l @ [nl]) (dhAfter h))"

definition unifiedDiff :: "string \<Rightarrow> string \<Rightarrow> string \<Rightarrow> string" where
  "unifiedDiff path oldContent newContent =
     ''--- a/'' @ path @ [nl] @ ''+++ b/'' @ path @ [nl]
     @ concat (map renderHunk (diffLoop (splitLines oldContent) (splitLines newContent) 0 0))"

section \<open>The hunks patch the old lines\<close>

lemma matchLoop_equal:
  "m \<le> k \<Longrightarrow> k < matchLoop old new oi nj m \<Longrightarrow>
   oi + k < length old \<and> nj + k < length new \<and> old ! (oi + k) = new ! (nj + k)"
proof (induction old new oi nj m rule: matchLoop.induct)
  case (1 old new oi nj m)
  let ?eq = "oi + m < length old \<and> nj + m < length new \<and> old ! (oi + m) = new ! (nj + m)"
  show ?case
  proof (cases ?eq)
    case True
    show ?thesis
    proof (cases "k = m")
      case False
      then have k: "Suc m \<le> k"
        using "1.prems" by simp
      show ?thesis
      proof (cases "Suc m \<ge> 6")
        case 6: True
        then have "matchLoop old new oi nj m = Suc m"
          using True by (subst matchLoop.simps) simp
        then show ?thesis
          using k "1.prems" by simp
      next
        case small: False
        then have "matchLoop old new oi nj m = matchLoop old new oi nj (Suc m)"
          using True by (subst matchLoop.simps) simp
        then show ?thesis
          using "1.IH" [OF True small k] "1.prems" by simp
      qed
    qed (use True in simp)
  next
    case False
    then have "matchLoop old new oi nj m = m"
      by (subst matchLoop.simps, subst if_not_P) auto
    then show ?thesis
      using "1.prems" by simp
  qed
qed

fun patchLines :: "string list \<Rightarrow> nat \<Rightarrow> diffHunk list \<Rightarrow> string list" where
  "patchLines old p [] = drop p old"
| "patchLines old p (h # hs) =
     slice old p (nat (dhOldStart h - 1)) @ dhBefore h @ dhAdded h @ dhAfter h
     @ patchLines old (nat (dhOldStart h - 1 + dhOldLen h)) hs"

text \<open>A hunk whose numbers and lines are those of the two files.\<close>

definition hunkOk :: "string list \<Rightarrow> string list \<Rightarrow> diffHunk \<Rightarrow> bool" where
  "hunkOk old new h =
     (1 \<le> dhOldStart h \<and> 1 \<le> dhNewStart h
      \<and> dhOldLen h = len (dhBefore h @ dhRemoved h @ dhAfter h)
      \<and> dhNewLen h = len (dhBefore h @ dhAdded h @ dhAfter h)
      \<and> slice old (nat (dhOldStart h - 1)) (nat (dhOldStart h - 1 + dhOldLen h))
          = dhBefore h @ dhRemoved h @ dhAfter h
      \<and> slice new (nat (dhNewStart h - 1)) (nat (dhNewStart h - 1 + dhNewLen h))
          = dhBefore h @ dhAdded h @ dhAfter h)"

text \<open>
  Between hunks the loop stands \<open>n\<close> lines after the end of the last hunk, all equal; a hunk that
  did not reach the end of both files is followed by three more equal lines.
\<close>

definition sameLines :: "string list \<Rightarrow> string list \<Rightarrow> nat \<Rightarrow> nat \<Rightarrow> nat \<Rightarrow> bool" where
  "sameLines old new p q n =
     (p + n \<le> length old \<and> q + n \<le> length new \<and> (\<forall>k < n. old ! (p + k) = new ! (q + k)))"

definition resumable :: "string list \<Rightarrow> string list \<Rightarrow> nat \<Rightarrow> nat \<Rightarrow> bool" where
  "resumable old new p q =
     (p = 0 \<and> q = 0 \<or> sameLines old new p q 3 \<or> p = length old \<and> q = length new)"

lemma sameLines_slice:
  "sameLines old new p q n \<Longrightarrow> a \<le> b \<Longrightarrow> b \<le> n \<Longrightarrow> slice old (p + a) (p + b) = slice new (q + a) (q + b)"
  by (intro slice_eqI) (auto simp: sameLines_def add.assoc)

lemma sameLines_Suc:
  "sameLines old new p q n \<Longrightarrow> p + n < length old \<Longrightarrow> q + n < length new \<Longrightarrow>
   old ! (p + n) = new ! (q + n) \<Longrightarrow> sameLines old new p q (Suc n)"
  by (auto simp: sameLines_def less_Suc_eq)

text \<open>Where the hunk printed at a difference \<open>n\<close> lines after the last hunk starts and ends.\<close>

lemma hunk_start:
  assumes "sameLines old new p q n" "resumable old new p q" "p + n < length old \<or> q + n < length new"
    and "\<not> (p + n < length old \<and> q + n < length new \<and> old ! (p + n) = new ! (q + n))"
  shows "p + n - 3 = p + (n - 3)" "int (q + n) - (int (p + n) - int (p + n - 3)) = int (q + (n - 3))"
proof -
  have "p = 0 \<and> q = 0 \<or> 3 \<le> n"
  proof (rule ccontr)
    assume "\<not> (p = 0 \<and> q = 0 \<or> 3 \<le> n)"
    then have "n < 3" "sameLines old new p q 3"
      using assms(1-3) by (auto simp: resumable_def sameLines_def)
    then show False
      using assms(4) by (auto simp: sameLines_def)
  qed
  then show "p + n - 3 = p + (n - 3)" "int (q + n) - (int (p + n) - int (p + n - 3)) = int (q + (n - 3))"
    by auto
qed

lemma hunk_end:
  assumes scan: "scanLoop old new i j = (oi, nj)" and ij: "i \<le> length old" "j \<le> length new"
  shows "resumable old new (min (oi + 3) (length old)) (min (nj + 3) (length new))"
    "slice old oi (min (oi + 3) (length old)) = slice new nj (min (nj + 3) (length new))"
    "i \<le> oi" "j \<le> nj" "oi \<le> length old" "nj \<le> length new"
proof -
  note b = scanLoop_bounds [OF scan]
  show "i \<le> oi" "j \<le> nj" "oi \<le> length old" "nj \<le> length new"
    using b ij by auto
  show "resumable old new (min (oi + 3) (length old)) (min (nj + 3) (length new))"
    "slice old oi (min (oi + 3) (length old)) = slice new nj (min (nj + 3) (length new))"
  proof (atomize(full), cases "matchLoop old new oi nj 0 \<ge> 6")
    case True
    then have eq: "oi + k < length old \<and> nj + k < length new \<and> old ! (oi + k) = new ! (nj + k)" if "k < 6" for k
      using that by (intro matchLoop_equal [of 0]) auto
    have five: "oi + 5 < length old" "nj + 5 < length new"
      using eq [of 5] by simp_all
    then have "sameLines old new oi nj 6"
      unfolding sameLines_def using eq by (intro conjI allI impI) (linarith, linarith, blast)
    moreover have "sameLines old new (oi + 3) (nj + 3) 3"
      unfolding sameLines_def add.assoc using five eq by (intro conjI allI impI) (linarith, linarith, simp)
    ultimately show "resumable old new (min (oi + 3) (length old)) (min (nj + 3) (length new))
      \<and> slice old oi (min (oi + 3) (length old)) = slice new nj (min (nj + 3) (length new))"
      using five sameLines_slice [of old new oi nj 6 0 3] by (auto simp: resumable_def min_def)
  next
    case False
    then show "resumable old new (min (oi + 3) (length old)) (min (nj + 3) (length new))
      \<and> slice old oi (min (oi + 3) (length old)) = slice new nj (min (nj + 3) (length new))"
      using b ij by (auto simp: resumable_def slice_def)
  qed
qed

lemma diffLoop_patches:
  "sameLines old new p q n \<Longrightarrow> resumable old new p q \<Longrightarrow>
   patchLines old p (diffLoop old new (p + n) (q + n)) = drop q new
   \<and> (\<forall>h \<in> set (diffLoop old new (p + n) (q + n)). hunkOk old new h)"
proof (induction old new "p + n" "q + n" arbitrary: p q n rule: diffLoop.induct)
  case (1 old new p q n)
  let ?more = "p + n < length old \<or> q + n < length new"
  let ?eq = "p + n < length old \<and> q + n < length new \<and> old ! (p + n) = new ! (q + n)"
  consider (over) "\<not> ?more" | (eq) ?more ?eq | (hunk) ?more "\<not> ?eq" by blast
  then show ?case
  proof cases
    case over
    then have "diffLoop old new (p + n) (q + n) = []"
      by (subst diffLoop.simps) simp
    moreover have "drop p old = drop q new"
      using over "1.prems" sameLines_slice [OF "1.prems"(1), of 0 n] by (auto simp: sameLines_def slice_def)
    ultimately show ?thesis by simp
  next
    case eq
    then have "diffLoop old new (p + n) (q + n) = diffLoop old new (p + Suc n) (q + Suc n)"
      by (subst diffLoop.simps) simp
    then show ?thesis
      using "1.hyps"(1) [OF eq, of p "Suc n" q] "1.prems" eq by (simp add: sameLines_Suc)
  next
    case hunk
    obtain oi nj where scan: "scanLoop old new (p + n) (q + n) = (oi, nj)" by force
    define eo where "eo = min (oi + 3) (length old)"
    define en where "en = min (nj + 3) (length new)"
    define a where "a = n - 3"
    define h where "h = \<lparr>dhOldStart = int (p + a) + 1, dhOldLen = int eo - int (p + a),
      dhNewStart = int (q + a) + 1, dhNewLen = int en - int (q + a),
      dhBefore = slice old (p + a) (p + n), dhRemoved = slice old (p + n) oi,
      dhAdded = slice new (q + n) nj, dhAfter = slice old oi eo\<rparr>"
    note start = hunk_start [OF "1.prems" hunk]
    have bounds: "p + n \<le> length old" "q + n \<le> length new"
      using "1.prems"(1) by (auto simp: sameLines_def)
    note stop = hunk_end [OF scan bounds, folded eo_def en_def]
    have unfold: "diffLoop old new (p + n) (q + n) = h # diffLoop old new eo en"
      by (subst diffLoop.simps, subst if_P [OF hunk(1)], subst if_not_P [OF hunk(2)])
        (simp add: scan contextBefore_def contextAfter_def eo_def en_def h_def a_def start Let_def)
    have IH: "patchLines old eo (diffLoop old new eo en) = drop en new
        \<and> (\<forall>h \<in> set (diffLoop old new eo en). hunkOk old new h)"
      using "1.hyps"(2) [OF hunk refl refl scan [symmetric] refl, of eo 0 en] stop(1)
      by (simp add: eo_def en_def contextAfter_def sameLines_def)
    have parts: "slice old p (p + a) = slice new q (q + a)" "slice old (p + a) (p + n) = slice new (q + a) (q + n)"
      using sameLines_slice [OF "1.prems"(1), of 0 a] sameLines_slice [OF "1.prems"(1), of a n]
      by (simp_all add: a_def)
    have le: "q \<le> q + a" "q + a \<le> q + n" "q + n \<le> nj" "nj \<le> en" "p + a \<le> p + n" "p + n \<le> oi" "oi \<le> eo"
        "eo \<le> length old" "en \<le> length new"
      using stop by (auto simp: a_def eo_def en_def)
    have old_side: "slice old (p + a) eo = slice old (p + a) (p + n) @ slice old (p + n) oi @ slice old oi eo"
      and new_side: "slice new (q + a) en = slice new (q + a) (q + n) @ slice new (q + n) nj @ slice new nj en"
      using le by (simp_all add: slice_append)
    have "int eo - int oi = int en - int nj"
      using arg_cong [OF stop(2), of length] le by simp
    then have "hunkOk old new h"
      using le old_side new_side by (auto simp: hunkOk_def h_def parts stop(2) nat_add_distrib)
    moreover have "patchLines old p (h # diffLoop old new eo en)
        = slice new q (q + a) @ slice new (q + a) en @ drop en new"
      using IH le new_side parts stop(2) by (simp add: h_def nat_add_distrib)
    then have "patchLines old p (h # diffLoop old new eo en) = drop q new"
      using le by (simp add: slice_drop)
    ultimately show ?thesis
      using IH by (simp add: unfold)
  qed
qed

section \<open>Lines of a string\<close>

lemma Split_not_Nil [simp]: "Split s c \<noteq> []"
  by (induction s) (auto split: list.splits)

lemma Join_Cons: "ls \<noteq> [] \<Longrightarrow> Join (l # ls) sep = l @ sep @ Join ls sep"
  by (cases ls) auto

lemma Join_head: "Join ((x # l) # ls) sep = x # Join (l # ls) sep"
  by (cases ls) auto

lemma Join_Split: "Join (Split s c) [c] = s"
proof (induction s)
  case (Cons x s)
  then show ?case
    by (cases "Split s c") (auto simp: Join_Cons Join_head split: list.splits)
qed simp

text \<open>Joining the lines with newlines gives the content back, up to one final newline.\<close>

lemma Join_splitLines: "s \<noteq> [] \<Longrightarrow> Join (splitLines s) [nl] = TrimSuffix s [nl]"
  by (simp add: splitLines_def Join_Split)

section \<open>Properties\<close>

text \<open>
  C23: the diff of an edit is correct. Patching the old lines with the hunks in order, copying what lies
  between them, gives the new lines; and every hunk's header states the position and the number of
  lines it has on either side, its context and removed lines being those of the old file and its
  context and added lines those of the new one.
\<close>

theorem unifiedDiff_patches:
  "patchLines old 0 (diffLoop old new 0 0) = new
   \<and> list_all (hunkOk old new) (diffLoop old new 0 0)"
  using diffLoop_patches [of old new 0 0 0] by (auto simp: sameLines_def resumable_def list_all_iff)

end
