(* ===== verification/Edit_Strategies.thy ===== *)
theory Edit_Strategies
  imports Edit_Diff
begin

text \<open>
  The interface \<open>EditStrategy\<close> of \<open>edit/edit.go\<close> and the whole-file and search-replace
  strategies. An executor is a pair of operations on a workspace of any type: \<open>readFile\<close> returns an
  error or the content, \<open>writeFile\<close> an optional error and the new workspace. An input is the struct
  \<open>json.Unmarshal\<close> decodes from the tool call, or \<^const>\<open>None\<close> when decoding fails. The message for
  a missing \<open>old_string\<close> (\<open>mismatch.go\<close>) only fills the error text and is the argument
  \<open>notFoundMessage\<close>.
\<close>

section \<open>Executors\<close>

record 'w executor =
  readFile :: "'w \<Rightarrow> string \<Rightarrow> string + string"
  writeFile :: "'w \<Rightarrow> string \<Rightarrow> string \<Rightarrow> string option \<times> 'w"

text \<open>\<open>NoneExecutor\<close> (\<open>executor/none.go\<close>).\<close>

definition NoneExecutor :: "'w executor" where
  "NoneExecutor =
     \<lparr>readFile = (\<lambda>w path. Inl ''none executor: read not supported''),
      writeFile = (\<lambda>w path content. (Some ''none executor: write not supported'', w))\<rparr>"

text \<open>
  \<open>ReplayExecutor\<close> (\<open>executor/replay.go\<close>): reads answer from the recordings, writes are appended to
  a log. \<open>readKey\<close> is the lookup key of a \<open>read_file\<close> call for a path and \<open>quote\<close> the verb \<open>%q\<close>.
\<close>

record ToolCallRecord =
  tcSuccess :: bool
  tcOutput :: string

record ReplayState =
  recordings :: "string \<rightharpoonup> ToolCallRecord"
  writes :: "(string \<times> string) list"

definition ReplayReadFile :: "(string \<Rightarrow> string) \<Rightarrow> (string \<Rightarrow> string) \<Rightarrow> ReplayState \<Rightarrow> string \<Rightarrow> string + string" where
  "ReplayReadFile readKey quote re path =
     (case recordings re (readKey path) of
        None \<Rightarrow> Inl (''replay executor: no recorded read_file call for path '' @ quote path)
      | Some rec \<Rightarrow>
          if \<not> tcSuccess rec
          then Inl (''replay executor: recorded read_file for '' @ quote path @ '' was an error: '' @ tcOutput rec)
          else Inr (tcOutput rec))"

definition ReplayWriteFile :: "ReplayState \<Rightarrow> string \<Rightarrow> string \<Rightarrow> string option \<times> ReplayState" where
  "ReplayWriteFile re path content = (None, re\<lparr>writes := writes re @ [(path, content)]\<rparr>)"

definition ReplayExecutor :: "(string \<Rightarrow> string) \<Rightarrow> (string \<Rightarrow> string) \<Rightarrow> ReplayState executor" where
  "ReplayExecutor readKey quote = \<lparr>readFile = ReplayReadFile readKey quote, writeFile = ReplayWriteFile\<rparr>"

section \<open>The strategy interface\<close>

record EditResult =
  Path :: string
  Applied :: bool
  Diff :: string
  Error :: string

definition zeroResult :: EditResult where
  "zeroResult = \<lparr>Path = [], Applied = False, Diff = [], Error = []\<rparr>"

definition failResult :: "string \<Rightarrow> string \<Rightarrow> EditResult" where
  "failResult path err = zeroResult\<lparr>Path := path, Error := err\<rparr>"

definition applied :: "string + EditResult \<Rightarrow> bool" where
  "applied r = (case r of Inl _ \<Rightarrow> False | Inr res \<Rightarrow> Applied res)"

text \<open>
  What every strategy promises its caller: an edit either leaves the workspace alone and reports that
  it was not applied, or makes exactly one write, to the path of its input, and reports it as applied
  exactly when that write succeeded.
\<close>

definition editEffect :: "'w executor \<Rightarrow> string \<Rightarrow> 'w \<Rightarrow> string + EditResult \<Rightarrow> 'w \<Rightarrow> bool" where
  "editEffect exec path w r w' =
     (w' = w \<and> \<not> applied r
      \<or> (\<exists>c. w' = snd (writeFile exec w path c) \<and> (applied r \<longleftrightarrow> fst (writeFile exec w path c) = None)))"

lemma editEffect_none [intro]: "\<not> applied r \<Longrightarrow> editEffect exec path w r w"
  by (simp add: editEffect_def)

lemma editEffect_write:
  "writeFile exec w path c = (err, w') \<Longrightarrow> applied r = (err = None) \<Longrightarrow> editEffect exec path w r w'"
  unfolding editEffect_def by (intro disjI2 exI [of _ c]) auto

lemma applied_simps [simp]:
  "\<not> applied (Inl e)" "applied (Inr res) = Applied res" "\<not> Applied (failResult path err)"
  "\<not> Applied zeroResult"
  by (simp_all add: applied_def failResult_def zeroResult_def)

locale edit_strategy =
  fixes exec :: "'w executor"
    and strategy :: "'i \<Rightarrow> 'w \<Rightarrow> (string + EditResult) \<times> 'w"
    and target :: "'i \<Rightarrow> string"
  assumes strategy_effect: "strategy i w = (r, w') \<Longrightarrow> editEffect exec (target i) w r w'"
begin

text \<open>On an executor whose failed writes change nothing, an edit that is not applied changes nothing.\<close>

lemma not_applied_unchanged:
  assumes "\<And>w p c. fst (writeFile exec w p c) \<noteq> None \<Longrightarrow> snd (writeFile exec w p c) = w"
    and "\<not> applied (fst (strategy i w))"
  shows "snd (strategy i w) = w"
proof -
  obtain r w' where eq: "strategy i w = (r, w')"
    by force
  from strategy_effect [OF eq] show ?thesis
    using assms by (auto simp: eq editEffect_def)
qed

text \<open>Any number of edits writes only to the paths they name.\<close>

fun strategyRun :: "'i list \<Rightarrow> 'w \<Rightarrow> 'w" where
  "strategyRun [] w = w"
| "strategyRun (i # is) w = strategyRun is (snd (strategy i w))"

lemma strategyRun_confined:
  assumes "\<And>w q c. q \<noteq> p \<Longrightarrow> readFile exec (snd (writeFile exec w q c)) p = readFile exec w p"
    and "\<forall>i \<in> set is. target i \<noteq> p"
  shows "readFile exec (strategyRun is w) p = readFile exec w p"
  using assms(2)
proof (induction "is" arbitrary: w)
  case (Cons i "is")
  obtain r w' where eq: "strategy i w = (r, w')"
    by force
  have "readFile exec w' p = readFile exec w p"
    using strategy_effect [OF eq] assms(1) [of "target i" w] Cons.prems by (auto simp: editEffect_def)
  then show ?case
    using Cons by (simp add: eq)
qed simp

end

section \<open>Whole-file edits (wholefile.go)\<close>

record wholeFileInput =
  wfPath :: string
  wfContent :: string

definition parseInputError :: string where
  "parseInputError = ''parse input''"

definition WholeFileApply ::
  "'w executor \<Rightarrow> wholeFileInput option \<Rightarrow> 'w \<Rightarrow> (string + EditResult) \<times> 'w" where
  "WholeFileApply exec input w =
     (case input of
        None \<Rightarrow> (Inl parseInputError, w)
      | Some params \<Rightarrow>
          if wfPath params = [] then (Inr (failResult [] ''path is required''), w)
          else case writeFile exec w (wfPath params) (wfContent params) of
                 (Some err, w') \<Rightarrow> (Inr (failResult (wfPath params) err), w')
               | (None, w') \<Rightarrow> (Inr (zeroResult\<lparr>Path := wfPath params, Applied := True\<rparr>), w'))"

interpretation whole_file: edit_strategy exec "WholeFileApply exec"
  "\<lambda>i. case i of None \<Rightarrow> [] | Some params \<Rightarrow> wfPath params"
  for exec :: "'w executor"
proof
  fix i :: "wholeFileInput option" and w :: 'w and r w'
  assume "WholeFileApply exec i w = (r, w')"
  then show "editEffect exec (case i of None \<Rightarrow> [] | Some params \<Rightarrow> wfPath params) w r w'"
    by (auto simp: WholeFileApply_def intro: editEffect_write split: option.splits if_splits prod.splits)
qed

section \<open>Search-replace edits (searchreplace.go)\<close>

record searchReplaceInput =
  srPath :: string
  OldString :: string
  NewString :: string

definition handleCreate ::
  "'w executor \<Rightarrow> string \<Rightarrow> string \<Rightarrow> 'w \<Rightarrow> (string + EditResult) \<times> 'w" where
  "handleCreate exec path newString w =
     (case readFile exec w path of
        Inr _ \<Rightarrow> (Inr (failResult path ''old_string is empty but file already exists; provide old_string to edit an existing file''), w)
      | Inl _ \<Rightarrow>
          (case writeFile exec w path newString of
             (Some err, w') \<Rightarrow> (Inr (failResult path err), w')
           | (None, w') \<Rightarrow>
               (Inr (zeroResult\<lparr>Path := path, Applied := True, Diff := unifiedDiff path [] newString\<rparr>), w')))"

definition SearchReplaceApply ::
  "(string \<Rightarrow> string \<Rightarrow> string \<Rightarrow> string) \<Rightarrow> 'w executor \<Rightarrow> searchReplaceInput option \<Rightarrow> 'w
     \<Rightarrow> (string + EditResult) \<times> 'w" where
  "SearchReplaceApply notFoundMessage exec input w =
     (case input of
        None \<Rightarrow> (Inl parseInputError, w)
      | Some params \<Rightarrow>
          let path = srPath params; old = OldString params; new = NewString params in
          if path = [] then (Inr (failResult [] ''path is required''), w)
          else if old = [] then handleCreate exec path new w
          else case readFile exec w path of
              Inl err \<Rightarrow> (Inr (failResult path (''read file: '' @ err)), w)
            | Inr content \<Rightarrow>
                let count = Count content old in
                if count = 0 then (Inr (failResult path (notFoundMessage path content old)), w)
                else if count > 1
                then (Inr (failResult path (''old_string matches '' @ Itoa (int count)
                        @ '' locations; must match exactly 1'')), w)
                else
                  let newContent = Replace1 content old new in
                  case writeFile exec w path newContent of
                    (Some err, w') \<Rightarrow> (Inr (failResult path err), w')
                  | (None, w') \<Rightarrow>
                      (Inr (zeroResult\<lparr>Path := path, Applied := True,
                              Diff := unifiedDiff path content newContent\<rparr>), w'))"

lemma handleCreate_effect:
  "handleCreate exec path new w = (r, w') \<Longrightarrow> editEffect exec path w r w'"
  by (auto simp: handleCreate_def intro: editEffect_write split: sum.splits prod.splits option.splits)

interpretation search_replace: edit_strategy exec "SearchReplaceApply notFound exec"
  "\<lambda>i. case i of None \<Rightarrow> [] | Some params \<Rightarrow> srPath params"
  for exec :: "'w executor" and notFound :: "string \<Rightarrow> string \<Rightarrow> string \<Rightarrow> string"
proof
  fix i :: "searchReplaceInput option" and w :: 'w and r w'
  assume "SearchReplaceApply notFound exec i w = (r, w')"
  then show "editEffect exec (case i of None \<Rightarrow> [] | Some params \<Rightarrow> srPath params) w r w'"
    by (auto simp: SearchReplaceApply_def Let_def intro: editEffect_write handleCreate_effect
        split: option.splits if_splits prod.splits sum.splits)
qed

section \<open>Occurrences\<close>

lemma Index_Some:
  "Index s sub = Some i \<Longrightarrow> s = take i s @ sub @ drop (i + length sub) s"
proof (induction s sub arbitrary: i rule: Index.induct)
  case (2 c s sub)
  show ?case
  proof (cases "HasPrefix (c # s) sub")
    case True
    then show ?thesis
      using "2.prems" by (simp add: HasPrefix_def) (metis append_take_drop_id)
  next
    case False
    then obtain k where "Index s sub = Some k" "i = Suc k"
      using "2.prems" by auto
    with "2.IH" [OF False this(1)] show ?thesis by simp
  qed
qed (auto split: if_splits)

lemma Index_first:
  "Index s sub = Some i \<Longrightarrow> k < i \<Longrightarrow> \<not> HasPrefix (drop k s) sub"
proof (induction s sub arbitrary: i k rule: Index.induct)
  case (2 c s sub)
  then show ?case
    by (cases k) (auto split: if_splits)
qed (auto split: if_splits)

lemma Index_None: "Index s sub = None \<Longrightarrow> \<not> HasPrefix (drop k s) sub"
proof (induction s sub arbitrary: k rule: Index.induct)
  case (1 sub)
  then show ?case by (auto simp: HasPrefix_def split: if_splits)
next
  case (2 c s sub)
  then show ?case by (cases k) (auto split: if_splits)
qed

text \<open>The positions at which a non-empty string occurs, overlapping ones included.\<close>

definition occurrences :: "string \<Rightarrow> string \<Rightarrow> nat list" where
  "occurrences s sub = filter (\<lambda>k. HasPrefix (drop k s) sub) [0..<Suc (length s)]"

section \<open>Properties\<close>

text \<open>
  C21: a search-replace edit that finds its text once changes exactly that text. If it is applied,
  the file content splits around the first occurrence of \<open>old_string\<close>, nothing after that occurrence
  contains it again, the content written is the same with the occurrence replaced, and the diff
  reported is the diff of the two.
\<close>

theorem search_replace_applies:
  assumes "SearchReplaceApply notFound exec (Some \<lparr>srPath = p, OldString = old, NewString = new\<rparr>) w = (Inr res, w')"
    and "Applied res" "old \<noteq> []"
  shows "\<exists>pre post. readFile exec w p = Inr (pre @ old @ post)
     \<and> (\<forall>k < length pre. \<not> HasPrefix (drop k (pre @ old @ post)) old)
     \<and> (\<forall>k. \<not> HasPrefix (drop k post) old)
     \<and> writeFile exec w p (pre @ new @ post) = (None, w')
     \<and> Diff res = unifiedDiff p (pre @ old @ post) (pre @ new @ post)"
proof -
  have p: "p \<noteq> []"
    using assms by (auto simp: SearchReplaceApply_def)
  obtain content where c: "readFile exec w p = Inr content"
    using assms p by (cases "readFile exec w p") (auto simp: SearchReplaceApply_def)
  have count: "Count content old = 1"
    using assms p c by (auto simp: SearchReplaceApply_def Let_def split: if_splits)
  then obtain i where i: "Index content old = Some i" "Count (drop (i + length old) content) old = 0"
    using assms(3) by (subst (asm) Count.simps) (auto split: option.splits)
  then have none: "Index (drop (i + length old) content) old = None"
    using assms(3) by (subst (asm) Count.simps) (auto split: option.splits)
  have split: "content = take i content @ old @ drop (i + length old) content"
    by (rule Index_Some [OF i(1)])
  have new: "Replace1 content old new = take i content @ new @ drop (i + length old) content"
    by (simp add: Replace1_def i(1))
  have wr: "writeFile exec w p (Replace1 content old new) = (None, w')"
      "Diff res = unifiedDiff p content (Replace1 content old new)"
    using assms p c count by (auto simp: SearchReplaceApply_def Let_def zeroResult_def failResult_def
        split: option.splits prod.splits)
  have "i \<le> length content"
    using Index_bound [OF i(1)] by simp
  then show ?thesis
    using c wr none Index_first [OF i(1)] split
    by (intro exI [of _ "take i content"] exI [of _ "drop (i + length old) content"])
      (auto simp: new [symmetric] split [symmetric] dest: Index_None)
qed

definition oneFile :: "string \<Rightarrow> string \<Rightarrow> ReplayState" where
  "oneFile path content =
     \<lparr>recordings = [path \<mapsto> \<lparr>tcSuccess = True, tcOutput = content\<rparr>], writes = []\<rparr>"

theorem search_replace_applies_witness:
  "\<exists>pre post. readFile (ReplayExecutor id id) (oneFile ''f'' ''a-b'') ''f'' = Inr (pre @ ''-'' @ post)
     \<and> writes (snd (ReplayWriteFile (oneFile ''f'' ''a-b'') ''f'' (pre @ ''+'' @ post))) = [(''f'', ''a+b'')]"
proof -
  let ?in = "\<lparr>srPath = ''f'', OldString = ''-'', NewString = ''+''\<rparr>"
  let ?r = "SearchReplaceApply (\<lambda>_ _ _. []) (ReplayExecutor id id) (Some ?in) (oneFile ''f'' ''a-b'')"
  have "case fst ?r of Inl _ \<Rightarrow> False | Inr res \<Rightarrow> Applied res" "writes (snd ?r) = [(''f'', ''a+b'')]"
    by code_simp+
  then obtain res w' where r: "?r = (Inr res, w')" "Applied res" "writes w' = [(''f'', ''a+b'')]"
    by (cases ?r) (auto split: sum.splits)
  from search_replace_applies [OF r(1,2)] obtain pre post
    where "readFile (ReplayExecutor id id) (oneFile ''f'' ''a-b'') ''f'' = Inr (pre @ ''-'' @ post)"
      "writeFile (ReplayExecutor id id) (oneFile ''f'' ''a-b'') ''f'' (pre @ ''+'' @ post) = (None, w')"
    by blast
  then show ?thesis
    using r(3) by (intro exI [of _ pre] exI [of _ post]) (simp add: ReplayExecutor_def)
qed

text \<open>
  An \<open>old_string\<close> that occurs at two overlapping positions is counted once, so the edit is applied
  although the text matches two locations.
\<close>

theorem search_replace_accepts_overlap:
  "occurrences ''aaa'' ''aa'' = [0, 1]
   \<and> (\<exists>res. SearchReplaceApply (\<lambda>_ _ _. []) (ReplayExecutor id id)
          (Some \<lparr>srPath = ''f'', OldString = ''aa'', NewString = ''b''\<rparr>) (oneFile ''f'' ''aaa'')
        = (Inr res, (oneFile ''f'' ''aaa'')\<lparr>writes := [(''f'', ''ba'')]\<rparr>) \<and> Applied res)"
proof -
  let ?r = "SearchReplaceApply (\<lambda>_ _ _. []) (ReplayExecutor id id)
          (Some \<lparr>srPath = ''f'', OldString = ''aa'', NewString = ''b''\<rparr>) (oneFile ''f'' ''aaa'')"
  have count: "Count ''aaa'' ''aa'' = 1" "Replace1 ''aaa'' ''aa'' ''b'' = ''ba''" "occurrences ''aaa'' ''aa'' = [0, 1]"
    by code_simp+
  have "?r = (Inr (zeroResult\<lparr>Path := ''f'', Applied := True, Diff := unifiedDiff ''f'' ''aaa'' ''ba''\<rparr>),
      (oneFile ''f'' ''aaa'')\<lparr>writes := [(''f'', ''ba'')]\<rparr>)"
    by (simp add: SearchReplaceApply_def ReplayExecutor_def ReplayReadFile_def ReplayWriteFile_def oneFile_def
        count Let_def)
  then show ?thesis
    using count(3) by simp
qed

end
