(* ===== verification/Edit_Udiff.thy ===== *)
theory Edit_Udiff
  imports Edit_Strategies Complex_Main
begin

text \<open>
  The unified-diff strategy of \<open>edit/udiff.go\<close>: parsing, the three-level hunk matching and the edit
  distance behind the fuzzy level. Line numbers come from the model's diff, so the arithmetic on them
  is kept at 64 bits. Floating-point numbers are a type given by the record \<open>floatOps\<close> of the
  operations used. A run-time panic (an index out of range) is the error value \<open>indexPanic\<close>.
\<close>

section \<open>Hunks\<close>

record diffLine =
  dlKind :: char
  dlText :: string

record hunk =
  oldStart :: int
  oldCount :: int
  newStart :: int
  newCount :: int
  hContext :: "string list"
  hRemoved :: "string list"
  hAdded :: "string list"
  hLines :: "diffLine list"

definition oldLines :: "hunk \<Rightarrow> string list" where
  "oldLines h = map dlText (filter (\<lambda>dl. dlKind dl = CHR '' '' \<or> dlKind dl = CHR ''-'') (hLines h))"

definition newLines :: "hunk \<Rightarrow> string list" where
  "newLines h = map dlText (filter (\<lambda>dl. dlKind dl = CHR '' '' \<or> dlKind dl = CHR ''+'') (hLines h))"

section \<open>Parsing\<close>

datatype rangeError = BadPrefix string | BadStart string | BadCount string

datatype diffError =
    MissingClosing
  | NotTwoRanges string
  | OldRange rangeError
  | NewRange rangeError
  | AtLine nat diffError
  | OldLinesMismatch int int int
  | NewLinesMismatch int int int

definition parseRange :: "string \<Rightarrow> char \<Rightarrow> rangeError + int \<times> int" where
  "parseRange s pre =
     (if s = [] \<or> hd s \<noteq> pre then Inl (BadPrefix s)
      else
        let t = tl s in
        case Index t '','' of
          Some idx \<Rightarrow>
            (case Atoi (take idx t) of
               None \<Rightarrow> Inl (BadStart t)
             | Some start \<Rightarrow>
                 (case Atoi (drop (idx + 1) t) of
                    None \<Rightarrow> Inl (BadCount t)
                  | Some count \<Rightarrow> Inr (start, count)))
        | None \<Rightarrow>
            (case Atoi t of None \<Rightarrow> Inl (BadStart t) | Some start \<Rightarrow> Inr (start, 1)))"

definition parseHunkHeader :: "string \<Rightarrow> diffError + hunk" where
  "parseHunkHeader line0 =
     (let line = TrimPrefix line0 ''@@'' in
      case Index line ''@@'' of
        None \<Rightarrow> Inl MissingClosing
      | Some closingIdx \<Rightarrow>
          let inner = TrimSpace (take closingIdx line);
              parts = SplitN inner (CHR '' '') 2
          in if length parts \<noteq> 2 then Inl (NotTwoRanges inner)
             else case parseRange (parts ! 0) (CHR ''-'') of
                 Inl e \<Rightarrow> Inl (OldRange e)
               | Inr (os, oc) \<Rightarrow>
                   (case parseRange (parts ! 1) (CHR ''+'') of
                      Inl e \<Rightarrow> Inl (NewRange e)
                    | Inr (ns, nc) \<Rightarrow>
                        Inr \<lparr>oldStart = os, oldCount = oc, newStart = ns, newCount = nc,
                             hContext = [], hRemoved = [], hAdded = [], hLines = []\<rparr>))"

definition addLine :: "char \<Rightarrow> string \<Rightarrow> hunk \<Rightarrow> hunk" where
  "addLine k t h =
     (let h' = h\<lparr>hLines := hLines h @ [\<lparr>dlKind = k, dlText = t\<rparr>]\<rparr> in
      if k = CHR ''-'' then h'\<lparr>hRemoved := hRemoved h @ [t]\<rparr>
      else if k = CHR ''+'' then h'\<lparr>hAdded := hAdded h @ [t]\<rparr>
      else h'\<lparr>hContext := hContext h @ [t]\<rparr>)"

definition bodyLine :: "string \<Rightarrow> hunk \<Rightarrow> hunk" where
  "bodyLine line h =
     (case line of
        [] \<Rightarrow> addLine (CHR '' '') [] h
      | c # t \<Rightarrow>
          if c = CHR '' '' \<or> c = CHR ''-'' \<or> c = CHR ''+'' then addLine c t h
          else addLine (CHR '' '') line h)"

fun bodyLoop :: "hunk \<Rightarrow> string list \<Rightarrow> hunk \<times> string list" where
  "bodyLoop h [] = (h, [])"
| "bodyLoop h (line # rest) =
     (if HasPrefix line ''@@'' \<or> HasPrefix line ''---'' \<or> HasPrefix line ''+++'' then (h, line # rest)
      else bodyLoop (bodyLine line h) rest)"

lemma bodyLoop_length: "bodyLoop h ls = (h', rest) \<Longrightarrow> length rest \<le> length ls"
  by (induction ls arbitrary: h) (auto split: if_splits dest: le_SucI)

function parseLoop :: "nat \<Rightarrow> string list \<Rightarrow> hunk list \<Rightarrow> diffError + hunk list" where
  "parseLoop i [] hunks = Inr hunks"
| "parseLoop i (line # rest) hunks =
     (if \<not> HasPrefix line ''@@'' then parseLoop (Suc i) rest hunks
      else case parseHunkHeader line of
          Inl e \<Rightarrow> Inl (AtLine (Suc i) e)
        | Inr h0 \<Rightarrow>
            (case bodyLoop h0 rest of (h, rest') \<Rightarrow>
               let actualOld = len (hContext h) + len (hRemoved h);
                   actualNew = len (hContext h) + len (hAdded h)
               in if oldCount h \<noteq> actualOld then Inl (OldLinesMismatch (oldStart h) (oldCount h) actualOld)
                  else if newCount h \<noteq> actualNew then Inl (NewLinesMismatch (newStart h) (newCount h) actualNew)
                  else parseLoop (i + 1 + (length rest - length rest')) rest' (hunks @ [h])))"
  by pat_completeness auto
termination
  by (relation "measure (\<lambda>(_, ls, _). length ls)") (auto dest!: bodyLoop_length [OF sym])

definition rawDiffLines :: "string \<Rightarrow> string list" where
  "rawDiffLines diff =
     (let raw = Split diff nl in if raw \<noteq> [] \<and> last raw = [] then butlast raw else raw)"

definition parseUnifiedDiff :: "string \<Rightarrow> diffError + hunk list" where
  "parseUnifiedDiff diff = parseLoop 0 (rawDiffLines diff) []"

definition isCreationDiff :: "string \<Rightarrow> bool" where
  "isCreationDiff diff =
     list_ex (\<lambda>line. HasPrefix line ''--- /dev/null'' \<or> HasPrefix line ''--- a/dev/null'') (SplitN diff nl 5)"

definition isDeletionDiff :: "string \<Rightarrow> bool" where
  "isDeletionDiff diff =
     list_ex (\<lambda>line. HasPrefix line ''+++ /dev/null'' \<or> HasPrefix line ''+++ b/dev/null'') (SplitN diff nl 5)"

section \<open>Edit distance\<close>

definition min3 :: "nat \<Rightarrow> nat \<Rightarrow> nat \<Rightarrow> nat" where
  "min3 a b c = (if a < b then if a < c then a else c else if b < c then b else c)"

text \<open>
  One row of the table: \<open>prev\<close> is the rest of the previous row from column \<open>j - 1\<close> on, \<open>left\<close> the
  value just written at column \<open>j - 1\<close>.
\<close>

fun levRow :: "char \<Rightarrow> string \<Rightarrow> nat list \<Rightarrow> nat \<Rightarrow> nat list" where
  "levRow c (d # ds) (p0 # p1 # ps) left =
     (let v = min3 (left + 1) (p1 + 1) (p0 + (if c = d then 0 else 1)) in v # levRow c ds (p1 # ps) v)"
| "levRow c _ _ left = []"

fun levRows :: "string \<Rightarrow> string \<Rightarrow> nat \<Rightarrow> nat list \<Rightarrow> nat list" where
  "levRows [] b i prev = prev"
| "levRows (c # a) b i prev = levRows a b (Suc i) (i # levRow c b prev i)"

definition levenshtein :: "string \<Rightarrow> string \<Rightarrow> nat" where
  "levenshtein a0 b0 =
     (let (a, b) = (if length a0 < length b0 then (b0, a0) else (a0, b0))
      in if b = [] then length a
         else levRows a b 1 [0..<Suc (length b)] ! length b)"

record 'f floatOps =
  fZero :: 'f
  fOne :: 'f
  fOfNat :: "nat \<Rightarrow> 'f"
  fAdd :: "'f \<Rightarrow> 'f \<Rightarrow> 'f"
  fSub :: "'f \<Rightarrow> 'f \<Rightarrow> 'f"
  fDiv :: "'f \<Rightarrow> 'f \<Rightarrow> 'f"
  fLess :: "'f \<Rightarrow> 'f \<Rightarrow> bool"
  fLeq :: "'f \<Rightarrow> 'f \<Rightarrow> bool"

definition lineSimilarity :: "'f floatOps \<Rightarrow> string \<Rightarrow> string \<Rightarrow> 'f" where
  "lineSimilarity F a b =
     (if a = b then fOne F
      else let maxLen = max (length a) (length b) in
        if maxLen = 0 then fOne F
        else fSub F (fOne F) (fDiv F (fOfNat F (levenshtein a b)) (fOfNat F maxLen)))"

definition blockSimilarity :: "'f floatOps \<Rightarrow> string list \<Rightarrow> string list \<Rightarrow> 'f" where
  "blockSimilarity F a b =
     (if length a \<noteq> length b then fZero F
      else fDiv F (foldl (\<lambda>tot (x, y). fAdd F tot (lineSimilarity F x y)) (fZero F) (zip a b))
             (fOfNat F (length a)))"

section \<open>Matching\<close>

text \<open>
  The loop shared by \<open>matchExact\<close> and \<open>matchWhitespaceInsensitive\<close>; \<^const>\<open>None\<close> is an index out
  of range.
\<close>

fun compareLoop :: "(string \<Rightarrow> string \<Rightarrow> bool) \<Rightarrow> string list \<Rightarrow> int \<Rightarrow> string list \<Rightarrow> bool option" where
  "compareLoop eq lines pos [] = Some True"
| "compareLoop eq lines pos (p # ps) =
     (if pos < 0 \<or> pos \<ge> len lines then None
      else if \<not> eq (lines ! nat pos) p then Some False
      else compareLoop eq lines (wrap64 (pos + 1)) ps)"

definition matchLines :: "(string \<Rightarrow> string \<Rightarrow> bool) \<Rightarrow> string list \<Rightarrow> string list \<Rightarrow> int \<Rightarrow> bool option" where
  "matchLines eq lines pattern pos =
     (if pos < 0 \<or> wrap64 (pos + len pattern) > len lines then Some False
      else compareLoop eq lines pos pattern)"

definition matchExact :: "string list \<Rightarrow> string list \<Rightarrow> int \<Rightarrow> bool option" where
  "matchExact = matchLines (=)"

definition matchWhitespaceInsensitive :: "string list \<Rightarrow> string list \<Rightarrow> int \<Rightarrow> bool option" where
  "matchWhitespaceInsensitive = matchLines (\<lambda>l p. TrimSpace l = TrimSpace p)"

definition hunkWindowSlack :: int where "hunkWindowSlack = 20"
definition hunkWindowMultiplier :: int where "hunkWindowMultiplier = 2"

definition hunkSearchWindow :: "int \<Rightarrow> int \<Rightarrow> int \<Rightarrow> int \<times> int" where
  "hunkSearchWindow target patternLen lineCount =
     (let radius = hunkWindowSlack + hunkWindowMultiplier * patternLen;
          lo = wrap64 (target - radius);
          hi = wrap64 (target + radius);
          maxPos = lineCount - patternLen
      in (if lo < 0 then 0 else lo, if hi > maxPos then maxPos else hi))"

fun buildLoop :: "diffLine list \<Rightarrow> string list \<Rightarrow> nat \<Rightarrow> string list" where
  "buildLoop [] fileLines fileIdx = []"
| "buildLoop (dl # dls) fileLines fileIdx =
     (if dlKind dl = CHR '' ''
      then (if fileIdx < length fileLines then [fileLines ! fileIdx] else []) @ buildLoop dls fileLines (Suc fileIdx)
      else if dlKind dl = CHR ''-'' then buildLoop dls fileLines (Suc fileIdx)
      else if dlKind dl = CHR ''+'' then dlText dl # buildLoop dls fileLines fileIdx
      else buildLoop dls fileLines fileIdx)"

definition buildReplacement :: "hunk \<Rightarrow> string list \<Rightarrow> nat \<Rightarrow> string list" where
  "buildReplacement h fileLines pos = buildLoop (hLines h) fileLines pos"

definition spliceLines :: "string list \<Rightarrow> nat \<Rightarrow> nat \<Rightarrow> string list \<Rightarrow> string list" where
  "spliceLines lines pos count replacement = take pos lines @ replacement @ drop (pos + count) lines"

text \<open>The first position of a window at which a match test succeeds.\<close>

fun firstMatch :: "(int \<Rightarrow> bool option) \<Rightarrow> int list \<Rightarrow> int option option" where
  "firstMatch test [] = Some None"
| "firstMatch test (pos # rest) =
     (case test pos of
        None \<Rightarrow> None
      | Some True \<Rightarrow> Some (Some pos)
      | Some False \<Rightarrow> firstMatch test rest)"

definition findFuzzyMatch ::
  "'f floatOps \<Rightarrow> string list \<Rightarrow> string list \<Rightarrow> int \<Rightarrow> int \<Rightarrow> int \<times> 'f" where
  "findFuzzyMatch F lines pattern lo hi =
     (if pattern = [] \<or> length lines < length pattern then (- 1, fZero F)
      else foldl (\<lambda>(bestPos, bestSim) pos.
             let sim = blockSimilarity F (slice lines (nat pos) (nat pos + length pattern)) pattern
             in if fLess F bestSim sim then (pos, sim) else (bestPos, bestSim))
           (- 1, fZero F) [lo..hi])"

datatype hunkOutcome = HunkPanic | NoMatch | HunkApplied "string list" int

definition insertHunk :: "string list \<Rightarrow> string list \<Rightarrow> int \<Rightarrow> string list" where
  "insertHunk lines newContent pos0 =
     (let pos = nat (min (max pos0 0) (len lines)) in take pos lines @ newContent @ drop pos lines)"

definition applyHunk :: "'f floatOps \<Rightarrow> 'f \<Rightarrow> string list \<Rightarrow> hunk \<Rightarrow> int \<Rightarrow> hunkOutcome" where
  "applyHunk F fuzzyThreshold lines h offset =
     (let oldContent = oldLines h; newContent = newLines h;
          n = length oldContent;
          targetPos = wrap64 (wrap64 (oldStart h - 1) + offset);
          drifted = (\<lambda>pos repl. wrap64 (wrap64 (pos - wrap64 (oldStart h - 1)) + len repl - len oldContent));
          (lo, hi) = hunkSearchWindow targetPos (len oldContent) (len lines)
      in if oldContent = []
         then HunkApplied (insertHunk lines newContent targetPos) (wrap64 (offset + len newContent))
         else case matchExact lines oldContent targetPos of
             None \<Rightarrow> HunkPanic
           | Some True \<Rightarrow>
               HunkApplied (spliceLines lines (nat targetPos) n newContent)
                 (wrap64 (offset + len newContent - len oldContent))
           | Some False \<Rightarrow>
               (case firstMatch (matchExact lines oldContent) (filter (\<lambda>pos. pos \<noteq> targetPos) [lo..hi]) of
                  None \<Rightarrow> HunkPanic
                | Some (Some pos) \<Rightarrow>
                    HunkApplied (spliceLines lines (nat pos) n newContent) (drifted pos newContent)
                | Some None \<Rightarrow>
                    (case firstMatch (matchWhitespaceInsensitive lines oldContent) [lo..hi] of
                       None \<Rightarrow> HunkPanic
                     | Some (Some pos) \<Rightarrow>
                         let repl = buildReplacement h lines (nat pos) in
                         HunkApplied (spliceLines lines (nat pos) n repl) (drifted pos repl)
                     | Some None \<Rightarrow>
                         (case findFuzzyMatch F lines oldContent lo hi of (bestPos, bestSim) \<Rightarrow>
                            if fLeq F fuzzyThreshold bestSim
                            then if bestPos < 0 then HunkPanic
                                 else let repl = buildReplacement h lines (nat bestPos) in
                                   HunkApplied (spliceLines lines (nat bestPos) n repl) (drifted bestPos repl)
                            else NoMatch))))"

section \<open>The strategy\<close>

record udiffInput =
  udPath :: string
  udDiff :: string

datatype hunksOutcome = HunksPanic | HunkFailed nat hunk int "string list" | HunksApplied "string list"

fun applyHunks :: "'f floatOps \<Rightarrow> 'f \<Rightarrow> nat \<Rightarrow> hunk list \<Rightarrow> string list \<Rightarrow> int \<Rightarrow> hunksOutcome" where
  "applyHunks F thr i [] lines offset = HunksApplied lines"
| "applyHunks F thr i (h # hs) lines offset =
     (case applyHunk F thr lines h offset of
        HunkPanic \<Rightarrow> HunksPanic
      | NoMatch \<Rightarrow> HunkFailed i h offset lines
      | HunkApplied lines' offset' \<Rightarrow> applyHunks F thr (Suc i) hs lines' offset')"

definition noMatchMessage :: "nat \<Rightarrow> hunk \<Rightarrow> int \<Rightarrow> string list \<Rightarrow> string" where
  "noMatchMessage i h offset lines =
     (let n = len (oldLines h);
          targetPos = wrap64 (wrap64 (oldStart h - 1) + offset);
          (lo, hi) = hunkSearchWindow targetPos n (len lines)
      in ''hunk '' @ Itoa (int i + 1) @ '': no match within lines '' @ Itoa (lo + 1) @ ''-'' @ Itoa (hi + n)
         @ '' of the declared start line '' @ Itoa (oldStart h)
         @ '' (tried exact, whitespace-insensitive, and fuzzy matching in that range); the file may have changed since the diff was generated ''
         @ [CHR 0xE2, CHR 0x80, CHR 0x94]
         @ '' re-read it and regenerate the diff against its current content'')"

definition indexPanic :: string where
  "indexPanic = ''runtime error: index out of range''"

definition UdiffApply ::
  "(diffError \<Rightarrow> string) \<Rightarrow> 'f floatOps \<Rightarrow> 'f \<Rightarrow> 'w executor \<Rightarrow> udiffInput option \<Rightarrow> 'w
     \<Rightarrow> (string + EditResult) \<times> 'w" where
  "UdiffApply showError F fuzzyThreshold exec input w =
     (case input of
        None \<Rightarrow> (Inl parseInputError, w)
      | Some params \<Rightarrow>
          let path = udPath params; diff = udDiff params in
          if path = [] then (Inr (failResult [] ''path is required''), w)
          else if diff = [] then (Inr (failResult path ''diff is required''), w)
          else case parseUnifiedDiff diff of
              Inl e \<Rightarrow> (Inr (failResult path (''parse diff: '' @ showError e)), w)
            | Inr hunks \<Rightarrow>
                if hunks = [] then (Inr (failResult path ''diff contains no hunks''), w)
                else case (if isCreationDiff diff then Inr [] else map_sum id splitLines (readFile exec w path)) of
                    Inl err \<Rightarrow> (Inr (failResult path (''read file: '' @ err)), w)
                  | Inr lines \<Rightarrow>
                      (case applyHunks F fuzzyThreshold 0 hunks lines 0 of
                         HunksPanic \<Rightarrow> (Inl indexPanic, w)
                       | HunkFailed i h offset ls \<Rightarrow> (Inr (failResult path (noMatchMessage i h offset ls)), w)
                       | HunksApplied ls \<Rightarrow>
                           let newContent = (if ls = [] then [] else Join ls [nl] @ [nl]) in
                           case writeFile exec w path newContent of
                             (Some err, w') \<Rightarrow> (Inr (failResult path err), w')
                           | (None, w') \<Rightarrow>
                               (Inr (zeroResult\<lparr>Path := path, Applied := True, Diff := diff\<rparr>), w')))"

interpretation udiff: edit_strategy exec "UdiffApply showError F thr exec"
  "\<lambda>i. case i of None \<Rightarrow> [] | Some params \<Rightarrow> udPath params"
  for exec :: "'w executor" and showError :: "diffError \<Rightarrow> string" and F :: "'f floatOps" and thr :: 'f
proof
  fix i :: "udiffInput option" and w :: 'w and r w'
  assume "UdiffApply showError F thr exec i w = (r, w')"
  then show "editEffect exec (case i of None \<Rightarrow> [] | Some params \<Rightarrow> udPath params) w r w'"
    unfolding UdiffApply_def Let_def
    by (auto intro: editEffect_write
        split: option.splits if_split_asm prod.splits sum.splits hunksOutcome.splits)
qed

section \<open>Edit distance\<close>

text \<open>The textbook recurrence, on the reversed strings so that it follows the rows of the table.\<close>

fun editDistance :: "string \<Rightarrow> string \<Rightarrow> nat" where
  "editDistance [] ys = length ys"
| "editDistance xs [] = length xs"
| "editDistance (x # xs) (y # ys) =
     min (min (editDistance (x # xs) ys + 1) (editDistance xs (y # ys) + 1))
         (editDistance xs ys + (if x = y then 0 else 1))"

lemma min3_min: "min3 a b c = min (min a b) c"
  by (auto simp: min3_def)

lemma editDistance_Nil2 [simp]: "editDistance xs [] = length xs"
  by (cases xs) auto

lemma editDistance_sym: "editDistance xs ys = editDistance ys xs"
  by (induction xs ys rule: editDistance.induct) (auto simp: min.commute)

lemma editDistance_le_max: "editDistance xs ys \<le> max (length xs) (length ys)"
  by (induction xs ys rule: editDistance.induct) auto

lemma editDistance_0: "editDistance xs ys = 0 \<longleftrightarrow> xs = ys"
  by (induction xs ys rule: editDistance.induct) (auto simp: min_def split: if_splits)

lemma levRow_spec:
  assumes "b = pre @ ds"
    and "prev = map (\<lambda>j. editDistance xs (rev (take j b))) [length pre..<Suc (length b)]"
    and "left = editDistance (c # xs) (rev pre)"
  shows "levRow c ds prev left = map (\<lambda>j. editDistance (c # xs) (rev (take j b))) [Suc (length pre)..<Suc (length b)]"
  using assms
proof (induction ds arbitrary: pre prev left)
  case Nil
  then show ?case by simp
next
  case (Cons d ds)
  let ?D = "\<lambda>j. editDistance xs (rev (take j b))" and ?E = "\<lambda>j. editDistance (c # xs) (rev (take j b))"
  have n: "length pre < length b" "Suc (length pre) < Suc (length b)"
    using Cons.prems(1) by auto
  have prev: "prev = ?D (length pre) # ?D (Suc (length pre)) # map ?D [Suc (Suc (length pre))..<Suc (length b)]"
    using n by (simp add: Cons.prems(2) upt_conv_Cons del: upt_Suc)
  have pre: "take (length pre) b = pre" "take (Suc (length pre)) b = pre @ [d]"
    using Cons.prems(1) by auto
  have v: "min3 (left + 1) (?D (Suc (length pre)) + 1) (?D (length pre) + (if c = d then 0 else 1)) = ?E (Suc (length pre))"
    by (simp add: pre Cons.prems(3) min3_min)
  have "levRow c ds (?D (Suc (length pre)) # map ?D [Suc (Suc (length pre))..<Suc (length b)]) (?E (Suc (length pre)))
      = map ?E [Suc (length (pre @ [d]))..<Suc (length b)]"
    using n by (intro Cons.IH [where pre = "pre @ [d]"])
      (auto simp: Cons.prems(1) pre upt_conv_Cons simp del: upt_Suc)
  then show ?case
    using n v by (simp add: prev Let_def upt_conv_Cons del: upt_Suc)
qed

lemma levRows_spec:
  assumes "prev = map (\<lambda>j. editDistance xs (rev (take j b))) [0..<Suc (length b)]" "i = Suc (length xs)"
  shows "levRows a b i prev = map (\<lambda>j. editDistance (rev a @ xs) (rev (take j b))) [0..<Suc (length b)]"
  using assms
proof (induction a arbitrary: xs i prev)
  case (Cons c a)
  have "i # levRow c b prev i = map (\<lambda>j. editDistance (c # xs) (rev (take j b))) [0..<Suc (length b)]"
    using levRow_spec [of b "[]" b prev xs i c] Cons.prems by (simp add: upt_conv_Cons del: upt_Suc)
  from Cons.IH [OF this] show ?case
    using Cons.prems by simp
qed simp

lemma levenshtein_editDistance: "levenshtein a b = editDistance (rev a) (rev b)"
proof -
  have "levRows a b 1 [0..<Suc (length b)] ! length b = editDistance (rev a) (rev b)" for a b
  proof -
    have "[0..<Suc (length b)] = map (\<lambda>j. editDistance [] (rev (take j b))) [0..<Suc (length b)]"
      by (intro nth_equalityI) (auto simp del: upt_Suc)
    from levRows_spec [OF this, of 1 a] show ?thesis
      by (simp del: upt_Suc)
  qed
  then show ?thesis
    using editDistance_sym [of "rev b" "rev a"] by (auto simp: levenshtein_def Let_def simp del: upt_Suc)
qed

section \<open>Where a hunk is applied\<close>

lemma compareLoop_cases:
  assumes "len lines \<le> MaxInt" "0 \<le> pos" "pos + len ps \<le> len lines"
  shows "compareLoop eq lines pos ps = Some (\<forall>i < length ps. eq (lines ! (nat pos + i)) (ps ! i))"
  using assms(2,3)
proof (induction ps arbitrary: pos)
  case (Cons p ps)
  have "wrap64 (pos + 1) = pos + 1"
    using assms(1) Cons.prems by (intro wrap64_id) (auto simp: isInt64_def MinInt_def)
  moreover have "nat (pos + 1) + i = nat pos + Suc i" for i
    using Cons.prems by auto
  ultimately show ?case
    using Cons.IH [of "pos + 1"] Cons.prems by (auto simp: All_less_Suc2)
qed simp

lemma compareLoop_range:
  "compareLoop eq lines pos ps = Some True \<Longrightarrow> len lines \<le> MaxInt \<Longrightarrow> ps \<noteq> [] \<Longrightarrow>
   0 \<le> pos \<and> pos + len ps \<le> len lines"
proof (induction ps arbitrary: pos)
  case (Cons p ps)
  have pos: "0 \<le> pos" "pos < len lines"
    using Cons.prems(1) by (auto split: if_splits)
  then have "wrap64 (pos + 1) = pos + 1"
    using Cons.prems(2) by (intro wrap64_id) (auto simp: isInt64_def MinInt_def)
  then have "compareLoop eq lines (pos + 1) ps = Some True"
    using Cons.prems(1) pos by (auto split: if_splits)
  then show ?case
    using Cons.IH [of "pos + 1"] Cons.prems(2) pos by (cases ps) auto
qed simp

lemma matchLines_True:
  assumes "matchLines eq lines pat pos = Some True" "len lines \<le> MaxInt" "pat \<noteq> []"
  shows "0 \<le> pos \<and> nat pos + length pat \<le> length lines
     \<and> (\<forall>i < length pat. eq (lines ! (nat pos + i)) (pat ! i))"
proof -
  have c: "compareLoop eq lines pos pat = Some True"
    using assms(1) by (auto simp: matchLines_def split: if_splits)
  note r = compareLoop_range [OF c assms(2,3)]
  show ?thesis
    using r c compareLoop_cases [OF assms(2), of pos pat eq] by auto
qed

lemma matchLines_no_panic:
  assumes "len lines \<le> MaxInt" "pos + len pat \<le> MaxInt"
  shows "matchLines eq lines pat pos \<noteq> None"
proof (cases "pos < 0")
  case False
  then have "wrap64 (pos + len pat) = pos + len pat"
    using assms by (intro wrap64_id) (auto simp: isInt64_def MinInt_def)
  then show ?thesis
    using False compareLoop_cases [OF assms(1), of pos pat eq] by (auto simp: matchLines_def)
qed (simp add: matchLines_def)

lemma firstMatch_Some:
  "firstMatch test ps = Some (Some pos) \<Longrightarrow> pos \<in> set ps \<and> test pos = Some True"
  by (induction ps) (auto split: option.splits bool.splits)

lemma firstMatch_no_panic: "(\<And>p. p \<in> set ps \<Longrightarrow> test p \<noteq> None) \<Longrightarrow> firstMatch test ps \<noteq> None"
  by (induction ps) (auto split: option.splits bool.splits)

lemma hunkSearchWindow_bounds:
  "hunkSearchWindow t n k = (lo, hi) \<Longrightarrow> 0 \<le> lo \<and> hi \<le> k - n"
  by (auto simp: hunkSearchWindow_def Let_def split: if_splits)

lemma foldl_best:
  "fst (foldl (\<lambda>(bp, bs) pos. let sim = f pos in if lt bs sim then (pos, sim) else (bp, bs)) (- 1, z) ps)
     \<in> insert (- 1) (set ps)
   \<and> (fst (foldl (\<lambda>(bp, bs) pos. let sim = f pos in if lt bs sim then (pos, sim) else (bp, bs)) (- 1, z) ps) = - 1
      \<longrightarrow> - 1 \<in> set ps \<or> snd (foldl (\<lambda>(bp, bs) pos. let sim = f pos in if lt bs sim then (pos, sim) else (bp, bs)) (- 1, z) ps) = z)"
  by (induction ps rule: rev_induct) (auto simp: Let_def split: prod.splits)

lemma findFuzzyMatch_pos:
  assumes "findFuzzyMatch F lines pat lo hi = (p, sim)" "0 \<le> lo"
  shows "p = - 1 \<and> sim = fZero F \<or> lo \<le> p \<and> p \<le> hi"
proof -
  let ?f = "\<lambda>pos. blockSimilarity F (slice lines (nat pos) (nat pos + length pat)) pat"
  from foldl_best [of ?f "fLess F" "fZero F" "[lo..hi]"] assms show ?thesis
    unfolding findFuzzyMatch_def by (auto split: if_splits)
qed

lemma buildLoop_exact:
  "(\<forall>i < length old. lines ! (k + i) = old ! i) \<Longrightarrow> k + length old \<le> length lines \<Longrightarrow>
   old = map dlText (filter (\<lambda>dl. dlKind dl = CHR '' '' \<or> dlKind dl = CHR ''-'') dls) \<Longrightarrow>
   buildLoop dls lines k = map dlText (filter (\<lambda>dl. dlKind dl = CHR '' '' \<or> dlKind dl = CHR ''+'') dls)"
proof (induction dls arbitrary: k old)
  case (Cons dl dls)
  show ?case
  proof (cases "dlKind dl = CHR '' '' \<or> dlKind dl = CHR ''-''")
    case True
    then obtain rest where old: "old = dlText dl # rest"
      "rest = map dlText (filter (\<lambda>dl. dlKind dl = CHR '' '' \<or> dlKind dl = CHR ''-'') dls)"
      using Cons.prems(3) by auto
    have "\<forall>i < length rest. lines ! (Suc k + i) = rest ! i" "lines ! k = dlText dl"
      using Cons.prems(1) unfolding old(1) by (auto simp: All_less_Suc2)
    then show ?thesis
      using Cons.IH [of rest "Suc k"] Cons.prems(2) old True by auto
  next
    case False
    then show ?thesis
      using Cons.IH [of old k] Cons.prems by auto
  qed
qed simp

lemma buildReplacement_exact:
  assumes "matchExact lines (oldLines h) pos = Some True" "len lines \<le> MaxInt" "oldLines h \<noteq> []"
  shows "buildReplacement h lines (nat pos) = newLines h"
  using matchLines_True [of "(=)" lines "oldLines h" pos] assms
  unfolding buildReplacement_def newLines_def matchExact_def
  by (intro buildLoop_exact [where old = "oldLines h"]) (auto simp: oldLines_def)

definition hunkTarget :: "hunk \<Rightarrow> int \<Rightarrow> int" where
  "hunkTarget h offset = wrap64 (wrap64 (oldStart h - 1) + offset)"

text \<open>The ways a hunk with old lines can be applied.\<close>

lemma applyHunk_cases:
  assumes "applyHunk F thr lines h offset = HunkApplied ls offset'" "oldLines h \<noteq> []"
    and win: "hunkSearchWindow (hunkTarget h offset) (len (oldLines h)) (len lines) = (lo, hi)"
  obtains (target) "matchExact lines (oldLines h) (hunkTarget h offset) = Some True"
      "ls = spliceLines lines (nat (hunkTarget h offset)) (length (oldLines h)) (newLines h)"
  | (moved) p where "lo \<le> p" "p \<le> hi" "matchExact lines (oldLines h) p = Some True"
      "ls = spliceLines lines (nat p) (length (oldLines h)) (newLines h)"
  | (inexact) p where "lo \<le> p" "p \<le> hi"
      "ls = spliceLines lines (nat p) (length (oldLines h)) (buildReplacement h lines (nat p))"
proof -
  note window = hunkSearchWindow_bounds [OF win]
  let ?exact = "firstMatch (matchExact lines (oldLines h)) (filter (\<lambda>pos. pos \<noteq> hunkTarget h offset) [lo..hi])"
  let ?space = "firstMatch (matchWhitespaceInsensitive lines (oldLines h)) [lo..hi]"
  obtain bp bs where fuzzy: "findFuzzyMatch F lines (oldLines h) lo hi = (bp, bs)"
    by force
  have unfold: "applyHunk F thr lines h offset =
     (let drifted = (\<lambda>pos repl. wrap64 (wrap64 (pos - wrap64 (oldStart h - 1)) + len repl - len (oldLines h)))
      in case matchExact lines (oldLines h) (hunkTarget h offset) of
           None \<Rightarrow> HunkPanic
         | Some True \<Rightarrow> HunkApplied (spliceLines lines (nat (hunkTarget h offset)) (length (oldLines h)) (newLines h))
                 (wrap64 (offset + len (newLines h) - len (oldLines h)))
         | Some False \<Rightarrow> (case ?exact of
             None \<Rightarrow> HunkPanic
           | Some (Some pos) \<Rightarrow>
               HunkApplied (spliceLines lines (nat pos) (length (oldLines h)) (newLines h)) (drifted pos (newLines h))
           | Some None \<Rightarrow> (case ?space of
               None \<Rightarrow> HunkPanic
             | Some (Some pos) \<Rightarrow> HunkApplied (spliceLines lines (nat pos) (length (oldLines h))
                  (buildReplacement h lines (nat pos))) (drifted pos (buildReplacement h lines (nat pos)))
             | Some None \<Rightarrow>
                 if fLeq F thr bs
                 then if bp < 0 then HunkPanic
                      else HunkApplied (spliceLines lines (nat bp) (length (oldLines h))
                        (buildReplacement h lines (nat bp))) (drifted bp (buildReplacement h lines (nat bp)))
                 else NoMatch)))"
    unfolding applyHunk_def Let_def hunkTarget_def [symmetric] win prod.case fuzzy if_not_P [OF assms(2)] ..
  have opt: "x = None \<or> x = Some None \<or> (\<exists>p. x = Some (Some p))" for x :: "int option option"
    by (cases x) auto
  have boolopt: "x = None \<or> x = Some True \<or> x = Some False" for x :: "bool option"
    by (cases x) auto
  consider (at) "matchExact lines (oldLines h) (hunkTarget h offset) = Some True"
    | (ex) p where "matchExact lines (oldLines h) (hunkTarget h offset) = Some False" "?exact = Some (Some p)"
    | (sp) p where "matchExact lines (oldLines h) (hunkTarget h offset) = Some False" "?exact = Some None"
        "?space = Some (Some p)"
    | (fz) "matchExact lines (oldLines h) (hunkTarget h offset) = Some False" "?exact = Some None" "?space = Some None"
    using assms(1) opt [of ?exact] opt [of ?space] boolopt [of "matchExact lines (oldLines h) (hunkTarget h offset)"]
    by (auto simp: unfold)
  then show thesis
  proof cases
    case at
    then show thesis
      using assms(1) by (intro target) (simp_all add: unfold)
  next
    case (ex p)
    then show thesis
      using assms(1) firstMatch_Some [OF ex(2)] by (intro moved [of p]) (simp_all add: unfold)
  next
    case (sp p)
    then show thesis
      using assms(1) firstMatch_Some [OF sp(3)] by (intro inexact [of p]) (simp_all add: unfold)
  next
    case fz
    then have "fLeq F thr bs \<and> \<not> bp < 0 \<and> ls = spliceLines lines (nat bp) (length (oldLines h))
        (buildReplacement h lines (nat bp))"
      using assms(1) by (simp add: unfold split: if_splits)
    then show thesis
      using findFuzzyMatch_pos [OF fuzzy] window by (intro inexact [of bp]) auto
  qed
qed

section \<open>Properties\<close>

definition ratOps :: "rat floatOps" where
  "ratOps = \<lparr>fZero = 0, fOne = 1, fOfNat = of_nat, fAdd = (+), fSub = (-), fDiv = (/), fLess = (<), fLeq = (\<le>)\<rparr>"

definition diffOf :: "string list \<Rightarrow> string" where
  "diffOf ls = Join ls [nl]"

definition hunkOf :: "string list \<Rightarrow> hunk" where
  "hunkOf ls = (case parseUnifiedDiff (diffOf ls) of Inr (h # _) \<Rightarrow> h | _ \<Rightarrow>
     \<lparr>oldStart = 0, oldCount = 0, newStart = 0, newCount = 0, hContext = [], hRemoved = [], hAdded = [], hLines = []\<rparr>)"

definition shiftedHunk :: hunk where
  "shiftedHunk = hunkOf [''@@ -1,2 +1,2 @@'', '' b'', ''-c'', ''+d'']"

text \<open>
  C22: a hunk with old lines changes only the lines it matched. When one is applied, by whichever of the
  four searches, there is a position at the declared line or inside the search window such that the
  result is the file with as many lines as the hunk expects replaced at that position; context lines
  of the replacement are the file's own lines and only added lines come from the diff.
\<close>

theorem applyHunk_local:
  assumes "applyHunk F thr lines h offset = HunkApplied ls offset'" "oldLines h \<noteq> []" "len lines \<le> MaxInt"
    and win: "hunkSearchWindow (hunkTarget h offset) (len (oldLines h)) (len lines) = (lo, hi)"
  shows "\<exists>pos. pos + length (oldLines h) \<le> length lines
     \<and> (int pos = hunkTarget h offset \<or> lo \<le> int pos \<and> int pos \<le> hi)
     \<and> ls = take pos lines @ buildReplacement h lines pos @ drop (pos + length (oldLines h)) lines"
proof -
  note window = hunkSearchWindow_bounds [OF win]
  have at: ?thesis if "0 \<le> p" "nat p + length (oldLines h) \<le> length lines"
      "p = hunkTarget h offset \<or> lo \<le> p \<and> p \<le> hi"
      "ls = spliceLines lines (nat p) (length (oldLines h)) (buildReplacement h lines (nat p))" for p
    using that by (intro exI [of _ "nat p"]) (auto simp: spliceLines_def)
  have exact: ?thesis if "matchExact lines (oldLines h) p = Some True" "p = hunkTarget h offset \<or> lo \<le> p \<and> p \<le> hi"
      "ls = spliceLines lines (nat p) (length (oldLines h)) (newLines h)" for p
    using that matchLines_True [of "(=)" lines "oldLines h" p] assms(2,3)
      buildReplacement_exact [OF that(1) assms(3,2)] by (intro at [of p]) (auto simp: matchExact_def)
  have inside: "nat p + length (oldLines h) \<le> length lines" "0 \<le> p" if "lo \<le> p" "p \<le> hi" for p
    using window that by auto
  from assms(1,2) win show ?thesis
  proof (cases rule: applyHunk_cases)
    case target
    then show ?thesis by (intro exact) auto
  next
    case (moved p)
    then show ?thesis by (intro exact [of p]) auto
  next
    case (inexact p)
    then show ?thesis by (intro at [of p] inside) auto
  qed
qed

theorem applyHunk_local_witness:
  "applyHunk ratOps (4 / 5) [''a'', ''b '', ''c'', ''e''] shiftedHunk 0 = HunkApplied [''a'', ''b '', ''d'', ''e''] 1
   \<and> (\<exists>pos. [''a'', ''b '', ''d'', ''e'']
        = take pos [''a'', ''b '', ''c'', ''e''] @ buildReplacement shiftedHunk [''a'', ''b '', ''c'', ''e''] pos
          @ drop (pos + length (oldLines shiftedHunk)) [''a'', ''b '', ''c'', ''e''])"
proof -
  let ?lines = "[''a'', ''b '', ''c'', ''e'']"
  have ap: "applyHunk ratOps (4 / 5) ?lines shiftedHunk 0 = HunkApplied [''a'', ''b '', ''d'', ''e''] 1"
    by code_simp
  have "oldLines shiftedHunk \<noteq> []" "len ?lines \<le> MaxInt"
    by code_simp+
  from applyHunk_local [OF ap this surjective_pairing] ap show ?thesis
    by blast
qed

text \<open>
  A hunk whose declared position leaves room for its old lines below the largest integer never makes
  the matcher index out of range, as long as the fuzzy threshold is above zero, which the
  configuration requires.
\<close>

theorem applyHunk_no_panic:
  assumes "len lines \<le> MaxInt" "hunkTarget h offset + len (oldLines h) \<le> MaxInt"
    and "\<not> fLeq F thr (fZero F)"
  shows "applyHunk F thr lines h offset \<noteq> HunkPanic"
proof -
  obtain lo hi where win: "hunkSearchWindow (hunkTarget h offset) (len (oldLines h)) (len lines) = (lo, hi)"
    by force
  obtain bp bs where fuzzy: "findFuzzyMatch F lines (oldLines h) lo hi = (bp, bs)"
    by force
  note window = hunkSearchWindow_bounds [OF win]
  have m: "matchLines eq lines (oldLines h) p \<noteq> None" if "p = hunkTarget h offset \<or> p \<in> {lo..hi}" for eq p
    using that assms(1,2) window by (intro matchLines_no_panic) auto
  obtain x where x: "matchExact lines (oldLines h) (hunkTarget h offset) = Some x"
    using m [of "hunkTarget h offset" "(=)"] unfolding matchExact_def by auto
  obtain y where y: "firstMatch (matchExact lines (oldLines h)) (filter (\<lambda>pos. pos \<noteq> hunkTarget h offset) [lo..hi]) = Some y"
    using firstMatch_no_panic [of "filter (\<lambda>pos. pos \<noteq> hunkTarget h offset) [lo..hi]" "matchExact lines (oldLines h)"]
      m [of _ "(=)"] unfolding matchExact_def by auto
  obtain z where z: "firstMatch (matchWhitespaceInsensitive lines (oldLines h)) [lo..hi] = Some z"
    using firstMatch_no_panic [of "[lo..hi]" "matchWhitespaceInsensitive lines (oldLines h)"]
      m [of _ "\<lambda>l p. TrimSpace l = TrimSpace p"] unfolding matchWhitespaceInsensitive_def by auto
  have "\<not> (fLeq F thr bs \<and> bp < 0)"
    using findFuzzyMatch_pos [OF fuzzy] window assms(3) by auto
  then show ?thesis
    unfolding applyHunk_def Let_def hunkTarget_def [symmetric] win prod.case fuzzy x y z
    by (cases x; cases y; cases z) simp_all
qed

theorem applyHunk_no_panic_witness:
  "applyHunk ratOps (4 / 5) [''x''] shiftedHunk 0 \<noteq> HunkPanic"
proof -
  have "len [''x''] \<le> MaxInt" "hunkTarget shiftedHunk 0 + len (oldLines shiftedHunk) \<le> MaxInt"
    "\<not> fLeq ratOps (4 / 5) (fZero ratOps)"
    by code_simp+
  then show ?thesis by (rule applyHunk_no_panic)
qed

text \<open>
  A diff can crash the strategy. A hunk header that declares a start line next to the largest 64-bit
  integer makes the bounds check of the exact match overflow, and the match then reads a line far
  beyond the end of the file.
\<close>

theorem udiff_huge_start_panics:
  "fst (UdiffApply (\<lambda>_. []) ratOps (4 / 5) (ReplayExecutor id id)
      (Some \<lparr>udPath = ''f'', udDiff = diffOf [''@@ -9223372036854775807,2 +1,0 @@'', ''-a'', ''-b'']\<rparr>)
      (oneFile ''f'' ''a'')) = Inl indexPanic"
  by code_simp

text \<open>
  A hunk without old lines is inserted before its declared start line. For the addition that
  \<open>diff -U0\<close> describes as \<open>-2,0\<close>, meaning after line 2, the line goes between lines 1 and 2.
\<close>

theorem udiff_pure_addition_position:
  "applyHunk ratOps (4 / 5) [''a'', ''b'', ''c''] (hunkOf [''@@ -2,0 +3,1 @@'', ''+x'']) 0
     = HunkApplied [''a'', ''x'', ''b'', ''c''] 1"
  by code_simp

text \<open>
  The two-row edit distance computes the textbook recurrence, is symmetric, is zero exactly for
  equal strings and never exceeds the longer length, so a similarity ratio is never negative.
\<close>

theorem levenshtein_correct:
  "levenshtein a b = editDistance (rev a) (rev b)
   \<and> levenshtein a b = levenshtein b a
   \<and> (levenshtein a b = 0 \<longleftrightarrow> a = b)
   \<and> levenshtein a b \<le> max (length a) (length b)"
  using editDistance_sym [of "rev a" "rev b"] editDistance_0 [of "rev a" "rev b"]
    editDistance_le_max [of "rev a" "rev b"]
  by (simp add: levenshtein_editDistance)

end
