(* ===== verification/Edit_Multi.thy ===== *)
theory Edit_Multi
  imports Edit_Udiff
begin

text \<open>
  The edit tool's dispatcher \<open>MultiStrategy\<close> of \<open>edit/multi.go\<close>. A candidate carries the struct
  its strategy decodes from the re-marshalled input; encoding and decoding a struct of valid UTF-8
  strings gives it back, and the fields were decoded from JSON already. The per-candidate metric is
  returned as a log of attempts.
\<close>

section \<open>Inputs and candidates\<close>

record multiInput =
  miPath :: string
  Operation :: string
  miContent :: "string option"
  miDiff :: "string option"
  miOldString :: "string option"
  miNewString :: "string option"

datatype strategyCandidate =
    Udiff udiffInput
  | SearchReplace searchReplaceInput
  | WholeFile wholeFileInput

fun candidateName :: "strategyCandidate \<Rightarrow> string" where
  "candidateName (Udiff _) = ''udiff''"
| "candidateName (SearchReplace _) = ''search-replace''"
| "candidateName (WholeFile _) = ''whole-file''"

fun candidatePath :: "strategyCandidate \<Rightarrow> string" where
  "candidatePath (Udiff i) = udPath i"
| "candidatePath (SearchReplace i) = srPath i"
| "candidatePath (WholeFile i) = wfPath i"

definition validateOperationFields :: "(string \<Rightarrow> string) \<Rightarrow> multiInput \<Rightarrow> string option" where
  "validateOperationFields quote p =
     (if Operation p = ''replace''
      then if miOldString p = None then Some ''operation 'replace' requires old_string''
           else if miNewString p = None
           then Some ''operation 'replace' requires new_string (use operation 'delete' if you want to remove old_string)''
           else None
      else if Operation p = ''delete''
      then if miOldString p = None then Some ''operation 'delete' requires old_string''
           else if miNewString p \<noteq> None
           then Some ''operation 'delete' must not set new_string; use operation 'replace' for a non-empty substitution''
           else None
      else if Operation p = ''rewrite''
      then if miContent p = None then Some ''operation 'rewrite' requires content'' else None
      else if Operation p = ''patch''
      then if miDiff p = None then Some ''operation 'patch' requires diff'' else None
      else Some (''unknown operation '' @ quote (Operation p)
                 @ '' (expected one of 'replace', 'delete', 'rewrite', 'patch')''))"

definition buildUdiffCandidate :: "multiInput \<Rightarrow> strategyCandidate option" where
  "buildUdiffCandidate p =
     (case miDiff p of None \<Rightarrow> None | Some d \<Rightarrow> Some (Udiff \<lparr>udPath = miPath p, udDiff = d\<rparr>))"

definition buildSearchReplaceCandidate :: "multiInput \<Rightarrow> strategyCandidate option" where
  "buildSearchReplaceCandidate p =
     (case miOldString p of
        None \<Rightarrow> None
      | Some old \<Rightarrow>
          let newString = (case miNewString p of None \<Rightarrow> [] | Some s \<Rightarrow> s)
          in Some (SearchReplace \<lparr>srPath = miPath p, OldString = old, NewString = newString\<rparr>))"

definition buildWholeFileCandidate :: "multiInput \<Rightarrow> strategyCandidate option" where
  "buildWholeFileCandidate p =
     (case miContent p of None \<Rightarrow> None | Some c \<Rightarrow> Some (WholeFile \<lparr>wfPath = miPath p, wfContent = c\<rparr>))"

definition primaryFor :: "multiInput \<Rightarrow> strategyCandidate option" where
  "primaryFor p =
     (if Operation p = ''patch'' then buildUdiffCandidate p
      else if Operation p = ''replace'' \<or> Operation p = ''delete'' then buildSearchReplaceCandidate p
      else if Operation p = ''rewrite'' then buildWholeFileCandidate p
      else None)"

definition queue :: "bool \<Rightarrow> strategyCandidate option \<Rightarrow> strategyCandidate list" where
  "queue present cand = (if present then case cand of None \<Rightarrow> [] | Some c \<Rightarrow> [c] else [])"

definition buildCandidates :: "(string \<Rightarrow> string) \<Rightarrow> multiInput \<Rightarrow> string + strategyCandidate list" where
  "buildCandidates quote p =
     (case primaryFor p of
        None \<Rightarrow> Inl (''no strategy mapped for operation '' @ quote (Operation p))
      | Some primary \<Rightarrow>
          Inr ([primary]
            @ queue (miDiff p \<noteq> None \<and> candidateName primary \<noteq> ''udiff'') (buildUdiffCandidate p)
            @ queue (miOldString p \<noteq> None \<and> candidateName primary \<noteq> ''search-replace'') (buildSearchReplaceCandidate p)
            @ queue (miContent p \<noteq> None \<and> candidateName primary \<noteq> ''whole-file'') (buildWholeFileCandidate p)))"

section \<open>Dispatch\<close>

text \<open>The strategies of \<open>NewMultiStrategy\<close>, by what they need: error texts, floats and a threshold.\<close>

record 'f multiConfig =
  mcShowError :: "diffError \<Rightarrow> string"
  mcNotFound :: "string \<Rightarrow> string \<Rightarrow> string \<Rightarrow> string"
  mcQuote :: "string \<Rightarrow> string"
  mcFloats :: "'f floatOps"
  mcThreshold :: 'f

fun applyCandidate :: "'f multiConfig \<Rightarrow> 'w executor \<Rightarrow> strategyCandidate \<Rightarrow> 'w \<Rightarrow> (string + EditResult) \<times> 'w" where
  "applyCandidate M exec (Udiff i) w = UdiffApply (mcShowError M) (mcFloats M) (mcThreshold M) exec (Some i) w"
| "applyCandidate M exec (SearchReplace i) w = SearchReplaceApply (mcNotFound M) exec (Some i) w"
| "applyCandidate M exec (WholeFile i) w = WholeFileApply exec (Some i) w"

record editAttempt =
  eaStrategy :: string
  eaFellBackFrom :: string
  eaSuccess :: bool

fun tryCandidates ::
  "'f multiConfig \<Rightarrow> 'w executor \<Rightarrow> string \<Rightarrow> strategyCandidate list \<Rightarrow> string list \<Rightarrow> string \<Rightarrow> 'w
     \<Rightarrow> (string + EditResult) \<times> 'w \<times> editAttempt list" where
  "tryCandidates M exec path [] failures fellBackFrom w =
     (Inr (failResult path (''all strategies failed: '' @ Join failures ''; '')), w, [])"
| "tryCandidates M exec path (c # cs) failures fellBackFrom w =
     (case applyCandidate M exec c w of (r, w') \<Rightarrow>
        let attempt = \<lparr>eaStrategy = candidateName c, eaFellBackFrom = fellBackFrom, eaSuccess = applied r\<rparr>
        in case r of
             Inl err \<Rightarrow> (Inl err, w', [attempt])
           | Inr result \<Rightarrow>
               if Applied result then (Inr result, w', [attempt])
               else case tryCandidates M exec path cs (failures @ [candidateName c @ '': '' @ Error result])
                           (candidateName c) w' of
                      (r', w'', as) \<Rightarrow> (r', w'', attempt # as))"

definition MultiApply ::
  "'f multiConfig \<Rightarrow> 'w executor \<Rightarrow> multiInput option \<Rightarrow> 'w \<Rightarrow> (string + EditResult) \<times> 'w \<times> editAttempt list" where
  "MultiApply M exec input w =
     (case input of
        None \<Rightarrow> (Inl parseInputError, w, [])
      | Some params \<Rightarrow>
          if miPath params = [] then (Inr (failResult [] ''path is required''), w, [])
          else if Operation params = []
          then (Inr (failResult (miPath params)
                  (''operation is required: one of 'replace', 'delete', 'rewrite', 'patch'' @ [CHR 0x27])), w, [])
          else case validateOperationFields (mcQuote M) params of
              Some err \<Rightarrow> (Inr (failResult (miPath params) err), w, [])
            | None \<Rightarrow>
                (case buildCandidates (mcQuote M) params of
                   Inl err \<Rightarrow> (Inr (failResult (miPath params) err), w, [])
                 | Inr cands \<Rightarrow> tryCandidates M exec (miPath params) cands [] [] w))"

section \<open>What the dispatcher does to the workspace\<close>

definition failedWritesKeep :: "'w executor \<Rightarrow> bool" where
  "failedWritesKeep exec = (\<forall>w p c. fst (writeFile exec w p c) \<noteq> None \<longrightarrow> snd (writeFile exec w p c) = w)"

lemma editEffect_committed:
  assumes "editEffect exec path w r w'" "failedWritesKeep exec"
  shows "w' = w \<and> \<not> applied r \<or> (\<exists>c. writeFile exec w path c = (None, w') \<and> applied r)"
proof (cases "applied r")
  case True
  then obtain c where c: "w' = snd (writeFile exec w path c)" "fst (writeFile exec w path c) = None"
    using assms(1) by (auto simp: editEffect_def)
  then have "writeFile exec w path c = (None, w')"
    by (simp add: prod_eq_iff)
  then show ?thesis
    using True by (intro disjI2 exI conjI)
next
  case False
  then show ?thesis
    using assms by (auto simp: editEffect_def failedWritesKeep_def)
qed

lemma applyCandidate_effect:
  assumes "applyCandidate M exec c w = (r, w')"
  shows "editEffect exec (candidatePath c) w r w'"
proof (cases c)
  case (Udiff i)
  then show ?thesis
    using udiff.strategy_effect [of "mcShowError M" "mcFloats M" "mcThreshold M" exec "Some i" w r w'] assms
    by simp
next
  case (SearchReplace i)
  then show ?thesis
    using search_replace.strategy_effect [of "mcNotFound M" exec "Some i" w r w'] assms by simp
next
  case (WholeFile i)
  then show ?thesis
    using whole_file.strategy_effect [of exec "Some i" w r w'] assms by simp
qed

lemma udiff_path: "buildUdiffCandidate p = Some c \<Longrightarrow> candidatePath c = miPath p"
  by (cases "miDiff p") (auto simp: buildUdiffCandidate_def)

lemma search_replace_path: "buildSearchReplaceCandidate p = Some c \<Longrightarrow> candidatePath c = miPath p"
  by (cases "miOldString p") (auto simp: buildSearchReplaceCandidate_def)

lemma whole_file_path: "buildWholeFileCandidate p = Some c \<Longrightarrow> candidatePath c = miPath p"
  by (cases "miContent p") (auto simp: buildWholeFileCandidate_def)

lemmas candidate_paths = udiff_path search_replace_path whole_file_path

lemma primary_path: "primaryFor p = Some c \<Longrightarrow> candidatePath c = miPath p"
  by (auto simp: primaryFor_def split: if_splits dest: candidate_paths)

lemma queue_Some: "c \<in> set (queue b x) \<Longrightarrow> x = Some c"
  by (cases b; cases x) (simp_all add: queue_def)

lemma buildCandidates_path:
  assumes "buildCandidates quote p = Inr cands"
  shows "\<forall>c \<in> set cands. candidatePath c = miPath p"
proof -
  obtain primary where "primaryFor p = Some primary"
    using assms by (cases "primaryFor p") (auto simp: buildCandidates_def)
  then show ?thesis
    using assms by (auto simp: buildCandidates_def dest!: queue_Some dest: candidate_paths primary_path)
qed

lemma tryCandidates_effect:
  assumes "failedWritesKeep exec" "\<forall>c \<in> set cands. candidatePath c = path"
    and "tryCandidates M exec path cands failures from w = (r, w', as)"
  shows "w' = w \<and> \<not> applied r \<or> (\<exists>c. writeFile exec w path c = (None, w') \<and> applied r)"
  using assms(2,3)
proof (induction cands arbitrary: failures "from" w as)
  case (Cons c cs)
  obtain r1 w1 where step: "applyCandidate M exec c w = (r1, w1)"
    by force
  have eff: "w1 = w \<and> \<not> applied r1 \<or> (\<exists>c. writeFile exec w path c = (None, w1) \<and> applied r1)"
    using editEffect_committed [OF applyCandidate_effect [OF step] assms(1)] Cons.prems(1) by simp
  show ?case
  proof (cases "\<exists>res. r1 = Inr res \<and> \<not> Applied res")
    case True
    then obtain res where res: "r1 = Inr res" "\<not> Applied res" by blast
    obtain r2 w2 as2 where rest: "tryCandidates M exec path cs
        (failures @ [candidateName c @ '': '' @ Error res]) (candidateName c) w1 = (r2, w2, as2)"
      by (cases "tryCandidates M exec path cs
        (failures @ [candidateName c @ '': '' @ Error res]) (candidateName c) w1")
    have "r2 = r" "w2 = w'" "w1 = w"
      using Cons.prems eff res rest by (auto simp: step Let_def)
    then show ?thesis
      using Cons.IH [of "failures @ [candidateName c @ '': '' @ Error res]" "candidateName c" w1 as2]
        Cons.prems(1) rest by simp
  next
    case False
    then have "r1 = r" "w1 = w'"
      using Cons.prems by (auto simp: step Let_def split: sum.splits if_splits)
    then show ?thesis
      using eff by simp
  qed
qed (auto simp: applied_def)

lemma failedWritesKeep_executors [simp]:
  "failedWritesKeep (ReplayExecutor readKey quote)" "failedWritesKeep NoneExecutor"
  by (simp_all add: failedWritesKeep_def ReplayExecutor_def ReplayWriteFile_def NoneExecutor_def)

section \<open>Properties\<close>


definition exampleConfig :: "rat multiConfig" where
  "exampleConfig = \<lparr>mcShowError = (\<lambda>_. ''bad diff''), mcNotFound = (\<lambda>_ _ _. ''old_string not found in file''),
     mcQuote = id, mcFloats = ratOps, mcThreshold = 4 / 5\<rparr>"

definition multiOf :: "string \<Rightarrow> string option \<Rightarrow> string option \<Rightarrow> string option \<Rightarrow> string option \<Rightarrow> multiInput" where
  "multiOf opn content diff old new =
     \<lparr>miPath = ''f'', Operation = opn, miContent = content, miDiff = diff, miOldString = old, miNewString = new\<rparr>"


lemma tryCandidates_attempts:
  assumes "tryCandidates M exec path (c # cs) failures from w = (r, w', as)"
  shows "as \<noteq> [] \<and> eaStrategy (hd as) = candidateName c \<and> eaFellBackFrom (hd as) = from
     \<and> list_all (\<lambda>a. \<not> eaSuccess a) (butlast as)
     \<and> (eaSuccess (last as) \<longleftrightarrow> applied r)
     \<and> (\<forall>k. Suc k < length as \<longrightarrow> eaFellBackFrom (as ! Suc k) = eaStrategy (as ! k))"
  using assms
proof (induction cs arbitrary: c failures "from" w as)
  case Nil
  then show ?case
    by (auto simp: Let_def applied_def failResult_def zeroResult_def split: prod.splits sum.splits if_splits)
next
  case (Cons d cs)
  obtain r1 w1 where step: "applyCandidate M exec c w = (r1, w1)"
    by force
  let ?at = "\<lparr>eaStrategy = candidateName c, eaFellBackFrom = from, eaSuccess = applied r1\<rparr>"
  show ?case
  proof (cases "\<exists>res. r1 = Inr res \<and> \<not> Applied res")
    case True
    then obtain res where res: "r1 = Inr res" "\<not> Applied res" by auto
    obtain r2 w2 as2 where rest: "tryCandidates M exec path (d # cs)
        (failures @ [candidateName c @ '': '' @ Error res]) (candidateName c) w1 = (r2, w2, as2)"
      by (cases "tryCandidates M exec path (d # cs)
        (failures @ [candidateName c @ '': '' @ Error res]) (candidateName c) w1")
    have eq: "r2 = r" "w2 = w'" "as = ?at # as2"
      using Cons.prems rest by (simp_all del: tryCandidates.simps add: tryCandidates.simps(2) [of M exec path c] step res Let_def)
    note ih = Cons.IH [OF rest [unfolded eq(1,2)]]
    have "eaFellBackFrom (as ! Suc k) = eaStrategy (as ! k)" if "Suc k < length as" for k
      using ih that by (cases k) (auto simp: eq hd_conv_nth)
    then show ?thesis
      using ih by (auto simp: eq(3) res)
  next
    case False
    then have "r1 = r" "as = [?at]"
      using Cons.prems by (auto simp del: tryCandidates.simps
        simp: tryCandidates.simps(2) [of M exec path c] step Let_def split: sum.splits if_splits)
    then show ?thesis
      by simp
  qed
qed

lemma buildCandidates_primary:
  assumes "buildCandidates quote p = Inr cands" "validateOperationFields quote p = None"
  shows "cands \<noteq> [] \<and> candidateName (hd cands)
       = (if Operation p = ''patch'' then ''udiff''
          else if Operation p = ''rewrite'' then ''whole-file'' else ''search-replace'')"
  using assms
  by (auto simp: buildCandidates_def primaryFor_def validateOperationFields_def buildUdiffCandidate_def
      buildSearchReplaceCandidate_def buildWholeFileCandidate_def split: if_splits option.splits)

text \<open>
  The operation decides the first strategy and fallbacks run only after a failure. An accepted call
  tries the strategy of its operation first; every later attempt records the strategy it fell back
  from, and only the last attempt can have succeeded.
\<close>

theorem multi_edit_attempts:
  assumes "MultiApply M exec (Some params) w = (r, w', attempts)" "attempts \<noteq> []"
  shows "eaStrategy (hd attempts)
       = (if Operation params = ''patch'' then ''udiff''
          else if Operation params = ''rewrite'' then ''whole-file'' else ''search-replace'')
     \<and> eaFellBackFrom (hd attempts) = []
     \<and> list_all (\<lambda>a. \<not> eaSuccess a) (butlast attempts)
     \<and> (eaSuccess (last attempts) \<longleftrightarrow> applied r)
     \<and> (\<forall>k. Suc k < length attempts \<longrightarrow> eaFellBackFrom (attempts ! Suc k) = eaStrategy (attempts ! k))"
proof -
  obtain cands where cands: "validateOperationFields (mcQuote M) params = None"
      "buildCandidates (mcQuote M) params = Inr cands"
      "tryCandidates M exec (miPath params) cands [] [] w = (r, w', attempts)"
    using assms by (auto simp: MultiApply_def split: if_splits option.splits sum.splits)
  note primary = buildCandidates_primary [OF cands(2,1)]
  then have "tryCandidates M exec (miPath params) (hd cands # tl cands) [] [] w = (r, w', attempts)"
    using cands(3) by simp
  from tryCandidates_attempts [OF this] primary show ?thesis
    by simp
qed

theorem multi_edit_attempts_witness:
  "map eaStrategy (snd (snd (MultiApply exampleConfig (ReplayExecutor id id)
       (Some (multiOf ''patch'' (Some ''whole'') (Some ''no hunks'') (Some ''z'') None)) (oneFile ''f'' ''abc''))))
     = [''udiff'', ''search-replace'', ''whole-file'']
   \<and> eaFellBackFrom (hd (snd (snd (MultiApply exampleConfig (ReplayExecutor id id)
       (Some (multiOf ''patch'' (Some ''whole'') (Some ''no hunks'') (Some ''z'') None)) (oneFile ''f'' ''abc''))))) = []"
proof -
  let ?m = "MultiApply exampleConfig (ReplayExecutor id id)
       (Some (multiOf ''patch'' (Some ''whole'') (Some ''no hunks'') (Some ''z'') None)) (oneFile ''f'' ''abc'')"
  obtain r w' as where m: "?m = (r, w', as)"
    by (cases ?m)
  have names: "map eaStrategy (snd (snd ?m)) = [''udiff'', ''search-replace'', ''whole-file'']"
    by code_simp
  then have "as \<noteq> []"
    by (auto simp: m)
  from multi_edit_attempts [OF m this] names show ?thesis
    by (simp add: m)
qed

text \<open>
  Two inputs on which the dispatcher does what no field of the call asks for. A \<open>patch\<close> whose diff
  cannot be parsed, sent with an \<open>old_string\<close> and no \<open>new_string\<close>, falls back to search-replace with an
  empty replacement and deletes \<open>old_string\<close>, although only \<open>delete\<close> may omit \<open>new_string\<close>; and a
  \<open>delete\<close> of the empty string on a path that cannot be read writes an empty file and reports success.
\<close>

theorem multi_edit_unrequested_writes:
  "writes (fst (snd (MultiApply exampleConfig (ReplayExecutor id id)
       (Some (multiOf ''patch'' None (Some ''no hunks'') (Some ''b'') None)) (oneFile ''f'' ''abc''))))
     = [(''f'', ''ac'')]
   \<and> writes (fst (snd (MultiApply exampleConfig (ReplayExecutor id id)
       (Some (multiOf ''delete'' None None (Some []) None)) (oneFile ''g'' ''abc''))))
     = [(''f'', [])]"
  by code_simp

end
