(* ===== verification/Stream_Result.thy ===== *)
theory Stream_Result
  imports Token_Ledger
begin

text \<open>
  How a model response is read off its event stream: \<open>streamEventsToResult\<close>, \<open>toolSearchBlock\<close> and
  \<open>boundedResponseModel\<close> of \<open>core/types.go\<close> and \<open>NormalizeToolInput\<close> of \<open>types/toolinput.go\<close>.

  The channel is the list of the events received, each with whether the context was done when it
  arrived. An event's \<open>Input\<close> is the JSON encoding of its map, \<open>null\<close> for a nil one. The
  scrubbing buffer \<open>security.StreamCarry\<close> between the stream and the transport is a record of its
  three operations, and \<open>security.Scrub\<close> is the argument \<open>scrub\<close>. Emit failures are only logged, so an
  emitted event is an element of a log; what the \<open>redacted\<close> callback is told is not kept.
\<close>

section \<open>Events and results\<close>

record InvalidToolInput =
  Raw :: string
  invError :: string

record StopDetails =
  sdType :: string
  Category :: string
  Explanation :: string

record ModelEvent = StreamEvent +
  seText :: string
  seID :: string
  seName :: string
  seInput :: string
  seStopReason :: string
  seError :: "string option"
  seStopDetails :: "StopDetails option"
  seResponseModel :: string
  seThoughtSignature :: string
  seReplayFields :: "(string \<times> string) list"
  seInvalidInput :: "InvalidToolInput option"
  seToolReferences :: "string list"
  seIsError :: bool

record streamResult =
  Blocks :: "ContentBlock list"
  StopReason :: string
  srStopDetails :: "StopDetails option"
  srUsage :: TokenUsage
  srReplayFields :: "(string \<times> string) list option"
  InvalidToolInputs :: "nat \<rightharpoonup> InvalidToolInput"
  ResponseModel :: string

definition zeroStreamResult :: streamResult where
  "zeroStreamResult = \<lparr>Blocks = [], StopReason = [], srStopDetails = None, srUsage = zeroUsage,
     srReplayFields = None, InvalidToolInputs = Map.empty, ResponseModel = []\<rparr>"

text \<open>What reaches the transport while a stream is read.\<close>

datatype streamEmit =
    Delta string string
  | ToolCallEvent string string string
  | WarningEvent string

record 'c streamCarry =
  carryPush :: "string \<Rightarrow> 'c \<Rightarrow> (string \<times> string list) \<times> 'c"
  carryFlush :: "'c \<Rightarrow> (string \<times> string list) \<times> 'c"
  carryFlushWith :: "string \<Rightarrow> 'c \<Rightarrow> (string \<times> string list) \<times> 'c"

definition StreamWithheld :: string where "StreamWithheld = ''stream_withheld''"

section \<open>Helpers\<close>

definition NormalizeToolInput :: "string \<Rightarrow> string" where
  "NormalizeToolInput raw =
     (if TrimSpace raw = [] \<or> TrimSpace raw = ''null'' then ''{}'' else raw)"

definition maxResponseModelBytes :: nat where "maxResponseModelBytes = 256"

definition boundedResponseModel :: "(string \<Rightarrow> string) \<Rightarrow> string \<Rightarrow> string" where
  "boundedResponseModel scrub model0 =
     (let model = scrub model0
      in if length model \<le> maxResponseModelBytes then model
         else take (headLoop model maxResponseModelBytes) model)"

definition toolSearchBlock :: "ModelEvent \<Rightarrow> ContentBlock" where
  "toolSearchBlock event =
     (if evType event = ''tool_search''
      then zeroBlock\<lparr>Type := ''tool_search'', ID := seID event, Name := seName event,
                    Input := NormalizeToolInput (seInput event)\<rparr>
      else
        let block = zeroBlock\<lparr>Type := ''tool_search_result'', ToolUseID := seID event,
                              ToolReferences := seToolReferences event\<rparr>
        in if seIsError event \<or> seName event \<noteq> [] \<or> seText event \<noteq> []
           then block\<lparr>IsError := True, Name := seName event, Content := seText event\<rparr>
           else block)"

definition toolUseOf :: "ModelEvent \<Rightarrow> ContentBlock" where
  "toolUseOf event = zeroBlock\<lparr>Type := ''tool_use'', ID := seID event, Name := seName event,
     Input := NormalizeToolInput (seInput event), ThoughtSignature := seThoughtSignature event\<rparr>"

definition thinkingOf :: "ModelEvent \<Rightarrow> ContentBlock" where
  "thinkingOf event = zeroBlock\<lparr>Type := evType event, Text := seText event,
     ThoughtSignature := seThoughtSignature event\<rparr>"

definition invalidArgsWarning :: "(string \<Rightarrow> string) \<Rightarrow> string \<Rightarrow> string \<Rightarrow> InvalidToolInput \<Rightarrow> string" where
  "invalidArgsWarning scrub i name mark =
     ''tool call '' @ i @ '' ('' @ name @ ''): arguments were not valid JSON and the call is returned to the model as an error: ''
     @ scrub (invError mark)"

definition withheldWarning :: "string \<Rightarrow> string" where
  "withheldWarning eventType = eventType
     @ '' withheld: a possible secret ran past 1 MiB, so the stream resumes after it ends; the trace keeps the text scrubbed''"

section \<open>The reading loop\<close>

record 'c streamState =
  stResult :: streamResult
  currentText :: string
  inText :: bool
  stCarry :: 'c
  carriedType :: string
  blockStreamed :: bool
  emitted :: "streamEmit list"

definition emitDelta :: "string \<Rightarrow> string \<times> string list \<Rightarrow> streamEmit list" where
  "emitDelta eventType released =
     (case released of (txt', patterns) \<Rightarrow>
        (if txt' \<noteq> [] then [Delta eventType txt'] else [])
        @ (if StreamWithheld \<in> set patterns then [WarningEvent (withheldWarning eventType)] else []))"

definition flushDeltas :: "'c streamCarry \<Rightarrow> 'c streamState \<Rightarrow> 'c streamState" where
  "flushDeltas K s =
     (case carryFlush K (stCarry s) of (released, c) \<Rightarrow>
        s\<lparr>stCarry := c, emitted := emitted s @ emitDelta (carriedType s) released\<rparr>)"

definition pushDelta :: "'c streamCarry \<Rightarrow> string \<Rightarrow> string \<Rightarrow> bool \<Rightarrow> 'c streamState \<Rightarrow> 'c streamState" where
  "pushDelta K eventType t whole s0 =
     (let s = (if eventType \<noteq> carriedType s0 then (flushDeltas K s0)\<lparr>carriedType := eventType\<rparr> else s0)
      in case (if whole then carryFlushWith K t (stCarry s) else carryPush K t (stCarry s)) of
           (released, c) \<Rightarrow> s\<lparr>stCarry := c, emitted := emitted s @ emitDelta eventType released\<rparr>)"

definition forwardThinking :: "'c streamCarry \<Rightarrow> bool \<Rightarrow> string \<Rightarrow> bool \<Rightarrow> 'c streamState \<Rightarrow> 'c streamState" where
  "forwardThinking K streamThinking t whole s =
     (if \<not> streamThinking \<or> t = [] then s else pushDelta K ''thinking_delta'' t whole s)"

definition addBlock :: "ContentBlock \<Rightarrow> 'c streamState \<Rightarrow> 'c streamState" where
  "addBlock b s = s\<lparr>stResult := (stResult s)\<lparr>Blocks := Blocks (stResult s) @ [b]\<rparr>\<rparr>"

text \<open>The text block that every other block closes.\<close>

definition closeText :: "'c streamState \<Rightarrow> 'c streamState" where
  "closeText s = (if inText s then (addBlock (textBlock (currentText s)) s)\<lparr>inText := False, currentText := []\<rparr> else s)"

definition emitAll :: "streamEmit list \<Rightarrow> 'c streamState \<Rightarrow> 'c streamState" where
  "emitAll es s = s\<lparr>emitted := emitted s @ es\<rparr>"

definition toolCallEvent :: "(string \<Rightarrow> string) \<Rightarrow> ModelEvent \<Rightarrow> 'c streamState \<Rightarrow> 'c streamState" where
  "toolCallEvent scrub event s0 =
     (let s = closeText s0;
          r = stResult s;
          marked = (case seInvalidInput event of
                      None \<Rightarrow> r
                    | Some mark \<Rightarrow> r\<lparr>InvalidToolInputs := (InvalidToolInputs r)(length (Blocks r) \<mapsto> mark)\<rparr>);
          s1 = addBlock (toolUseOf event) (s\<lparr>stResult := marked\<rparr>)
      in emitAll ([ToolCallEvent (seID event) (seName event) (NormalizeToolInput (seInput event))]
           @ (case seInvalidInput event of
                None \<Rightarrow> []
              | Some mark \<Rightarrow> [WarningEvent (invalidArgsWarning scrub (seID event) (seName event) mark)])) s1)"

definition thinkingEvent :: "'c streamCarry \<Rightarrow> bool \<Rightarrow> ModelEvent \<Rightarrow> 'c streamState \<Rightarrow> 'c streamState" where
  "thinkingEvent K streamThinking event s0 =
     (let s = (if evType event = ''thinking'' \<and> \<not> blockStreamed s0
               then forwardThinking K streamThinking (seText event) True s0 else s0)
      in addBlock (thinkingOf event) (closeText (s\<lparr>blockStreamed := False\<rparr>)))"

definition completeEvent :: "(string \<Rightarrow> string) \<Rightarrow> ModelEvent \<Rightarrow> 'c streamState \<Rightarrow> 'c streamState" where
  "completeEvent scrub event s0 =
     (let s = (if inText s0 then (addBlock (textBlock (currentText s0)) s0)\<lparr>inText := False\<rparr> else s0);
          r = stResult s
      in s\<lparr>stResult := r\<lparr>
           StopReason := (if seStopReason event \<noteq> [] then seStopReason event else StopReason r),
           srStopDetails := (if seStopDetails event \<noteq> None then seStopDetails event else srStopDetails r),
           ResponseModel := (if seResponseModel event \<noteq> [] then boundedResponseModel scrub (seResponseModel event)
                             else ResponseModel r),
           srUsage := MergeEvent (srUsage r) (StreamEvent.truncate event),
           srReplayFields := (if seReplayFields event \<noteq> [] then Some (seReplayFields event)
                              else srReplayFields r)\<rparr>\<rparr>)"

text \<open>One event; an error event with an error is handled by the loop, which returns on it.\<close>

definition streamStep ::
  "(string \<Rightarrow> string) \<Rightarrow> 'c streamCarry \<Rightarrow> bool \<Rightarrow> ModelEvent \<Rightarrow> 'c streamState \<Rightarrow> 'c streamState" where
  "streamStep scrub K streamThinking event s0 =
     (let s = (if evType event \<noteq> ''text_delta'' \<and> evType event \<noteq> ''thinking_delta''
               then flushDeltas K s0 else s0)
      in if evType event = ''text_delta''
         then let s1 = (if \<not> inText s then s\<lparr>inText := True, currentText := []\<rparr> else s)
              in pushDelta K ''text_delta'' (seText event) False
                   (s1\<lparr>currentText := currentText s1 @ seText event\<rparr>)
         else if evType event = ''tool_call'' then toolCallEvent scrub event s
         else if evType event = ''thinking_delta''
         then forwardThinking K streamThinking (seText event) False (s\<lparr>blockStreamed := True\<rparr>)
         else if evType event = ''thinking'' \<or> evType event = ''redacted_thinking''
         then thinkingEvent K streamThinking event s
         else if evType event = ''tool_search'' \<or> evType event = ''tool_search_result''
         then addBlock (toolSearchBlock event) (closeText s)
         else if evType event = ''message_complete'' then completeEvent scrub event s
         else s)"

definition contextCanceled :: string where "contextCanceled = ''context canceled''"

fun streamLoop ::
  "(string \<Rightarrow> string) \<Rightarrow> 'c streamCarry \<Rightarrow> bool \<Rightarrow> (bool \<times> ModelEvent) list \<Rightarrow> 'c streamState
     \<Rightarrow> string option \<times> 'c streamState" where
  "streamLoop scrub K streamThinking [] s =
     (None, if inText s then addBlock (textBlock (currentText s)) s else s)"
| "streamLoop scrub K streamThinking ((done, event) # rest) s =
     (if done then (Some contextCanceled, s)
      else if evType event = ''error'' \<and> seError event \<noteq> None
      then (seError event, flushDeltas K s)
      else streamLoop scrub K streamThinking rest (streamStep scrub K streamThinking event s))"

definition initStream :: "'c \<Rightarrow> 'c streamState" where
  "initStream c = \<lparr>stResult = zeroStreamResult, currentText = [], inText = False, stCarry = c,
     carriedType = [], blockStreamed = False, emitted = []\<rparr>"

definition streamEventsToResult ::
  "(string \<Rightarrow> string) \<Rightarrow> 'c streamCarry \<Rightarrow> 'c \<Rightarrow> bool \<Rightarrow> (bool \<times> ModelEvent) list
     \<Rightarrow> string option \<times> streamResult \<times> streamEmit list" where
  "streamEventsToResult scrub K c streamThinking ch =
     (case streamLoop scrub K streamThinking ch (initStream c) of
        (err, s) \<Rightarrow> (err, stResult s, emitted (flushDeltas K s)))"

section \<open>The calls of a response\<close>

record ToolCall =
  tcID :: string
  tcName :: string
  tcInput :: string
  InvalidInput :: "InvalidToolInput option"

fun collectLoop :: "nat \<Rightarrow> ContentBlock list \<Rightarrow> (nat \<rightharpoonup> InvalidToolInput) \<Rightarrow> ToolCall list" where
  "collectLoop i [] invalid = []"
| "collectLoop i (b # bs) invalid =
     (if Type b = ''tool_use''
      then [\<lparr>tcID = ID b, tcName = Name b, tcInput = Input b, InvalidInput = invalid i\<rparr>] else [])
     @ collectLoop (Suc i) bs invalid"

definition collectToolCalls :: "ContentBlock list \<Rightarrow> (nat \<rightharpoonup> InvalidToolInput) \<Rightarrow> ToolCall list" where
  "collectToolCalls blocks invalid = collectLoop 0 blocks invalid"

lemma collectLoop_append:
  "collectLoop i (xs @ ys) invalid = collectLoop i xs invalid @ collectLoop (i + length xs) ys invalid"
  by (induction xs arbitrary: i) auto

lemma collectLoop_cong:
  "(\<And>k. i \<le> k \<Longrightarrow> k < i + length bs \<Longrightarrow> f k = g k) \<Longrightarrow> collectLoop i bs f = collectLoop i bs g"
proof (induction bs arbitrary: i)
  case (Cons b bs)
  have "f i = g i"
    by (rule Cons.prems) auto
  moreover have "collectLoop (Suc i) bs f = collectLoop (Suc i) bs g"
    by (rule Cons.IH) (use Cons.prems in auto)
  ultimately show ?case by simp
qed simp

section \<open>What a completed stream holds\<close>

definition streamBlockTypes :: "string list" where
  "streamBlockTypes = [''text'', ''tool_use'', ''thinking'', ''redacted_thinking'', ''tool_search'',
     ''tool_search_result'']"

definition streamedText :: "ModelEvent list \<Rightarrow> string" where
  "streamedText evs = concat (map seText (filter (\<lambda>e. evType e = ''text_delta'') evs))"

definition blockText :: "ContentBlock list \<Rightarrow> string" where
  "blockText bs = concat (map Text (filter (\<lambda>b. Type b = ''text'') bs))"

definition callOf :: "ModelEvent \<Rightarrow> ToolCall" where
  "callOf e = \<lparr>tcID = seID e, tcName = seName e, tcInput = NormalizeToolInput (seInput e),
     InvalidInput = seInvalidInput e\<rparr>"

definition streamedCalls :: "ModelEvent list \<Rightarrow> ToolCall list" where
  "streamedCalls evs = map callOf (filter (\<lambda>e. evType e = ''tool_call'') evs)"

definition streamInv :: "ModelEvent list \<Rightarrow> 'c streamState \<Rightarrow> bool" where
  "streamInv evs s =
     (let r = stResult s in
      list_all (\<lambda>b. Type b \<in> set streamBlockTypes) (Blocks r)
      \<and> blockText (Blocks r) @ (if inText s then currentText s else []) = streamedText evs
      \<and> collectToolCalls (Blocks r) (InvalidToolInputs r) = streamedCalls evs
      \<and> (\<forall>i \<ge> length (Blocks r). InvalidToolInputs r i = None))"

lemma streamInv_delta_free [simp]:
  "stResult (flushDeltas K s) = stResult s" "inText (flushDeltas K s) = inText s"
  "currentText (flushDeltas K s) = currentText s" "blockStreamed (flushDeltas K s) = blockStreamed s"
  "stResult (pushDelta K ty t whole s) = stResult s" "inText (pushDelta K ty t whole s) = inText s"
  "currentText (pushDelta K ty t whole s) = currentText s"
  "stResult (forwardThinking K th t whole s) = stResult s" "inText (forwardThinking K th t whole s) = inText s"
  "currentText (forwardThinking K th t whole s) = currentText s"
  "stResult (emitAll es s) = stResult s" "inText (emitAll es s) = inText s"
  "currentText (emitAll es s) = currentText s"
  by (simp_all add: flushDeltas_def pushDelta_def forwardThinking_def emitAll_def Let_def split: prod.split)

lemma stream_accumulators [simp]:
  "blockText (bs @ [b]) = blockText bs @ (if Type b = ''text'' then Text b else [])"
  "streamedText (evs @ [e]) = streamedText evs @ (if evType e = ''text_delta'' then seText e else [])"
  "streamedCalls (evs @ [e]) = streamedCalls evs @ (if evType e = ''tool_call'' then [callOf e] else [])"
  "collectToolCalls (bs @ [b]) f = collectToolCalls bs f
     @ (if Type b = ''tool_use''
        then [\<lparr>tcID = ID b, tcName = Name b, tcInput = Input b, InvalidInput = f (length bs)\<rparr>] else [])"
  by (simp_all add: blockText_def streamedText_def streamedCalls_def collectToolCalls_def collectLoop_append)

text \<open>A block added after the open text is closed, for an event that carries neither text nor a call.\<close>

lemma streamInv_closeText:
  "streamInv evs s \<Longrightarrow> streamInv evs (closeText s) \<and> \<not> inText (closeText s)"
  by (auto simp: streamInv_def closeText_def addBlock_def Let_def streamBlockTypes_def message_literals)

lemma streamInv_addBlock:
  assumes "streamInv evs s" "\<not> inText s" "Type b \<in> set streamBlockTypes" "Type b \<noteq> ''text''" "Type b \<noteq> ''tool_use''"
    and "evType e \<noteq> ''text_delta''" "evType e \<noteq> ''tool_call''"
  shows "streamInv (evs @ [e]) (addBlock b s)"
  using assms by (auto simp: streamInv_def addBlock_def Let_def)

lemma toolSearchBlock_Type:
  "evType e = ''tool_search'' \<or> evType e = ''tool_search_result'' \<Longrightarrow> Type (toolSearchBlock e) = evType e"
  by (auto simp: toolSearchBlock_def Let_def message_literals)

lemma streamInv_toolCall:
  assumes "streamInv evs s" "evType e = ''tool_call''"
  shows "streamInv (evs @ [e]) (toolCallEvent scrub e s)"
proof -
  let ?s = "closeText s"
  let ?r = "stResult ?s"
  let ?f = "InvalidToolInputs ?r"
  have inv: "streamInv evs ?s" "\<not> inText ?s"
    using streamInv_closeText [OF assms(1)] by auto
  then have none: "?f (length (Blocks ?r)) = None"
    by (auto simp: streamInv_def Let_def)
  have "collectToolCalls (Blocks ?r) (?f(length (Blocks ?r) \<mapsto> m)) = collectToolCalls (Blocks ?r) ?f" for m
    unfolding collectToolCalls_def by (rule collectLoop_cong) auto
  then show ?thesis
    using inv none assms(2)
    by (cases "seInvalidInput e")
      (auto simp: streamInv_def toolCallEvent_def addBlock_def Let_def toolUseOf_def callOf_def
        message_literals streamBlockTypes_def)
qed

lemma streamInv_complete:
  assumes "streamInv evs s" "evType e = ''message_complete''"
  shows "streamInv (evs @ [e]) (completeEvent scrub e s)"
  using assms
  by (auto simp: streamInv_def completeEvent_def addBlock_def Let_def message_literals streamBlockTypes_def)

lemma streamInv_thinking:
  assumes "streamInv evs s" "evType e = ''thinking'' \<or> evType e = ''redacted_thinking''"
  shows "streamInv (evs @ [e]) (thinkingEvent K th e s)"
proof -
  have "streamInv evs ((if evType e = ''thinking'' \<and> \<not> blockStreamed s
               then forwardThinking K th (seText e) True s else s)\<lparr>blockStreamed := False\<rparr>)"
    using assms(1) by (auto simp: streamInv_def Let_def)
  from streamInv_closeText [OF this] show ?thesis
    unfolding thinkingEvent_def Let_def
    by (intro streamInv_addBlock) (use assms(2) in \<open>auto simp: thinkingOf_def streamBlockTypes_def message_literals\<close>)
qed

lemma streamInv_step:
  assumes "streamInv evs s"
  shows "streamInv (evs @ [e]) (streamStep scrub K th e s)"
proof -
  let ?s = "if evType e \<noteq> ''text_delta'' \<and> evType e \<noteq> ''thinking_delta'' then flushDeltas K s else s"
  have inv: "streamInv evs ?s"
    using assms by (auto simp: streamInv_def Let_def split: if_splits)
  consider "evType e = ''text_delta''" | "evType e = ''tool_call''" | "evType e = ''thinking_delta''"
    | "evType e = ''thinking'' \<or> evType e = ''redacted_thinking''"
    | "evType e = ''tool_search'' \<or> evType e = ''tool_search_result''" | "evType e = ''message_complete''"
    | "evType e \<notin> {''text_delta'', ''tool_call'', ''thinking_delta'', ''thinking'', ''redacted_thinking'',
        ''tool_search'', ''tool_search_result'', ''message_complete''}"
    by blast
  then show ?thesis
  proof cases
    case 1
    then show ?thesis
      using assms by (auto simp: streamStep_def streamInv_def Let_def)
  next
    case 2
    then show ?thesis
      using streamInv_toolCall [OF inv 2] by (simp add: streamStep_def)
  next
    case 3
    then show ?thesis
      using assms by (auto simp: streamStep_def streamInv_def Let_def)
  next
    case 4
    then show ?thesis
      using streamInv_thinking [OF inv 4] by (auto simp: streamStep_def)
  next
    case 5
    from streamInv_closeText [OF inv] have "streamInv (evs @ [e]) (addBlock (toolSearchBlock e) (closeText ?s))"
      by (intro streamInv_addBlock) (use 5 in \<open>auto simp: toolSearchBlock_Type streamBlockTypes_def\<close>)
    then show ?thesis
      using 5 by (auto simp: streamStep_def)
  next
    case 6
    then show ?thesis
      using streamInv_complete [OF inv 6] by (simp add: streamStep_def)
  next
    case 7
    then show ?thesis
      using assms by (auto simp: streamStep_def streamInv_def Let_def)
  qed
qed

lemma streamLoop_inv:
  assumes "streamLoop scrub K th ch s = (None, s')" "streamInv evs s"
  shows "streamInv (evs @ map snd ch) (s'\<lparr>inText := False\<rparr>)"
  using assms
proof (induction scrub K th ch s arbitrary: evs rule: streamLoop.induct)
  case (1 scrub K th s)
  then show ?case
    by (auto simp: streamInv_def addBlock_def Let_def message_literals streamBlockTypes_def split: if_splits)
next
  case (2 scrub K th ended e rest s)
  then show ?case
    using 2(1) [of "evs @ [e]"] streamInv_step [of evs s e scrub K th]
    by (auto split: if_splits)
qed

lemma streamEventsToResult_facts:
  assumes "streamEventsToResult scrub K c streamThinking ch = (None, r, es)"
  shows "list_all (\<lambda>b. Type b \<in> set streamBlockTypes) (Blocks r)
     \<and> concat (map Text (filter (\<lambda>b. Type b = ''text'') (Blocks r))) = streamedText (map snd ch)
     \<and> collectToolCalls (Blocks r) (InvalidToolInputs r) = streamedCalls (map snd ch)"
proof -
  obtain s where s: "streamLoop scrub K streamThinking ch (initStream c) = (None, s)" "r = stResult s"
    using assms by (auto simp: streamEventsToResult_def split: prod.splits)
  have "streamInv [] (initStream c)"
    by (simp add: streamInv_def initStream_def zeroStreamResult_def Let_def blockText_def streamedText_def
        streamedCalls_def collectToolCalls_def)
  from streamLoop_inv [OF s(1) this] show ?thesis
    by (auto simp: streamInv_def Let_def s(2) blockText_def)
qed

text \<open>
  C26: the type of a streamed response. A stream read to its end yields only the six block types the
  history admits, never a tool result; no text is lost or reordered; and the calls the loop collects
  are exactly the tool calls of the stream, in order, each with its normalised arguments and the mark
  of its own malformed arguments.
\<close>

theorem stream_result_typed:
  assumes "streamEventsToResult scrub K c streamThinking ch = (None, r, es)"
  shows "list_all (\<lambda>b. Type b \<in> set streamBlockTypes) (Blocks r)
     \<and> concat (map Text (filter (\<lambda>b. Type b = ''text'') (Blocks r))) = streamedText (map snd ch)
     \<and> collectToolCalls (Blocks r) (InvalidToolInputs r) = streamedCalls (map snd ch)"
  using assms by (rule streamEventsToResult_facts)

text \<open>A carry that releases everything at once, for examples without secrets.\<close>

definition plainCarry :: "unit streamCarry" where
  "plainCarry = \<lparr>carryPush = (\<lambda>t c. ((t, []), c)), carryFlush = (\<lambda>c. (([], []), c)),
     carryFlushWith = (\<lambda>t c. ((t, []), c))\<rparr>"

definition eventOf :: "string \<Rightarrow> ModelEvent" where
  "eventOf ty = \<lparr>evType = ty, InputTokens = 0, OutputTokens = 0, CacheReadTokens = 0, CacheWriteTokens = 0,
     ReasoningTokens = 0, seText = [], seID = [], seName = [], seInput = ''null'', seStopReason = [],
     seError = None, seStopDetails = None, seResponseModel = [], seThoughtSignature = [],
     seReplayFields = [], seInvalidInput = None, seToolReferences = [], seIsError = False\<rparr>"

definition sampleStream :: "(bool \<times> ModelEvent) list" where
  "sampleStream = map (Pair False)
     [(eventOf ''text_delta'')\<lparr>seText := ''I will ''\<rparr>,
      (eventOf ''text_delta'')\<lparr>seText := ''look.''\<rparr>,
      (eventOf ''tool_call'')\<lparr>seID := ''a'', seName := ''ls''\<rparr>,
      (eventOf ''thinking'')\<lparr>seText := ''hm''\<rparr>,
      (eventOf ''tool_call'')\<lparr>seID := ''b'', seName := ''cat'',
         seInvalidInput := Some \<lparr>Raw = ''{'', invError = ''eof''\<rparr>\<rparr>,
      (eventOf ''message_complete'')\<lparr>seStopReason := ''tool_use''\<rparr>]"

lemmas stream_eval = sampleStream_def eventOf_def plainCarry_def streamEventsToResult_def initStream_def
  zeroStreamResult_def streamStep_def flushDeltas_def pushDelta_def emitDelta_def toolCallEvent_def
  thinkingEvent_def forwardThinking_def completeEvent_def closeText_def addBlock_def emitAll_def
  toolUseOf_def thinkingOf_def NormalizeToolInput_def Let_def message_literals StreamWithheld_def

theorem stream_result_typed_witness:
  "fst (streamEventsToResult id plainCarry () False sampleStream) = None
   \<and> map Type (Blocks (fst (snd (streamEventsToResult id plainCarry () False sampleStream))))
     = [''text'', ''tool_use'', ''thinking'', ''tool_use'']
   \<and> concat (map Text (filter (\<lambda>b. Type b = ''text'')
        (Blocks (fst (snd (streamEventsToResult id plainCarry () False sampleStream)))))) = ''I will look.''"
proof -
  let ?m = "streamEventsToResult id plainCarry () False sampleStream"
  have err: "fst ?m = None"
    by (simp add: stream_eval)
  then have "?m = (None, fst (snd ?m), snd (snd ?m))"
    by (simp add: prod_eq_iff)
  note typed = stream_result_typed [OF this]
  have "map Type (Blocks (fst (snd ?m))) = [''text'', ''tool_use'', ''thinking'', ''tool_use'']"
    by (simp add: stream_eval)
  moreover have "streamedText (map snd sampleStream) = ''I will look.''"
    by (simp add: stream_eval streamedText_def)
  ultimately show ?thesis
    using typed err by simp
qed

end
