(* ===== verification/Loop_History.thy ===== *)
theory Loop_History
  imports Stream_Result
begin

text \<open>
  How the loop grows its history: the append and commit helpers of \<open>core/types.go\<close>, the commit rule
  of \<open>core/transcript.go\<close>, injected user text and the input queue of \<open>core/userinput.go\<close>, output-limit
  recovery of \<open>core/outputlimit.go\<close>, pause continuation of \<open>core/pauseturn.go\<close> and the history a
  follow-up continues, \<open>core/followuphistory.go\<close>. Every helper keeps the history sendable: well
  formed, and without an open call in a trailing assistant message.
\<close>

section \<open>Appending (types.go)\<close>

definition buildMessages :: "string \<Rightarrow> Message list" where
  "buildMessages userPrompt = [mkMessage ''user'' [textBlock userPrompt]]"

definition appendAssistantContent ::
  "Message list \<Rightarrow> ContentBlock list \<Rightarrow> (string \<times> string) list option \<Rightarrow> Message list" where
  "appendAssistantContent messages blocks replayFields =
     messages @ [(mkMessage ''assistant'' blocks)\<lparr>ReplayFields := (case replayFields of None \<Rightarrow> [] | Some f \<Rightarrow> f)\<rparr>]"

definition commitAssistantContent ::
  "Message list \<Rightarrow> ContentBlock list \<Rightarrow> (string \<times> string) list option \<Rightarrow> bool \<Rightarrow> Message list" where
  "commitAssistantContent messages blocks replayFields continuesPause =
     (if \<not> continuesPause \<or> messages = [] \<or> Role (last messages) \<noteq> ''assistant''
      then appendAssistantContent messages blocks replayFields
      else let paused = last messages
           in butlast messages @ [paused\<lparr>MContent := MContent paused @ blocks,
                ReplayFields := (case replayFields of None \<Rightarrow> ReplayFields paused | Some f \<Rightarrow> f)\<rparr>])"

record ToolResult =
  trToolUseID :: string
  trContent :: string
  trIsError :: bool
  trStructured :: string
  trKind :: string

definition resultBlock :: "ToolResult \<Rightarrow> ContentBlock" where
  "resultBlock r = zeroBlock\<lparr>Type := ''tool_result'', ToolUseID := trToolUseID r, Content := trContent r,
     IsError := trIsError r, Structured := trStructured r, Kind := trKind r\<rparr>"

definition appendToolResults :: "Message list \<Rightarrow> ToolResult list \<Rightarrow> Message list" where
  "appendToolResults messages results = messages @ [mkMessage ''user'' (map resultBlock results)]"

section \<open>What enters the history (loop.go, outputlimit.go, transcript.go)\<close>

definition TrimRightNewlines :: "string \<Rightarrow> string" where
  "TrimRightNewlines s = rev (dropWhile (\<lambda>c. c = nl) (rev s))"

definition lastAssistantText :: "ContentBlock list \<Rightarrow> string" where
  "lastAssistantText blocks =
     TrimRightNewlines (concat (map (\<lambda>b. if Type b = ''text'' then Text b @ [nl] else []) blocks))"

definition withoutToolUse :: "ContentBlock list \<Rightarrow> ContentBlock list" where
  "withoutToolUse blocks = filter (\<lambda>b. Type b \<noteq> ''tool_use'') blocks"

definition committableAssistantBlocks :: "string \<Rightarrow> ContentBlock list \<Rightarrow> ContentBlock list \<times> bool" where
  "committableAssistantBlocks stopReason blocks =
     (if stopReason = ''tool_use'' then (blocks, length (withoutToolUse blocks) < length blocks)
      else if stopReason = [] then ([], False)
      else let kept = filter (\<lambda>b. Type b \<noteq> ''text'' \<or> Text b \<noteq> []) (withoutToolUse blocks)
           in if stopReason = ''max_tokens'' then (kept, lastAssistantText kept \<noteq> [])
              else (kept, kept \<noteq> []))"

section \<open>Injected user text (userinput.go)\<close>

definition appendUserBlock :: "Message list \<Rightarrow> ContentBlock \<Rightarrow> bool \<Rightarrow> Message list" where
  "appendUserBlock messages block synthetic =
     (if messages \<noteq> [] \<and> Role (last messages) = ''user''
      then let lst = last messages;
               content = MContent lst;
               content' =
                 (if content \<noteq> [] \<and> Type (last content) = ''text'' \<and> Origin (last content) = Origin block
                  then butlast content @ [(last content)\<lparr>Text := Text (last content) @ [nl, nl] @ Text block\<rparr>]
                  else if content \<noteq> [] \<and> Type (last content) = ''text''
                  then content @ [block\<lparr>Text := [nl, nl] @ Text block\<rparr>]
                  else content @ [block])
           in butlast messages @ [lst\<lparr>MContent := content', Synthetic := (Synthetic lst \<and> synthetic)\<rparr>]
      else messages @ [\<lparr>Role = ''user'', MContent = [block], Synthetic = synthetic, MOrigin = [], ReplayFields = []\<rparr>])"

definition appendUserText :: "Message list \<Rightarrow> string \<Rightarrow> bool \<Rightarrow> Message list" where
  "appendUserText messages t synthetic = appendUserBlock messages (textBlock t) synthetic"

definition injectUserInput :: "Message list \<Rightarrow> string list \<Rightarrow> Message list" where
  "injectUserInput messages texts = appendUserText messages (Join texts [nl, nl]) False"

definition injectSyntheticUserText :: "Message list \<Rightarrow> string \<Rightarrow> Message list" where
  "injectSyntheticUserText messages t = appendUserText messages t True"

section \<open>Continuing past a stop (pauseturn.go, outputlimit.go)\<close>

definition maxPauseContinuations :: int where "maxPauseContinuations = 5"

definition canContinuePausedTurn :: "int \<Rightarrow> int \<Rightarrow> int \<Rightarrow> bool" where
  "canContinuePausedTurn continuations turn maxTurns =
     (continuations < maxPauseContinuations \<and> turn + 1 < maxTurns)"

definition maxOutputLimitRecoveries :: int where "maxOutputLimitRecoveries = 2"

definition outputLimitContinueText :: string where
  "outputLimitContinueText = ''Your previous response was cut off at the output limit. Continue from where you stopped.''"

definition outputLimitToolCallText :: "string \<Rightarrow> string" where
  "outputLimitToolCallText name =
     ''Your previous response was cut off at the output limit while writing a `'' @ name
     @ ''` call, so no tool was run. Write large content in smaller pieces and re-issue the call.''"

definition outputLimitNoTextText :: string where
  "outputLimitNoTextText = ''Your previous response was cut off at the output limit before it produced any text. Keep your reasoning brief, then answer or make the next tool call.''"

definition canRecoverFromOutputLimit :: "int \<Rightarrow> string \<Rightarrow> int \<Rightarrow> int \<Rightarrow> bool" where
  "canRecoverFromOutputLimit recoveries stopReason turn maxTurns =
     (stopReason = ''max_tokens'' \<and> recoveries < maxOutputLimitRecoveries \<and> turn + 1 < maxTurns)"

text \<open>
  The history after a recovery, whether the assistant message was kept, the instruction, and whether
  the model was told to continue its text; the loop's recovery counter is increased by the caller.
\<close>

definition recoverFromOutputLimit ::
  "streamResult \<Rightarrow> Message list \<Rightarrow> bool \<Rightarrow> Message list \<times> bool \<times> string \<times> bool" where
  "recoverFromOutputLimit sr messages continuesPause =
     (let (kept, hasText) = committableAssistantBlocks (StopReason sr) (Blocks sr);
          committed = (if hasText then commitAssistantContent messages kept (srReplayFields sr) continuesPause
                       else messages);
          calls = filter (\<lambda>b. Type b = ''tool_use'') (Blocks sr);
          instruction = (if calls \<noteq> [] then outputLimitToolCallText (Name (last calls))
                         else if hasText then outputLimitContinueText else outputLimitNoTextText)
      in (injectSyntheticUserText committed instruction, hasText, instruction, calls = [] \<and> hasText))"

section \<open>The history a follow-up continues (followuphistory.go)\<close>

fun lastAssistantLoop :: "Message list \<Rightarrow> nat \<Rightarrow> nat option" where
  "lastAssistantLoop messages 0 = None"
| "lastAssistantLoop messages (Suc i) =
     (if Role (messages ! i) = ''assistant'' then Some i else lastAssistantLoop messages i)"

definition lastAssistantIndex :: "Message list \<Rightarrow> nat option" where
  "lastAssistantIndex messages = lastAssistantLoop messages (length messages)"

definition toolUseAnswered :: "Message list \<Rightarrow> nat \<Rightarrow> bool" where
  "toolUseAnswered messages i =
     (let pending = toolUseIDs (messages ! i) in
      if pending = [] then True
      else if length messages \<le> i + 1 \<or> Role (messages ! (i + 1)) \<noteq> ''user'' then False
      else list_all (\<lambda>p. p \<in> set (toolResultIDs (messages ! (i + 1)))) pending)"

lemma lastAssistantLoop_Some: "lastAssistantLoop ms n = Some i \<Longrightarrow> i < n \<and> Role (ms ! i) = ''assistant''"
  by (induction n) (auto split: if_splits)

function committedLoop :: "Message list \<Rightarrow> nat \<Rightarrow> nat" where
  "committedLoop messages n =
     (case lastAssistantIndex (take n messages) of
        None \<Rightarrow> n
      | Some i \<Rightarrow> if toolUseAnswered (take n messages) i then n else committedLoop messages i)"
  by pat_completeness auto
termination
proof (relation "measure snd", simp)
  fix messages :: "Message list" and n i
  assume "lastAssistantIndex (take n messages) = Some i"
  then have "i < n"
    unfolding lastAssistantIndex_def by (auto dest: lastAssistantLoop_Some)
  then show "((messages, i), messages, n) \<in> measure snd"
    by simp
qed

declare committedLoop.simps [simp del]

definition committedHistory :: "Message list \<Rightarrow> Message list" where
  "committedHistory messages = take (committedLoop messages (length messages)) messages"

definition countToolUses :: "Message list \<Rightarrow> nat" where
  "countToolUses messages =
     sum_list (map (\<lambda>m. length (filter (\<lambda>b. Type b = ''tool_use'') (MContent m))) messages)"

section \<open>The user input queue (userinput.go)\<close>

definition maxQueuedUserInput :: nat where "maxQueuedUserInput = 16"

record queuedUserInput =
  RequestID :: string
  qText :: string

type_synonym userInputQueue = "queuedUserInput list"

definition qpush :: "queuedUserInput \<Rightarrow> userInputQueue \<Rightarrow> bool \<times> userInputQueue" where
  "qpush i q = (if length q \<ge> maxQueuedUserInput then (False, q) else (True, q @ [i]))"

definition qdrain :: "userInputQueue \<Rightarrow> queuedUserInput list \<times> userInputQueue" where
  "qdrain q = (q, [])"

definition qpop :: "userInputQueue \<Rightarrow> queuedUserInput option \<times> userInputQueue" where
  "qpop q = (case q of [] \<Rightarrow> (None, []) | i # rest \<Rightarrow> (Some i, rest))"

definition qclear :: "userInputQueue \<Rightarrow> nat \<times> userInputQueue" where
  "qclear q = (length q, [])"

section \<open>Every step keeps the history sendable\<close>

definition sendable :: "Message list \<Rightarrow> bool" where
  "sendable ms = (wf_history ms \<and> ms \<noteq> [] \<and> (Role (last ms) = ''assistant'' \<longrightarrow> toolUseIDs (last ms) = []))"

definition noResults :: "ContentBlock list \<Rightarrow> bool" where
  "noResults bs = list_all (\<lambda>b. Type b \<noteq> ''tool_result'') bs"

lemma wf_history_snoc:
  "wf_history (ms @ [m])
   = (if ms = [] then Role m = ''user'' \<and> toolResultIDs m = [] else wf_history ms \<and> answers (last ms) m)"
  by (cases ms) (auto simp: exchanges_append)

lemma last_role: "wf_history ms \<Longrightarrow> ms \<noteq> [] \<Longrightarrow> Role (last ms) = ''user'' \<or> Role (last ms) = ''assistant''"
  by (cases ms rule: rev_cases) (auto simp: wf_history_snoc answers_def split: if_splits)

lemma ids_append [simp]:
  "toolUseIDs (m\<lparr>MContent := xs @ ys\<rparr>) = toolUseIDs (m\<lparr>MContent := xs\<rparr>) @ toolUseIDs (m\<lparr>MContent := ys\<rparr>)"
  "toolResultIDs (m\<lparr>MContent := xs @ ys\<rparr>) = toolResultIDs (m\<lparr>MContent := xs\<rparr>) @ toolResultIDs (m\<lparr>MContent := ys\<rparr>)"
  by (simp_all add: toolUseIDs_def toolResultIDs_def)

lemma ids_fields [simp]:
  "toolUseIDs (m\<lparr>ReplayFields := f\<rparr>) = toolUseIDs m" "toolResultIDs (m\<lparr>ReplayFields := f\<rparr>) = toolResultIDs m"
  "toolUseIDs (m\<lparr>Synthetic := b\<rparr>) = toolUseIDs m" "toolResultIDs (m\<lparr>Synthetic := b\<rparr>) = toolResultIDs m"
  "toolResultIDs (m\<lparr>MContent := MContent m\<rparr>) = toolResultIDs m"
  "toolUseIDs (m\<lparr>MContent := MContent m\<rparr>) = toolUseIDs m"
  by (simp_all add: toolUseIDs_def toolResultIDs_def)

lemma noResults_ids: "noResults bs \<Longrightarrow> toolResultIDs (m\<lparr>MContent := bs\<rparr>) = []"
  by (induction bs) (auto simp: noResults_def toolResultIDs_def)

lemma ids_mkMessage:
  "toolUseIDs (mkMessage r bs) = map ID (filter (\<lambda>b. Type b = ''tool_use'') bs)"
  "noResults bs \<Longrightarrow> toolResultIDs (mkMessage r bs) = []"
  "Role (mkMessage r bs) = r"
  using noResults_ids [of bs "mkMessage r []"]
  by (simp_all add: mkMessage_def toolUseIDs_def toolResultIDs_def)

lemma sendable_build: "sendable (buildMessages prompt)"
  by (simp add: sendable_def buildMessages_def message_literals toolResultIDs_def toolUseIDs_def)

lemma wf_butlast: "wf_history ms \<Longrightarrow> ms \<noteq> [] \<Longrightarrow> butlast ms \<noteq> [] \<Longrightarrow>
    wf_history (butlast ms) \<and> answers (last (butlast ms)) (last ms)"
  using wf_history_snoc [of "butlast ms" "last ms"] by simp

text \<open>
  Committing an assistant message: onto a user message, or into the paused assistant message it
  continues.
\<close>

lemma commitAssistantContent_cases:
  assumes ok: "sendable ms" and blocks: "noResults blocks"
    and turn: "Role (last ms) = ''user'' \<or> cp"
    and ms'_def: "ms' = commitAssistantContent ms blocks rf cp"
  shows "wf_history ms' \<and> ms' \<noteq> [] \<and> Role (last ms') = ''assistant''
    \<and> toolUseIDs (last ms') = map ID (filter (\<lambda>b. Type b = ''tool_use'') blocks)"
proof -
  have wf: "wf_history ms" "ms \<noteq> []"
    using ok by (auto simp: sendable_def)
  show ?thesis
  proof (cases "\<not> cp \<or> Role (last ms) \<noteq> ''assistant''")
    case True
    then have "ms' = ms @ [(mkMessage ''assistant'' blocks)\<lparr>ReplayFields := (case rf of None \<Rightarrow> [] | Some f \<Rightarrow> f)\<rparr>]"
      using wf by (auto simp: ms'_def commitAssistantContent_def appendAssistantContent_def)
    moreover have "Role (last ms) = ''user''"
      using True turn last_role [OF wf] by auto
    ultimately show ?thesis
      using wf blocks by (simp add: wf_history_snoc answers_def ids_mkMessage)
  next
    case False
    let ?p = "last ms"
    let ?p' = "?p\<lparr>MContent := MContent ?p @ blocks,
        ReplayFields := (case rf of None \<Rightarrow> ReplayFields ?p | Some f \<Rightarrow> f)\<rparr>"
    have eq: "ms' = butlast ms @ [?p']"
      using False wf by (auto simp: ms'_def commitAssistantContent_def Let_def)
    have old: "butlast ms \<noteq> []"
      using wf False by (cases ms rule: rev_cases) (auto simp: wf_history_snoc split: if_splits)
    have "toolUseIDs ?p = []"
      using ok False by (auto simp: sendable_def)
    then have use: "toolUseIDs ?p' = map ID (filter (\<lambda>b. Type b = ''tool_use'') blocks)"
      by (simp add: toolUseIDs_def)
    have "toolResultIDs ?p' = toolResultIDs ?p" "Role ?p' = Role ?p"
      using noResults_ids [OF blocks] by simp_all
    then have "answers (last (butlast ms)) ?p'"
      using wf_butlast [OF wf old] by (simp add: answers_def)
    then show ?thesis
      using wf_butlast [OF wf old] False old use by (simp add: eq wf_history_snoc)
  qed
qed

lemmas commitAssistantContent_wf =
  commitAssistantContent_cases [OF _ _ _ refl, THEN conjunct1]
  commitAssistantContent_cases [OF _ _ _ refl, THEN conjunct2, THEN conjunct1]
  commitAssistantContent_cases [OF _ _ _ refl, THEN conjunct2, THEN conjunct2, THEN conjunct1]
  commitAssistantContent_cases [OF _ _ _ refl, THEN conjunct2, THEN conjunct2, THEN conjunct2]

lemma resultBlock_ids: "toolResultIDs (mkMessage r (map resultBlock rs)) = map trToolUseID rs"
  by (induction rs) (auto simp: mkMessage_def toolResultIDs_def resultBlock_def zeroBlock_def)

lemma appendToolResults_sendable:
  assumes "wf_history ms" "ms \<noteq> []" "Role (last ms) = ''assistant''"
    and "set (map trToolUseID rs) = set (toolUseIDs (last ms))"
  shows "sendable (appendToolResults ms rs)" "Role (last (appendToolResults ms rs)) = ''user''"
  using assms
  by (simp_all add: sendable_def appendToolResults_def wf_history_snoc answers_def resultBlock_ids ids_mkMessage(3))

text \<open>Injected text joins the trailing user message or follows the assistant message.\<close>

lemma appendUserBlock_sendable:
  assumes ok: "sendable ms" and block: "Type b = ''text''"
  shows "sendable (appendUserBlock ms b syn) \<and> Role (last (appendUserBlock ms b syn)) = ''user''"
proof -
  have wf: "wf_history ms" "ms \<noteq> []"
    using ok by (auto simp: sendable_def)
  show ?thesis
  proof (cases "Role (last ms) = ''user''")
    case True
    let ?l = "last ms"
    obtain l' where eq: "appendUserBlock ms b syn = butlast ms @ [l']"
      and l': "Role l' = Role ?l" "toolResultIDs l' = toolResultIDs ?l"
    proof
      let ?c = "MContent ?l"
      let ?c' = "if ?c \<noteq> [] \<and> Type (last ?c) = ''text'' \<and> Origin (last ?c) = Origin b
                  then butlast ?c @ [(last ?c)\<lparr>Text := Text (last ?c) @ [nl, nl] @ Text b\<rparr>]
                  else if ?c \<noteq> [] \<and> Type (last ?c) = ''text'' then ?c @ [b\<lparr>Text := [nl, nl] @ Text b\<rparr>]
                  else ?c @ [b]"
      let ?l' = "?l\<lparr>MContent := ?c', Synthetic := (Synthetic ?l \<and> syn)\<rparr>"
      show "appendUserBlock ms b syn = butlast ms @ [?l']"
        using True wf by (simp add: appendUserBlock_def Let_def)
      show "Role ?l' = Role ?l" by simp
      have "filter (\<lambda>b. Type b = ''tool_result'') ?c' = filter (\<lambda>b. Type b = ''tool_result'') ?c"
        using block by (cases ?c rule: rev_cases) auto
      then show "toolResultIDs ?l' = toolResultIDs ?l"
        by (simp add: toolResultIDs_def)
    qed
    have "wf_history (butlast ms @ [l'])"
      using wf_butlast [OF wf] wf_history_snoc [of "butlast ms" ?l] wf l'
      by (auto simp: wf_history_snoc answers_def)
    then show ?thesis
      using True l' by (simp add: eq sendable_def)
  next
    case False
    then have "Role (last ms) = ''assistant''" "toolUseIDs (last ms) = []"
      using last_role [OF wf] ok by (auto simp: sendable_def)
    then show ?thesis
      using wf block
      by (simp add: appendUserBlock_def sendable_def wf_history_snoc answers_def toolResultIDs_def)
  qed
qed

lemma appendUserText_sendable:
  assumes "sendable ms"
  shows "sendable (appendUserText ms t syn)" "Role (last (appendUserText ms t syn)) = ''user''"
    "sendable (injectSyntheticUserText ms t)" "Role (last (injectSyntheticUserText ms t)) = ''user''"
    "sendable (injectUserInput ms ts)" "Role (last (injectUserInput ms ts)) = ''user''"
  using appendUserBlock_sendable [OF assms]
  by (simp_all add: appendUserText_def injectSyntheticUserText_def injectUserInput_def textBlock_def)

lemma committable_blocks:
  assumes "committableAssistantBlocks stop blocks = (kept, ok)" "noResults blocks"
  shows "noResults kept" "stop \<noteq> ''tool_use'' \<Longrightarrow> filter (\<lambda>b. Type b = ''tool_use'') kept = []"
  using assms
  by (auto simp: committableAssistantBlocks_def withoutToolUse_def noResults_def list_all_iff
      filter_empty_conv Let_def split: if_splits)

lemma recoverFromOutputLimit_sendable:
  assumes "sendable ms" "noResults (Blocks sr)" "StopReason sr = ''max_tokens''"
    and "Role (last ms) = ''user'' \<or> cp"
  shows "sendable (fst (recoverFromOutputLimit sr ms cp))"
    "Role (last (fst (recoverFromOutputLimit sr ms cp))) = ''user''"
proof -
  obtain kept hasText where c: "committableAssistantBlocks (StopReason sr) (Blocks sr) = (kept, hasText)"
    by force
  note kept = committable_blocks [OF c assms(2)]
  have "sendable (commitAssistantContent ms kept (srReplayFields sr) cp)"
    using commitAssistantContent_wf [OF assms(1) kept(1) assms(4)] kept(2) assms(3)
    by (simp add: sendable_def)
  then have "sendable (if hasText then commitAssistantContent ms kept (srReplayFields sr) cp else ms)"
    using assms(1) by simp
  from appendUserText_sendable(3,4) [OF this]
  show "sendable (fst (recoverFromOutputLimit sr ms cp))"
    "Role (last (fst (recoverFromOutputLimit sr ms cp))) = ''user''"
    by (simp_all add: recoverFromOutputLimit_def c Let_def)
qed

section \<open>The committed prefix\<close>

definition lastAnswered :: "Message list \<Rightarrow> bool" where
  "lastAnswered ms = (case lastAssistantIndex ms of None \<Rightarrow> True | Some i \<Rightarrow> toolUseAnswered ms i)"

lemma lastAssistantLoop_None: "lastAssistantLoop ms n = None \<Longrightarrow> i < n \<Longrightarrow> Role (ms ! i) \<noteq> ''assistant''"
  by (induction n) (auto split: if_splits simp: less_Suc_eq)

lemma lastAssistantLoop_greatest:
  "lastAssistantLoop ms n = Some i \<Longrightarrow> i < j \<Longrightarrow> j < n \<Longrightarrow> Role (ms ! j) \<noteq> ''assistant''"
  by (induction n) (auto split: if_splits simp: less_Suc_eq)

lemma lastAssistantIndex_eqI:
  assumes "i < length ms" "Role (ms ! i) = ''assistant''"
    and "\<And>j. i < j \<Longrightarrow> j < length ms \<Longrightarrow> Role (ms ! j) \<noteq> ''assistant''"
  shows "lastAssistantIndex ms = Some i"
proof (cases "lastAssistantIndex ms")
  case None
  then show ?thesis
    using lastAssistantLoop_None [of ms "length ms" i] assms by (simp add: lastAssistantIndex_def)
next
  case (Some k)
  then have "k < length ms" "Role (ms ! k) = ''assistant''"
    and above: "\<And>j. k < j \<Longrightarrow> j < length ms \<Longrightarrow> Role (ms ! j) \<noteq> ''assistant''"
    using lastAssistantLoop_Some lastAssistantLoop_greatest by (auto simp: lastAssistantIndex_def)
  then have "\<not> i < k" "\<not> k < i"
    using assms by auto
  then show ?thesis
    using Some by simp
qed

text \<open>A call answered in a shorter prefix is answered in a longer one.\<close>

lemma toolUseAnswered_take:
  assumes "toolUseAnswered (take n ms) i" "i < n" "n \<le> m" "m \<le> length ms"
  shows "toolUseAnswered (take m ms) i"
  using assms by (auto simp: toolUseAnswered_def Let_def split: if_splits)

lemma committedLoop_spec:
  assumes "n \<le> length ms"
  shows "committedLoop ms n \<le> n \<and> lastAnswered (take (committedLoop ms n) ms)
     \<and> (\<forall>k. committedLoop ms n < k \<longrightarrow> k \<le> n \<longrightarrow> \<not> lastAnswered (take k ms))"
  using assms
proof (induction ms n rule: committedLoop.induct)
  case (1 ms n)
  show ?case
  proof (cases "lastAssistantIndex (take n ms)")
    case None
    then show ?thesis
      by (simp add: committedLoop.simps [of ms n] lastAnswered_def)
  next
    case (Some i)
    then have i: "i < n" "Role (ms ! i) = ''assistant''"
      and above: "\<And>j. i < j \<Longrightarrow> j < n \<Longrightarrow> Role (ms ! j) \<noteq> ''assistant''"
      using lastAssistantLoop_Some [of "take n ms" n i] lastAssistantLoop_greatest [of "take n ms" n i] "1.prems"
      by (auto simp: lastAssistantIndex_def)
    show ?thesis
    proof (cases "toolUseAnswered (take n ms) i")
      case True
      then show ?thesis
        using Some by (simp add: committedLoop.simps [of ms n] lastAnswered_def)
    next
      case False
      have "\<not> lastAnswered (take k ms)" if "i < k" "k \<le> n" for k
      proof -
        have "lastAssistantIndex (take k ms) = Some i"
          by (rule lastAssistantIndex_eqI) (use that i above "1.prems" in auto)
        then show ?thesis
          using False toolUseAnswered_take [of k ms i n] that "1.prems" by (auto simp: lastAnswered_def)
      qed
      moreover have "committedLoop ms i \<le> i \<and> lastAnswered (take (committedLoop ms i) ms)
          \<and> (\<forall>k. committedLoop ms i < k \<longrightarrow> k \<le> i \<longrightarrow> \<not> lastAnswered (take k ms))"
        using "1.IH" [OF Some False] i "1.prems" by simp
      ultimately show ?thesis
        using Some False i by (auto simp: committedLoop.simps [of ms n] not_le)
    qed
  qed
qed

lemma wf_history_take: "wf_history ms \<Longrightarrow> wf_history (take n ms)"
proof (induction ms rule: rev_induct)
  case (snoc m ms)
  then show ?case
    by (cases "n \<le> length ms") (auto simp: wf_history_snoc split: if_splits)
qed simp

lemma wf_history_answered:
  assumes "wf_history ms" "i < length ms" "Role (ms ! i) = ''assistant''" "Suc i < length ms"
  shows "toolUseAnswered ms i"
proof -
  have "wf_history (take (Suc (Suc i)) ms)"
    using assms(1) by (rule wf_history_take)
  then have "answers (ms ! i) (ms ! Suc i)"
    using assms(2,4) wf_history_snoc [of "take (Suc i) ms" "ms ! Suc i"]
    by (simp add: take_Suc_conv_app_nth split: if_splits)
  then show ?thesis
    using assms by (auto simp: toolUseAnswered_def answers_def Let_def list_all_iff)
qed

text \<open>
  A run that is cut short by the stall detector leaves a history whose last message answers only some
  of the calls before it.
\<close>

definition cutShort :: "Message list \<Rightarrow> bool" where
  "cutShort ms = (wf_history (butlast ms) \<and> (ms \<noteq> [] \<longrightarrow>
     wf_history ms
     \<or> butlast ms \<noteq> [] \<and> Role (last (butlast ms)) = ''assistant'' \<and> Role (last ms) = ''user''
       \<and> set (toolResultIDs (last ms)) \<subseteq> set (toolUseIDs (last (butlast ms)))))"

lemma cutShort_answered_wf:
  assumes "cutShort ms" "lastAnswered ms"
  shows "wf_history ms"
proof (cases "wf_history ms")
  case False
  then have ms: "ms \<noteq> []" "butlast ms \<noteq> []" "Role (last (butlast ms)) = ''assistant''" "Role (last ms) = ''user''"
    "set (toolResultIDs (last ms)) \<subseteq> set (toolUseIDs (last (butlast ms)))" "wf_history (butlast ms)"
    using assms(1) by (auto simp: cutShort_def)
  let ?i = "length ms - 2"
  have nth: "Suc (Suc ?i) = length ms"
    using ms(1,2) by (cases ms; cases "tl ms") auto
  then have "length ms - 1 = Suc ?i" "length (butlast ms) - 1 = ?i" "?i < length (butlast ms)"
    by auto
  then have nth_last: "ms ! ?i = last (butlast ms)" "ms ! Suc ?i = last ms"
    using ms(1,2) by (simp_all only: last_conv_nth nth_butlast not_False_eq_True)
  note nth = nth_last nth
  have "lastAssistantIndex ms = Some ?i"
  proof (rule lastAssistantIndex_eqI)
    fix j
    assume "?i < j" "j < length ms"
    then have "j = Suc ?i"
      using nth(3) by linarith
    then show "Role (ms ! j) \<noteq> ''assistant''"
      using ms(4) nth(2) by simp
  qed (use nth ms(3) in auto)
  then have "toolUseAnswered ms ?i"
    using assms(2) by (simp add: lastAnswered_def)
  then have "set (toolUseIDs (last (butlast ms))) \<subseteq> set (toolResultIDs (last ms))"
    using nth by (auto simp: toolUseAnswered_def Let_def list_all_iff split: if_splits)
  then have "answers (last (butlast ms)) (last ms)"
    using ms by (auto simp: answers_def)
  then have "wf_history (butlast ms @ [last ms])"
    using ms by (simp add: wf_history_snoc del: append_butlast_last_id)
  then show ?thesis
    using ms(1) by simp
qed

lemma committed_prefix_wf:
  assumes "cutShort messages" "n \<le> length messages" "lastAnswered (take n messages)"
  shows "wf_history (take n messages)"
proof (cases "n = length messages")
  case True
  then show ?thesis
    using cutShort_answered_wf [OF assms(1)] assms(3) by simp
next
  case False
  then have "take n messages = take n (butlast messages)"
    using assms(2) by (simp add: butlast_conv_take)
  then show ?thesis
    using assms(1) wf_history_take [of "butlast messages"] by (simp add: cutShort_def)
qed

lemma committed_sendable:
  assumes "cutShort messages" "committedHistory messages \<noteq> []"
  shows "sendable (committedHistory messages)"
proof -
  let ?n = "committedLoop messages (length messages)"
  have c: "committedHistory messages = take ?n messages"
    using assms(2) by (simp add: committedHistory_def)
  have spec: "?n \<le> length messages" "lastAnswered (take ?n messages)"
    using committedLoop_spec [of "length messages" messages] by auto
  let ?c = "take ?n messages"
  have ne: "?c \<noteq> []"
    using assms(2) c by simp
  have "toolUseIDs (last ?c) = []" if r: "Role (last ?c) = ''assistant''"
  proof -
    have pos: "0 < length ?c"
      using length_greater_0_conv [of ?c] ne by (rule iffD2)
    have i: "length ?c - 1 < length ?c" "?c ! (length ?c - 1) = last ?c"
      by (rule diff_less [OF zero_less_one pos], rule last_conv_nth [OF ne, symmetric])
    then have "lastAssistantIndex ?c = Some (length ?c - 1)"
      using r by (intro lastAssistantIndex_eqI) auto
    then have "toolUseAnswered ?c (length ?c - 1)"
      using spec(2) by (simp add: lastAnswered_def)
    then show ?thesis
      using i by (auto simp: toolUseAnswered_def toolUseIDs_def Let_def split: if_splits)
  qed
  then show ?thesis
    using committed_prefix_wf [OF assms(1) spec] ne by (simp add: sendable_def c)
qed

text \<open>
  A follow-up continues exactly what was committed. For any history, the carried part is its
  longest prefix whose last assistant message is answered; and when the run was ended between turns or
  cut short inside a batch of tool calls, that prefix is a well-formed history in which every call has
  its result, so it can be sent again.
\<close>

theorem committed_history_longest:
  assumes "cutShort messages"
  shows "Sublist.prefix (committedHistory messages) messages
     \<and> (\<forall>n \<le> length messages. lastAnswered (take n messages) \<longrightarrow> n \<le> length (committedHistory messages))
     \<and> wf_history (committedHistory messages)
     \<and> (\<forall>i < length (committedHistory messages). Role (committedHistory messages ! i) = ''assistant''
          \<longrightarrow> toolUseAnswered (committedHistory messages) i)"
proof -
  let ?n = "committedLoop messages (length messages)"
  let ?c = "take ?n messages"
  have spec: "?n \<le> length messages" "lastAnswered ?c"
    "\<And>k. ?n < k \<Longrightarrow> k \<le> length messages \<Longrightarrow> \<not> lastAnswered (take k messages)"
    using committedLoop_spec [of "length messages" messages] by auto
  have "wf_history ?c"
    by (rule committed_prefix_wf [OF assms spec(1,2)])
  moreover have "toolUseAnswered ?c i" if "i < length ?c" "Role (?c ! i) = ''assistant''" for i
  proof (cases "Suc i < length ?c")
    case True
    show ?thesis
      by (rule wf_history_answered [OF \<open>wf_history ?c\<close> that True])
  next
    case False
    then have "lastAssistantIndex ?c = Some i"
      using that by (intro lastAssistantIndex_eqI) auto
    then show ?thesis
      using spec(2) by (simp add: lastAnswered_def)
  qed
  moreover have "n \<le> ?n" if "n \<le> length messages" "lastAnswered (take n messages)" for n
    using spec(3) [of n] that by (meson not_le)
  ultimately show ?thesis
    using spec(1) by (simp add: committedHistory_def take_is_prefix)
qed

definition stalledHistory :: "Message list" where
  "stalledHistory = [mkMessage ''user'' [textBlock ''task''],
     mkMessage ''assistant'' [toolUseBlock ''a'' ''ls''], mkMessage ''user'' [toolResultBlock ''a'' ''x''],
     mkMessage ''assistant'' [toolUseBlock ''b'' ''ls'', toolUseBlock ''c'' ''ls''],
     mkMessage ''user'' [toolResultBlock ''b'' ''x'']]"

theorem committed_history_longest_witness:
  "cutShort stalledHistory \<and> \<not> wf_history stalledHistory
   \<and> committedHistory stalledHistory = take 3 stalledHistory \<and> wf_history (take 3 stalledHistory)"
proof -
  have "cutShort stalledHistory"
    by (simp add: cutShort_def stalledHistory_def message_literals answers_def toolUseIDs_def toolResultIDs_def)
  moreover have "\<not> wf_history stalledHistory"
    by (simp add: stalledHistory_def message_literals answers_def toolUseIDs_def toolResultIDs_def)
  moreover have "committedHistory stalledHistory = take 3 stalledHistory"
    by code_simp
  ultimately show ?thesis
    using committed_history_longest [of stalledHistory] by simp
qed

end
