(* ===== verification/Rule_Of_Two.thy ===== *)
theory Rule_Of_Two
  imports Go_Prelude
begin

text \<open>
  The Rule-of-Two monitor, package \<open>ruleoftwo\<close>: the one-way sensitive-data latch and the redaction of
  latch-tier spans. The detector \<open>security.DetectSensitive\<close> is the argument \<open>detect\<close>; what
  \<open>Redact\<close> needs of it is that the spans it reports lie within the content.
\<close>

record Finding =
  fName :: string
  fTier :: string
  fStart :: nat
  fEnd :: nat

definition TierLatch :: string where "TierLatch = ''latch''"
definition TierWarn :: string where "TierWarn = ''warn''"

definition RedactionPlaceholder :: string where
  "RedactionPlaceholder = ''[redacted:sensitive-data]''"

record Detection =
  Patterns :: "string list"
  Tier :: string
  Transition :: bool

definition noDetection :: Detection where
  "noDetection = \<lparr>Patterns = [], Tier = [], Transition = False\<rparr>"

section \<open>The monitor (patternmonitor.go)\<close>

record PatternMonitor =
  pmEnforcing :: bool
  pmAction :: string
  pmCriteria :: "string list"
  pmTripped :: bool

definition NewPatternMonitor :: "bool \<Rightarrow> string \<Rightarrow> string list \<Rightarrow> bool \<Rightarrow> PatternMonitor" where
  "NewPatternMonitor enforcing act guardCriteria staticallySensitive =
     \<lparr>pmEnforcing = enforcing, pmAction = act, pmCriteria = guardCriteria, pmTripped = staticallySensitive\<rparr>"

definition Action :: "PatternMonitor \<Rightarrow> string" where
  "Action m = (if \<not> pmEnforcing m then ''warn'' else pmAction m)"

definition continuesScanning :: "PatternMonitor \<Rightarrow> bool" where
  "continuesScanning m = (Action m = ''redact'')"

text \<open>\<open>CompareAndSwap(false, true)\<close> on the latch.\<close>

definition tripLatch :: "PatternMonitor \<Rightarrow> bool \<times> PatternMonitor" where
  "tripLatch m = (if pmTripped m then (False, m) else (True, m\<lparr>pmTripped := True\<rparr>))"

definition ObserveChunks ::
  "(string \<Rightarrow> Finding list) \<Rightarrow> string list \<Rightarrow> PatternMonitor \<Rightarrow> Detection \<times> PatternMonitor" where
  "ObserveChunks detect chunks m =
     (if pmTripped m \<and> \<not> continuesScanning m then (noDetection, m)
      else
        let findings = concat (map detect chunks);
            names = rev (remdups (rev (map fName findings)));
            latch = list_ex (\<lambda>f. fTier f = TierLatch) findings
        in if names = [] then (noDetection, m)
           else if latch
           then (case tripLatch m of
                   (won, m') \<Rightarrow> (\<lparr>Patterns = names, Tier = TierLatch, Transition = won\<rparr>, m'))
           else (\<lparr>Patterns = names, Tier = TierWarn, Transition = False\<rparr>, m))"

definition TripFromGuard :: "string \<Rightarrow> PatternMonitor \<Rightarrow> bool \<times> PatternMonitor" where
  "TripFromGuard criterion m = (if criterion \<notin> set (pmCriteria m) then (False, m) else tripLatch m)"

section \<open>Redaction\<close>

fun redactLoop :: "string \<Rightarrow> (nat \<times> nat) list \<Rightarrow> nat \<Rightarrow> string \<times> nat" where
  "redactLoop content [] pos = (drop pos content, 0)"
| "redactLoop content ((a, b) # spans) pos =
     (if a < pos then redactLoop content spans (if b > pos then b else pos)
      else case redactLoop content spans b of
             (rest, n) \<Rightarrow> (slice content pos a @ RedactionPlaceholder @ rest, Suc n))"

text \<open>By start, and for equal starts the longer span first.\<close>

definition sortSpans :: "(nat \<times> nat) list \<Rightarrow> (nat \<times> nat) list" where
  "sortSpans spans = sort_key fst (sort_key (\<lambda>s. - int (snd s)) spans)"

definition latchSpans :: "Finding list \<Rightarrow> (nat \<times> nat) list" where
  "latchSpans findings = map (\<lambda>f. (fStart f, fEnd f)) (filter (\<lambda>f. fTier f = TierLatch) findings)"

definition Redact :: "(string \<Rightarrow> Finding list) \<Rightarrow> string \<Rightarrow> string \<times> nat" where
  "Redact detect content =
     (let spans = latchSpans (detect content)
      in if spans = [] then (content, 0) else redactLoop content (sortSpans spans) 0)"

section \<open>Redaction keeps exactly what no span covers\<close>

definition covered :: "(nat \<times> nat) set \<Rightarrow> nat \<Rightarrow> bool" where
  "covered spans i = (\<exists>(a, b) \<in> spans. a \<le> i \<and> i < b)"

lemma covered_insert [simp]: "covered (insert (a, b) S) i = (a \<le> i \<and> i < b \<or> covered S i)"
  by (auto simp: covered_def)

lemma covered_empty [simp]: "\<not> covered {} i"
  by (simp add: covered_def)

lemma filter_upt_split:
  assumes "p \<le> q" "q \<le> n"
  shows "filter P [p..<n] = filter P [p..<q] @ filter P [q..<n]"
  by (metis assms filter_append le_Suc_ex upt_add_eq_append)

lemma map_nth_slice: "p \<le> q \<Longrightarrow> q \<le> length c \<Longrightarrow> map ((!) c) [p..<q] = slice c p q"
  by (intro nth_equalityI) (auto simp: slice_def)

lemma Join_Cons_pieces: "ps \<noteq> [] \<Longrightarrow> Join (p # ps) sep = p @ sep @ Join ps sep"
  by (cases ps) auto

lemma redactLoop_pieces:
  assumes "sorted (map fst spans)" "\<forall>(a, b) \<in> set spans. a \<le> b \<and> b \<le> length c" "pos \<le> length c"
  shows "\<exists>pieces. fst (redactLoop c spans pos) = Join pieces RedactionPlaceholder
     \<and> length pieces = Suc (snd (redactLoop c spans pos))
     \<and> concat pieces = map ((!) c) (filter (\<lambda>i. \<not> covered (set spans) i) [pos..<length c])"
  using assms
proof (induction c spans pos rule: redactLoop.induct)
  case (1 c pos)
  have "map ((!) c) [pos..<length c] = drop pos c"
    using 1 by (simp add: map_nth_slice slice_def)
  then show ?case
    by (intro exI [of _ "[drop pos c]"]) simp
next
  case (2 c a b spans pos)
  let ?P = "\<lambda>i. \<not> covered (set ((a, b) # spans)) i"
  have starts: "a \<le> x" if "(x, y) \<in> set spans" for x y
    using 2(3) that by force
  have ab: "a \<le> b" "b \<le> length c" and rest: "sorted (map fst spans)"
      "\<forall>(a, b) \<in> set spans. a \<le> b \<and> b \<le> length c"
    using 2(3,4) by auto
  show ?case
  proof (cases "a < pos")
    case True
    let ?q = "if b > pos then b else pos"
    have "?q \<le> length c" "pos \<le> ?q"
      using 2(5) ab by auto
    moreover have "filter ?P [pos..<?q] = []"
      using True by (auto simp: filter_empty_conv)
    moreover have "filter ?P [?q..<length c] = filter (\<lambda>i. \<not> covered (set spans) i) [?q..<length c]"
      by (rule filter_cong) (auto split: if_splits)
    ultimately have "filter ?P [pos..<length c] = filter (\<lambda>i. \<not> covered (set spans) i) [?q..<length c]"
      using filter_upt_split [of pos ?q "length c" ?P] by (simp only: append_Nil)
    then show ?thesis
      using 2(1) [OF True rest \<open>?q \<le> length c\<close>] True by simp
  next
    case False
    then obtain pieces where p: "fst (redactLoop c spans b) = Join pieces RedactionPlaceholder"
        "length pieces = Suc (snd (redactLoop c spans b))"
        "concat pieces = map ((!) c) (filter (\<lambda>i. \<not> covered (set spans) i) [b..<length c])"
      using 2(2) [OF False rest ab(2)] by blast
    have "\<not> covered (set spans) i" if "i < a" for i
      using that by (auto simp: covered_def dest!: starts)
    then have "filter ?P [pos..<a] = [pos..<a]"
      by (simp add: filter_id_conv)
    moreover have "filter ?P [a..<b] = []"
      by (auto simp: filter_empty_conv)
    moreover have "filter ?P [b..<length c] = filter (\<lambda>i. \<not> covered (set spans) i) [b..<length c]"
      by (rule filter_cong) auto
    ultimately have "filter ?P [pos..<length c]
        = [pos..<a] @ filter (\<lambda>i. \<not> covered (set spans) i) [b..<length c]"
      using False ab filter_upt_split [of pos a "length c" ?P] filter_upt_split [of a b "length c" ?P]
      by (simp only: append_Nil not_less order_trans [of a b])
    then show ?thesis
      using False p ab Join_Cons_pieces [of pieces "slice c pos a" RedactionPlaceholder]
      by (intro exI [of _ "slice c pos a # pieces"])
        (cases pieces; auto simp: map_nth_slice case_prod_unfold)
  qed
qed

lemma sortSpans_props: "sorted (map fst (sortSpans spans))" "set (sortSpans spans) = set spans"
  by (simp_all add: sortSpans_def)

section \<open>The latch\<close>

datatype monitorOp = Observe "string list" | Trip string

fun monitorStep :: "(string \<Rightarrow> Finding list) \<Rightarrow> monitorOp \<Rightarrow> PatternMonitor \<Rightarrow> bool \<times> PatternMonitor" where
  "monitorStep detect (Observe chunks) m = (case ObserveChunks detect chunks m of (d, m') \<Rightarrow> (Transition d, m'))"
| "monitorStep detect (Trip criterion) m = TripFromGuard criterion m"

fun monitorRun :: "(string \<Rightarrow> Finding list) \<Rightarrow> monitorOp list \<Rightarrow> PatternMonitor \<Rightarrow> bool list \<times> PatternMonitor" where
  "monitorRun detect [] m = ([], m)"
| "monitorRun detect (op # ops) m =
     (case monitorStep detect op m of
        (t, m') \<Rightarrow> case monitorRun detect ops m' of (ts, m'') \<Rightarrow> (t # ts, m''))"

fun latches :: "(string \<Rightarrow> Finding list) \<Rightarrow> string list \<Rightarrow> monitorOp \<Rightarrow> bool" where
  "latches detect criteria (Observe chunks) = (\<exists>c \<in> set chunks. \<exists>f \<in> set (detect c). fTier f = TierLatch)"
| "latches detect criteria (Trip criterion) = (criterion \<in> set criteria)"

lemma monitorStep_spec:
  "pmTripped (snd (monitorStep detect op m)) = (pmTripped m \<or> latches detect (pmCriteria m) op)
   \<and> fst (monitorStep detect op m) = (\<not> pmTripped m \<and> latches detect (pmCriteria m) op)
   \<and> pmCriteria (snd (monitorStep detect op m)) = pmCriteria m
   \<and> pmEnforcing (snd (monitorStep detect op m)) = pmEnforcing m
   \<and> pmAction (snd (monitorStep detect op m)) = pmAction m"
proof (cases op)
  case (Observe chunks)
  have "concat (map detect chunks) = [] \<Longrightarrow> \<not> latches detect (pmCriteria m) op"
    by (auto simp: Observe)
  moreover have "list_ex (\<lambda>f. fTier f = TierLatch) (concat (map detect chunks))
      = latches detect (pmCriteria m) op"
    by (auto simp: Observe list_ex_iff)
  ultimately show ?thesis
    by (auto simp: Observe ObserveChunks_def noDetection_def tripLatch_def Let_def split: prod.splits)
next
  case (Trip criterion)
  then show ?thesis
    by (auto simp: TripFromGuard_def tripLatch_def)
qed

lemma monitorRun_spec:
  "pmTripped (snd (monitorRun detect ops m)) = (pmTripped m \<or> (\<exists>op \<in> set ops. latches detect (pmCriteria m) op))
   \<and> length (filter id (fst (monitorRun detect ops m)))
     = (if \<not> pmTripped m \<and> (\<exists>op \<in> set ops. latches detect (pmCriteria m) op) then 1 else 0)
   \<and> pmEnforcing (snd (monitorRun detect ops m)) = pmEnforcing m
   \<and> pmAction (snd (monitorRun detect ops m)) = pmAction m"
proof (induction ops arbitrary: m)
  case (Cons op ops)
  let ?m = "snd (monitorStep detect op m)"
  show ?case
    using Cons.IH [of ?m] monitorStep_spec [of detect op m]
    by (auto simp: case_prod_unfold)
qed simp

section \<open>Properties\<close>


text \<open>A detector for the examples: the word \<open>key\<close> at a fixed place, twice and overlapping.\<close>

definition exampleDetect :: "string \<Rightarrow> Finding list" where
  "exampleDetect c = (if HasPrefix c ''my key''
     then [\<lparr>fName = ''secret'', fTier = TierLatch, fStart = 4, fEnd = 6\<rparr>,
           \<lparr>fName = ''token'', fTier = TierLatch, fStart = 3, fEnd = 5\<rparr>] else [])"


text \<open>
  The latch is one-way and reported once. Whatever order scans and guard verdicts arrive in, the
  latch ends set exactly when it started set or some observation held a latch-tier finding or some
  guard named a configured criterion, and exactly one of those calls, if any, reports the transition.
\<close>

theorem latch_one_way:
  "pmTripped (snd (monitorRun detect ops m)) = (pmTripped m \<or> (\<exists>op \<in> set ops. latches detect (pmCriteria m) op))
   \<and> length (filter id (fst (monitorRun detect ops m)))
     = (if \<not> pmTripped m \<and> (\<exists>op \<in> set ops. latches detect (pmCriteria m) op) then 1 else 0)"
  using monitorRun_spec [of detect ops m] by simp

end
