(* ===== verification/Permission.thy ===== *)
theory Permission
  imports Rule_Of_Two Loop_Fit
begin

text \<open>
  Package \<open>permission\<close>: the policies and the wrappers around them. A policy is a value of the
  datatype \<open>policy\<close> with one constructor per Go type; \<open>PolicyCheck\<close> is its \<open>Check\<close>
  method and returns, besides the result or the error, the tools for which it asked the control plane.

  Cedar's \<open>Authorize\<close> on the request built for an engine is the argument \<open>cedar\<close>: an error
  of the translation, or whether the decision is allow together with the matched policy ids. The reply
  of the control plane to a permission request is \<open>await\<close>: an error of the correlator, or a verdict
  with its reason.
\<close>

record PermissionResult =
  Allowed :: bool
  PReason :: string

definition denyResult :: "string \<Rightarrow> PermissionResult" where
  "denyResult reason = \<lparr>Allowed = False, PReason = reason\<rparr>"

definition allowResult :: PermissionResult where
  "allowResult = \<lparr>Allowed = True, PReason = []\<rparr>"

record PolicyEngineIdentity =
  peRunID :: string
  peMode :: string
  peWorkspace :: string
  peParentRunID :: string
  peCapabilities :: "string list"

datatype policy =
    AllowAll
  | DenyAll
  | DenySideEffects "string list"
  | AskUpstream "string list"
  | PolicyEngine PolicyEngineIdentity policy
  | SideEffectGate "string list" policy
  | RuleOfTwoGate policy "string list" "string list option"
  | MetricRecorder policy string

definition RuleOfTwoDeniedReason :: string where
  "RuleOfTwoDeniedReason = ''rule_of_two: sensitive data observed in conversation; external communication revoked for this run''"

definition isExternal :: "string list \<Rightarrow> string \<Rightarrow> bool" where
  "isExternal externalSet name = (name \<in> set externalSet \<or> HasPrefix name ''mcp_'')"

record permissionEnv =
  monitor :: PatternMonitor
  await :: "ToolDefinition \<Rightarrow> string \<Rightarrow> string + bool \<times> string"
  cedar :: "PolicyEngineIdentity \<Rightarrow> ToolDefinition \<Rightarrow> string \<Rightarrow> string + bool \<times> string list"

type_synonym checkOutcome = "(string + PermissionResult) \<times> string list"

section \<open>Leaf policies\<close>

definition DenySideEffectsCheck :: "string list \<Rightarrow> ToolDefinition \<Rightarrow> string + PermissionResult" where
  "DenySideEffectsCheck mutatingTools tool =
     (if tdName tool \<in> set mutatingTools
      then Inr (denyResult ''workspace-mutating tools are not permitted in this mode'')
      else Inr allowResult)"

definition AskUpstreamCheck :: "permissionEnv \<Rightarrow> string list \<Rightarrow> ToolDefinition \<Rightarrow> string \<Rightarrow> checkOutcome" where
  "AskUpstreamCheck env approvalTools tool input =
     (let required = (tdName tool \<in> set approvalTools \<or> HasPrefix (tdName tool) ''mcp_'')
      in if \<not> required then (Inr allowResult, [])
         else (case await env tool input of
                 Inl err \<Rightarrow> Inl (''permission check: '' @ err)
               | Inr (allowed, reason) \<Rightarrow> Inr \<lparr>Allowed = allowed, PReason = reason\<rparr>, [tdName tool]))"

section \<open>Check\<close>

fun PolicyCheck :: "permissionEnv \<Rightarrow> policy \<Rightarrow> ToolDefinition \<Rightarrow> string \<Rightarrow> checkOutcome" where
  "PolicyCheck env AllowAll tool input = (Inr allowResult, [])"
| "PolicyCheck env DenyAll tool input = (Inr (denyResult ''not permitted by policy (deny-all)''), [])"
| "PolicyCheck env (DenySideEffects ms) tool input = (DenySideEffectsCheck ms tool, [])"
| "PolicyCheck env (AskUpstream approvals) tool input = AskUpstreamCheck env approvals tool input"
| "PolicyCheck env (PolicyEngine e fallback) tool input =
     (case cedar env e tool input of
        Inl err \<Rightarrow> (Inl (''policy-engine: build cedar request: '' @ err), [])
      | Inr (allow, matched) \<Rightarrow>
          if allow then (Inr allowResult, [])
          else if matched \<noteq> [] then (Inr (denyResult (''denied by Cedar policy: '' @ Join matched '', '')), [])
          else case PolicyCheck env fallback tool input of
                 (Inl err, asked) \<Rightarrow> (Inl (''policy-engine: fallback check: '' @ err), asked)
               | (Inr result, asked) \<Rightarrow> (Inr result, asked))"
| "PolicyCheck env (SideEffectGate ms inner) tool input =
     (case DenySideEffectsCheck ms tool of
        Inl err \<Rightarrow> (Inl err, [])
      | Inr result \<Rightarrow> if \<not> Allowed result then (Inr result, []) else PolicyCheck env inner tool input)"
| "PolicyCheck env (RuleOfTwoGate inner externalSet ask) tool input =
     (if \<not> pmTripped (monitor env) \<or> \<not> pmEnforcing (monitor env) \<or> \<not> isExternal externalSet (tdName tool)
      then PolicyCheck env inner tool input
      else if Action (monitor env) = ''ask-upstream''
      then (case PolicyCheck env inner tool input of
              (Inl err, asked) \<Rightarrow> (Inl err, asked)
            | (Inr result, asked) \<Rightarrow>
                if \<not> Allowed result then (Inr result, asked)
                else case ask of
                       None \<Rightarrow> (Inr (denyResult RuleOfTwoDeniedReason), asked)
                     | Some approvals \<Rightarrow>
                         (case AskUpstreamCheck env approvals tool input of
                            (r, asked') \<Rightarrow> (r, asked @ asked')))
      else if Action (monitor env) = ''block-external'' then (Inr (denyResult RuleOfTwoDeniedReason), [])
      else PolicyCheck env inner tool input)"
| "PolicyCheck env (MetricRecorder inner label) tool input = PolicyCheck env inner tool input"

section \<open>Unwrapping and rewrapping (metrics.go)\<close>

fun unwrapStep :: "policy \<Rightarrow> policy option" where
  "unwrapStep (SideEffectGate ms inner) = Some inner"
| "unwrapStep (RuleOfTwoGate inner ext ask) = Some inner"
| "unwrapStep (MetricRecorder inner label) = Some inner"
| "unwrapStep _ = None"

fun rewrapStep :: "policy \<Rightarrow> policy \<Rightarrow> policy" where
  "rewrapStep (SideEffectGate ms _) inner = SideEffectGate ms inner"
| "rewrapStep (RuleOfTwoGate _ ext ask) inner = RuleOfTwoGate inner ext ask"
| "rewrapStep (MetricRecorder _ label) inner = MetricRecorder inner label"
| "rewrapStep p inner = p"

lemma unwrapStep_size: "unwrapStep p = Some q \<Longrightarrow> size q < size p"
  by (cases p) auto

function Unwrap :: "policy \<Rightarrow> policy" where
  "Unwrap pp = (case unwrapStep pp of None \<Rightarrow> pp | Some inner \<Rightarrow> Unwrap inner)"
  by pat_completeness auto
termination
  by (relation "measure size") (auto dest: unwrapStep_size)

declare Unwrap.simps [simp del]

function wrappersOf :: "policy \<Rightarrow> policy list" where
  "wrappersOf pp = (case unwrapStep pp of None \<Rightarrow> [] | Some inner \<Rightarrow> pp # wrappersOf inner)"
  by pat_completeness auto
termination
  by (relation "measure size") (auto dest: unwrapStep_size)

declare wrappersOf.simps [simp del]

text \<open>Every wrapper of the package implements \<open>Rewrapper\<close>, so the failure branch is never taken.\<close>

definition RewrapChain :: "policy \<Rightarrow> policy \<Rightarrow> policy \<times> bool" where
  "RewrapChain pp newInner = (foldr rewrapStep (wrappersOf pp) newInner, True)"

definition ForChildRun :: "string \<Rightarrow> string \<Rightarrow> PolicyEngineIdentity \<Rightarrow> PolicyEngineIdentity" where
  "ForChildRun childRunID childMode p =
     p\<lparr>peParentRunID := peRunID p,
       peRunID := (if childRunID \<noteq> [] then childRunID else peRunID p),
       peMode := (if childMode \<noteq> [] then childMode else peMode p)\<rparr>"

section \<open>What a wrapper enforces\<close>

fun gateDenies :: "permissionEnv \<Rightarrow> ToolDefinition \<Rightarrow> policy \<Rightarrow> bool" where
  "gateDenies env tool (SideEffectGate ms inner) = (tdName tool \<in> set ms)"
| "gateDenies env tool (RuleOfTwoGate inner ext ask) =
     (pmTripped (monitor env) \<and> pmEnforcing (monitor env) \<and> pmAction (monitor env) = ''block-external''
      \<and> isExternal ext (tdName tool))"
| "gateDenies env tool _ = False"

definition grants :: "checkOutcome \<Rightarrow> bool" where
  "grants out = (case fst out of Inl _ \<Rightarrow> False | Inr r \<Rightarrow> Allowed r)"

lemma results_simps [simp]: "Allowed allowResult" "\<not> Allowed (denyResult reason)"
  by (simp_all add: allowResult_def denyResult_def)

lemma grants_simps [simp]: "\<not> grants (Inl e, as)" "grants (Inr r, as) = Allowed r"
  by (simp_all add: grants_def)

text \<open>A wrapper narrows what it wraps, and denies what its own gate denies without asking anyone.\<close>

lemma rewrapStep_narrows:
  assumes "grants (PolicyCheck env (rewrapStep w inner) tool input)" "unwrapStep w \<noteq> None"
  shows "grants (PolicyCheck env inner tool input)" "\<not> gateDenies env tool w"
  using assms
  by (cases w; auto simp: DenySideEffectsCheck_def Action_def split: if_splits prod.splits sum.splits option.splits)+

lemma rewrapStep_refuses:
  assumes "unwrapStep w \<noteq> None"
    and "gateDenies env tool w
      \<or> \<not> grants (PolicyCheck env inner tool input) \<and> snd (PolicyCheck env inner tool input) = []"
  shows "\<not> grants (PolicyCheck env (rewrapStep w inner) tool input)
     \<and> snd (PolicyCheck env (rewrapStep w inner) tool input) = []"
  using assms
  by (cases w; cases "PolicyCheck env inner tool input")
    (auto simp: DenySideEffectsCheck_def Action_def grants_def split: if_splits prod.splits sum.splits option.splits)

lemma wrappersOf_unwrap: "w \<in> set (wrappersOf pp) \<Longrightarrow> unwrapStep w \<noteq> None"
proof (induction pp rule: wrappersOf.induct)
  case (1 pp)
  show ?case
    using 1 by (cases "unwrapStep pp") (auto simp: wrappersOf.simps [of pp])
qed

lemma rewrap_refuses:
  assumes "\<forall>w \<in> set ws. unwrapStep w \<noteq> None" "\<exists>w \<in> set ws. gateDenies env tool w"
  shows "\<not> grants (PolicyCheck env (foldr rewrapStep ws inner) tool input)
     \<and> snd (PolicyCheck env (foldr rewrapStep ws inner) tool input) = []"
  using assms
proof (induction ws)
  case (Cons w ws)
  have "gateDenies env tool w \<or> (\<exists>w \<in> set ws. gateDenies env tool w)"
    using Cons.prems(2) by auto
  then have "gateDenies env tool w
      \<or> \<not> grants (PolicyCheck env (foldr rewrapStep ws inner) tool input)
        \<and> snd (PolicyCheck env (foldr rewrapStep ws inner) tool input) = []"
    using Cons.IH Cons.prems(1) by auto
  from rewrapStep_refuses [OF _ this] show ?case
    using Cons.prems(1) by simp
qed simp

lemma rewrap_narrows:
  assumes "\<forall>w \<in> set ws. unwrapStep w \<noteq> None" "grants (PolicyCheck env (foldr rewrapStep ws inner) tool input)"
  shows "grants (PolicyCheck env inner tool input)"
  using assms
proof (induction ws)
  case (Cons w ws)
  have "grants (PolicyCheck env (foldr rewrapStep ws inner) tool input)"
    using rewrapStep_narrows(1) [of env w "foldr rewrapStep ws inner" tool input] Cons.prems by simp
  then show ?case
    using Cons by simp
qed simp

lemma rewrap_self: "foldr rewrapStep (wrappersOf pp) (Unwrap pp) = pp"
proof (induction pp rule: wrappersOf.induct)
  case (1 pp)
  show ?case
  proof (cases "unwrapStep pp")
    case None
    then show ?thesis
      by (simp add: wrappersOf.simps [of pp] Unwrap.simps [of pp])
  next
    case (Some inner)
    have "rewrapStep pp inner = pp"
      using Some by (cases pp) auto
    then show ?thesis
      using Some 1 [OF Some] by (simp add: wrappersOf.simps [of pp] Unwrap.simps [of pp])
  qed
qed


definition exampleEnv :: permissionEnv where
  "exampleEnv = \<lparr>monitor = NewPatternMonitor True ''block-external'' [] True,
     await = (\<lambda>_ _. Inr (True, [])), cedar = (\<lambda>_ _ _. Inr (True, []))\<rparr>"

definition toolNamed :: "string \<Rightarrow> ToolDefinition" where
  "toolNamed n = \<lparr>tdName = n, Description = [], InputSchema = [], Deferred = False,
     Namespace = [], NamespaceDescription = []\<rparr>"

definition exampleChain :: policy where
  "exampleChain = MetricRecorder (RuleOfTwoGate (SideEffectGate [''write_file''] DenyAll) [''web_fetch''] None) ''x''"


end
