(* ===== verification/Guard_Rail.thy ===== *)
theory Guard_Rail
  imports Go_Prelude "HOL-Library.Multiset"
begin

text \<open>
  Package \<open>guard\<close>, composites included, and \<open>guardCheck\<close> of \<open>core/loop.go\<close>, through which the loop
  consults the configured guard. A model-backed guard is an \<open>Adapter\<close>, any function of the input; a
  nil decision is \<^const>\<open>None\<close>. \<open>ctxErr\<close> is the context's error as a sequential composite reads it
  before its \<open>i\<close>-th member. Scores and the structured-output label are only passed on to telemetry and
  are left out; \<open>scrub\<close> is \<open>security.Scrub\<close>.
\<close>

abbreviation "VerdictAllow \<equiv> ''allow''"
abbreviation "VerdictAllowSpot \<equiv> ''spotlight''"
abbreviation "VerdictDeny \<equiv> ''deny''"

record Decision =
  Verdict :: string
  dCriterion :: string
  dReason :: string
  Latency :: int
  GuardID :: string

record guardInput =
  Phase :: string
  giContent :: string
  giSource :: string
  giToolName :: string
  giToolInput :: string
  IgnoreMinChunk :: bool
  giMode :: string
  giRunID :: string
  giRedactedSpans :: string

definition allowBy :: "string \<Rightarrow> Decision" where
  "allowBy i = \<lparr>Verdict = VerdictAllow, dCriterion = [], dReason = [], Latency = 0, GuardID = i\<rparr>"

definition IsValidVerdict :: "string \<Rightarrow> bool" where
  "IsValidVerdict v = (v = VerdictAllow \<or> v = VerdictAllowSpot \<or> v = VerdictDeny)"

definition ValidPhase :: "string \<Rightarrow> bool" where
  "ValidPhase p = (p = ''pre_turn'' \<or> p = ''pre_tool'' \<or> p = ''post_turn'')"

definition verdictRank :: "string \<Rightarrow> nat" where
  "verdictRank v = (if v = VerdictDeny then 3 else if v = VerdictAllowSpot then 2
                    else if v = VerdictAllow then 1 else 0)"

text \<open>An error carries its text and the identifier of the guard an adapter attached to it, if any.\<close>

record guardError =
  geText :: string
  geGuardID :: string

type_synonym guardResult = "Decision option \<times> guardError option"

abbreviation (input) answer :: "Decision \<Rightarrow> guardResult" where
  "answer d \<equiv> (Some d, None)"

definition attributeError :: "string \<Rightarrow> Decision option \<Rightarrow> string option \<Rightarrow> guardResult" where
  "attributeError i d err =
     (case err of Some e \<Rightarrow> (d, Some \<lparr>geText = e, geGuardID = i\<rparr>) | None \<Rightarrow> (d, None))"

datatype guardRail =
    Noop
  | Adapter "guardInput \<Rightarrow> guardResult"
  | PhaseGated "string list" guardRail
  | Sequential "guardRail list" string
  | Parallel "guardRail list" string

section \<open>Aggregation (composite.go)\<close>

record parallelState =
  strongest :: "Decision option"
  strongestRank :: nat
  reasons :: "string list"
  maxLatency :: int
  firstErr :: "guardError option"
  anyDeny :: bool

definition parallelStep :: "guardResult \<Rightarrow> parallelState \<Rightarrow> parallelState" where
  "parallelStep r s0 =
     (let s = (if snd r \<noteq> None \<and> firstErr s0 = None then s0\<lparr>firstErr := snd r\<rparr> else s0)
      in case fst r of
           None \<Rightarrow> s
         | Some d \<Rightarrow>
             let s1 = (if Latency d > maxLatency s then s\<lparr>maxLatency := Latency d\<rparr> else s);
                 rank = verdictRank (Verdict d);
                 own = (if dReason d \<noteq> [] then [dReason d] else []);
                 s2 = (if rank > strongestRank s1
                       then s1\<lparr>strongestRank := rank, strongest := Some d, reasons := own\<rparr>
                       else if rank = strongestRank s1 \<and> rank > 0 then s1\<lparr>reasons := reasons s1 @ own\<rparr>
                       else s1)
             in if Verdict d = VerdictDeny then s2\<lparr>anyDeny := True\<rparr> else s2)"

definition parallelInit :: parallelState where
  "parallelInit = \<lparr>strongest = None, strongestRank = 0, reasons = [], maxLatency = 0, firstErr = None, anyDeny = False\<rparr>"

definition parallelResult :: "string \<Rightarrow> parallelState \<Rightarrow> guardResult" where
  "parallelResult i s =
     (if \<not> anyDeny s \<and> firstErr s \<noteq> None then (None, firstErr s)
      else case strongest s of
             None \<Rightarrow> answer (allowBy i)
           | Some d \<Rightarrow> answer (d\<lparr>dReason := (if reasons s \<noteq> [] then Join (reasons s) '', '' else dReason d),
                                Latency := maxLatency s\<rparr>))"

definition nameOr :: "string \<Rightarrow> string \<Rightarrow> string" where
  "nameOr i dflt = (if i = [] then dflt else i)"

section \<open>Check\<close>

text \<open>
  \<open>seqLoop\<close> is the loop of a sequential composite from its \<open>i\<close>-th member on, with the last decision
  so far; \<open>parLoop\<close> collects the results of a parallel one in the order of its members.
\<close>

fun GuardCheck :: "(string \<Rightarrow> nat \<Rightarrow> guardError option) \<Rightarrow> guardRail \<Rightarrow> guardInput \<Rightarrow> guardResult"
  and seqLoop :: "(string \<Rightarrow> nat \<Rightarrow> guardError option) \<Rightarrow> string \<Rightarrow> nat \<Rightarrow> guardRail list \<Rightarrow> Decision option
        \<Rightarrow> guardInput \<Rightarrow> guardResult"
  and parLoop :: "(string \<Rightarrow> nat \<Rightarrow> guardError option) \<Rightarrow> guardRail list \<Rightarrow> guardInput \<Rightarrow> guardResult list" where
  "GuardCheck ctxErr Noop inp = answer (allowBy ''none'')"
| "GuardCheck ctxErr (Adapter f) inp = f inp"
| "GuardCheck ctxErr (PhaseGated phases inner) inp =
     (if Phase inp \<in> set phases then GuardCheck ctxErr inner inp
      else answer (allowBy ''phase-gated:skipped''))"
| "GuardCheck ctxErr (Sequential guards i0) inp =
     (let i = nameOr i0 ''sequential''
      in if guards = [] then answer (allowBy i) else seqLoop ctxErr i 0 guards None inp)"
| "GuardCheck ctxErr (Parallel guards i0) inp =
     (let i = nameOr i0 ''parallel''
      in if guards = [] then answer (allowBy i)
         else parallelResult i (fold parallelStep (parLoop ctxErr guards inp) parallelInit))"
| "seqLoop ctxErr i k [] lst inp = (case lst of None \<Rightarrow> answer (allowBy i) | Some d \<Rightarrow> answer d)"
| "seqLoop ctxErr i k (g # gs) lst inp =
     (case ctxErr i k of
        Some err \<Rightarrow> (None, Some err)
      | None \<Rightarrow>
          (case GuardCheck ctxErr g inp of
             (d, Some err) \<Rightarrow> (None, Some err)
           | (d, None) \<Rightarrow>
               if (case d of None \<Rightarrow> False | Some d' \<Rightarrow> Verdict d' = VerdictDeny) then (d, None)
               else seqLoop ctxErr i (Suc k) gs d inp))"
| "parLoop ctxErr [] inp = []"
| "parLoop ctxErr (g # gs) inp = GuardCheck ctxErr g inp # parLoop ctxErr gs inp"

fun ChecksPhase :: "guardRail option \<Rightarrow> string \<Rightarrow> bool"
  and checksPhase :: "guardRail \<Rightarrow> string \<Rightarrow> bool"
  and anyChecksPhase :: "guardRail list \<Rightarrow> string \<Rightarrow> bool" where
  "ChecksPhase None p = False"
| "ChecksPhase (Some g) p = checksPhase g p"
| "checksPhase Noop p = False"
| "checksPhase (Adapter f) p = True"
| "checksPhase (PhaseGated phases inner) p = (p \<in> set phases \<and> checksPhase inner p)"
| "checksPhase (Sequential guards i) p = anyChecksPhase guards p"
| "checksPhase (Parallel guards i) p = anyChecksPhase guards p"
| "anyChecksPhase [] p = False"
| "anyChecksPhase (g # gs) p = (if checksPhase g p then True else anyChecksPhase gs p)"

section \<open>The loop's call (loop.go)\<close>

definition guardContractError :: "(string \<Rightarrow> string) \<Rightarrow> Decision option \<Rightarrow> guardError option" where
  "guardContractError quote d =
     (case d of
        None \<Rightarrow> Some \<lparr>geText = ''guard returned nil decision'', geGuardID = []\<rparr>
      | Some d' \<Rightarrow>
          if \<not> IsValidVerdict (Verdict d')
          then Some \<lparr>geText = ''guard returned invalid verdict '' @ quote (Verdict d'), geGuardID = []\<rparr>
          else None)"

definition guardIDFromCheck :: "Decision option \<Rightarrow> guardError \<Rightarrow> string" where
  "guardIDFromCheck d err =
     (case d of
        Some d' \<Rightarrow> if GuardID d' \<noteq> [] then GuardID d' else nameOr (geGuardID err) ''unknown''
      | None \<Rightarrow> nameOr (geGuardID err) ''unknown'')"

text \<open>Allowed, the decision if there is one, and whether the content is to be spotlighted.\<close>

definition guardCheck ::
  "(string \<Rightarrow> string) \<Rightarrow> (string \<Rightarrow> string) \<Rightarrow> (string \<Rightarrow> nat \<Rightarrow> guardError option) \<Rightarrow> guardRail option
     \<Rightarrow> guardInput \<Rightarrow> bool \<Rightarrow> bool \<times> Decision option \<times> bool" where
  "guardCheck scrub quote ctxErr guardRail inp failOpen =
     (case guardRail of
        None \<Rightarrow> (True, Some (allowBy ''none''), False)
      | Some g \<Rightarrow>
          let (decision, err0) = GuardCheck ctxErr g inp;
              err = (case err0 of Some e \<Rightarrow> Some e | None \<Rightarrow> guardContractError quote decision)
          in case (err, decision) of
               (Some e, _) \<Rightarrow>
                 if failOpen
                 then (True, Some ((allowBy (guardIDFromCheck decision e))\<lparr>dReason := ''fail_open: '' @ scrub (geText e)\<rparr>), False)
                 else (False, None, False)
             | (None, Some d) \<Rightarrow>
                 if Verdict d = VerdictAllowSpot then (True, Some d, True)
                 else (Verdict d = VerdictAllow, Some d, False)
             | (None, None) \<Rightarrow> (False, None, False))"

section \<open>Deny wins\<close>

definition denies :: "guardResult \<Rightarrow> bool" where
  "denies r = (case fst r of Some d \<Rightarrow> Verdict d = VerdictDeny | None \<Rightarrow> False)"

lemma denies_simps [simp]: "\<not> denies (None, e)" "denies (Some d, e) = (Verdict d = VerdictDeny)"
  by (simp_all add: denies_def)

lemma allowBy_sel [simp]: "Verdict (allowBy i) = VerdictAllow" "dReason (allowBy i) = []"
  by (simp_all add: allowBy_def)

lemma denies_iff: "denies r \<longleftrightarrow> (\<exists>d. fst r = Some d \<and> Verdict d = VerdictDeny)"
  by (auto simp: denies_def split: option.splits)

definition parallelInv :: "guardResult list \<Rightarrow> parallelState \<Rightarrow> bool" where
  "parallelInv rs s =
     ((anyDeny s \<longleftrightarrow> (\<exists>r \<in> set rs. denies r))
      \<and> (strongest s = None \<longrightarrow> strongestRank s = 0)
      \<and> (\<forall>d. strongest s = Some d \<longrightarrow> strongestRank s = verdictRank (Verdict d) \<and> Some d \<in> fst ` set rs)
      \<and> (\<forall>d. Some d \<in> fst ` set rs \<longrightarrow> verdictRank (Verdict d) \<le> strongestRank s))"

lemma verdictRank_3 [simp]: "verdictRank v = 3 \<longleftrightarrow> v = VerdictDeny" "3 \<le> verdictRank v \<longleftrightarrow> v = VerdictDeny"
  by (auto simp: verdictRank_def)

lemma parallelStep_quiet: "parallelInv rs s \<Longrightarrow> parallelInv ((None, e) # rs) (parallelStep (None, e) s)"
  by (auto simp: parallelInv_def parallelStep_def Let_def)

lemma parallelStep_decision:
  "anyDeny (parallelStep (Some d, e) s) = (anyDeny s \<or> Verdict d = VerdictDeny)"
  "strongestRank (parallelStep (Some d, e) s) = max (strongestRank s) (verdictRank (Verdict d))"
  "strongest (parallelStep (Some d, e) s)
   = (if verdictRank (Verdict d) > strongestRank s then Some d else strongest s)"
  by (simp_all add: parallelStep_def Let_def)

lemma parallelInv_step:
  assumes "parallelInv rs s"
  shows "parallelInv (r # rs) (parallelStep r s)"
proof (cases r)
  case (Pair d e)
  show ?thesis
  proof (cases d)
    case (Some d')
    then show ?thesis
      using assms by (auto simp: Pair parallelInv_def parallelStep_decision max_def)
  qed (use assms in \<open>simp add: Pair parallelStep_quiet\<close>)
qed

lemma parallelInv_fold: "parallelInv rs s \<Longrightarrow> parallelInv (rev rs' @ rs) (fold parallelStep rs' s)"
proof (induction rs' arbitrary: rs s)
  case (Cons r rs')
  from Cons.IH [OF parallelInv_step [OF Cons.prems, of r]] show ?case
    by simp
qed simp

lemma parallelResult_denies:
  assumes "parallelInv rs s"
  shows "denies (parallelResult i s) = (\<exists>r \<in> set rs. denies r)"
proof (cases "anyDeny s")
  case True
  then obtain r where r: "r \<in> set rs" "denies r"
    using assms by (auto simp: parallelInv_def)
  then obtain d where "fst r = Some d" and deny: "Verdict d = VerdictDeny"
    by (auto simp: denies_iff)
  with r have d: "Some d \<in> fst ` set rs"
    by force
  then have "verdictRank (Verdict d) \<le> strongestRank s"
    using assms by (auto simp: parallelInv_def)
  then have "3 \<le> strongestRank s"
    by (simp add: deny verdictRank_def)
  then obtain d' where "strongest s = Some d'" "Verdict d' = VerdictDeny"
    using assms by (cases "strongest s") (auto simp: parallelInv_def)
  then show ?thesis
    using True assms by (auto simp: parallelResult_def parallelInv_def split: option.splits)
next
  case False
  then have "\<forall>r \<in> set rs. \<not> denies r"
    using assms by (auto simp: parallelInv_def)
  moreover have "Verdict d \<noteq> VerdictDeny" if "strongest s = Some d" for d
    using that calculation assms by (force simp: parallelInv_def denies_iff)
  ultimately show ?thesis
    by (auto simp: parallelResult_def split: option.splits)
qed

lemma parLoop_map: "parLoop ctxErr gs inp = map (\<lambda>g. GuardCheck ctxErr g inp) gs"
  by (induction gs) auto

lemma Parallel_denies:
  "denies (GuardCheck ctxErr (Parallel gs i) inp) = (\<exists>g \<in> set gs. denies (GuardCheck ctxErr g inp))"
proof -
  let ?rs = "parLoop ctxErr gs inp"
  have "parallelInv (rev ?rs @ []) (fold parallelStep ?rs parallelInit)"
    by (rule parallelInv_fold) (simp add: parallelInv_def parallelInit_def)
  from parallelResult_denies [OF this] show ?thesis
    by (auto simp: parLoop_map Let_def)
qed

text \<open>A sequential chain whose members all answer denies exactly when a member does.\<close>

lemma seqLoop_denies:
  assumes "\<forall>k. ctxErr i k = None" "\<forall>g \<in> set gs. snd (GuardCheck ctxErr g inp) = None"
    and "\<not> denies (lst, None)"
  shows "denies (seqLoop ctxErr i k gs lst inp) = (\<exists>g \<in> set gs. denies (GuardCheck ctxErr g inp))"
  using assms(2,3)
proof (induction gs arbitrary: k lst)
  case Nil
  then show ?case by (auto split: option.splits)
next
  case (Cons g gs)
  obtain d where d: "GuardCheck ctxErr g inp = (d, None)"
    using Cons.prems(1) by (cases "GuardCheck ctxErr g inp") auto
  show ?case
  proof (cases "denies (d, None)")
    case True
    then show ?thesis
      using assms(1) by (auto simp: d denies_iff)
  next
    case False
    then have "\<not> (case d of None \<Rightarrow> False | Some d' \<Rightarrow> Verdict d' = VerdictDeny)"
      by (auto split: option.splits)
    then show ?thesis
      using assms(1) False Cons.IH [of d "Suc k"] Cons.prems by (simp add: d)
  qed
qed

lemma Sequential_denies:
  assumes "\<forall>k. ctxErr (nameOr i ''sequential'') k = None" "\<forall>g \<in> set gs. snd (GuardCheck ctxErr g inp) = None"
  shows "denies (GuardCheck ctxErr (Sequential gs i) inp) = (\<exists>g \<in> set gs. denies (GuardCheck ctxErr g inp))"
  using seqLoop_denies [OF assms, of None 0] by (auto simp: Let_def)

lemma GuardCheck_composite:
  "denies (GuardCheck ctxErr (Parallel gs i) inp) \<Longrightarrow> snd (GuardCheck ctxErr (Parallel gs i) inp) = None"
  "denies (seqLoop ctxErr i k gs lst inp) \<Longrightarrow> snd (seqLoop ctxErr i k gs lst inp) = None"
proof -
  show "denies (GuardCheck ctxErr (Parallel gs i) inp) \<Longrightarrow> snd (GuardCheck ctxErr (Parallel gs i) inp) = None"
    by (auto simp: Let_def parallelResult_def split: if_splits option.splits)
  show "denies (seqLoop ctxErr i k gs lst inp) \<Longrightarrow> snd (seqLoop ctxErr i k gs lst inp) = None"
    by (induction gs arbitrary: k lst) (auto split: if_splits option.splits prod.splits)
qed

lemma Sequential_denies_answers:
  "denies (GuardCheck ctxErr (Sequential gs i) inp) \<Longrightarrow> snd (GuardCheck ctxErr (Sequential gs i) inp) = None"
  by (auto simp: Let_def dest: GuardCheck_composite(2))

lemma guardCheck_denied:
  assumes "denies (GuardCheck ctxErr g inp)" "snd (GuardCheck ctxErr g inp) = None"
  shows "\<not> fst (guardCheck scrub quote ctxErr (Some g) inp failOpen)"
proof -
  obtain d where "GuardCheck ctxErr g inp = answer d" "Verdict d = VerdictDeny"
    using assms by (cases "GuardCheck ctxErr g inp") (auto simp: denies_iff)
  then show ?thesis
    by (simp add: guardCheck_def guardContractError_def IsValidVerdict_def)
qed

lemma guardCheck_closed:
  "fst (guardCheck scrub quote ctxErr (Some g) inp False)
   = (\<exists>d. GuardCheck ctxErr g inp = answer d \<and> (Verdict d = VerdictAllow \<or> Verdict d = VerdictAllowSpot))"
  by (cases "GuardCheck ctxErr g inp")
    (auto simp: guardCheck_def guardContractError_def IsValidVerdict_def Let_def split: option.splits if_splits)

section \<open>Phases nobody checks\<close>

definition skips :: "(string \<Rightarrow> nat \<Rightarrow> guardError option) \<Rightarrow> guardRail \<Rightarrow> string \<Rightarrow> bool" where
  "skips ctxErr g p = (\<exists>nm. \<forall>inp. Phase inp = p \<longrightarrow> GuardCheck ctxErr g inp = answer (allowBy nm))"

lemma fold_parallel_allow:
  assumes "\<forall>r \<in> set rs. \<exists>nm. r = answer (allowBy nm)" "strongest s = Some d" "verdictRank (Verdict d) = 1"
    and "strongestRank s = 1" "reasons s = []" "maxLatency s = 0"
  shows "strongest (fold parallelStep rs s) = Some d \<and> reasons (fold parallelStep rs s) = []
     \<and> maxLatency (fold parallelStep rs s) = 0 \<and> firstErr (fold parallelStep rs s) = firstErr s
     \<and> anyDeny (fold parallelStep rs s) = anyDeny s"
  using assms
proof (induction rs arbitrary: s)
  case (Cons r rs)
  then obtain nm where r: "r = answer (allowBy nm)"
    by auto
  have "parallelStep r s = s"
    using Cons.prems by (simp add: r parallelStep_def Let_def verdictRank_def allowBy_def)
  then show ?case
    using Cons by simp
qed simp

lemma parallel_allows:
  assumes "\<forall>r \<in> set rs. \<exists>nm. r = answer (allowBy nm)"
  shows "parallelResult i (fold parallelStep (answer (allowBy nm) # rs) parallelInit) = answer (allowBy nm)"
proof -
  let ?s = "parallelStep (answer (allowBy nm)) parallelInit"
  have s: "strongest ?s = Some (allowBy nm)" "verdictRank (Verdict (allowBy nm)) = 1" "strongestRank ?s = 1"
      "reasons ?s = []" "maxLatency ?s = 0" "firstErr ?s = None" "anyDeny ?s = False"
    by (simp_all add: parallelStep_def parallelInit_def Let_def verdictRank_def allowBy_def)
  from fold_parallel_allow [OF assms s(1-5)] show ?thesis
    using s by (simp add: parallelResult_def allowBy_def)
qed

lemma seqLoop_allows:
  assumes "\<forall>k. ctxErr i k = None" "\<forall>g \<in> set gs. skips ctxErr g p"
  shows "\<exists>nm. \<forall>inp. Phase inp = p \<longrightarrow> seqLoop ctxErr i k gs (Some (allowBy n0)) inp = answer (allowBy nm)"
  using assms(2)
proof (induction gs arbitrary: k n0)
  case Nil
  show ?case by auto
next
  case (Cons g gs)
  obtain nm where nm: "\<forall>inp. Phase inp = p \<longrightarrow> GuardCheck ctxErr g inp = answer (allowBy nm)"
    using Cons.prems by (auto simp: skips_def)
  obtain m where "\<forall>inp. Phase inp = p \<longrightarrow> seqLoop ctxErr i (Suc k) gs (Some (allowBy nm)) inp = answer (allowBy m)"
    using Cons.IH [of "Suc k" nm] Cons.prems by auto
  then show ?case
    using nm assms(1) by (intro exI [of _ m]) simp
qed

lemma skips_composites:
  assumes "\<forall>i k. ctxErr i k = None" "\<forall>g \<in> set gs. skips ctxErr g p"
  shows "skips ctxErr (Sequential gs i) p" "skips ctxErr (Parallel gs i) p"
proof -
  show "skips ctxErr (Sequential gs i) p"
  proof (cases gs)
    case (Cons g gs')
    obtain nm where nm: "\<forall>inp. Phase inp = p \<longrightarrow> GuardCheck ctxErr g inp = answer (allowBy nm)"
      using assms(2) by (auto simp: skips_def Cons)
    obtain m where "\<forall>inp. Phase inp = p \<longrightarrow>
        seqLoop ctxErr (nameOr i ''sequential'') (Suc 0) gs' (Some (allowBy nm)) inp = answer (allowBy m)"
      using seqLoop_allows [of ctxErr "nameOr i ''sequential''" gs' p "Suc 0" nm] assms by (auto simp: Cons)
    then show ?thesis
      using nm assms(1) unfolding skips_def by (intro exI [of _ m]) (simp add: Cons Let_def)
  qed (auto simp: skips_def Let_def)
  show "skips ctxErr (Parallel gs i) p"
  proof (cases gs)
    case (Cons g gs')
    obtain nm where nm: "\<forall>inp. Phase inp = p \<longrightarrow> GuardCheck ctxErr g inp = answer (allowBy nm)"
      using assms(2) by (auto simp: skips_def Cons)
    have "GuardCheck ctxErr (Parallel gs i) inp = answer (allowBy nm)" if "Phase inp = p" for inp
    proof -
      have "\<forall>r \<in> set (parLoop ctxErr gs' inp). \<exists>nm. r = answer (allowBy nm)"
        using assms(2) that by (fastforce simp: parLoop_map Cons skips_def)
      from parallel_allows [OF this] show ?thesis
        using nm that by (simp add: Cons Let_def del: fold_simps)
    qed
    then show ?thesis
      by (auto simp: skips_def)
  qed (auto simp: skips_def Let_def)
qed

lemma skips_unchecked:
  "(\<forall>i k. ctxErr i k = None) \<Longrightarrow> \<not> checksPhase g p \<Longrightarrow> skips ctxErr g p"
proof (induction g)
  case (PhaseGated phases g)
  then show ?case
    by (cases "p \<in> set phases") (auto simp: skips_def)
next
  case (Sequential gs i)
  have "checksPhase g p \<Longrightarrow> g \<in> set gs \<Longrightarrow> anyChecksPhase gs p" for g
    by (induction gs) auto
  then show ?case
    using Sequential by (intro skips_composites(1)) auto
next
  case (Parallel gs i)
  have "checksPhase g p \<Longrightarrow> g \<in> set gs \<Longrightarrow> anyChecksPhase gs p" for g
    by (induction gs) auto
  then show ?case
    using Parallel by (intro skips_composites(2)) auto
qed (auto simp: skips_def)

section \<open>Properties\<close>

text \<open>
  C24: a denial cannot be outvoted. Content denied by any member of a parallel composite is not let
  through by the loop, whatever the other members answer, even if they fail and the run fails open; the
  order of the members does not matter. A sequential composite whose members all answer denies exactly
  when one of them does. And without fail-open, content passes only on an explicit allow or spotlight
  verdict.
\<close>

theorem guard_deny_wins:
  assumes "\<exists>g \<in> set gs. denies (GuardCheck ctxErr g inp)" "mset gs' = mset gs"
  shows "\<not> fst (guardCheck scrub quote ctxErr (Some (Parallel gs' i)) inp failOpen)
     \<and> ((\<forall>k. ctxErr (nameOr i ''sequential'') k = None) \<and> (\<forall>g \<in> set gs. snd (GuardCheck ctxErr g inp) = None)
        \<longrightarrow> \<not> fst (guardCheck scrub quote ctxErr (Some (Sequential gs' i)) inp failOpen))
     \<and> (fst (guardCheck scrub quote ctxErr (Some g) inp False)
        \<longrightarrow> (\<exists>d. GuardCheck ctxErr g inp = answer d \<and> (Verdict d = VerdictAllow \<or> Verdict d = VerdictAllowSpot)))"
proof -
  have "set gs' = set gs"
    using assms(2) by (rule mset_eq_setD)
  then show ?thesis
    using assms(1) guardCheck_denied [of ctxErr "Parallel gs' i" inp scrub quote failOpen]
      guardCheck_denied [of ctxErr "Sequential gs' i" inp scrub quote failOpen]
      GuardCheck_composite(1) [of ctxErr gs' i inp] Sequential_denies_answers [of ctxErr gs' i inp]
      Sequential_denies [of ctxErr i gs' inp] Parallel_denies [of ctxErr gs' i inp] guardCheck_closed
    by (auto simp del: GuardCheck.simps)
qed

definition verdictGuard :: "string \<Rightarrow> guardRail" where
  "verdictGuard v = Adapter (\<lambda>_. answer (\<lparr>Verdict = v, dCriterion = [], dReason = [], Latency = 0, GuardID = v\<rparr>))"

definition preToolInput :: guardInput where
  "preToolInput = \<lparr>Phase = ''pre_tool'', giContent = ''{}'', giSource = [], giToolName = [], giToolInput = [],
     IgnoreMinChunk = False, giMode = [], giRunID = [], giRedactedSpans = []\<rparr>"

theorem guard_deny_wins_witness:
  "\<not> fst (guardCheck id id (\<lambda>_ _. None)
       (Some (Parallel [Adapter (\<lambda>_. attributeError ''granite'' None (Some ''down'')), verdictGuard ''deny'', verdictGuard ''allow''] [])) preToolInput True)"
proof -
  let ?gs = "[verdictGuard ''deny'', verdictGuard ''allow'', Adapter (\<lambda>_. attributeError ''granite'' None (Some ''down''))]"
  have "\<exists>g \<in> set ?gs. denies (GuardCheck (\<lambda>_ _. None) g preToolInput)"
    by (simp add: verdictGuard_def)
  from guard_deny_wins [OF this, of "[Adapter (\<lambda>_. attributeError ''granite'' None (Some ''down'')), verdictGuard ''deny'', verdictGuard ''allow'']"]
  show ?thesis
    by simp
qed

text \<open>
  What \<open>ChecksPhase\<close> reports as unchecked is not read. While the context lives, a guard that does
  not check a phase allows every input of that phase with one and the same decision, so no content the
  loop leaves unscrubbed for it can influence the run.
\<close>

theorem unchecked_phase_ignored:
  assumes "\<not> ChecksPhase (Some g) p" "\<forall>i k. ctxErr i k = None"
    and "Phase inp = p" "Phase inp' = p"
  shows "guardCheck scrub quote ctxErr (Some g) inp failOpen = guardCheck scrub quote ctxErr (Some g) inp' failOpen
     \<and> fst (guardCheck scrub quote ctxErr (Some g) inp failOpen)"
proof -
  have "skips ctxErr g p"
    by (rule skips_unchecked) (use assms in auto)
  then obtain nm where "GuardCheck ctxErr g inp = answer (allowBy nm)" "GuardCheck ctxErr g inp' = answer (allowBy nm)"
    using assms(3,4) by (auto simp: skips_def)
  then show ?thesis
    by (simp add: guardCheck_def guardContractError_def IsValidVerdict_def Let_def)
qed

theorem unchecked_phase_ignored_witness:
  "\<not> ChecksPhase (Some (Sequential [Noop, PhaseGated [''post_turn''] (verdictGuard ''deny'')] [])) ''pre_tool''
   \<and> fst (guardCheck id id (\<lambda>_ _. None)
        (Some (Sequential [Noop, PhaseGated [''post_turn''] (verdictGuard ''deny'')] [])) preToolInput False)"
proof -
  let ?g = "Sequential [Noop, PhaseGated [''post_turn''] (verdictGuard ''deny'')] []"
  have un: "\<not> ChecksPhase (Some ?g) ''pre_tool''"
    by simp
  have "Phase preToolInput = ''pre_tool''"
    by (simp add: preToolInput_def)
  from unchecked_phase_ignored [OF un _ this this, of "\<lambda>_ _. None" id id False] un show ?thesis
    by simp
qed

text \<open>
  A composite turns a guard that breaks its contract into an allow: without fail-open a guard that
  returns no decision is denied by the loop, but wrapped in a composite it is let through.
\<close>

lemma composite_hides_missing_decision:
  "\<not> fst (guardCheck id id (\<lambda>_ _. None) (Some (Adapter (\<lambda>_. (None, None)))) preToolInput False)
   \<and> fst (guardCheck id id (\<lambda>_ _. None) (Some (Sequential [Adapter (\<lambda>_. (None, None))] [])) preToolInput False)
   \<and> fst (guardCheck id id (\<lambda>_ _. None) (Some (Parallel [Adapter (\<lambda>_. (None, None))] [])) preToolInput False)"
  by (simp add: guardCheck_def guardContractError_def IsValidVerdict_def Let_def parallelResult_def
      parallelStep_def parallelInit_def)

end
