(* ===== verification/Correlator.thy ===== *)
theory Correlator
  imports Go_Prelude
begin

text \<open>
  \<open>transport/correlator.go\<close>: requests to the control plane are paired with their responses by request
  identifier. Awaits and deliveries run on goroutines of their own, so the correlator is a step
  relation over its shared state: one step per section under the lock, per channel operation and per
  outcome of an emit. The awaits are numbered in the order they draw their identifier; a channel of
  capacity one is the field \<open>aChan\<close> of its await, and \<open>sending\<close> holds the deliveries that have taken
  their entry out of \<open>pending\<close> and not yet sent.
\<close>

section \<open>State and operations\<close>

datatype awaitError = EmitFailed string | AwaitTimedOut string string | AwaitCancelled string string

fun awaitErrorText :: "awaitError \<Rightarrow> string" where
  "awaitErrorText (EmitFailed err) = ''correlator: emit failed: '' @ err"
| "awaitErrorText (AwaitTimedOut timeout requestID) =
     ''correlator: timed out waiting for response after '' @ timeout @ '' (requestId='' @ requestID @ '')''"
| "awaitErrorText (AwaitCancelled requestID err) =
     ''correlator: cancelled (requestId='' @ requestID @ ''): '' @ err"

datatype 'p awaitPhase = Allocated | Registered | Waiting | Returned "awaitError + 'p"

record 'p await =
  aID :: string
  aPhase :: "'p awaitPhase"
  aChan :: "'p option"

record 'p correlator =
  nextID :: nat
  pending :: "string \<rightharpoonup> nat"
  awaits :: "'p await list"
  sending :: "(nat \<times> 'p) list"

definition newCorrelator :: "'p correlator" where
  "newCorrelator = \<lparr>nextID = 0, pending = (\<lambda>_. None), awaits = [], sending = []\<rparr>"

definition corrPrefix :: "string \<Rightarrow> string" where
  "corrPrefix idPrefix = (if idPrefix = [] then ''req'' else idPrefix)"

definition requestIDOf :: "string \<Rightarrow> nat \<Rightarrow> string" where
  "requestIDOf idPrefix n = corrPrefix idPrefix @ ''-'' @ natDigits n"

definition setAwait :: "nat \<Rightarrow> ('p await \<Rightarrow> 'p await) \<Rightarrow> 'p correlator \<Rightarrow> 'p correlator" where
  "setAwait a f s = s\<lparr>awaits := (awaits s)[a := f (awaits s ! a)]\<rparr>"

definition nextRequestID :: "string \<Rightarrow> 'p correlator \<Rightarrow> 'p correlator" where
  "nextRequestID idPrefix s =
     s\<lparr>nextID := Suc (nextID s),
       awaits := awaits s @ [\<lparr>aID = requestIDOf idPrefix (Suc (nextID s)), aPhase = Allocated, aChan = None\<rparr>]\<rparr>"

definition register :: "nat \<Rightarrow> 'p correlator \<Rightarrow> 'p correlator" where
  "register a s = (setAwait a (aPhase_update (\<lambda>_. Registered)) s)\<lparr>pending := (pending s)(aID (awaits s ! a) \<mapsto> a)\<rparr>"

definition cancel :: "string \<Rightarrow> 'p correlator \<Rightarrow> 'p correlator" where
  "cancel requestID s = s\<lparr>pending := (pending s)(requestID := None)\<rparr>"

definition giveUp :: "nat \<Rightarrow> awaitError \<Rightarrow> 'p correlator \<Rightarrow> 'p correlator" where
  "giveUp a err s = setAwait a (aPhase_update (\<lambda>_. Returned (Inl err))) (cancel (aID (awaits s ! a)) s)"

definition deliver :: "string \<Rightarrow> 'p \<Rightarrow> 'p correlator \<Rightarrow> 'p correlator" where
  "deliver requestID payload s =
     (case pending s requestID of
        None \<Rightarrow> s
      | Some a \<Rightarrow> s\<lparr>pending := (pending s)(requestID := None), sending := sending s @ [(a, payload)]\<rparr>)"

datatype 'p corrEvent =
    Begin | Register nat | EmitDone nat | EmitError nat string | Deliver string 'p | Send nat 'p
  | Receive nat | Expire nat string | CtxDone nat string

definition phaseOf :: "'p correlator \<Rightarrow> nat \<Rightarrow> 'p awaitPhase option" where
  "phaseOf s a = (if a < length (awaits s) then Some (aPhase (awaits s ! a)) else None)"

text \<open>A send is enabled when the channel has room.\<close>

inductive corrStep :: "string \<Rightarrow> 'p correlator \<Rightarrow> 'p corrEvent \<Rightarrow> 'p correlator \<Rightarrow> bool" for idPrefix where
  step_begin: "corrStep idPrefix s Begin (nextRequestID idPrefix s)"
| step_register: "phaseOf s a = Some Allocated \<Longrightarrow> corrStep idPrefix s (Register a) (register a s)"
| step_emit: "phaseOf s a = Some Registered
    \<Longrightarrow> corrStep idPrefix s (EmitDone a) (setAwait a (aPhase_update (\<lambda>_. Waiting)) s)"
| step_emit_error: "phaseOf s a = Some Registered \<Longrightarrow> corrStep idPrefix s (EmitError a err) (giveUp a (EmitFailed err) s)"
| step_deliver: "corrStep idPrefix s (Deliver requestID payload) (deliver requestID payload s)"
| step_send: "sending s = xs @ (a, payload) # ys \<Longrightarrow> aChan (awaits s ! a) = None
    \<Longrightarrow> corrStep idPrefix s (Send a payload)
          ((setAwait a (aChan_update (\<lambda>_. Some payload)) s)\<lparr>sending := xs @ ys\<rparr>)"
| step_receive: "phaseOf s a = Some Waiting \<Longrightarrow> aChan (awaits s ! a) = Some payload
    \<Longrightarrow> corrStep idPrefix s (Receive a)
          (setAwait a (\<lambda>w. w\<lparr>aPhase := Returned (Inr payload), aChan := None\<rparr>) s)"
| step_expire: "phaseOf s a = Some Waiting
    \<Longrightarrow> corrStep idPrefix s (Expire a timeout) (giveUp a (AwaitTimedOut timeout (aID (awaits s ! a))) s)"
| step_ctx_done: "phaseOf s a = Some Waiting
    \<Longrightarrow> corrStep idPrefix s (CtxDone a err) (giveUp a (AwaitCancelled (aID (awaits s ! a)) err) s)"

inductive corrRun :: "string \<Rightarrow> 'p correlator \<Rightarrow> 'p corrEvent list \<Rightarrow> 'p correlator \<Rightarrow> bool" for idPrefix where
  run_nil: "corrRun idPrefix s [] s"
| run_snoc: "corrRun idPrefix s es t \<Longrightarrow> corrStep idPrefix t e u \<Longrightarrow> corrRun idPrefix s (es @ [e]) u"

section \<open>The invariant\<close>

lemma requestIDOf_inj [simp]: "requestIDOf idPrefix m = requestIDOf idPrefix n \<longleftrightarrow> m = n"
  by (simp add: requestIDOf_def)

text \<open>
  \<open>es\<close> is the run so far. An await that has registered and not returned is either in \<open>pending\<close>, or its
  response is on the way; a response on the way, in a channel or returned was delivered under the
  identifier of that await.
\<close>

definition awaitInv :: "'p corrEvent list \<Rightarrow> 'p correlator \<Rightarrow> nat \<Rightarrow> bool" where
  "awaitInv es s a =
     (let w = awaits s ! a;
          listed = (pending s (aID w) = Some a);
          inflight = (a \<in> fst ` set (sending s));
          full = (aChan w \<noteq> None)
      in (listed \<longrightarrow> (aPhase w = Registered \<or> aPhase w = Waiting) \<and> \<not> inflight \<and> \<not> full)
         \<and> (inflight \<longrightarrow> \<not> full)
         \<and> (aPhase w = Allocated \<longrightarrow> \<not> listed \<and> \<not> inflight \<and> \<not> full)
         \<and> (aPhase w = Registered \<or> aPhase w = Waiting \<longrightarrow> listed \<or> inflight \<or> full)
         \<and> (\<forall>r. aPhase w = Returned (Inr r) \<longrightarrow> \<not> inflight \<and> \<not> full \<and> Deliver (aID w) r \<in> set es)
         \<and> (\<forall>r. aChan w = Some r \<longrightarrow> Deliver (aID w) r \<in> set es)
         \<and> (\<forall>r. (a, r) \<in> set (sending s) \<longrightarrow> Deliver (aID w) r \<in> set es))"

definition corrInv :: "string \<Rightarrow> 'p corrEvent list \<Rightarrow> 'p correlator \<Rightarrow> bool" where
  "corrInv idPrefix es s =
     (nextID s = length (awaits s)
      \<and> (\<forall>a < length (awaits s). aID (awaits s ! a) = requestIDOf idPrefix (Suc a))
      \<and> (\<forall>i a. pending s i = Some a \<longrightarrow> a < length (awaits s) \<and> i = aID (awaits s ! a))
      \<and> distinct (map fst (sending s)) \<and> (\<forall>a \<in> fst ` set (sending s). a < length (awaits s))
      \<and> (\<forall>a < length (awaits s). awaitInv es s a))"

lemmas corr_ops = nextRequestID_def register_def cancel_def giveUp_def deliver_def setAwait_def

lemma phaseOf_Some: "phaseOf s a = Some p \<longleftrightarrow> a < length (awaits s) \<and> aPhase (awaits s ! a) = p"
  by (simp add: phaseOf_def)

text \<open>What an invariant step keeps of the awaits it does not touch.\<close>

lemma awaitInv_frame:
  assumes "awaitInv es s a" "awaits t ! a = awaits s ! a"
    and "(pending t (aID (awaits s ! a)) = Some a) = (pending s (aID (awaits s ! a)) = Some a)"
    and "\<And>r. (a, r) \<in> set (sending t) \<longleftrightarrow> (a, r) \<in> set (sending s)"
  shows "awaitInv (es @ [e]) t a"
proof -
  have "a \<in> fst ` set (sending t) \<longleftrightarrow> a \<in> fst ` set (sending s)"
    using assms(4) by force
  then show ?thesis
    using assms unfolding awaitInv_def Let_def by simp
qed

lemma corrInvD:
  assumes "corrInv idPrefix es s"
  shows "nextID s = length (awaits s)"
    and "\<And>a. a < length (awaits s) \<Longrightarrow> aID (awaits s ! a) = requestIDOf idPrefix (Suc a)"
    and "\<And>i a. pending s i = Some a \<Longrightarrow> a < length (awaits s) \<and> i = requestIDOf idPrefix (Suc a)"
    and "distinct (map fst (sending s))" "\<And>a r. (a, r) \<in> set (sending s) \<Longrightarrow> a < length (awaits s)"
    and "\<And>a. a < length (awaits s) \<Longrightarrow> awaitInv es s a"
  using assms by (force simp: corrInv_def)+

lemma corrInv_begin:
  assumes "corrInv idPrefix es s"
  shows "corrInv idPrefix (es @ [Begin]) (nextRequestID idPrefix s)"
proof -
  note inv = corrInvD [OF assms]
  let ?t = "nextRequestID idPrefix s"
  have "awaitInv (es @ [Begin]) ?t a" if "a < length (awaits ?t)" for a
  proof (cases "a < length (awaits s)")
    case True
    then show ?thesis
      by (intro awaitInv_frame [OF inv(6)]) (simp_all add: nextRequestID_def nth_append)
  next
    case False
    then have a: "a = length (awaits s)"
      using that by (simp add: nextRequestID_def)
    have "pending s i \<noteq> Some a" "a \<notin> fst ` set (sending s)" for i
      using inv(3) [of i a] inv(5) [of a] a by force+
    then show ?thesis
      using inv(5) by (force simp: awaitInv_def nextRequestID_def a)
  qed
  then show ?thesis
    using inv unfolding corrInv_def
    by (force simp: nextRequestID_def nth_append less_Suc_eq)
qed

text \<open>A step of one await changes its own entries only.\<close>

lemma corrInv_local:
  assumes inv: "corrInv idPrefix es s" and a: "a < length (awaits s)"
    and t: "nextID t = nextID s" "awaits t = (awaits s)[a := w]" "aID w = aID (awaits s ! a)"
      "pending t = (pending s)(aID (awaits s ! a) := x)" "x = None \<or> x = Some a"
    and others: "\<And>b r. b \<noteq> a \<Longrightarrow> (b, r) \<in> set (sending t) \<longleftrightarrow> (b, r) \<in> set (sending s)"
    and "distinct (map fst (sending t))" and own: "awaitInv (es @ [e]) t a"
  shows "corrInv idPrefix (es @ [e]) t"
proof -
  note I = corrInvD [OF inv]
  have "awaitInv (es @ [e]) t b" if "b < length (awaits s)" for b
  proof (cases "b = a")
    case False
    then have "aID (awaits s ! b) \<noteq> aID (awaits s ! a)"
      using I(2) [OF a] I(2) [OF that] by simp
    then show ?thesis
      using False by (intro awaitInv_frame [OF I(6) [OF that]]) (auto simp: t others)
  qed (use own in simp)
  moreover have "b < length (awaits s)" if "b \<in> fst ` set (sending t)" for b
    using that others I(5) a by (cases "b = a") force+
  ultimately show ?thesis
    using I(1,2,3) assms(9) a t(5) unfolding corrInv_def by (auto simp: t(1-4) nth_list_update split: if_splits)
qed

lemma pending_own:
  assumes "corrInv idPrefix es s" "a < length (awaits s)"
  shows "pending s (aID (awaits s ! a)) = None \<or> pending s (aID (awaits s ! a)) = Some a"
  using corrInvD(2,3) [OF assms(1)] assms(2)
  by (cases "pending s (aID (awaits s ! a))") force+

lemma corrInv_await_step:
  assumes inv: "corrInv idPrefix es s" and a: "a < length (awaits s)"
    and "aID (f (awaits s ! a)) = aID (awaits s ! a)"
    and own: "awaitInv (es @ [e]) (setAwait a f s) a"
  shows "corrInv idPrefix (es @ [e]) (setAwait a f s)"
  using pending_own [OF inv a] corrInvD(4) [OF inv] assms
  by (intro corrInv_local [OF inv a, of _ "f (awaits s ! a)" "pending s (aID (awaits s ! a))"])
     (auto simp: setAwait_def)

lemma corrInv_register:
  assumes inv: "corrInv idPrefix es s" and ph: "phaseOf s a = Some Allocated"
  shows "corrInv idPrefix (es @ [e]) (register a s)"
proof -
  have a: "a < length (awaits s)" and "aPhase (awaits s ! a) = Allocated"
    using ph by (simp_all add: phaseOf_Some)
  then show ?thesis
    using corrInvD(4,6) [OF inv]
    by (intro corrInv_local [OF inv a, of _ "(awaits s ! a)\<lparr>aPhase := Registered\<rparr>" "Some a"])
       (auto simp: corr_ops awaitInv_def Let_def)
qed

lemma corrInv_giveUp:
  assumes inv: "corrInv idPrefix es s" and ph: "phaseOf s a = Some Registered \<or> phaseOf s a = Some Waiting"
  shows "corrInv idPrefix (es @ [e]) (giveUp a err s)"
proof -
  have a: "a < length (awaits s)"
    using ph by (auto simp: phaseOf_Some)
  then show ?thesis
    using corrInvD(4,6) [OF inv] ph
    by (intro corrInv_local [OF inv a, of _ "(awaits s ! a)\<lparr>aPhase := Returned (Inl err)\<rparr>" None])
       (auto simp: corr_ops awaitInv_def Let_def phaseOf_Some)
qed

lemma corrInv_deliver:
  assumes inv: "corrInv idPrefix es s"
  shows "corrInv idPrefix (es @ [Deliver i p]) (deliver i p s)"
proof (cases "pending s i")
  case None
  have "awaitInv (es @ [Deliver i p]) s a" if "a < length (awaits s)" for a
    by (rule awaitInv_frame [OF corrInvD(6) [OF inv that]]) simp_all
  then show ?thesis
    using inv None by (auto simp: corrInv_def deliver_def)
next
  case (Some a)
  then have a: "a < length (awaits s)" and i: "i = aID (awaits s ! a)"
    using corrInvD(2,3) [OF inv] by force+
  have own: "awaitInv es s a" and "a \<notin> fst ` set (sending s)"
    using corrInvD(6) [OF inv a] Some i by (auto simp: awaitInv_def Let_def)
  then show ?thesis
    using corrInvD(4) [OF inv] Some i a
    by (intro corrInv_local [OF inv a, of _ "awaits s ! a" None])
       (auto simp: deliver_def awaitInv_def Let_def)
qed

lemma corrInv_send:
  assumes inv: "corrInv idPrefix es s" and snd: "sending s = xs @ (a, p) # ys"
  shows "corrInv idPrefix (es @ [e]) ((setAwait a (aChan_update (\<lambda>_. Some p)) s)\<lparr>sending := xs @ ys\<rparr>)"
proof -
  have a: "a < length (awaits s)"
    using corrInvD(5) [OF inv] snd by auto
  have "a \<notin> fst ` set (xs @ ys)" and "distinct (map fst (xs @ ys))"
    using corrInvD(4) [OF inv] snd by auto
  moreover have "pending s (aID (awaits s ! a)) \<noteq> Some a"
    using corrInvD(6) [OF inv a] snd by (auto simp: awaitInv_def Let_def)
  ultimately show ?thesis
    using corrInvD(6) [OF inv a] snd pending_own [OF inv a] a
    by (intro corrInv_local [OF inv a, of _ "(awaits s ! a)\<lparr>aChan := Some p\<rparr>" None])
       (auto simp: setAwait_def awaitInv_def Let_def)
qed

lemma corrInv_step:
  assumes step: "corrStep idPrefix s e t" and inv: "corrInv idPrefix es s"
  shows "corrInv idPrefix (es @ [e]) t"
  using step
proof cases
  case (step_emit a)
  then show ?thesis
    using corrInvD(6) [OF inv, of a]
    by (simp add: phaseOf_Some) (intro corrInv_await_step [OF inv]; auto simp: setAwait_def awaitInv_def Let_def)
next
  case (step_receive a payload)
  then show ?thesis
    using corrInvD(6) [OF inv, of a]
    by (simp add: phaseOf_Some) (intro corrInv_await_step [OF inv]; auto simp: setAwait_def awaitInv_def Let_def)
qed (simp_all add: inv corrInv_begin corrInv_register corrInv_giveUp corrInv_deliver corrInv_send)

lemma corrInv_run: "corrRun idPrefix newCorrelator es s \<Longrightarrow> corrInv idPrefix es s"
proof (induction "newCorrelator :: 'a correlator" es s rule: corrRun.induct)
  case run_nil
  show ?case by (simp add: corrInv_def newCorrelator_def)
qed (rule corrInv_step)

section \<open>Properties\<close>

definition finished :: "'p awaitPhase \<Rightarrow> bool" where
  "finished ph = (case ph of Returned _ \<Rightarrow> True | _ \<Rightarrow> False)"

lemma finished_simps [simp]: "finished (Returned r)" "\<not> finished Allocated" "\<not> finished Registered" "\<not> finished Waiting"
  by (simp_all add: finished_def)

lemma finished_iff: "finished ph \<longleftrightarrow> (\<exists>r. ph = Returned r)"
  by (cases ph) auto

lemma awaits_ops [simp]:
  "a < length (awaits s) \<Longrightarrow> phaseOf (register a s) a = Some Registered"
  "a < length (awaits s) \<Longrightarrow> phaseOf (setAwait a f s) a = Some (aPhase (f (awaits s ! a)))"
  "a < length (awaits s) \<Longrightarrow> phaseOf (giveUp a err s) a = Some (Returned (Inl err))"
  by (simp_all add: phaseOf_def corr_ops)

lemma settle_steps:
  assumes "phaseOf s a = Some ph"
  shows "ph = Allocated \<Longrightarrow> \<exists>t. corrStep idPrefix s (Register a) t \<and> phaseOf t a = Some Registered"
    and "ph = Registered \<Longrightarrow> \<exists>t. corrStep idPrefix s (EmitDone a) t \<and> phaseOf t a = Some Waiting"
    and "ph = Waiting \<Longrightarrow> \<exists>t r. corrStep idPrefix s (Expire a d) t \<and> phaseOf t a = Some (Returned r)"
proof -
  have a: "a < length (awaits s)"
    using assms by (simp add: phaseOf_Some)
  show "ph = Allocated \<Longrightarrow> \<exists>t. corrStep idPrefix s (Register a) t \<and> phaseOf t a = Some Registered"
    using assms step_register [of s a idPrefix] a by auto
  show "ph = Registered \<Longrightarrow> \<exists>t. corrStep idPrefix s (EmitDone a) t \<and> phaseOf t a = Some Waiting"
    using assms step_emit [of s a idPrefix] a by force
  show "ph = Waiting \<Longrightarrow> \<exists>t r. corrStep idPrefix s (Expire a d) t \<and> phaseOf t a = Some (Returned r)"
    using assms step_expire [of s a idPrefix d] a by auto
qed

text \<open>The steps an await still has to take on its own, with a timeout as the last one.\<close>

fun settleEvents :: "string \<Rightarrow> nat \<Rightarrow> 'p awaitPhase \<Rightarrow> 'p corrEvent list" where
  "settleEvents d a Allocated = [Register a, EmitDone a, Expire a d]"
| "settleEvents d a Registered = [EmitDone a, Expire a d]"
| "settleEvents d a Waiting = [Expire a d]"
| "settleEvents d a (Returned r) = []"

lemma settle_run:
  assumes "corrRun idPrefix s0 es s" "phaseOf s a = Some ph"
  shows "\<exists>s' r. corrRun idPrefix s0 (es @ settleEvents d a ph) s' \<and> phaseOf s' a = Some (Returned r)"
proof -
  have waiting: "\<exists>s' r. corrRun idPrefix s0 (es @ [Expire a d]) s' \<and> phaseOf s' a = Some (Returned r)"
    if "corrRun idPrefix s0 es s" "phaseOf s a = Some Waiting" for es s
    using settle_steps(3) [OF that(2)] run_snoc [OF that(1)] by blast
  have registered: "\<exists>s' r. corrRun idPrefix s0 (es @ [EmitDone a, Expire a d]) s' \<and> phaseOf s' a = Some (Returned r)"
    if "corrRun idPrefix s0 es s" "phaseOf s a = Some Registered" for es s
    using settle_steps(2) [OF that(2) refl] run_snoc [OF that(1)] waiting [of "es @ [EmitDone a]"]
    by (metis append.assoc append_Cons append_Nil)
  show ?thesis
  proof (cases ph)
    case Allocated
    then obtain t where "corrStep idPrefix s (Register a) t" "phaseOf t a = Some Registered"
      using settle_steps(1) [OF assms(2)] by blast
    then show ?thesis
      using registered [of "es @ [Register a]" t] run_snoc [OF assms(1)] Allocated by auto
  qed (use assms waiting registered in auto)
qed

text \<open>
  C29: responses reach the request they answer and nothing is left behind. In every run of concurrent
  awaits and deliveries the request identifiers are distinct; an await that returns a payload returns
  one that was delivered under its own identifier; a delivery that has claimed an await finds room in
  its channel, so the control handler never blocks; and every entry of \<open>pending\<close> belongs to an await
  that has not returned, so the map is empty once all have.
\<close>

theorem correlator_pairs_responses:
  assumes run: "corrRun idPrefix newCorrelator es s"
  shows "distinct (map aID (awaits s))
     \<and> (\<forall>a p. phaseOf s a = Some (Returned (Inr p)) \<longrightarrow> Deliver (aID (awaits s ! a)) p \<in> set es)
     \<and> (\<forall>a p. (a, p) \<in> set (sending s) \<longrightarrow> a < length (awaits s) \<and> aChan (awaits s ! a) = None)
     \<and> (\<forall>i a. pending s i = Some a \<longrightarrow> a < length (awaits s) \<and> i = aID (awaits s ! a)
              \<and> \<not> finished (aPhase (awaits s ! a)))"
proof -
  note inv = corrInvD [OF corrInv_run [OF run]]
  have "distinct (map aID (awaits s))"
    by (simp add: distinct_conv_nth inv(2))
  moreover have "aChan (awaits s ! a) = None" if "(a, p) \<in> set (sending s)" for a p
    using inv(6) [OF inv(5) [OF that]] that by (force simp: awaitInv_def Let_def)
  moreover have "\<not> finished (aPhase (awaits s ! a))" if "pending s (aID (awaits s ! a)) = Some a" for a
    using inv(6) [of a] inv(3) [OF that] that by (auto simp: awaitInv_def Let_def finished_iff)
  ultimately show ?thesis
    using inv(2,3,5,6) by (force simp: phaseOf_Some awaitInv_def Let_def)
qed

text \<open>
  An await is never stuck. From any state a run can reach, an outstanding await returns by its own
  steps alone, at most three of them, whatever the other awaits and the deliveries have done.
\<close>

theorem correlator_await_settles:
  assumes run: "corrRun idPrefix newCorrelator es s" and a: "a < length (awaits s)"
  shows "\<exists>s' r. corrRun idPrefix newCorrelator (es @ settleEvents timeout a (aPhase (awaits s ! a))) s'
     \<and> phaseOf s' a = Some (Returned r) \<and> length (settleEvents timeout a (aPhase (awaits s ! a))) \<le> 3"
proof -
  have "phaseOf s a = Some (aPhase (awaits s ! a))"
    using a by (simp add: phaseOf_def)
  then show ?thesis
    using settle_run [OF run, of a _ timeout] by (cases "aPhase (awaits s ! a)") fastforce+
qed

section \<open>A run\<close>

text \<open>Two awaits; the second is answered first, and the first times out after its response is dropped.\<close>

definition exampleRun :: "string corrEvent list" where
  "exampleRun = [Begin, Begin, Register 0, Register 1, EmitDone 1, Deliver ''req-2'' ''ok'', Send 1 ''ok'', Receive 1]"

definition exampleState :: "string correlator" where
  "exampleState = \<lparr>nextID = 2, pending = [''req-1'' \<mapsto> 0],
     awaits = [\<lparr>aID = ''req-1'', aPhase = Registered, aChan = None\<rparr>,
               \<lparr>aID = ''req-2'', aPhase = Returned (Inr ''ok''), aChan = None\<rparr>], sending = []\<rparr>"

lemma corrRun_Cons:
  assumes "corrRun px t es u" "corrStep px s e t"
  shows "corrRun px s (e # es) u"
  using assms
proof (induction t es u rule: corrRun.induct)
  case (run_nil t)
  then show ?case using corrRun.run_snoc [OF corrRun.run_nil] by force
next
  case (run_snoc t es u e' v)
  then show ?case using corrRun.run_snoc [of px s "e # es" u e' v] by simp
qed

lemma example_run: "corrRun [] newCorrelator exampleRun exampleState"
proof -
  let ?s2 = "nextRequestID [] (nextRequestID [] newCorrelator) :: string correlator"
  have ids: "requestIDOf [] (Suc 0) = ''req-1''" "requestIDOf [] 2 = ''req-2''"
    by code_simp+
  have s2: "?s2 = \<lparr>nextID = 2, pending = (\<lambda>_. None), awaits = [\<lparr>aID = ''req-1'', aPhase = Allocated, aChan = None\<rparr>,
      \<lparr>aID = ''req-2'', aPhase = Allocated, aChan = None\<rparr>], sending = []\<rparr>"
    using ids by (simp add: nextRequestID_def newCorrelator_def numeral_2_eq_2)
  let ?s4 = "register 1 (register 0 ?s2)"
  have s4: "?s4 = \<lparr>nextID = 2, pending = [''req-1'' \<mapsto> 0, ''req-2'' \<mapsto> 1],
      awaits = [\<lparr>aID = ''req-1'', aPhase = Registered, aChan = None\<rparr>, \<lparr>aID = ''req-2'', aPhase = Registered, aChan = None\<rparr>],
      sending = []\<rparr>"
    unfolding s2 by (simp add: corr_ops)
  let ?s5 = "setAwait 1 (aPhase_update (\<lambda>_. Waiting)) ?s4"
  let ?s6 = "deliver ''req-2'' ''ok'' ?s5"
  let ?s7 = "(setAwait 1 (aChan_update (\<lambda>_. Some ''ok'')) ?s6)\<lparr>sending := [] @ []\<rparr>"
  let ?s8 = "setAwait 1 (\<lambda>w. w\<lparr>aPhase := Returned (Inr ''ok''), aChan := None\<rparr>) ?s7"
  have s6: "sending ?s6 = [] @ (1, ''ok'') # []" "aChan (awaits ?s6 ! 1) = None"
    unfolding s4 by (simp_all add: corr_ops)
  have s7: "phaseOf ?s7 1 = Some Waiting" "aChan (awaits ?s7 ! 1) = Some ''ok''"
    unfolding s4 by (simp_all add: corr_ops phaseOf_def)
  have "?s8 = exampleState"
    unfolding s4 by (simp add: corr_ops exampleState_def)
  moreover have "corrRun [] newCorrelator exampleRun ?s8"
    unfolding exampleRun_def
    by (intro corrRun_Cons [OF _ step_begin] corrRun_Cons [OF _ step_register] corrRun_Cons [OF _ step_emit]
        corrRun_Cons [OF _ step_deliver] corrRun_Cons [OF _ step_send [OF s6]] corrRun_Cons [OF _ step_receive [OF s7]] run_nil)
      (simp_all add: s2 register_def setAwait_def phaseOf_def)
  ultimately show ?thesis
    by simp
qed

theorem correlator_pairs_responses_witness:
  "phaseOf exampleState 1 = Some (Returned (Inr ''ok'')) \<and> Deliver ''req-2'' ''ok'' \<in> set exampleRun
   \<and> pending exampleState ''req-1'' = Some 0"
proof -
  have ph: "phaseOf exampleState 1 = Some (Returned (Inr ''ok''))" and "aID (awaits exampleState ! 1) = ''req-2''"
    by (simp_all add: exampleState_def phaseOf_def)
  moreover have "Deliver (aID (awaits exampleState ! 1)) ''ok'' \<in> set exampleRun"
    using correlator_pairs_responses [OF example_run] ph by blast
  ultimately show ?thesis
    by (simp add: exampleState_def)
qed

theorem correlator_await_settles_witness:
  "\<exists>s' r. corrRun [] newCorrelator (exampleRun @ [EmitDone 0, Expire 0 ''1m0s'']) s' \<and> phaseOf s' 0 = Some (Returned r)"
  using correlator_await_settles [OF example_run, of 0 "''1m0s''"]
  by (auto simp: exampleState_def)

end
