(* ===== verification/Tool_Dispatch.thy ===== *)
theory Tool_Dispatch
  imports Loop_History Loop_Stall Permission Guard_Rail Correlator
begin

text \<open>
  Dispatch of the tool calls of one assistant turn: \<open>core/dispatch.go\<close>, the call path of
  \<open>core/types.go\<close> (\<open>preflightToolCall\<close>, \<open>executeToolCall\<close>, \<open>dispatchAsyncToolCall\<close>),
  \<open>core/resultbudget.go\<close> and \<open>core/invalidargs.go\<close>. Synchronous handlers change the world \<open>'w\<close>, which
  is whatever the tools act on together with the set of lazily loaded tools. What leaves the loop, and
  every handler call, is recorded in order in a log. Clocks, spans and metrics are left out.
\<close>

section \<open>Bounded results and malformed arguments\<close>

definition toolResultReadMoreHint :: "string \<Rightarrow> string" where
  "toolResultReadMoreHint internalName =
     (if internalName = ''read_file''
      then ''Continue with read_file, setting start_line to the last line shown, or pass a smaller limit''
      else ''Narrow the request to see the rest'')"

definition toolResultTruncation :: "nat \<Rightarrow> nat \<Rightarrow> nat \<Rightarrow> string \<Rightarrow> string" where
  "toolResultTruncation shown whole offset hint =
     nl # ''[tool result truncated: showing the first '' @ Itoa (int shown) @ '' of '' @ Itoa (int whole)
     @ '' bytes; the omitted part starts at byte offset '' @ Itoa (int offset) @ ''. '' @ hint @ '']''"

definition boundToolResult :: "string \<Rightarrow> int \<Rightarrow> string \<Rightarrow> string \<times> bool" where
  "boundToolResult output' budget internalName =
     (if len output' \<le> budget then (output', False)
      else let hint = toolResultReadMoreHint internalName;
               n = length output';
               longest = toolResultTruncation n n n hint;
               cut0 = budget - len longest;
               cut = headLoop output' (nat (if cut0 < 0 then 0 else cut0))
           in (take cut output' @ toolResultTruncation cut n cut hint, True))"

text \<open>The width of the rune \<open>range\<close> decodes at the start of a string; an invalid byte is one rune.\<close>

definition cont :: "nat \<Rightarrow> nat \<Rightarrow> string \<Rightarrow> nat \<Rightarrow> bool" where
  "cont lo hi s i = (i < length s \<and> lo \<le> of_char (s ! i) \<and> of_char (s ! i) \<le> hi)"

definition runeWidth :: "string \<Rightarrow> nat" where
  "runeWidth s =
     (let b = (of_char (s ! 0) :: nat); tail = cont 128 191 s in
      if 194 \<le> b \<and> b \<le> 223 then (if tail 1 then 2 else 1)
      else if 224 \<le> b \<and> b \<le> 239
      then (if cont (if b = 224 then 160 else 128) (if b = 237 then 159 else 191) s 1 \<and> tail 2 then 3 else 1)
      else if 240 \<le> b \<and> b \<le> 244
      then (if cont (if b = 240 then 144 else 128) (if b = 244 then 143 else 191) s 1 \<and> tail 2 \<and> tail 3 then 4 else 1)
      else 1)"

fun truncateRunesLoop :: "nat \<Rightarrow> nat \<Rightarrow> string \<Rightarrow> nat option" where
  "truncateRunesLoop n i [] = None"
| "truncateRunesLoop n i (c # s) =
     (if n = 0 then Some i
      else truncateRunesLoop (n - 1) (i + runeWidth (c # s)) (drop (runeWidth (c # s) - 1) s))"

definition truncateRunes :: "string \<Rightarrow> nat \<Rightarrow> string \<times> bool" where
  "truncateRunes s n = (case truncateRunesLoop n 0 s of Some i \<Rightarrow> (take i s, True) | None \<Rightarrow> (s, False))"

definition truncateBytes :: "string \<Rightarrow> nat \<Rightarrow> string \<times> bool" where
  "truncateBytes s n = (if length s \<le> n then (s, False) else (take (headLoop s n) s, True))"

definition invalidArgsQuoteRunes :: nat where "invalidArgsQuoteRunes = 200"
definition invalidArgsTraceBytes :: nat where "invalidArgsTraceBytes = 4 * 1024"
definition invalidArgsScrubWindow :: nat where "invalidArgsScrubWindow = 64 * 1024"
definition asyncResultTruncationSuffix :: string where "asyncResultTruncationSuffix = ''... [truncated by harness]''"

definition scrubbedInvalidArgs :: "(string \<Rightarrow> string) \<Rightarrow> string \<Rightarrow> string" where
  "scrubbedInvalidArgs scrub raw = scrub (fst (truncateBytes raw invalidArgsScrubWindow))"

definition invalidArgsMessage :: "(string \<Rightarrow> string) \<Rightarrow> string \<Rightarrow> InvalidToolInput \<Rightarrow> string" where
  "invalidArgsMessage scrub name mark =
     (let (quoted, cut) = truncateRunes (scrubbedInvalidArgs scrub (Raw mark)) invalidArgsQuoteRunes;
          label = (if cut then ''First '' @ Itoa (int invalidArgsQuoteRunes) @ '' characters of the arguments received''
                   else ''Arguments received'')
      in ''Your arguments for `'' @ name @ ''` were not valid JSON: `'' @ scrub (invError mark)
         @ ''`. Re-issue the call with valid JSON.'' @ [nl] @ label @ '': '' @ quoted)"

definition invalidArgsTraceReason :: "(string \<Rightarrow> string) \<Rightarrow> string \<Rightarrow> InvalidToolInput \<Rightarrow> string" where
  "invalidArgsTraceReason scrub name mark =
     (let (raw, cut) = truncateBytes (scrubbedInvalidArgs scrub (Raw mark)) invalidArgsTraceBytes
      in ''arguments for '' @ name @ '' were not valid JSON: '' @ scrub (invError mark) @ ''; raw arguments (''
         @ Itoa (len (Raw mark)) @ '' bytes): '' @ raw @ (if cut then asyncResultTruncationSuffix else []))"

definition stallInput :: "ToolCall \<Rightarrow> string" where
  "stallInput call = (case InvalidInput call of Some mark \<Rightarrow> Raw mark | None \<Rightarrow> tcInput call)"

definition toolInputSize :: "ToolCall \<Rightarrow> int" where
  "toolInputSize call = (case InvalidInput call of Some mark \<Rightarrow> len (Raw mark) | None \<Rightarrow> len (tcInput call))"

section \<open>Tools and their environment\<close>

record StructuredResult =
  srText :: string
  srStructured :: string
  srKind :: string
  srIsError :: bool

datatype asyncStart = AsyncPanic string | AsyncError string | AsyncDispatch int

record 'w tool =
  tName :: string
  tDescription :: string
  tInputSchema :: string
  WorkspaceMutating :: bool
  RequiresApproval :: bool
  SelfBoundedResult :: bool
  StructuredHandler :: "(string \<Rightarrow> 'w \<Rightarrow> (string + StructuredResult) \<times> 'w) option"
  Handler :: "(string \<Rightarrow> 'w \<Rightarrow> (string + string) \<times> 'w) option"
  AsyncHandler :: "(string \<Rightarrow> asyncStart) option"

definition toolDefinitionOf :: "'w tool \<Rightarrow> ToolDefinition" where
  "toolDefinitionOf t = \<lparr>tdName = tName t, Description = tDescription t, InputSchema = tInputSchema t, Deferred = False,
     Namespace = [], NamespaceDescription = []\<rparr>"

record lazySearch =
  lsNative :: bool
  lsTool :: string

definition notLoadedMessage :: "(string \<Rightarrow> string) \<Rightarrow> lazySearch \<Rightarrow> string \<Rightarrow> string" where
  "notLoadedMessage quote s name =
     (if lsNative s then ''Tool '' @ quote name @ '' is not loaded; search for it with '' @ lsTool s @ '' first''
      else ''Tool '' @ quote name @ '' is not loaded; call tool_search to load it first'')"

datatype asyncPayload = AsyncToolResult string bool | OtherPayload string

text \<open>
  What the call path consults. \<open>lazyUnloaded\<close> is absent without lazy loading; \<open>strip\<close>, \<open>validateSchema\<close>
  and \<open>guardFindings\<close> are the functions of package \<open>security\<close>, \<open>scrubGuard\<close> is \<open>ScrubForGuard\<close> with its
  count; \<open>awaitResponse\<close> is what the correlator's await returns for a call, absent on a transport that
  cannot answer.
\<close>

record 'w dispatchEnv =
  resolveTool :: "string \<Rightarrow> 'w tool option"
  listTools :: "ToolDefinition list"
  lazyUnloaded :: "('w \<Rightarrow> string \<Rightarrow> bool) option"
  lazyLoaded :: "'w \<Rightarrow> string list"
  turnSearch :: lazySearch
  equalFold :: "string \<Rightarrow> string \<Rightarrow> bool"
  strip :: "string \<Rightarrow> string + string \<times> string list"
  validateSchema :: "string \<Rightarrow> string \<Rightarrow> string option"
  guardFindings :: "string \<Rightarrow> bool \<Rightarrow> string \<Rightarrow> string list"
  scrubText :: "string \<Rightarrow> string"
  quoteText :: "string \<Rightarrow> string"
  scrubGuard :: "string \<Rightarrow> string \<times> nat"
  jsonValid :: "string \<Rightarrow> bool"
  jsonString :: "string \<Rightarrow> string"
  guardOf :: "guardRail option"
  guardCtxErr :: "string \<Rightarrow> nat \<Rightarrow> guardError option"
  failOpenOf :: bool
  runMode :: string
  runID :: string
  permissions :: policy
  permEnv :: permissionEnv
  awaitResponse :: "(ToolCall \<Rightarrow> string \<Rightarrow> int \<Rightarrow> awaitError + asyncPayload) option"

datatype dispatchEvent =
    PrototypePollutionBlocked string "string list"
  | ToolInputRejected string string
  | ToolCallGuardTriggered string "string list"
  | PermissionRequest string
  | PermissionDenied string string
  | HandlerRan ToolCall string
  | ToolResultRequest ToolCall string
  | ToolResultEvent string string string bool
  | ToolsLoaded string string "string list"

section \<open>Preflight (types.go)\<close>

definition renamedToolHint :: "string \<Rightarrow> string option" where
  "renamedToolHint name =
     (if name = ''search_files''
      then Some ''tool not found: search_files; use grep_files (regex content search) or find_files (glob filename search)''
      else None)"

fun caseFoldedLoop :: "(string \<Rightarrow> string \<Rightarrow> bool) \<Rightarrow> string \<Rightarrow> string \<Rightarrow> ToolDefinition list \<Rightarrow> string option" where
  "caseFoldedLoop fold_eq name match [] = (if match \<noteq> [] then Some match else None)"
| "caseFoldedLoop fold_eq name match (td # tds) =
     (if tdName td = name \<or> \<not> fold_eq (tdName td) name then caseFoldedLoop fold_eq name match tds
      else if match \<noteq> [] then None
      else caseFoldedLoop fold_eq name (tdName td) tds)"

definition caseFoldedToolName :: "(string \<Rightarrow> string \<Rightarrow> bool) \<Rightarrow> string \<Rightarrow> ToolDefinition list \<Rightarrow> string option" where
  "caseFoldedToolName fold_eq name tools = caseFoldedLoop fold_eq name [] tools"

definition isUnloaded :: "'w dispatchEnv \<Rightarrow> 'w \<Rightarrow> string \<Rightarrow> bool" where
  "isUnloaded env w name = (case lazyUnloaded env of None \<Rightarrow> False | Some f \<Rightarrow> f w name)"

definition unloadedTool :: "'w dispatchEnv \<Rightarrow> 'w \<Rightarrow> string \<Rightarrow> bool" where
  "unloadedTool env w name =
     (case resolveTool env name of None \<Rightarrow> False | Some t \<Rightarrow> isUnloaded env w (tName t))"

text \<open>The cleaned input, or the rejection text and its category, with the security events.\<close>

definition preflightToolCall ::
  "'w dispatchEnv \<Rightarrow> 'w \<Rightarrow> ToolCall \<Rightarrow> 'w tool option \<Rightarrow> ((string \<times> string) + string) \<times> dispatchEvent list" where
  "preflightToolCall env w call t0 =
     (case t0 of
        None \<Rightarrow>
          (Inl (case renamedToolHint (tcName call) of
                  Some msg \<Rightarrow> msg
                | None \<Rightarrow>
                    (case caseFoldedToolName (equalFold env) (tcName call) (listTools env) of
                       Some name \<Rightarrow>
                         if \<not> unloadedTool env w name
                         then ''Unknown tool: '' @ tcName call @ ''. Tool names are case-sensitive; call '' @ name @ '' instead.''
                         else ''Unknown tool: '' @ tcName call
                     | None \<Rightarrow> ''Unknown tool: '' @ tcName call), ''unknown_tool''), [])
      | Some t \<Rightarrow>
          if isUnloaded env w (tName t)
          then (Inl (notLoadedMessage (quoteText env) (turnSearch env) (tcName call), ''tool_not_loaded''), [])
          else case InvalidInput call of
            Some mark \<Rightarrow> (Inl (invalidArgsMessage (scrubText env) (tcName call) mark, ''invalid_arguments''), [])
          | None \<Rightarrow>
              let (dropped, inputForCall) =
                    (case strip env (tcInput call) of
                       Inl err \<Rightarrow> ([], tcInput call)
                     | Inr (cleaned, dropped) \<Rightarrow> if dropped \<noteq> [] then (dropped, cleaned) else ([], tcInput call));
                  evs = (if dropped \<noteq> [] then [PrototypePollutionBlocked (tcName call) dropped] else [])
              in case validateSchema env inputForCall (tInputSchema t) of
                   Some err \<Rightarrow>
                     (Inl (''Invalid input for '' @ tcName call @ '': '' @ err, ''schema_validation_failed''),
                      evs @ [ToolInputRejected (tcName call) err])
                 | None \<Rightarrow>
                     let findings = guardFindings env (tName t) (WorkspaceMutating t) (tcInput call)
                     in if findings \<noteq> []
                        then (Inl (''Tool call rejected by security guard for '' @ tcName call, ''security_guard_denied''),
                              evs @ [ToolCallGuardTriggered (tcName call) findings])
                        else (Inr inputForCall, evs))"

section \<open>Execution (types.go)\<close>

record structuredOutput =
  soPayload :: string
  soKind :: string

definition noStructured :: structuredOutput where
  "noStructured = \<lparr>soPayload = [], soKind = []\<rparr>"

record execResult =
  exOutput :: string
  exSuccess :: bool
  exCategory :: string
  exStructured :: structuredOutput
  exPanic :: "string option"

definition failed :: "string \<Rightarrow> string \<Rightarrow> execResult" where
  "failed msg category = \<lparr>exOutput = msg, exSuccess = False, exCategory = category, exStructured = noStructured, exPanic = None\<rparr>"

definition succeeded :: "string \<Rightarrow> structuredOutput \<Rightarrow> execResult" where
  "succeeded out so = \<lparr>exOutput = out, exSuccess = True, exCategory = [], exStructured = so, exPanic = None\<rparr>"

record controlEvent =
  ceType :: string
  ceRequestID :: string
  ceContent :: string
  ceIsError :: "bool option"

definition maxAsyncToolResultBytes :: nat where "maxAsyncToolResultBytes = 2 ^ 20"

definition extractAsyncToolResult :: "controlEvent \<Rightarrow> (string \<times> asyncPayload) option" where
  "extractAsyncToolResult event =
     (if ceType event \<noteq> ''tool_result_response'' then None
      else let content = (if length (ceContent event) > maxAsyncToolResultBytes
                          then take maxAsyncToolResultBytes (ceContent event) @ asyncResultTruncationSuffix
                          else ceContent event)
           in Some (ceRequestID event, AsyncToolResult content (ceIsError event = Some True)))"

definition DefaultAsyncToolTimeout :: int where "DefaultAsyncToolTimeout = 60 * 10 ^ 9"

definition Contains :: "string \<Rightarrow> string \<Rightarrow> bool" where
  "Contains s sub = (Index s sub \<noteq> None)"

text \<open>\<open>errors.Is\<close> against a context error; only a cancelled await wraps one.\<close>

fun awaitErrorIs :: "awaitError \<Rightarrow> string \<Rightarrow> bool" where
  "awaitErrorIs (AwaitCancelled requestID err) target = (err = target)"
| "awaitErrorIs _ target = False"

definition dispatchAsyncToolCall ::
  "'w dispatchEnv \<Rightarrow> (string \<Rightarrow> asyncStart) \<Rightarrow> ToolCall \<Rightarrow> string \<Rightarrow> execResult \<times> dispatchEvent list" where
  "dispatchAsyncToolCall env handler call inputForCall =
     (let say = (\<lambda>what. ''async tool '' @ tcName call @ what) in
      case awaitResponse env of
        None \<Rightarrow> (failed (say '' unavailable: this loop has no live control-plane transport'') ''async_transport_unavailable'', [])
      | Some awaiting \<Rightarrow>
          let called = [HandlerRan call inputForCall] in
          case handler inputForCall of
            AsyncPanic v \<Rightarrow> ((failed [] [])\<lparr>exPanic := Some v\<rparr>, called)
          | AsyncError err \<Rightarrow> (failed (say ('' internal error: '' @ err)) ''async_preflight_error'', called)
          | AsyncDispatch dispatchTimeout \<Rightarrow>
              let timeout = (if dispatchTimeout \<le> 0 then DefaultAsyncToolTimeout else dispatchTimeout);
                  evs = called @ [ToolResultRequest call inputForCall]
              in (case awaiting call inputForCall timeout of
                    Inl err \<Rightarrow>
                      let txt = awaitErrorText err in
                      if Contains txt ''emit failed''
                      then failed (say ('' transport_disconnect: '' @ txt)) ''async_transport_unavailable''
                      else if awaitErrorIs err ''context deadline exceeded''
                      then failed (say ('' timeout: '' @ txt)) ''async_timeout''
                      else if awaitErrorIs err ''context canceled''
                      then failed (say ('' cancelled: '' @ txt)) ''async_cancelled''
                      else failed (say ('' timeout: '' @ txt)) ''async_timeout''
                  | Inr (OtherPayload typ) \<Rightarrow>
                      failed (say ('' internal error: unexpected payload type '' @ typ)) ''async_internal_error''
                  | Inr (AsyncToolResult content isError) \<Rightarrow>
                      if isError then failed (say ('' upstream_error: '' @ scrubText env content)) ''async_upstream_error''
                      else succeeded content noStructured, evs))"

text \<open>The handlers a synchronous call ends in.\<close>

definition runHandler ::
  "'w tool \<Rightarrow> ToolCall \<Rightarrow> string \<Rightarrow> 'w \<Rightarrow> execResult \<times> 'w \<times> dispatchEvent list" where
  "runHandler t call input w =
     (let called = [HandlerRan call input] in
      case StructuredHandler t of
        Some h \<Rightarrow>
          (case h input w of
             (Inl err, w') \<Rightarrow> (failed (''Tool error: '' @ err) ''handler_error'', w', called)
           | (Inr res, w') \<Rightarrow>
               let so = \<lparr>soPayload = srStructured res, soKind = srKind res\<rparr>
               in if srIsError res
                  then (\<lparr>exOutput = srText res, exSuccess = False, exCategory = ''handler_error'', exStructured = so, exPanic = None\<rparr>, w', called)
                  else (succeeded (srText res) so, w', called))
      | None \<Rightarrow>
          (case Handler t of
             Some h \<Rightarrow>
               (case h input w of
                  (Inl err, w') \<Rightarrow> (failed (''Tool error: '' @ err) ''handler_error'', w', called)
                | (Inr out, w') \<Rightarrow> (succeeded out noStructured, w', called))
           | None \<Rightarrow> (failed (''Tool '' @ tcName call @ '' has no handler registered'') ''handler_missing'', w, [])))"

text \<open>The permission check: the failure it ends the call with, if any.\<close>

definition permissionCheck ::
  "'w dispatchEnv \<Rightarrow> 'w tool \<Rightarrow> ToolCall \<Rightarrow> string \<Rightarrow> execResult option \<times> dispatchEvent list" where
  "permissionCheck env t call input =
     (if WorkspaceMutating t \<or> RequiresApproval t
      then case PolicyCheck (permEnv env) (permissions env) (toolDefinitionOf t) input of
             (Inl err, asked) \<Rightarrow>
               (Some (failed (''Permission check error: '' @ err) ''permission_error''), map PermissionRequest asked)
           | (Inr result, asked) \<Rightarrow>
               if \<not> Allowed result
               then (Some (failed (''Permission denied: '' @ PReason result) ''permission_denied''),
                     map PermissionRequest asked @ [PermissionDenied (tcName call) (PReason result)])
               else (None, map PermissionRequest asked)
      else (None, []))"

definition executeToolCall ::
  "'w dispatchEnv \<Rightarrow> 'w tool \<Rightarrow> ToolCall \<Rightarrow> string \<Rightarrow> 'w \<Rightarrow> execResult \<times> 'w \<times> dispatchEvent list" where
  "executeToolCall env t call input w =
     (case permissionCheck env t call input of
        (Some failure, evs) \<Rightarrow> (failure, w, evs)
      | (None, evs) \<Rightarrow>
          (case AsyncHandler t of
             Some h \<Rightarrow> (case dispatchAsyncToolCall env h call input of (r, evs') \<Rightarrow> (r, w, evs @ evs'))
           | None \<Rightarrow> (case runHandler t call input w of (r, w', evs') \<Rightarrow> (r, w', evs @ evs'))))"

section \<open>Phase 1: resolve, check, and run the synchronous calls (dispatch.go)\<close>

record 'w pendingCall =
  pcCall :: ToolCall
  pcInternalName :: string
  pcTool :: "'w tool option"
  pcInput :: string
  pcOutput :: string
  pcStructured :: structuredOutput
  pcSuccess :: bool
  pcErrorReason :: string
  pcCategory :: string
  pcToolsLoaded :: "string list"

definition newPending :: "ToolCall \<Rightarrow> 'w tool option \<Rightarrow> 'w pendingCall" where
  "newPending call t =
     \<lparr>pcCall = call, pcInternalName = (case t of None \<Rightarrow> tcName call | Some t' \<Rightarrow> tName t'), pcTool = None, pcInput = [],
      pcOutput = [], pcStructured = noStructured, pcSuccess = False, pcErrorReason = [], pcCategory = [], pcToolsLoaded = []\<rparr>"

definition settle :: "execResult \<Rightarrow> 'w pendingCall \<Rightarrow> 'w pendingCall" where
  "settle r p = p\<lparr>pcOutput := exOutput r, pcStructured := exStructured r, pcSuccess := exSuccess r, pcCategory := exCategory r\<rparr>"

definition scrubToolInputForGuard :: "'w dispatchEnv \<Rightarrow> string \<Rightarrow> guardInput \<Rightarrow> guardInput" where
  "scrubToolInputForGuard env input inp =
     (case scrubGuard env input of (scrubbed, hits) \<Rightarrow>
        if hits = 0 then inp
        else inp\<lparr>giContent := scrubbed,
                 giToolInput := (if jsonValid env scrubbed then scrubbed else jsonString env scrubbed),
                 giRedactedSpans := Itoa (int hits)\<rparr>)"

definition preToolGuardInput :: "'w dispatchEnv \<Rightarrow> ToolCall \<Rightarrow> 'w tool \<Rightarrow> string \<Rightarrow> guardInput" where
  "preToolGuardInput env call t input =
     (let inp = \<lparr>Phase = ''pre_tool'', giContent = input, giSource = ''tool_call:'' @ tcName call, giToolName = tName t,
                 giToolInput = input, IgnoreMinChunk = False, giMode = runMode env, giRunID = runID env, giRedactedSpans = []\<rparr>
      in if ChecksPhase (guardOf env) ''pre_tool'' then scrubToolInputForGuard env input inp else inp)"

definition preToolCheck :: "'w dispatchEnv \<Rightarrow> ToolCall \<Rightarrow> 'w tool \<Rightarrow> string \<Rightarrow> bool \<times> Decision option \<times> bool" where
  "preToolCheck env call t input =
     guardCheck (scrubText env) (quoteText env) (guardCtxErr env) (guardOf env) (preToolGuardInput env call t input) (failOpenOf env)"

definition blockedToolMessage :: string where "blockedToolMessage = ''guardrail blocked tool call''"

definition blockedReason :: "'w dispatchEnv \<Rightarrow> Decision option \<Rightarrow> string" where
  "blockedReason env d =
     (case d of
        Some d' \<Rightarrow> if dReason d' \<noteq> [] then blockedToolMessage @ '': '' @ scrubText env (dReason d') else blockedToolMessage
      | None \<Rightarrow> blockedToolMessage)"

datatype 'w callPlan = Settled "'w pendingCall" | Queued "'w pendingCall"

fun planCall :: "'w callPlan \<Rightarrow> 'w pendingCall" where
  "planCall (Settled p) = p"
| "planCall (Queued p) = p"

definition planOne :: "'w dispatchEnv \<Rightarrow> ToolCall \<Rightarrow> 'w \<Rightarrow> 'w callPlan \<times> 'w \<times> dispatchEvent list" where
  "planOne env call w =
     (let t0 = resolveTool env (tcName call); p = newPending call t0 in
      case preflightToolCall env w call t0 of
        (Inl (rejection, category), evs) \<Rightarrow>
          (Settled (p\<lparr>pcOutput := rejection, pcCategory := category,
             pcErrorReason := (if category = ''invalid_arguments''
                               then (case InvalidInput call of
                                       Some mark \<Rightarrow> invalidArgsTraceReason (scrubText env) (tcName call) mark
                                     | None \<Rightarrow> [])
                               else [])\<rparr>), w, evs)
      | (Inr input, evs) \<Rightarrow>
          (case t0 of
             None \<Rightarrow> (Settled p, w, evs)
           | Some t \<Rightarrow>
               let p1 = p\<lparr>pcTool := Some t, pcInput := input\<rparr> in
               (case preToolCheck env call t input of
                  (allow, decision, _) \<Rightarrow>
                    if \<not> allow
                    then (Settled (p1\<lparr>pcOutput := blockedToolMessage, pcErrorReason := blockedReason env decision,
                            pcCategory := ''guardrail_denied''\<rparr>), w, evs)
                    else if AsyncHandler t \<noteq> None then (Queued p1, w, evs)
                    else case executeToolCall env t call input w of
                           (r, w', evs') \<Rightarrow>
                             (Settled ((settle r p1)\<lparr>pcToolsLoaded := drop (length (lazyLoaded env w)) (lazyLoaded env w')\<rparr>),
                              w', evs @ evs'))))"

fun planCalls :: "'w dispatchEnv \<Rightarrow> ToolCall list \<Rightarrow> 'w \<Rightarrow> 'w callPlan list \<times> 'w \<times> dispatchEvent list" where
  "planCalls env [] w = ([], w, [])"
| "planCalls env (call # calls) w =
     (case planOne env call w of
        (c, w1, evs1) \<Rightarrow> (case planCalls env calls w1 of (cs, w2, evs2) \<Rightarrow> (c # cs, w2, evs1 @ evs2)))"

section \<open>Phase 2: the asynchronous calls\<close>

text \<open>An asynchronous call that panics is recovered by its goroutine; \<open>exPanic\<close> carries the value.\<close>

text \<open>What the goroutine of a queued call leaves in its plan entry.\<close>

definition runQueued :: "'w dispatchEnv \<Rightarrow> 'w \<Rightarrow> 'w pendingCall \<Rightarrow> 'w pendingCall \<times> dispatchEvent list" where
  "runQueued env w p =
     (case pcTool p of
        None \<Rightarrow> (p, [])
      | Some t \<Rightarrow>
          (case executeToolCall env t (pcCall p) (pcInput p) w of
             (r, _, evs) \<Rightarrow>
               (case exPanic r of
                  None \<Rightarrow> (settle r p, evs)
                | Some v \<Rightarrow>
                    (p\<lparr>pcOutput := ''async tool '' @ tcName (pcCall p) @ '' panic: '' @ scrubText env v, pcSuccess := False,
                       pcCategory := ''async_panic''\<rparr>, evs))))"

record 'w fanOut =
  foPlan :: "'w callPlan list"
  foTodo :: "nat list"
  foRunning :: "nat list"
  foLog :: "dispatchEvent list"

definition asyncIndices :: "'w callPlan list \<Rightarrow> nat list" where
  "asyncIndices plan = filter (\<lambda>i. case plan ! i of Queued _ \<Rightarrow> True | Settled _ \<Rightarrow> False) [0..<length plan]"

definition startFanOut :: "'w callPlan list \<Rightarrow> dispatchEvent list \<Rightarrow> 'w fanOut" where
  "startFanOut plan evs = \<lparr>foPlan = plan, foTodo = asyncIndices plan, foRunning = [], foLog = evs\<rparr>"

definition maxParallelOf :: "int \<Rightarrow> int" where
  "maxParallelOf configured = (if configured < 1 then 1 else configured)"

text \<open>
  The loop starts the next call when the semaphore has room; a running call may finish at any time. A
  goroutine reads and writes its own plan entry only, so what it does is one step.
\<close>

inductive fanStep :: "'w dispatchEnv \<Rightarrow> 'w \<Rightarrow> int \<Rightarrow> 'w fanOut \<Rightarrow> 'w fanOut \<Rightarrow> bool" for env w maxParallel where
  start: "foTodo s = i # rest \<Longrightarrow> len (foRunning s) < maxParallelOf maxParallel
    \<Longrightarrow> fanStep env w maxParallel s (s\<lparr>foTodo := rest, foRunning := foRunning s @ [i]\<rparr>)"
| finish: "foRunning s = xs @ i # ys \<Longrightarrow> runQueued env w (planCall (foPlan s ! i)) = (p, evs)
    \<Longrightarrow> fanStep env w maxParallel s
          (s\<lparr>foPlan := (foPlan s)[i := Settled p], foRunning := xs @ ys, foLog := foLog s @ evs\<rparr>)"

text \<open>The deterministic schedule: each call to its end before the next is started.\<close>

fun settleOne :: "'w dispatchEnv \<Rightarrow> 'w \<Rightarrow> 'w callPlan \<Rightarrow> 'w pendingCall \<times> dispatchEvent list" where
  "settleOne env w (Settled p) = (p, [])"
| "settleOne env w (Queued p) = runQueued env w p"

definition settleAll :: "'w dispatchEnv \<Rightarrow> 'w \<Rightarrow> 'w callPlan list \<Rightarrow> 'w pendingCall list" where
  "settleAll env w plan = map (\<lambda>c. fst (settleOne env w c)) plan"

section \<open>Phase 3: close out in call order\<close>

definition EffectiveMaxResultBytes :: "int \<Rightarrow> int" where
  "EffectiveMaxResultBytes configured = (if configured \<le> 0 then 100 * 1024 else configured)"

definition EffectiveToolDispatchMaxParallel :: "int option \<Rightarrow> int" where
  "EffectiveToolDispatchMaxParallel configured =
     (case configured of None \<Rightarrow> 4 | Some n \<Rightarrow> if n = 0 then 4 else n)"

record ToolCallTrace =
  ctID :: string
  ctName :: string
  ctInternalName :: string
  ctSuccess :: bool
  ctErrorReason :: string
  ctInputSize :: int
  ctOutputSize :: int
  ctErrorCategory :: string

record ToolCallRecord =
  crID :: string
  crName :: string
  crInternalName :: string
  crInput :: string
  crOutput :: string
  crSuccess :: bool
  crStructured :: string
  crKind :: string
  crIsError :: bool

definition allToolFailureCategories :: "string list" where
  "allToolFailureCategories =
     [''unknown_tool'', ''tool_not_loaded'', ''invalid_arguments'', ''schema_validation_failed'', ''security_guard_denied'',
      ''permission_denied'', ''permission_error'', ''guardrail_denied'', ''handler_error'', ''handler_missing'',
      ''async_preflight_error'', ''async_transport_unavailable'', ''async_timeout'', ''async_cancelled'',
      ''async_upstream_error'', ''async_panic'', ''async_internal_error'', ''provider_request_failed'',
      ''provider_stream_failed'', ''stall_repeated_calls'', ''stall_consecutive_failures'', ''no_tool_when_required'']"

definition toolCallTrace :: "(string \<Rightarrow> string) \<Rightarrow> 'w pendingCall \<Rightarrow> ToolCallTrace" where
  "toolCallTrace scrub p =
     \<lparr>ctID = tcID (pcCall p), ctName = tcName (pcCall p),
      ctInternalName = (if pcInternalName p \<noteq> tcName (pcCall p) then pcInternalName p else []),
      ctSuccess = pcSuccess p,
      ctErrorReason = (if pcErrorReason p \<noteq> [] then pcErrorReason p
                       else if \<not> pcSuccess p then scrub (pcOutput p) else []),
      ctInputSize = toolInputSize (pcCall p), ctOutputSize = len (pcOutput p),
      ctErrorCategory = (if \<not> pcSuccess p \<and> pcCategory p \<in> set allToolFailureCategories then pcCategory p else [])\<rparr>"

definition boundPending :: "int \<Rightarrow> 'w pendingCall \<Rightarrow> 'w pendingCall" where
  "boundPending budget p =
     (if (case pcTool p of None \<Rightarrow> True | Some t \<Rightarrow> \<not> SelfBoundedResult t)
      then (case boundToolResult (pcOutput p) budget (pcInternalName p) of
              (bounded, wasCut) \<Rightarrow> if wasCut then p\<lparr>pcOutput := bounded, pcStructured := noStructured\<rparr> else p)
      else p)"

definition resultOf :: "'w pendingCall \<Rightarrow> ToolResult" where
  "resultOf p = \<lparr>trToolUseID = tcID (pcCall p), trContent = pcOutput p, trIsError = (\<not> pcSuccess p),
     trStructured = soPayload (pcStructured p), trKind = soKind (pcStructured p)\<rparr>"

definition recordOf :: "(string \<Rightarrow> string) \<Rightarrow> 'w pendingCall \<Rightarrow> ToolCallRecord" where
  "recordOf scrub p = \<lparr>crID = tcID (pcCall p), crName = tcName (pcCall p),
     crInternalName = ctInternalName (toolCallTrace scrub p), crInput = tcInput (pcCall p), crOutput = pcOutput p,
     crSuccess = pcSuccess p, crStructured = soPayload (pcStructured p), crKind = soKind (pcStructured p),
     crIsError = (\<not> pcSuccess p)\<rparr>"

record dispatchResult =
  drResults :: "ToolResult list"
  drRecords :: "ToolCallRecord list"
  drTraces :: "ToolCallTrace list"
  drOutcome :: string
  drStall :: stallDetector
  drLog :: "dispatchEvent list"

fun closeOut ::
  "'w dispatchEnv \<Rightarrow> (string \<Rightarrow> string) \<Rightarrow> 'v jsonCodec \<Rightarrow> int \<Rightarrow> 'w pendingCall list \<Rightarrow> stallDetector \<Rightarrow> dispatchResult" where
  "closeOut env sha codec budget [] stall =
     \<lparr>drResults = [], drRecords = [], drTraces = [], drOutcome = [], drStall = stall, drLog = []\<rparr>"
| "closeOut env sha codec budget (p0 # ps) stall =
     (let p = boundPending budget p0;
          evs = [ToolResultEvent (tcID (pcCall p)) (tcName (pcCall p)) (pcOutput p) (\<not> pcSuccess p)]
                @ (if pcToolsLoaded p \<noteq> [] then [ToolsLoaded (pcInternalName p) (pcInput p) (pcToolsLoaded p)] else [])
      in case recordToolCall sha codec (tcName (pcCall p)) (stallInput (pcCall p)) (pcOutput p) (pcSuccess p) stall of
           (outcome, stall') \<Rightarrow>
             if outcome \<noteq> []
             then \<lparr>drResults = [resultOf p], drRecords = [recordOf (scrubText env) p], drTraces = [toolCallTrace (scrubText env) p],
                   drOutcome = outcome, drStall = stall', drLog = evs\<rparr>
             else let rest = closeOut env sha codec budget ps stall'
                  in rest\<lparr>drResults := resultOf p # drResults rest, drRecords := recordOf (scrubText env) p # drRecords rest,
                          drTraces := toolCallTrace (scrubText env) p # drTraces rest, drLog := evs @ drLog rest\<rparr>)"

definition planAndDispatch ::
  "'w dispatchEnv \<Rightarrow> (string \<Rightarrow> string) \<Rightarrow> 'v jsonCodec \<Rightarrow> int \<Rightarrow> ToolCall list \<Rightarrow> stallDetector \<Rightarrow> 'w
     \<Rightarrow> dispatchResult \<times> 'w" where
  "planAndDispatch env sha codec maxResultBytes calls stall w =
     (case planCalls env calls w of
        (plan, w', evs) \<Rightarrow>
          let r = closeOut env sha codec (EffectiveMaxResultBytes maxResultBytes) (settleAll env w' plan) stall
          in (r\<lparr>drLog := evs @ concat (map (\<lambda>c. snd (settleOne env w' c)) plan) @ drLog r\<rparr>, w'))"

section \<open>Every call is answered\<close>

lemma newPending_call [simp]: "pcCall (newPending call t) = call"
  by (simp add: newPending_def)

lemma settle_call [simp]: "pcCall (settle r p) = pcCall p"
  by (simp add: settle_def)

lemma planOne_call: "pcCall (planCall (fst (planOne env call w))) = call"
  by (auto simp: planOne_def Let_def split: sum.splits prod.splits option.splits)

lemma planCalls_calls: "map (\<lambda>c. pcCall (planCall c)) (fst (planCalls env calls w)) = calls"
  by (induction calls arbitrary: w) (simp_all add: case_prod_beta planOne_call)

lemma runQueued_call [simp]: "pcCall (fst (runQueued env w p)) = pcCall p"
  by (auto simp: runQueued_def split: option.splits prod.splits)

lemma settleOne_call: "pcCall (fst (settleOne env w c)) = pcCall (planCall c)"
  by (cases c) simp_all

lemma settleAll_calls: "map pcCall (settleAll env w plan) = map (\<lambda>c. pcCall (planCall c)) plan"
  by (simp add: settleAll_def settleOne_call)

lemma boundPending_call [simp]: "pcCall (boundPending b p) = pcCall p"
  by (simp add: boundPending_def split: option.splits prod.splits)

lemma recordToolCall_outcome:
  "fst (recordToolCall sha codec name input out success s) \<in> {[], ''stalled'', ''tool_failures''}"
  by (auto simp: recordToolCall_def Let_def split: prod.splits)

text \<open>The calls closed out are a prefix of the plan, all of it unless the stall detector ends the run.\<close>

lemma closeOut_prefix:
  assumes "r = closeOut env sha codec budget ps stall"
  shows "\<exists>n \<le> length ps. drResults r = map (\<lambda>p. resultOf (boundPending budget p)) (take n ps)
     \<and> drRecords r = map (\<lambda>p. recordOf (scrubText env) (boundPending budget p)) (take n ps)
     \<and> drTraces r = map (\<lambda>p. toolCallTrace (scrubText env) (boundPending budget p)) (take n ps)
     \<and> (drOutcome r = [] \<longrightarrow> n = length ps) \<and> (drOutcome r \<noteq> [] \<longrightarrow> 0 < n)
     \<and> drOutcome r \<in> {[], ''stalled'', ''tool_failures''}"
  using assms
proof (induction ps arbitrary: stall r)
  case (Cons p0 ps)
  let ?p = "boundPending budget p0"
  obtain outcome stall' where rec: "recordToolCall sha codec (tcName (pcCall ?p)) (stallInput (pcCall ?p)) (pcOutput ?p)
      (pcSuccess ?p) stall = (outcome, stall')"
    by fastforce
  show ?case
  proof (cases "outcome = []")
    case True
    obtain n where "n \<le> length ps" and n: "drResults (closeOut env sha codec budget ps stall') = map (\<lambda>p. resultOf (boundPending budget p)) (take n ps)"
        "drRecords (closeOut env sha codec budget ps stall') = map (\<lambda>p. recordOf (scrubText env) (boundPending budget p)) (take n ps)"
        "drTraces (closeOut env sha codec budget ps stall') = map (\<lambda>p. toolCallTrace (scrubText env) (boundPending budget p)) (take n ps)"
        "drOutcome (closeOut env sha codec budget ps stall') = [] \<longrightarrow> n = length ps"
        "drOutcome (closeOut env sha codec budget ps stall') \<in> {[], ''stalled'', ''tool_failures''}"
      using Cons.IH [OF refl, of stall'] by blast
    then show ?thesis
      using Cons.prems rec True by (intro exI [of _ "Suc n"]) (simp add: Let_def)
  next
    case False
    then show ?thesis
      using Cons.prems rec recordToolCall_outcome [of sha codec "tcName (pcCall ?p)" "stallInput (pcCall ?p)" "pcOutput ?p" "pcSuccess ?p" stall]
      by (intro exI [of _ 1]) (simp add: Let_def)
  qed
qed simp

section \<open>No handler runs unchecked\<close>

definition permitted :: "'w dispatchEnv \<Rightarrow> 'w tool \<Rightarrow> string \<Rightarrow> bool" where
  "permitted env t input =
     (WorkspaceMutating t \<or> RequiresApproval t
      \<longrightarrow> (\<exists>res asked. PolicyCheck (permEnv env) (permissions env) (toolDefinitionOf t) input = (Inr res, asked) \<and> Allowed res))"

definition checked :: "'w dispatchEnv \<Rightarrow> ToolCall \<Rightarrow> 'w tool \<Rightarrow> string \<Rightarrow> bool" where
  "checked env call t input =
     (resolveTool env (tcName call) = Some t \<and> InvalidInput call = None
      \<and> validateSchema env input (tInputSchema t) = None
      \<and> guardFindings env (tName t) (WorkspaceMutating t) (tcInput call) = []
      \<and> fst (preToolCheck env call t input))"

text \<open>The events of a call that reaches its handler or the control plane.\<close>

fun acts :: "dispatchEvent \<Rightarrow> (ToolCall \<times> string) option" where
  "acts (HandlerRan call input) = Some (call, input)"
| "acts (ToolResultRequest call input) = Some (call, input)"
| "acts _ = None"

lemma preflight_accepts:
  assumes "preflightToolCall env w call t0 = (Inr input, evs)"
  obtains t where "t0 = Some t" "InvalidInput call = None" "validateSchema env input (tInputSchema t) = None"
    "guardFindings env (tName t) (WorkspaceMutating t) (tcInput call) = []" "\<not> isUnloaded env w (tName t)"
  using assms by (auto simp: preflightToolCall_def Let_def split: option.splits if_splits sum.splits prod.splits)

lemma preflight_quiet: "preflightToolCall env w call t0 = (r, evs) \<Longrightarrow> e \<in> set evs \<Longrightarrow> acts e = None"
  by (auto simp: preflightToolCall_def Let_def split: option.splits if_splits sum.splits prod.splits)

lemma permissionCheck_events: "permissionCheck env t call input = (r, evs) \<Longrightarrow> e \<in> set evs \<Longrightarrow> acts e = None"
  by (auto simp: permissionCheck_def split: if_splits prod.splits sum.splits)

lemma permissionCheck_passes: "permissionCheck env t call input = (None, evs) \<Longrightarrow> permitted env t input"
  by (auto simp: permissionCheck_def permitted_def split: if_splits prod.splits sum.splits)

lemma dispatchAsync_acts:
  "dispatchAsyncToolCall env h call input = (r, evs) \<Longrightarrow> e \<in> set evs \<Longrightarrow> acts e = Some (call, input)"
  by (auto simp: dispatchAsyncToolCall_def Let_def split: option.splits asyncStart.splits sum.splits)

lemma runHandler_acts:
  "runHandler t call input w = (r, w', evs) \<Longrightarrow> e \<in> set evs \<Longrightarrow> acts e = Some (call, input)"
  by (auto simp: runHandler_def Let_def split: option.splits sum.splits prod.splits if_splits)

lemma executeToolCall_acts:
  assumes "executeToolCall env t call input w = (r, w', evs)" "e \<in> set evs" "acts e = Some (c, i)"
  shows "c = call \<and> i = input \<and> permitted env t input"
proof -
  obtain res evs0 where pc: "permissionCheck env t call input = (res, evs0)"
    by fastforce
  then have quiet: "e \<notin> set evs0"
    using permissionCheck_events assms(3) by fastforce
  then have None: "res = None"
    using assms pc by (cases res) (auto simp: executeToolCall_def)
  then have "acts e = Some (call, input)"
    using assms pc quiet
    by (auto simp: executeToolCall_def split: option.splits prod.splits dest: dispatchAsync_acts runHandler_acts)
  then show ?thesis
    using assms(3) permissionCheck_passes pc None by simp
qed

lemma planOne_acts:
  assumes "planOne env call w = (c, w', evs)" "e \<in> set evs" "acts e = Some (call', input)"
  shows "call' = call \<and> (\<exists>t. checked env call t input \<and> permitted env t input)"
proof -
  let ?t0 = "resolveTool env (tcName call)"
  obtain r evs0 where pf: "preflightToolCall env w call ?t0 = (r, evs0)"
    by fastforce
  then have e: "e \<notin> set evs0"
    using preflight_quiet assms(3) by fastforce
  then obtain inp where r: "r = Inr inp"
    using assms pf by (cases r) (auto simp: planOne_def Let_def)
  then obtain t where t: "?t0 = Some t" "InvalidInput call = None" "validateSchema env inp (tInputSchema t) = None"
      "guardFindings env (tName t) (WorkspaceMutating t) (tcInput call) = []"
    using preflight_accepts pf by metis
  obtain ex w1 evs1 where ex: "executeToolCall env t call inp w = (ex, w1, evs1)"
    by (metis prod_cases3)
  have "fst (preToolCheck env call t inp)" "e \<in> set evs1"
    using assms(1,2) e pf r t ex by (auto simp: planOne_def Let_def split: prod.splits if_splits)
  then show ?thesis
    using executeToolCall_acts [OF ex] assms(3) t by (auto simp: checked_def)
qed

lemma planOne_queued:
  assumes "planOne env call w = (Queued p, w', evs)"
  shows "\<exists>t. pcTool p = Some t \<and> checked env (pcCall p) t (pcInput p) \<and> pcCall p = call"
proof -
  let ?t0 = "resolveTool env (tcName call)"
  obtain inp evs0 where pf: "preflightToolCall env w call ?t0 = (Inr inp, evs0)"
    using assms by (cases "preflightToolCall env w call ?t0"; cases "fst (preflightToolCall env w call ?t0)")
      (auto simp: planOne_def Let_def)
  from preflight_accepts [OF this] obtain t where t: "?t0 = Some t" "InvalidInput call = None"
      "validateSchema env inp (tInputSchema t) = None" "guardFindings env (tName t) (WorkspaceMutating t) (tcInput call) = []"
    by metis
  then show ?thesis
    using assms pf by (auto simp: planOne_def Let_def checked_def split: prod.splits if_splits)
qed

lemma runQueued_acts:
  assumes "e \<in> set (snd (runQueued env w p))" "acts e = Some (c, i)"
  shows "\<exists>t. pcTool p = Some t \<and> c = pcCall p \<and> i = pcInput p \<and> permitted env t i"
  using assms executeToolCall_acts
  by (fastforce simp: runQueued_def split: option.splits prod.splits)

lemma planCalls_acts:
  assumes "planCalls env calls w = (plan, w', evs)" "e \<in> set evs" "acts e = Some (call, input)"
  shows "call \<in> set calls \<and> (\<exists>t. checked env call t input \<and> permitted env t input)"
  using assms
proof (induction calls arbitrary: w plan w' evs)
  case (Cons c calls)
  obtain c1 w1 evs1 plan2 w2 evs2 where "planOne env c w = (c1, w1, evs1)" "planCalls env calls w1 = (plan2, w2, evs2)"
    by (metis prod_cases3)
  then show ?case
    using Cons planOne_acts [of env c w c1 w1 evs1 e call input] by fastforce
qed simp

lemma planCalls_queued:
  assumes "planCalls env calls w = (plan, w', evs)" "Queued p \<in> set plan"
  shows "pcCall p \<in> set calls \<and> (\<exists>t. pcTool p = Some t \<and> checked env (pcCall p) t (pcInput p))"
  using assms
proof (induction calls arbitrary: w plan w' evs)
  case (Cons c calls)
  obtain c1 w1 evs1 plan2 w2 evs2 where "planOne env c w = (c1, w1, evs1)" "planCalls env calls w1 = (plan2, w2, evs2)"
    by (metis prod_cases3)
  then show ?case
    using Cons planOne_queued [of env c w p w1 evs1] by fastforce
qed simp

lemma closeOut_quiet: "e \<in> set (drLog (closeOut env sha codec budget ps stall)) \<Longrightarrow> acts e = None"
  by (induction ps arbitrary: stall) (auto simp: Let_def split: prod.splits if_splits)

section \<open>Schedules of the asynchronous calls\<close>

definition queuedEvents :: "'w dispatchEnv \<Rightarrow> 'w \<Rightarrow> 'w callPlan list \<Rightarrow> nat list \<Rightarrow> dispatchEvent list" where
  "queuedEvents env w plan is = concat (map (\<lambda>i. snd (settleOne env w (plan ! i))) is)"

lemma queuedEvents_simps [simp]:
  "queuedEvents env w plan [] = []"
  "queuedEvents env w plan (i # is) = snd (settleOne env w (plan ! i)) @ queuedEvents env w plan is"
  "queuedEvents env w plan (is @ js) = queuedEvents env w plan is @ queuedEvents env w plan js"
  by (simp_all add: queuedEvents_def)

lemma queuedEvents_all: "queuedEvents env w plan (asyncIndices plan) = concat (map (\<lambda>c. snd (settleOne env w c)) plan)"
proof -
  have keep: "concat (map f (filter P is)) = concat (map f is)"
    if "\<And>i. \<not> P i \<Longrightarrow> f i = []" for f :: "nat \<Rightarrow> dispatchEvent list" and P and "is" :: "nat list"
    using that by (induction "is") auto
  have "queuedEvents env w plan (asyncIndices plan) = queuedEvents env w plan [0..<length plan]"
    unfolding queuedEvents_def asyncIndices_def
  proof (rule keep)
    show "snd (settleOne env w (plan ! i)) = []" if "\<not> (case plan ! i of Settled x \<Rightarrow> False | Queued x \<Rightarrow> True)" for i
      using that by (cases "plan ! i") auto
  qed
  also have "\<dots> = concat (map (\<lambda>c. snd (settleOne env w c)) (map ((!) plan) [0..<length plan]))"
    by (simp add: queuedEvents_def comp_def)
  finally show ?thesis
    by (simp only: map_nth)
qed

definition fanInv ::
  "'w dispatchEnv \<Rightarrow> 'w \<Rightarrow> int \<Rightarrow> 'w callPlan list \<Rightarrow> dispatchEvent list \<Rightarrow> nat \<Rightarrow> 'w fanOut \<Rightarrow> bool" where
  "fanInv env w maxParallel plan evs n s =
     (length (foPlan s) = length plan \<and> distinct (foTodo s @ foRunning s)
      \<and> set (foTodo s @ foRunning s) \<subseteq> set (asyncIndices plan)
      \<and> (\<forall>i < length plan. foPlan s ! i = (if i \<in> set (foTodo s @ foRunning s) then plan ! i
                                           else Settled (fst (settleOne env w (plan ! i)))))
      \<and> mset (foLog s @ queuedEvents env w plan (foTodo s @ foRunning s)) = mset (evs @ queuedEvents env w plan (asyncIndices plan))
      \<and> len (foRunning s) \<le> maxParallelOf maxParallel
      \<and> n + 2 * length (foTodo s) + length (foRunning s) = 2 * length (asyncIndices plan))"

lemma asyncIndices_queued: "i \<in> set (asyncIndices plan) \<Longrightarrow> i < length plan \<and> (\<exists>p. plan ! i = Queued p)"
  by (auto simp: asyncIndices_def split: callPlan.splits)

lemma fanInv_start: "fanInv env w maxParallel plan evs 0 (startFanOut plan evs)"
proof -
  have "plan ! i = Settled (fst (settleOne env w (plan ! i)))" if "i < length plan" "i \<notin> set (asyncIndices plan)" for i
    using that by (cases "plan ! i") (auto simp: asyncIndices_def)
  then show ?thesis
    by (auto simp: fanInv_def startFanOut_def maxParallelOf_def) (simp add: asyncIndices_def)
qed

lemma fanInv_step:
  assumes step: "fanStep env w maxParallel s t" and inv: "fanInv env w maxParallel plan evs n s"
  shows "fanInv env w maxParallel plan evs (Suc n) t"
  using step
proof cases
  case (start i rest)
  then show ?thesis
    using inv by (auto simp: fanInv_def ac_simps)
next
  case (finish xs i ys p evs')
  then have i: "i \<in> set (asyncIndices plan)" "i < length plan"
    using inv asyncIndices_queued [of i plan] by (auto simp: fanInv_def)
  then have pl: "foPlan s ! i = plan ! i"
    using inv finish by (auto simp: fanInv_def)
  obtain q where q: "plan ! i = Queued q"
    using asyncIndices_queued [OF i(1)] by blast
  then have "settleOne env w (plan ! i) = (p, evs')"
    using finish pl by simp
  then show ?thesis
    using inv finish i by (auto simp: fanInv_def nth_list_update ac_simps)
qed

lemma fanInv_steps:
  "(fanStep env w maxParallel ^^ n) (startFanOut plan evs) s \<Longrightarrow> fanInv env w maxParallel plan evs n s"
proof (induction n arbitrary: s)
  case 0
  then show ?case using fanInv_start by fastforce
next
  case (Suc n)
  then show ?case by (auto elim!: relpowp_Suc_E intro: fanInv_step)
qed

lemma fan_progress:
  assumes "foTodo s \<noteq> [] \<or> foRunning s \<noteq> []"
  shows "\<exists>t. fanStep env w maxParallel s t"
proof (cases "foRunning s")
  case Nil
  then obtain i rest where "foTodo s = i # rest"
    using assms by (cases "foTodo s") auto
  then have "fanStep env w maxParallel s (s\<lparr>foTodo := rest, foRunning := foRunning s @ [i]\<rparr>)"
    by (rule start) (simp add: Nil maxParallelOf_def)
  then show ?thesis ..
next
  case (Cons i rest)
  then have "foRunning s = [] @ i # rest"
    by simp
  from finish [OF this] show ?thesis
    by (metis surj_pair)
qed

section \<open>Properties\<close>

text \<open>
  C6: nothing acts before it is checked. A tool handler is called, and a request for an asynchronous
  result is sent, only for a call of the turn that names a registered tool, whose arguments parsed and
  fit the tool's schema, that raises no tool-call finding, that the pre-tool guard allowed, and, when
  the tool mutates the workspace or needs approval, that the permission policy granted; the handler
  receives exactly the input that was checked.
\<close>

theorem dispatch_gated:
  assumes "planAndDispatch env sha codec maxResultBytes calls stall w = (r, w')"
    and "HandlerRan call input \<in> set (drLog r) \<or> ToolResultRequest call input \<in> set (drLog r)"
  shows "call \<in> set calls \<and> (\<exists>t. checked env call t input \<and> permitted env t input)"
proof -
  obtain e where e: "e \<in> set (drLog r)" "acts e = Some (call, input)"
    using assms(2) by force
  obtain plan w1 evs where pl: "planCalls env calls w = (plan, w1, evs)"
    by (metis prod_cases3)
  have "acts e' = None" if "e' \<in> set (drLog (closeOut env sha codec b ps stall))" for e' b ps
    using closeOut_quiet that by blast
  then consider "e \<in> set evs" | c where "c \<in> set plan" "e \<in> set (snd (settleOne env w1 c))"
    using assms(1) e pl by (fastforce simp: planAndDispatch_def Let_def)
  then show ?thesis
  proof cases
    case 1
    then show ?thesis
      using planCalls_acts [OF pl] e(2) by blast
  next
    case (2 c)
    obtain p where c: "c = Queued p"
      using 2(2) by (cases c) simp_all
    then show ?thesis
      using 2 planCalls_queued [OF pl, of p] runQueued_acts [of e env w1 p] e(2) by auto
  qed
qed

lemma planAndDispatch_results:
  assumes "planAndDispatch env sha codec maxResultBytes calls stall w = (r, w')"
  shows "\<exists>n \<le> length calls. map trToolUseID (drResults r) = map tcID (take n calls)
     \<and> map crID (drRecords r) = map tcID (take n calls)
     \<and> map (\<lambda>x. (crOutput x, crIsError x)) (drRecords r) = map (\<lambda>x. (trContent x, trIsError x)) (drResults r)
     \<and> (drOutcome r = [] \<longrightarrow> n = length calls) \<and> (drOutcome r \<noteq> [] \<longrightarrow> 0 < n)
     \<and> drOutcome r \<in> {[], ''stalled'', ''tool_failures''}"
proof -
  obtain plan w1 evs where pl: "planCalls env calls w = (plan, w1, evs)"
    by (metis prod_cases3)
  let ?ps = "settleAll env w1 plan" and ?b = "EffectiveMaxResultBytes maxResultBytes"
  have calls: "map pcCall ?ps = calls"
    using planCalls_calls [of env calls w] pl by (simp add: settleAll_calls)
  then have len: "length ?ps = length calls"
    by (metis length_map)
  have ids: "map (\<lambda>p. tcID (pcCall p)) (take n ?ps) = map tcID (take n calls)" for n
    by (simp add: calls [symmetric] take_map comp_def)
  have "drResults r = drResults (closeOut env sha codec ?b ?ps stall)" "drRecords r = drRecords (closeOut env sha codec ?b ?ps stall)"
       "drOutcome r = drOutcome (closeOut env sha codec ?b ?ps stall)"
    using assms pl by (auto simp: planAndDispatch_def Let_def)
  moreover obtain n where "n \<le> length ?ps"
      "drResults (closeOut env sha codec ?b ?ps stall) = map (\<lambda>p. resultOf (boundPending ?b p)) (take n ?ps)"
      "drRecords (closeOut env sha codec ?b ?ps stall) = map (\<lambda>p. recordOf (scrubText env) (boundPending ?b p)) (take n ?ps)"
      "drOutcome (closeOut env sha codec ?b ?ps stall) = [] \<longrightarrow> n = length ?ps"
      "drOutcome (closeOut env sha codec ?b ?ps stall) \<noteq> [] \<longrightarrow> 0 < n"
      "drOutcome (closeOut env sha codec ?b ?ps stall) \<in> {[], ''stalled'', ''tool_failures''}"
    using closeOut_prefix [OF refl [of "closeOut env sha codec ?b ?ps stall"]] by blast
  ultimately show ?thesis
    using ids [of n] by (intro exI [of _ n]) (simp add: len resultOf_def recordOf_def comp_def)
qed

text \<open>
  C28: the results of a turn answer its calls. They come in the order of the calls, one for each, and
  stop early only when the stall detector ends the run, after the call it ended on; the records for the
  transcript match them, and without an early end the history stays one a provider accepts.
\<close>

theorem dispatch_answers_calls:
  assumes "planAndDispatch env sha codec maxResultBytes calls stall w = (r, w')"
  shows "\<exists>n \<le> length calls. map trToolUseID (drResults r) = map tcID (take n calls)
     \<and> map crID (drRecords r) = map tcID (take n calls)
     \<and> map (\<lambda>x. (crOutput x, crIsError x)) (drRecords r) = map (\<lambda>x. (trContent x, trIsError x)) (drResults r)
     \<and> (drOutcome r = [] \<longrightarrow> n = length calls) \<and> (drOutcome r \<noteq> [] \<longrightarrow> 0 < n)
     \<and> drOutcome r \<in> {[], ''stalled'', ''tool_failures''}"
  using assms by (rule planAndDispatch_results)

text \<open>
  C27: the fan-out of the asynchronous calls always settles, and its schedule does not matter. Whatever
  calls finish first, at most the configured number run at a time (at least one), the fan-out can go on
  until every call is settled, it takes two steps for each, and it ends with the plan the sequential
  order gives, and with the same events in some order.
\<close>

theorem dispatch_schedule_independent:
  assumes "(fanStep env w maxParallel ^^ n) (startFanOut plan evs) s"
  shows "n \<le> 2 * length (asyncIndices plan) \<and> len (foRunning s) \<le> maxParallelOf maxParallel
     \<and> ((\<exists>t. fanStep env w maxParallel s t) \<or>
        n = 2 * length (asyncIndices plan)
        \<and> foPlan s = map Settled (settleAll env w plan)
        \<and> mset (foLog s) = mset (evs @ concat (map (\<lambda>c. snd (settleOne env w c)) plan)))"
proof -
  note inv = fanInv_steps [OF assms]
  show ?thesis
  proof (cases "foTodo s \<noteq> [] \<or> foRunning s \<noteq> []")
    case True
    then show ?thesis
      using fan_progress [OF True, of env w maxParallel] inv by (simp add: fanInv_def)
  next
    case False
    then have "foPlan s = map Settled (settleAll env w plan)"
      using inv by (intro nth_equalityI) (auto simp: fanInv_def settleAll_def)
    then show ?thesis
      using inv False by (auto simp: fanInv_def queuedEvents_all)
  qed
qed

section \<open>Bounded results\<close>

lemma natDigits_length: "n < 10 ^ Suc k \<Longrightarrow> length (natDigits n) \<le> Suc k"
proof (induction k arbitrary: n)
  case 0
  then show ?case by (subst natDigits.simps) simp
next
  case (Suc k)
  then have "n div 10 < 10 ^ Suc k"
    by (simp add: less_mult_imp_div_less)
  then show ?case
    using Suc.IH by (subst natDigits.simps) simp
qed

lemma Itoa_length: "n < 2 ^ 63 \<Longrightarrow> length (Itoa (int n)) \<le> 19"
  using natDigits_length [of n 18] by (simp add: Itoa_def)

lemma toolResultTruncation_length:
  assumes "n < 2 ^ 63"
  shows "length (toolResultTruncation n n n (toolResultReadMoreHint name)) \<le> 1024"
  using Itoa_length [OF assms] by (simp add: toolResultTruncation_def toolResultReadMoreHint_def)

lemma toolResultTruncation_mono:
  "k \<le> n \<Longrightarrow> length (toolResultTruncation k n k h) \<le> length (toolResultTruncation n n n h)"
  using Itoa_length_mono [of k n] by (simp add: toolResultTruncation_def)

text \<open>
  The bound on tool results. A result within the budget is untouched; a longer one keeps a prefix
  that ends on a rune boundary and says where the omitted part starts, and with its marker stays within
  the budget, so a second application changes nothing. The budget is at least the smallest one the
  configuration accepts, which leaves room for the marker of any 64-bit length.
\<close>

theorem tool_result_bounded:
  assumes "1024 \<le> budget" "length out < 2 ^ 63" and res: "boundToolResult out budget name = (out', wasCut)"
  shows "len out' \<le> budget \<and> wasCut = (budget < len out) \<and> (\<not> wasCut \<longrightarrow> out' = out)
     \<and> boundToolResult out' budget name = (out', False)
     \<and> (wasCut \<longrightarrow> (\<exists>k < length out. (k = 0 \<or> RuneStart (out ! k))
            \<and> out' = take k out @ toolResultTruncation k (length out) k (toolResultReadMoreHint name)))"
proof (cases "len out \<le> budget")
  case True
  then show ?thesis
    using res by (auto simp: boundToolResult_def)
next
  case False
  let ?hint = "toolResultReadMoreHint name" and ?n = "length out"
  let ?room = "budget - len (toolResultTruncation ?n ?n ?n ?hint)"
  define k where "k = headLoop out (nat ?room)"
  have room: "0 \<le> ?room"
    using toolResultTruncation_length [OF assms(2), of name] assms(1) by linarith
  then have k: "int k \<le> ?room" "k = 0 \<or> RuneStart (out ! k)"
    using headLoop_le [of out "nat ?room"] headLoop_boundary [of out "nat ?room"] unfolding k_def by linarith+
  then have "k < ?n"
    using False by linarith
  moreover have out': "out' = take k out @ toolResultTruncation k ?n k ?hint" "wasCut"
    using res False room by (auto simp: boundToolResult_def Let_def k_def)
  moreover have bounded: "len out' \<le> budget"
    using toolResultTruncation_mono [of k ?n ?hint] k calculation by simp
  moreover have "boundToolResult out' budget name = (out', False)"
    using bounded by (simp add: boundToolResult_def)
  ultimately show ?thesis
    using False k(2) by (intro conjI impI exI [of _ k]) simp_all
qed

section \<open>A turn with three calls\<close>

definition bareTool :: "string \<Rightarrow> nat tool" where
  "bareTool name = \<lparr>tName = name, tDescription = [], tInputSchema = ''{}'', WorkspaceMutating = True, RequiresApproval = False,
     SelfBoundedResult = False, StructuredHandler = None, Handler = None, AsyncHandler = None\<rparr>"

definition echoTool :: "nat tool" where
  "echoTool = (bareTool ''echo'')\<lparr>Handler := Some (\<lambda>input w. (Inr input, Suc w))\<rparr>"

definition remoteTool :: "nat tool" where
  "remoteTool = (bareTool ''remote'')\<lparr>AsyncHandler := Some (\<lambda>_. AsyncDispatch 0)\<rparr>"

definition exampleDispatch :: "nat dispatchEnv" where
  "exampleDispatch =
     \<lparr>resolveTool = [''echo'' \<mapsto> echoTool, ''remote'' \<mapsto> remoteTool], listTools = [], lazyUnloaded = None, lazyLoaded = (\<lambda>_. []),
      turnSearch = \<lparr>lsNative = False, lsTool = []\<rparr>, equalFold = (=), strip = (\<lambda>s. Inr (s, [])),
      validateSchema = (\<lambda>_ _. None), guardFindings = (\<lambda>_ _ _. []), scrubText = id, quoteText = id,
      scrubGuard = (\<lambda>s. (s, 0)), jsonValid = (\<lambda>_. True), jsonString = id, guardOf = None, guardCtxErr = (\<lambda>_ _. None),
      failOpenOf = False, runMode = ''execution'', runID = ''run-1'', permissions = AllowAll, permEnv = exampleEnv,
      awaitResponse = Some (\<lambda>call input timeout. Inr (AsyncToolResult ''pong'' False))\<rparr>"

definition exampleCall :: "string \<Rightarrow> string \<Rightarrow> ToolCall" where
  "exampleCall i name = \<lparr>tcID = i, tcName = name, tcInput = ''{}'', InvalidInput = None\<rparr>"

definition exampleCalls :: "ToolCall list" where
  "exampleCalls = [exampleCall ''1'' ''remote'', exampleCall ''2'' ''echo'', exampleCall ''3'' ''missing'']"

lemmas dispatch_example = exampleDispatch_def exampleCall_def exampleCalls_def echoTool_def remoteTool_def bareTool_def
  planAndDispatch_def planOne_def preflightToolCall_def newPending_def noStructured_def isUnloaded_def unloadedTool_def
  preToolCheck_def preToolGuardInput_def guardCheck_def executeToolCall_def permissionCheck_def runHandler_def
  dispatchAsyncToolCall_def settle_def settleAll_def runQueued_def succeeded_def failed_def renamedToolHint_def
  caseFoldedToolName_def allowResult_def

theorem dispatch_gated_witness:
  "\<exists>t. checked exampleDispatch (exampleCall ''2'' ''echo'') t ''{}'' \<and> permitted exampleDispatch t ''{}''"
proof -
  obtain r w' where r: "planAndDispatch exampleDispatch id exampleCodec 0 exampleCalls zeroDetector 0 = (r, w')"
    by fastforce
  have "HandlerRan (exampleCall ''2'' ''echo'') ''{}''
      \<in> set (drLog (fst (planAndDispatch exampleDispatch id exampleCodec 0 exampleCalls zeroDetector 0)))"
    by (simp add: dispatch_example Let_def del: closeOut.simps)
  with dispatch_gated [OF r, of "exampleCall ''2'' ''echo''" "''{}''"] show ?thesis
    by (simp add: r)
qed

theorem dispatch_answers_calls_witness:
  "\<exists>n \<le> 3. map trToolUseID (drResults (fst (planAndDispatch exampleDispatch id exampleCodec 0 exampleCalls zeroDetector 0)))
     = take n [''1'', ''2'', ''3'']"
proof -
  obtain r w' where r: "planAndDispatch exampleDispatch id exampleCodec 0 exampleCalls zeroDetector 0 = (r, w')"
    by fastforce
  from dispatch_answers_calls [OF r] obtain n where "n \<le> length exampleCalls"
      "map trToolUseID (drResults r) = map tcID (take n exampleCalls)"
    by blast
  moreover have "map tcID (take n exampleCalls) = take n [''1'', ''2'', ''3'']" "length exampleCalls = 3"
    by (simp_all add: exampleCalls_def exampleCall_def take_map [symmetric])
  ultimately show ?thesis
    by (auto simp: r)
qed

definition queuedCall :: "nat pendingCall" where
  "queuedCall = (newPending (exampleCall ''1'' ''remote'') (Some remoteTool))\<lparr>pcTool := Some remoteTool, pcInput := ''{}''\<rparr>"

lemma queuedCall_output:
  "pcOutput (fst (runQueued exampleDispatch 0 queuedCall)) = ''pong''"
  by (simp add: dispatch_example queuedCall_def Let_def)

theorem dispatch_schedule_independent_witness:
  "\<exists>s. (fanStep exampleDispatch 0 0 ^^ 2) (startFanOut [Queued queuedCall] []) s
     \<and> map (\<lambda>c. pcOutput (planCall c)) (foPlan s) = [''pong'']"
proof -
  let ?s0 = "startFanOut [Queued queuedCall] []"
  let ?s1 = "?s0\<lparr>foTodo := [], foRunning := foRunning ?s0 @ [0]\<rparr>"
  obtain p evs where rq: "runQueued exampleDispatch 0 queuedCall = (p, evs)"
    by fastforce
  let ?s2 = "?s1\<lparr>foPlan := (foPlan ?s1)[0 := Settled p], foRunning := [] @ [], foLog := foLog ?s1 @ evs\<rparr>"
  have indices: "asyncIndices [Queued queuedCall] = [0]"
    by (simp add: asyncIndices_def)
  have "fanStep exampleDispatch 0 0 ?s0 ?s1"
    by (rule start) (simp_all add: startFanOut_def indices maxParallelOf_def)
  moreover have "fanStep exampleDispatch 0 0 ?s1 ?s2"
    by (rule finish) (simp_all add: startFanOut_def rq)
  ultimately have run: "(fanStep exampleDispatch 0 0 ^^ 2) ?s0 ?s2"
    unfolding numeral_2_eq_2 by (auto intro: relpowp_Suc_I relcomppI)
  have "\<not> fanStep exampleDispatch 0 0 ?s2 t" for t
    by (auto simp: startFanOut_def elim: fanStep.cases)
  then have "foPlan ?s2 = map Settled (settleAll exampleDispatch 0 [Queued queuedCall])"
    using dispatch_schedule_independent [OF run] by blast
  then have "map (\<lambda>c. pcOutput (planCall c)) (foPlan ?s2) = [''pong'']"
    using queuedCall_output by (simp add: settleAll_def)
  with run show ?thesis
    by (intro exI [of _ ?s2] conjI)
qed

theorem tool_result_bounded_witness:
  "len (fst (boundToolResult (replicate 5000 (CHR ''x'')) 1024 ''grep_files'')) \<le> 1024"
proof -
  obtain out' wasCut where "boundToolResult (replicate 5000 (CHR ''x'')) 1024 ''grep_files'' = (out', wasCut)"
    by fastforce
  from tool_result_bounded [OF _ _ this] this show ?thesis
    by simp
qed

end
