(* ===== verification/Turn_Policy.thy ===== *)
theory Turn_Policy
  imports Turn_Request Loop_History
begin

text \<open>
  The decisions the loop takes around a turn: the context window and its calibration
  (\<open>core/contextbudget.go\<close>, \<open>effectiveReserveForResponse\<close> of \<open>core/loop.go\<close>, \<open>forcedCompaction\<close> of
  \<open>core/turnrequest.go\<close>), the wind-down instruction (\<open>core/winddown.go\<close>) and the recovery from a missed
  tool call (\<open>core/escalation_default.go\<close>). Floating-point numbers are a type given by the record
  \<open>ratioOps\<close> of the operations and constants the code uses; operator-facing texts of the window are
  left out.
\<close>

section \<open>The context window (contextbudget.go)\<close>

record 'f ratioOps =
  ofTokens :: "int \<Rightarrow> 'f"
  toTokens :: "'f \<Rightarrow> int"
  fdiv :: "'f \<Rightarrow> 'f \<Rightarrow> 'f"
  fmul :: "'f \<Rightarrow> 'f \<Rightarrow> 'f"
  fadd :: "'f \<Rightarrow> 'f \<Rightarrow> 'f"
  fle :: "'f \<Rightarrow> 'f \<Rightarrow> bool"
  fzero :: 'f
  fone :: 'f
  calibrationMinRatio :: 'f
  calibrationMaxRatio :: 'f
  calibrationSmoothing :: 'f
  calibrationKept :: 'f
  windDownBudgetFraction :: 'f

definition calibrationMinEstimate :: int where "calibrationMinEstimate = 1000"

definition fmin :: "'f ratioOps \<Rightarrow> 'f \<Rightarrow> 'f \<Rightarrow> 'f" where "fmin F a b = (if fle F a b then a else b)"
definition fmax :: "'f ratioOps \<Rightarrow> 'f \<Rightarrow> 'f \<Rightarrow> 'f" where "fmax F a b = (if fle F a b then b else a)"

text \<open>A ratio of zero is the neutral prior.\<close>

definition calObserve :: "'f ratioOps \<Rightarrow> int \<Rightarrow> int \<Rightarrow> 'f \<Rightarrow> 'f" where
  "calObserve F estimated reported ratio =
     (if estimated < calibrationMinEstimate \<or> reported \<le> 0 then ratio
      else let observed = fmin F (fmax F (fdiv F (ofTokens F reported) (ofTokens F estimated)) (calibrationMinRatio F))
                            (calibrationMaxRatio F)
           in if ratio = fzero F then observed
              else fadd F (fmul F ratio (calibrationKept F)) (fmul F observed (calibrationSmoothing F)))"

definition calFactor :: "'f ratioOps \<Rightarrow> 'f \<Rightarrow> 'f" where
  "calFactor F ratio = (if ratio = fzero F then fone F else ratio)"

definition effectiveContextWindow :: "int \<Rightarrow> int \<Rightarrow> int" where
  "effectiveContextWindow explicit registered =
     (if explicit > 0 \<and> registered > 0 then min explicit registered
      else if explicit > 0 then explicit else max registered 0)"

definition defaultMaxContextTokens :: int where "defaultMaxContextTokens = 200000"
definition defaultReserveForResponse :: int where "defaultReserveForResponse = 64000"
definition smallContextReserveDivisor :: int where "smallContextReserveDivisor = 4"

text \<open>The tokens of the window and the configured maximum it replaced, zero when none.\<close>

definition resolveContextWindow :: "int \<Rightarrow> int \<Rightarrow> int \<times> int" where
  "resolveContextWindow explicit registered =
     (let w = effectiveContextWindow explicit registered
      in if w = 0 then (defaultMaxContextTokens, 0)
         else if w = explicit then (explicit, 0)
         else (registered, if explicit > registered then explicit else 0))"

definition effectiveReserveForResponse :: "int \<Rightarrow> int" where
  "effectiveReserveForResponse maxTokens =
     (if maxTokens \<le> 0 \<or> maxTokens > defaultReserveForResponse then defaultReserveForResponse
      else let reserve = maxTokens sdiv smallContextReserveDivisor in if reserve < 1 then 1 else reserve)"

definition newTurnBudget :: "'f ratioOps \<Rightarrow> int \<Rightarrow> int \<Rightarrow> 'f \<Rightarrow> int \<Rightarrow> TokenBudget" where
  "newTurnBudget F window reserve ratio currentTokens =
     (let room0 = window - reserve;
          room = (if room0 > 0 then toTokens F (fdiv F (ofTokens F room0) (calFactor F ratio)) else room0)
      in \<lparr>MaxTokens = reserve + room, CurrentTokens = currentTokens, ReserveForResponse = reserve\<rparr>)"

definition overflowCompactionPercent :: int where "overflowCompactionPercent = 70"

definition forcedCompaction :: "TokenBudget \<Rightarrow> int \<Rightarrow> TokenBudget" where
  "forcedCompaction b rejected =
     b\<lparr>MaxTokens := ReserveForResponse b + (rejected * overflowCompactionPercent) sdiv 100\<rparr>"

section \<open>Winding down (winddown.go)\<close>

definition windDownTurnsRemaining :: int where "windDownTurnsRemaining = 2"

definition windDownText :: string where
  "windDownText = ''Budget is nearly exhausted. Stop starting new work, bring the workspace to a consistent state, and finish with a summary of what is done and what remains.''"

definition windDownReadOnlyText :: string where
  "windDownReadOnlyText = ''Budget is nearly exhausted. Summarise findings now; make no further tool calls unless essential.''"

definition IsReadOnlyMode :: "string \<Rightarrow> bool" where
  "IsReadOnlyMode mode = (mode \<in> {''planning'', ''review'', ''research'', ''toil''})"

text \<open>The clock: the start of the run if it is set, the deadline if there is one, and the time.\<close>

record windDownClock =
  wdStart :: "int option"
  wdDeadline :: "int option"
  wdNow :: int

definition windDownTrigger ::
  "'f ratioOps \<Rightarrow> windDownClock \<Rightarrow> int \<Rightarrow> int option \<Rightarrow> int \<Rightarrow> int \<Rightarrow> string" where
  "windDownTrigger F c maxTurns maxTokenBudget turn usedTokens =
     (if turn > 0 \<and> maxTurns - turn \<le> windDownTurnsRemaining then ''turns''
      else if (case maxTokenBudget of
                 None \<Rightarrow> False
               | Some b \<Rightarrow> b > 0 \<and> fle F (fmul F (ofTokens F b) (windDownBudgetFraction F)) (ofTokens F usedTokens))
      then ''tokens''
      else case (wdDeadline c, wdStart c) of
             (Some deadline, Some start) \<Rightarrow>
               let window' = timeSub deadline start; elapsed = timeSub (wdNow c) start
               in if window' > 0 \<and> fle F (fmul F (ofTokens F window') (windDownBudgetFraction F)) (ofTokens F elapsed)
                  then ''time'' else []
           | _ \<Rightarrow> [])"

text \<open>The history, the trigger, and whether the instruction has been sent in this run.\<close>

definition windDownIfDue ::
  "'f ratioOps \<Rightarrow> windDownClock \<Rightarrow> bool \<Rightarrow> string \<Rightarrow> int \<Rightarrow> int option \<Rightarrow> int \<Rightarrow> int \<Rightarrow> bool \<Rightarrow> Message list
     \<Rightarrow> Message list \<times> string \<times> bool" where
  "windDownIfDue F c enabled mode maxTurns maxTokenBudget turn usedTokens sent messages =
     (if \<not> enabled \<or> sent then (messages, [], sent)
      else let trigger = windDownTrigger F c maxTurns maxTokenBudget turn usedTokens
           in if trigger = [] then (messages, [], sent)
              else (injectSyntheticUserText messages (if IsReadOnlyMode mode then windDownReadOnlyText else windDownText),
                    trigger, True))"

section \<open>Missed tool calls (escalation\_default.go)\<close>

datatype EscalationKind = EscalationNone | EscalationNative | EscalationPrompt

record EscalationInput =
  eiMode :: string
  eiProvider :: string
  eiModel :: string
  eiStopReason :: string
  ToolsAvailable :: bool
  PriorToolCalls :: nat
  EscalationsSoFar :: nat

record EscalationDecision =
  edKind :: EscalationKind
  PromptMessage :: string

record ToolChoiceCapability =
  tcSupported :: bool
  tcRequired :: bool
  RejectsTrailingAssistant :: bool

definition modeRequirements :: "string \<rightharpoonup> string" where
  "modeRequirements =
     [''planning'' \<mapsto> ''inspect the relevant files with a read or search tool before answering'',
      ''review'' \<mapsto> ''inspect the code under review with a read or search tool before answering'',
      ''research'' \<mapsto> ''gather the needed context with a read, search, or fetch tool before answering'',
      ''execution'' \<mapsto> ''read the relevant files with a read or search tool before making changes or answering'',
      ''toil'' \<mapsto> ''inspect the relevant files with a read or search tool before answering'']"

definition noEscalation :: EscalationDecision where
  "noEscalation = \<lparr>edKind = EscalationNone, PromptMessage = []\<rparr>"

definition EscalationDecide ::
  "int \<Rightarrow> (string \<Rightarrow> string \<Rightarrow> ToolChoiceCapability) \<Rightarrow> EscalationInput \<Rightarrow> EscalationDecision" where
  "EscalationDecide maxRetries' toolChoice inp =
     (if maxRetries' \<le> 0 \<or> int (EscalationsSoFar inp) \<ge> maxRetries'
         \<or> eiStopReason inp \<in> {''tool_use'', ''refusal'', ''model_context_window_exceeded'', ''max_tokens''}
         \<or> \<not> ToolsAvailable inp \<or> PriorToolCalls inp > 0
      then noEscalation
      else case modeRequirements (eiMode inp) of
             None \<Rightarrow> noEscalation
           | Some description \<Rightarrow>
               let tc = toolChoice (eiProvider inp) (eiModel inp)
               in if tcSupported tc \<and> tcRequired tc
                  then \<lparr>edKind = EscalationNative,
                        PromptMessage = (if RejectsTrailingAssistant tc then ''Call a tool now: '' @ description @ ''.'' else [])\<rparr>
                  else \<lparr>edKind = EscalationPrompt,
                        PromptMessage = ''You answered without calling any tool, but this task requires it: '' @ description
                          @ ''. Call an appropriate tool now rather than answering from assumption.''\<rparr>)"

lemma EscalationDecide_bounded:
  "edKind (EscalationDecide n tc inp) \<noteq> EscalationNone
   \<Longrightarrow> int (EscalationsSoFar inp) < n \<and> PriorToolCalls inp = 0 \<and> ToolsAvailable inp \<and> eiStopReason inp \<noteq> ''tool_use''"
  by (auto simp: EscalationDecide_def noEscalation_def split: if_splits)

lemma windDownIfDue_sendable:
  assumes "windDownIfDue F c en mode mt mb turn used sent ms = (ms', trigger, sent')" "sendable ms"
  shows "sendable ms'" "trigger \<noteq> [] \<Longrightarrow> Role (last ms') = ''user''" "trigger = [] \<Longrightarrow> ms' = ms"
  using assms appendUserText_sendable [OF assms(2)]
  by (auto simp: windDownIfDue_def injectSyntheticUserText_def Let_def split: if_splits)

text \<open>Every window of at least two tokens leaves room for the history after the response reserve.\<close>

lemma reserve_leaves_room: "2 \<le> w \<Longrightarrow> 1 \<le> effectiveReserveForResponse w \<and> effectiveReserveForResponse w < w"
  by (simp add: effectiveReserveForResponse_def defaultReserveForResponse_def smallContextReserveDivisor_def Let_def)
     (auto simp: signed_divide_int_def)

end
