(* ===== verification/Lazy_Tools.thy ===== *)
theory Lazy_Tools
  imports Tool_Dispatch "HOL-Library.Char_ord" "HOL-Library.List_Lexorder" "HOL-Library.Product_Lexorder"
begin

text \<open>
  Lazy tool loading: the loader of \<open>tool/lazy.go\<close> (which registered tools a turn sends, what a search
  finds, what has been loaded) and its use by the loop, \<open>core/lazytools.go\<close>. The registry is the list
  of its definitions, each with the internal identifier and the MCP server of the tool it resolves to.
  Unicode lower-casing, the split into letters and digits, quoting and the parse of a schema's
  top-level properties (in the order of their names) are the record \<open>lazyText\<close>. The lock is left out:
  an operation is one step.
\<close>

section \<open>Configuration (types/runconfig.go)\<close>

definition ToolSearchToolName :: string where "ToolSearchToolName = ''tool_search''"
definition DefaultLazyToolSearchResults :: int where "DefaultLazyToolSearchResults = 5"
definition MaxLazyToolSearchResults :: int where "MaxLazyToolSearchResults = 20"

record LazyToolLoadingConfig =
  Strategy :: string
  Eager :: "string list"
  MaxResults :: int

definition EffectiveStrategy :: "LazyToolLoadingConfig \<Rightarrow> string" where
  "EffectiveStrategy c = (if Strategy c = [] then ''auto'' else Strategy c)"

definition EffectiveMaxResults :: "LazyToolLoadingConfig \<Rightarrow> int" where
  "EffectiveMaxResults c = (if MaxResults c \<le> 0 then DefaultLazyToolSearchResults else MaxResults c)"

section \<open>The loader (lazy.go)\<close>

record lazyText =
  toLower :: "string \<Rightarrow> string"
  wordsOf :: "string \<Rightarrow> string list"
  quoted :: "string \<Rightarrow> string"
  schemaProperties :: "string \<Rightarrow> (string \<times> string) list option"

record regEntry =
  regDef :: ToolDefinition
  regTool :: "(string \<times> string) option"

record lazyEntry =
  leID :: string
  leDef :: ToolDefinition
  schemaText :: string

datatype LazyGroupKind = LazyGroupBuiltIn | LazyGroupControlPlane | LazyGroupMCPServer | LazyGroupMCPOther

type_synonym LazyGroup = "LazyGroupKind \<times> string"

record LazyLoaderOptions =
  ControlPlaneTools :: "string list"
  MCPServers :: "string list"

record LazyLoader =
  llCfg :: LazyToolLoadingConfig
  llOpts :: LazyLoaderOptions
  servers :: "string list"
  owners :: "string \<rightharpoonup> string"
  llEntries :: "lazyEntry list"
  presentedFor :: "string \<rightharpoonup> string"
  internalFor :: "string \<rightharpoonup> string"
  llDeferred :: "string list"
  eagerTools :: int
  unknownEager :: "string list"
  llLoaded :: "string \<Rightarrow> bool"
  loadOrder :: "string list"

definition longestFirst :: "string list \<Rightarrow> string list" where
  "longestFirst names = sort_key (\<lambda>s. - len s) names"

definition schemaSearchText :: "lazyText \<Rightarrow> string \<Rightarrow> string" where
  "schemaSearchText T schema =
     (if schema = [] then []
      else case schemaProperties T schema of
             None \<Rightarrow> []
           | Some props \<Rightarrow> toLower T (concat (map (\<lambda>(name, d). name @ [nl] @ (if d \<noteq> [] then d @ [nl] else [])) props)))"

definition entryID :: "regEntry \<Rightarrow> string" where
  "entryID r = (case regTool r of None \<Rightarrow> tdName (regDef r) | Some (i, server) \<Rightarrow> i)"

definition deferredBy :: "LazyToolLoadingConfig \<Rightarrow> LazyLoaderOptions \<Rightarrow> string \<Rightarrow> bool" where
  "deferredBy cfg opts i =
     (if i = ToolSearchToolName then False
      else if Eager cfg \<noteq> [] then i \<notin> set (Eager cfg)
      else HasPrefix i ''mcp_'' \<or> i \<in> set (ControlPlaneTools opts))"

definition NewLazyLoader ::
  "lazyText \<Rightarrow> regEntry list \<Rightarrow> LazyToolLoadingConfig \<Rightarrow> LazyLoaderOptions \<Rightarrow> LazyLoader" where
  "NewLazyLoader T reg cfg opts =
     (let ids = map entryID reg in
      \<lparr>llCfg = cfg, llOpts = opts, servers = longestFirst (MCPServers opts),
       owners = foldl (\<lambda>m r. case regTool r of Some (i, server) \<Rightarrow> (if server \<noteq> [] then m(i \<mapsto> server) else m) | None \<Rightarrow> m)
                  Map.empty reg,
       llEntries = map (\<lambda>r. \<lparr>leID = entryID r, leDef = regDef r, schemaText = schemaSearchText T (InputSchema (regDef r))\<rparr>) reg,
       presentedFor = foldl (\<lambda>m r. m(entryID r \<mapsto> tdName (regDef r))) Map.empty reg,
       internalFor = foldl (\<lambda>m r. m(tdName (regDef r) \<mapsto> entryID r)) Map.empty reg,
       llDeferred = filter (deferredBy cfg opts) ids,
       eagerTools = len (filter (\<lambda>i. \<not> deferredBy cfg opts i \<and> i \<noteq> ToolSearchToolName) ids),
       unknownEager = filter (\<lambda>name. name \<notin> set ids) (Eager cfg),
       llLoaded = (\<lambda>_. False), loadOrder = []\<rparr>)"

definition ForRegistry :: "lazyText \<Rightarrow> regEntry list \<Rightarrow> LazyLoader \<Rightarrow> LazyLoader" where
  "ForRegistry T reg l = (NewLazyLoader T reg (llCfg l) (llOpts l))\<lparr>unknownEager := []\<rparr>"

definition lazyDeferred :: "LazyLoader \<Rightarrow> string \<Rightarrow> bool" where
  "lazyDeferred l i = (i \<in> set (llDeferred l))"

definition HasDeferred :: "LazyLoader \<Rightarrow> bool" where
  "HasDeferred l = (llDeferred l \<noteq> [])"

fun serverOf :: "string list \<Rightarrow> string \<Rightarrow> LazyGroup" where
  "serverOf [] i = (LazyGroupMCPOther, [])"
| "serverOf (s # ss) i = (if HasPrefix i (''mcp_'' @ s @ ''_'') then (LazyGroupMCPServer, s) else serverOf ss i)"

definition GroupOf :: "LazyLoader \<Rightarrow> string \<Rightarrow> LazyGroup" where
  "GroupOf l i =
     (if i \<in> set (ControlPlaneTools (llOpts l)) then (LazyGroupControlPlane, [])
      else case owners l i of
             Some server \<Rightarrow> (LazyGroupMCPServer, server)
           | None \<Rightarrow> if \<not> HasPrefix i ''mcp_'' then (LazyGroupBuiltIn, []) else serverOf (servers l) i)"

definition GroupNamespace :: "lazyText \<Rightarrow> LazyGroup \<Rightarrow> string \<times> string" where
  "GroupNamespace T g =
     (case fst g of
        LazyGroupControlPlane \<Rightarrow> (''control_plane'', ''Tools provided by the control plane.'')
      | LazyGroupMCPServer \<Rightarrow> (''mcp_'' @ snd g, ''Tools from MCP server '' @ quoted T (snd g) @ ''.'')
      | _ \<Rightarrow> ([], []))"

definition DeferredCounts :: "LazyLoader \<Rightarrow> nat \<times> nat \<times> nat" where
  "DeferredCounts l =
     (let kinds = map (\<lambda>e. fst (GroupOf l (leID e))) (filter (\<lambda>e. lazyDeferred l (leID e)) (llEntries l))
      in (length (filter (\<lambda>k. k = LazyGroupBuiltIn) kinds),
          length (filter (\<lambda>k. k = LazyGroupMCPServer \<or> k = LazyGroupMCPOther) kinds),
          length (filter (\<lambda>k. k = LazyGroupControlPlane) kinds)))"

definition UsesNative :: "LazyLoader \<Rightarrow> bool \<Rightarrow> bool" where
  "UsesNative l supported =
     (supported \<and> EffectiveStrategy (llCfg l) = ''auto'' \<and> HasDeferred l \<and> eagerTools l > 0)"

definition Loaded :: "LazyLoader \<Rightarrow> string \<Rightarrow> bool" where
  "Loaded l i = llLoaded l i"

definition Unloaded :: "LazyLoader \<Rightarrow> string \<Rightarrow> bool" where
  "Unloaded l i = (lazyDeferred l i \<and> \<not> Loaded l i)"

fun Load :: "string list \<Rightarrow> LazyLoader \<Rightarrow> string list \<times> LazyLoader" where
  "Load [] l = ([], l)"
| "Load (i # ids) l =
     (if \<not> lazyDeferred l i \<or> llLoaded l i then Load ids l
      else case Load ids (l\<lparr>llLoaded := (llLoaded l)(i := True), loadOrder := loadOrder l @ [i]\<rparr>) of
             (added, l') \<Rightarrow> (i # added, l'))"

definition LoadedCount :: "LazyLoader \<Rightarrow> int" where
  "LoadedCount l = len (loadOrder l)"

definition LoadedSince :: "LazyLoader \<Rightarrow> int \<Rightarrow> string list" where
  "LoadedSince l n = (if n < 0 \<or> n \<ge> len (loadOrder l) then [] else drop (nat n) (loadOrder l))"

definition lazyReset :: "LazyLoader \<Rightarrow> LazyLoader" where
  "lazyReset l = l\<lparr>llLoaded := (\<lambda>_. False), loadOrder := []\<rparr>"

definition InternalID :: "LazyLoader \<Rightarrow> string \<Rightarrow> string" where
  "InternalID l name = (case internalFor l name of Some i \<Rightarrow> i | None \<Rightarrow> name)"

definition presentedName :: "LazyLoader \<Rightarrow> string \<Rightarrow> string" where
  "presentedName l i = (case presentedFor l i of Some name \<Rightarrow> name | None \<Rightarrow> i)"

definition countTools :: "nat \<Rightarrow> string" where
  "countTools n = (if n = 1 then ''1 tool'' else Itoa (int n) @ '' tools'')"

text \<open>Removing duplicates from the reverse lists the servers in the order they first appear.\<close>

definition searchDescription :: "lazyText \<Rightarrow> LazyLoader \<Rightarrow> string \<Rightarrow> string" where
  "searchDescription T l base =
     (let groups = map (\<lambda>e. GroupOf l (leID e)) (filter (\<lambda>e. lazyDeferred l (leID e)) (llEntries l));
          perKind = (\<lambda>k. length (filter (\<lambda>g. fst g = k) groups));
          serverOrder = rev (remdups (rev (map snd (filter (\<lambda>g. fst g = LazyGroupMCPServer) groups))));
          perServer = (\<lambda>s. length (filter (\<lambda>g. g = (LazyGroupMCPServer, s)) groups));
          otherMCP = perKind LazyGroupMCPOther;
          controlPlaneCount = perKind LazyGroupControlPlane;
          builtIn = perKind LazyGroupBuiltIn;
          parts = map (\<lambda>s. countTools (perServer s) @ '' from MCP server '' @ quoted T s) serverOrder
            @ (if otherMCP > 0 then [countTools otherMCP @ '' from other MCP servers''] else [])
            @ (if controlPlaneCount > 0 then [countTools controlPlaneCount @ '' provided by the control plane''] else [])
            @ (if builtIn > 0 then [countTools builtIn @ '' built into the harness''] else [])
      in base @ '' Tools available to load: '' @ Join parts ''; '' @ ''.'')"

text \<open>One entry's share of the sent list; the search tool is collected separately.\<close>

definition visibleEntry :: "lazyText \<Rightarrow> LazyLoader \<Rightarrow> bool \<Rightarrow> lazyEntry \<Rightarrow> ToolDefinition list" where
  "visibleEntry T l native e =
     (if leID e = ToolSearchToolName then []
      else if \<not> lazyDeferred l (leID e) then [leDef e]
      else if native
      then (case GroupNamespace T (GroupOf l (leID e)) of
              (name, d) \<Rightarrow> [(leDef e)\<lparr>Deferred := True, Namespace := name, NamespaceDescription := d\<rparr>])
      else if \<not> Loaded l (leID e) then [] else [leDef e])"

definition searchTool :: "lazyText \<Rightarrow> LazyLoader \<Rightarrow> bool \<Rightarrow> ToolDefinition option" where
  "searchTool T l native =
     (case filter (\<lambda>e. leID e = ToolSearchToolName \<and> HasDeferred l \<and> \<not> native) (llEntries l) of
        [] \<Rightarrow> None
      | es \<Rightarrow> Some ((leDef (last es))\<lparr>Description := searchDescription T l (Description (leDef (last es)))\<rparr>))"

definition Visible :: "lazyText \<Rightarrow> LazyLoader \<Rightarrow> bool \<Rightarrow> ToolDefinition list" where
  "Visible T l native =
     concat (map (visibleEntry T l native) (llEntries l))
     @ (case searchTool T l native of None \<Rightarrow> [] | Some def \<Rightarrow> [def])"

section \<open>Searching\<close>

definition maxSearchTerms :: nat where "maxSearchTerms = 32"
definition searchWeightName :: int where "searchWeightName = 3"
definition searchWeightDescription :: int where "searchWeightDescription = 2"
definition searchWeightSchema :: int where "searchWeightSchema = 1"

fun distinctTerms :: "string list \<Rightarrow> string list \<Rightarrow> string list" where
  "distinctTerms terms [] = terms"
| "distinctTerms terms (f # fs) =
     (if f \<in> set terms then distinctTerms terms fs
      else if length (terms @ [f]) = maxSearchTerms then terms @ [f]
      else distinctTerms (terms @ [f]) fs)"

definition searchTerms :: "lazyText \<Rightarrow> string \<Rightarrow> string list" where
  "searchTerms T query = distinctTerms [] (wordsOf T (toLower T query))"

definition Contains :: "string \<Rightarrow> string \<Rightarrow> bool" where
  "Contains s sub = (Index s sub \<noteq> None)"

definition termScore :: "lazyText \<Rightarrow> lazyEntry \<Rightarrow> string \<Rightarrow> int" where
  "termScore T e term' =
     (if Contains (toLower T (tdName (leDef e))) term' then searchWeightName
      else if Contains (toLower T (Description (leDef e))) term' then searchWeightDescription
      else if Contains (schemaText e) term' then searchWeightSchema
      else 0)"

definition exactName :: "lazyText \<Rightarrow> lazyEntry \<Rightarrow> LazyGroup \<Rightarrow> string \<Rightarrow> bool" where
  "exactName T e g query =
     (if query = [] then False
      else if toLower T (tdName (leDef e)) = query \<or> toLower T (leID e) = query then True
      else if fst g \<noteq> LazyGroupMCPServer then False
      else toLower T (TrimPrefix (leID e) (''mcp_'' @ snd g @ ''_'')) = query)"

record scored =
  hitEntry :: lazyEntry
  hitScore :: int
  hitExact :: bool
  hitGroup :: LazyGroup

definition hitsOf :: "lazyText \<Rightarrow> LazyLoader \<Rightarrow> string list \<Rightarrow> string \<Rightarrow> (string \<Rightarrow> bool) \<Rightarrow> scored list" where
  "hitsOf T l terms query include =
     filter (\<lambda>h. hitScore h > 0 \<or> hitExact h)
       (map (\<lambda>e. let g = GroupOf l (leID e)
                 in \<lparr>hitEntry = e, hitScore = sum_list (map (termScore T e) terms),
                     hitExact = exactName T e g query, hitGroup = g\<rparr>)
          (filter (\<lambda>e. lazyDeferred l (leID e) \<and> include (leID e)) (llEntries l)))"

definition rankHits :: "scored list \<Rightarrow> scored list" where
  "rankHits hits = sort_key (\<lambda>h. (if hitExact h then 0 else 1 :: int, - hitScore h)) hits"

text \<open>The two selection passes; \<open>perGroup\<close> counts what the first pass took of each group.\<close>

fun firstPass :: "int \<Rightarrow> int \<Rightarrow> (LazyGroup \<Rightarrow> int) \<Rightarrow> int \<Rightarrow> scored list \<Rightarrow> bool list \<times> int" where
  "firstPass limit groupCap perGroup taken [] = ([], taken)"
| "firstPass limit groupCap perGroup taken (h # hs) =
     (if taken = limit then (False # map (\<lambda>_. False) hs, taken)
      else if \<not> hitExact h \<and> perGroup (hitGroup h) \<ge> groupCap
      then (case firstPass limit groupCap perGroup taken hs of (sel, n) \<Rightarrow> (False # sel, n))
      else (case firstPass limit groupCap (perGroup(hitGroup h := perGroup (hitGroup h) + 1)) (taken + 1) hs of
              (sel, n) \<Rightarrow> (True # sel, n)))"

fun backfill :: "int \<Rightarrow> int \<Rightarrow> bool list \<Rightarrow> bool list" where
  "backfill limit taken [] = []"
| "backfill limit taken (b # bs) =
     (if taken = limit then b # bs
      else if \<not> b then True # backfill limit (taken + 1) bs
      else b # backfill limit taken bs)"

definition selectHits :: "int \<Rightarrow> bool \<Rightarrow> scored list \<Rightarrow> scored list" where
  "selectHits limit capGroups hits =
     (let groupCap = (if capGroups then (limit + 1) sdiv 2 else limit);
          (sel, taken) = firstPass limit groupCap (\<lambda>_. 0) 0 hits
      in map fst (filter snd (zip hits (backfill limit taken sel))))"

definition lazySearchWith ::
  "lazyText \<Rightarrow> LazyLoader \<Rightarrow> string \<Rightarrow> int \<Rightarrow> bool \<Rightarrow> (string \<Rightarrow> bool) \<Rightarrow> scored list" where
  "lazySearchWith T l query limit capGroups include =
     (let terms = searchTerms T query
      in if terms = [] then []
         else selectHits limit capGroups (rankHits (hitsOf T l terms (toLower T (TrimSpace query)) include)))"

definition searchLimit :: "LazyLoader \<Rightarrow> int \<Rightarrow> int" where
  "searchLimit l limit =
     (let maxResults = EffectiveMaxResults (llCfg l) in if limit \<le> 0 \<or> limit > maxResults then maxResults else limit)"

definition LazySearch :: "lazyText \<Rightarrow> LazyLoader \<Rightarrow> string \<Rightarrow> int \<Rightarrow> scored list" where
  "LazySearch T l query limit = lazySearchWith T l query (searchLimit l limit) True (\<lambda>i. \<not> Loaded l i)"

definition LoadedMatches :: "lazyText \<Rightarrow> LazyLoader \<Rightarrow> string \<Rightarrow> scored list" where
  "LoadedMatches T l query = lazySearchWith T l query MaxLazyToolSearchResults False (Loaded l)"

section \<open>References (lazy.go, lazytools.go)\<close>

definition presentBlock :: "LazyLoader \<Rightarrow> ContentBlock \<Rightarrow> ContentBlock" where
  "presentBlock l b =
     (if Type b = ''tool_search_result'' then b\<lparr>ToolReferences := map (presentedName l) (ToolReferences b)\<rparr> else b)"

definition PresentReferences :: "LazyLoader \<Rightarrow> Message list \<Rightarrow> Message list" where
  "PresentReferences l messages = map (\<lambda>m. m\<lparr>MContent := map (presentBlock l) (MContent m)\<rparr>) messages"

definition maxSearchReferences :: nat where "maxSearchReferences = 256"

fun searchReferencesLoop :: "LazyLoader \<Rightarrow> bool \<Rightarrow> string list \<Rightarrow> string list \<Rightarrow> string list" where
  "searchReferencesLoop l native kept [] = kept"
| "searchReferencesLoop l native kept (name # refs) =
     (if native \<and> lazyDeferred l (InternalID l name) \<and> length kept < maxSearchReferences
      then searchReferencesLoop l native (kept @ [InternalID l name]) refs
      else searchReferencesLoop l native kept refs)"

definition searchReferences :: "LazyLoader \<Rightarrow> bool \<Rightarrow> string list \<Rightarrow> string list" where
  "searchReferences l native refs = searchReferencesLoop l native [] refs"

text \<open>The rewritten blocks, the tools loaded in order, and the loader; \<open>searches\<close> only names the events.\<close>

fun loadSearchedLoop :: "bool \<Rightarrow> ContentBlock list \<Rightarrow> LazyLoader \<Rightarrow> ContentBlock list \<times> string list \<times> LazyLoader" where
  "loadSearchedLoop native [] l = ([], [], l)"
| "loadSearchedLoop native (b # bs) l =
     (if Type b = ''tool_search_result''
      then let b' = b\<lparr>ToolReferences := searchReferences l native (ToolReferences b)\<rparr>;
               (added, l') = (if IsError b' \<or> ToolReferences b' = [] then ([], l) else Load (ToolReferences b') l)
           in case loadSearchedLoop native bs l' of (bs', loaded, l'') \<Rightarrow> (b' # bs', added @ loaded, l'')
      else case loadSearchedLoop native bs l of (bs', loaded, l'') \<Rightarrow> (b # bs', loaded, l''))"

definition loadSearchedTools ::
  "bool \<Rightarrow> ContentBlock list \<Rightarrow> LazyLoader option \<Rightarrow> ContentBlock list \<times> string list \<times> LazyLoader option" where
  "loadSearchedTools native blocks lazy =
     (case lazy of
        None \<Rightarrow> (blocks, [], None)
      | Some l \<Rightarrow> (case loadSearchedLoop native blocks l of (bs, loaded, l') \<Rightarrow> (bs, loaded, Some l')))"

definition lazySearchFor :: "LazyLoader \<Rightarrow> bool \<Rightarrow> string \<Rightarrow> lazySearch" where
  "lazySearchFor l supported nativeName =
     (if UsesNative l supported then \<lparr>lsNative = True, lsTool = nativeName\<rparr> else \<lparr>lsNative = False, lsTool = []\<rparr>)"

definition visibleTools ::
  "lazyText \<Rightarrow> ToolDefinition list \<Rightarrow> (bool \<times> string) \<Rightarrow> LazyLoader option \<Rightarrow> ToolDefinition list \<times> lazySearch" where
  "visibleTools T registered capability lazy =
     (case lazy of
        None \<Rightarrow> (registered, \<lparr>lsNative = False, lsTool = []\<rparr>)
      | Some l \<Rightarrow> (let search = lazySearchFor l (fst capability) (snd capability) in (Visible T l (lsNative search), search)))"

definition deferredToolLoaded :: "LazyLoader option \<Rightarrow> string \<Rightarrow> bool" where
  "deferredToolLoaded lazy name = (case lazy of None \<Rightarrow> False | Some l \<Rightarrow> Loaded l (InternalID l name))"

definition endsOnUnansweredSearch :: "Message list \<Rightarrow> string \<Rightarrow> bool" where
  "endsOnUnansweredSearch messages tool' =
     (if messages = [] then False
      else let content = MContent (last messages);
               answered = map ToolUseID (filter (\<lambda>b. Type b = ''tool_search_result'') content)
           in list_ex (\<lambda>b. Type b = ''tool_search'' \<and> Name b = tool' \<and> ID b \<notin> set answered) content)"

definition messageReferences :: "string \<Rightarrow> Message \<Rightarrow> string list" where
  "messageReferences tool' m =
     (let calls = map ID (filter (\<lambda>b. Type b = ''tool_search'' \<and> ID b \<noteq> [] \<and> Name b = tool') (MContent m))
      in concat (map ToolReferences
           (filter (\<lambda>b. Type b = ''tool_search_result'' \<and> \<not> IsError b \<and> ToolUseID b \<in> set calls) (MContent m))))"

definition nativeSearchReferences :: "Message list \<Rightarrow> string \<Rightarrow> string list" where
  "nativeSearchReferences messages tool' = concat (map (messageReferences tool') messages)"

definition undeferUnreferenced ::
  "LazyLoader option \<Rightarrow> ToolDefinition list \<Rightarrow> lazySearch \<Rightarrow> Message list \<Rightarrow> ToolDefinition list" where
  "undeferUnreferenced lazy toolDefs search prepared =
     (case lazy of
        None \<Rightarrow> toolDefs
      | Some l \<Rightarrow>
          if \<not> lsNative search \<or> endsOnUnansweredSearch prepared (lsTool search) then toolDefs
          else map (\<lambda>def. if \<not> Deferred def \<or> InternalID l (tdName def) \<in> set (nativeSearchReferences prepared (lsTool search))
                             \<or> \<not> Loaded l (InternalID l (tdName def))
                          then def else def\<lparr>Deferred := False, Namespace := [], NamespaceDescription := []\<rparr>) toolDefs)"

definition presentToolReferences :: "LazyLoader option \<Rightarrow> Message list \<Rightarrow> Message list" where
  "presentToolReferences lazy messages = (case lazy of None \<Rightarrow> messages | Some l \<Rightarrow> PresentReferences l messages)"

definition lazyLoadedCount :: "LazyLoader option \<Rightarrow> int" where
  "lazyLoadedCount lazy = (case lazy of None \<Rightarrow> 0 | Some l \<Rightarrow> LoadedCount l)"

definition lazyLoadedSince :: "LazyLoader option \<Rightarrow> int \<Rightarrow> string list" where
  "lazyLoadedSince lazy n = (case lazy of None \<Rightarrow> [] | Some l \<Rightarrow> LoadedSince l n)"

text \<open>The loader after the start of a run, with the eager names it warns about on its first run.\<close>

definition startLazyTools :: "bool \<Rightarrow> bool \<Rightarrow> LazyLoader option \<Rightarrow> string list \<times> LazyLoader option" where
  "startLazyTools continuesHistory reported lazy =
     (case lazy of
        None \<Rightarrow> ([], None)
      | Some l \<Rightarrow> (if reported then [] else unknownEager l, Some (if continuesHistory then l else lazyReset l)))"

section \<open>Loading\<close>

definition loaderOk :: "LazyLoader \<Rightarrow> bool" where
  "loaderOk l = ((\<forall>i. llLoaded l i \<longleftrightarrow> i \<in> set (loadOrder l)) \<and> distinct (loadOrder l)
     \<and> set (loadOrder l) \<subseteq> set (llDeferred l) \<and> ToolSearchToolName \<notin> set (llDeferred l)
     \<and> eagerTools l = len (filter (\<lambda>e. \<not> lazyDeferred l (leID e) \<and> leID e \<noteq> ToolSearchToolName) (llEntries l)))"

lemma NewLazyLoader_ok: "loaderOk (NewLazyLoader T reg cfg opts)"
proof -
  have "filter (\<lambda>r. entryID r \<notin> entryID ` {x \<in> set reg. deferredBy cfg opts (entryID x)} \<and> entryID r \<noteq> ToolSearchToolName) reg
      = filter (\<lambda>r. \<not> deferredBy cfg opts (entryID r) \<and> entryID r \<noteq> ToolSearchToolName) reg"
    by (rule filter_cong) auto
  then show ?thesis
    by (auto simp: loaderOk_def NewLazyLoader_def Let_def lazyDeferred_def filter_map comp_def deferredBy_def [of _ _ ToolSearchToolName])
qed

lemma lazyReset_ok: "loaderOk l \<Longrightarrow> loaderOk (lazyReset l)"
  by (simp add: loaderOk_def lazyReset_def lazyDeferred_def)

lemma Load_frame:
  "Load ids l = (added, l') \<Longrightarrow> llEntries l' = llEntries l \<and> llDeferred l' = llDeferred l \<and> internalFor l' = internalFor l
     \<and> presentedFor l' = presentedFor l"
proof (induction ids arbitrary: l added)
  case (Cons i ids)
  show ?case
  proof (cases "\<not> lazyDeferred l i \<or> llLoaded l i")
    case True
    then show ?thesis
      using Cons.IH [of l added] Cons.prems by simp
  next
    case False
    let ?l = "l\<lparr>llLoaded := (llLoaded l)(i := True), loadOrder := loadOrder l @ [i]\<rparr>"
    have "Load ids ?l = (tl added, l')"
      using Cons.prems False by (auto split: prod.splits)
    from Cons.IH [OF this] show ?thesis
      by simp
  qed
qed simp

lemma Load_spec:
  assumes "Load ids l = (added, l')" "loaderOk l"
  shows "loaderOk l' \<and> loadOrder l' = loadOrder l @ added \<and> set added = {i \<in> set ids. Unloaded l i}"
  using assms
proof (induction ids arbitrary: l added l')
  case Nil
  then show ?case
    by simp
next
  case (Cons i ids)
  show ?case
  proof (cases "Unloaded l i")
    case False
    then show ?thesis
      using Cons by (auto simp: Unloaded_def Loaded_def)
  next
    case True
    let ?l = "l\<lparr>llLoaded := (llLoaded l)(i := True), loadOrder := loadOrder l @ [i]\<rparr>"
    have ok: "loaderOk ?l"
      using True Cons.prems(2) by (auto simp: loaderOk_def Unloaded_def Loaded_def lazyDeferred_def)
    obtain a where a: "Load ids ?l = (a, l')" "added = i # a"
      using Cons.prems(1) True by (auto simp: Unloaded_def Loaded_def split: prod.splits)
    have "{j \<in> set ids. Unloaded ?l j} = {j \<in> set ids. Unloaded l j} - {i}"
      by (auto simp: Unloaded_def Loaded_def lazyDeferred_def)
    then show ?thesis
      using Cons.IH [OF a(1) ok] a(2) True by auto
  qed
qed

text \<open>What a response loads is what \<open>LoadedSince\<close> reports for it.\<close>

lemma LoadedSince_Load:
  "Load ids l = (added, l') \<Longrightarrow> loaderOk l \<Longrightarrow> LoadedSince l' (LoadedCount l) = added"
  using Load_spec [of ids l added l'] by (auto simp: LoadedSince_def LoadedCount_def)

lemma searchReferencesLoop_spec:
  "length kept \<le> maxSearchReferences \<Longrightarrow>
   searchReferencesLoop l native kept refs
     = take maxSearchReferences (kept @ filter (\<lambda>i. native \<and> lazyDeferred l i) (map (InternalID l) refs))"
proof (induction refs arbitrary: kept)
  case (Cons name refs)
  then show ?case
    by (cases "length kept < maxSearchReferences") (auto simp: take_Cons' Suc_diff_Suc [symmetric] simp del: take_Suc_Cons)
qed simp

lemma searchReferences_spec:
  "searchReferences l native refs
     = take maxSearchReferences (filter (\<lambda>i. native \<and> lazyDeferred l i) (map (InternalID l) refs))"
  by (simp add: searchReferences_def searchReferencesLoop_spec)

lemma loadSearchedLoop_spec:
  assumes "loadSearchedLoop native bs l = (bs', loaded, l')" "loaderOk l"
  shows "loaderOk l' \<and> loadOrder l' = loadOrder l @ loaded \<and> (\<not> native \<longrightarrow> loaded = [])
     \<and> length bs' = length bs \<and> map Type bs' = map Type bs \<and> map ID bs' = map ID bs
     \<and> map ToolUseID bs' = map ToolUseID bs \<and> map Text bs' = map Text bs \<and> llEntries l' = llEntries l"
  using assms
proof (induction bs arbitrary: l bs' loaded l')
  case (Cons b bs)
  show ?case
  proof (cases "Type b = ''tool_search_result''")
    case False
    then show ?thesis
      using Cons.prems(2) Cons.IH [of l] Cons.prems(1)
      by (cases "loadSearchedLoop native bs l") fastforce
  next
    case True
    define b' where "b' = b\<lparr>ToolReferences := searchReferences l native (ToolReferences b)\<rparr>"
    obtain added l1 where a: "(if IsError b' \<or> ToolReferences b' = [] then ([], l) else Load (ToolReferences b') l) = (added, l1)"
      by fastforce
    obtain bs1 loaded1 where r: "loadSearchedLoop native bs l1 = (bs1, loaded1, l')" "bs' = b' # bs1" "loaded = added @ loaded1"
      using Cons.prems(1) True a by (simp add: b'_def [symmetric] Let_def case_prod_beta) (metis prod.collapse)
    have none: "\<not> native \<Longrightarrow> ToolReferences b' = []"
      by (simp add: b'_def searchReferences_spec)
    have l1: "loaderOk l1 \<and> loadOrder l1 = loadOrder l @ added \<and> (\<not> native \<longrightarrow> added = []) \<and> llEntries l1 = llEntries l"
    proof (cases "IsError b' \<or> ToolReferences b' = []")
      case False
      then have "Load (ToolReferences b') l = (added, l1)"
        using a by simp
      then show ?thesis
        using Load_spec [of "ToolReferences b'" l added l1] Load_frame [of "ToolReferences b'" l added l1] Cons.prems(2) False none
        by auto
    qed (use a Cons.prems(2) in auto)
    then show ?thesis
      using Cons.IH [OF r(1)] r by (auto simp: b'_def)
  qed
qed simp

section \<open>What a search selects\<close>

definition picked :: "bool list \<Rightarrow> scored list \<Rightarrow> scored list" where
  "picked sel hs = map fst (filter snd (zip hs sel))"

lemma picked_simps [simp]:
  "picked [] [] = []" "picked (b # sel) (h # hs) = (if b then [h] else []) @ picked sel hs"
  by (simp_all add: picked_def)

lemma picked_none [simp]: "picked (map (\<lambda>_. False) hs) hs = []"
  by (induction hs) auto

lemma picked_subseq: "length sel = length hs \<Longrightarrow> subseq (picked sel hs) hs"
proof (induction hs arbitrary: sel)
  case (Cons h hs)
  then show ?case
    by (cases sel) auto
qed (simp add: picked_def)

abbreviation inGroup :: "LazyGroup \<Rightarrow> scored list \<Rightarrow> int" where
  "inGroup g hs \<equiv> len (filter (\<lambda>h. hitGroup h = g) hs)"

abbreviation exactIn :: "LazyGroup \<Rightarrow> scored list \<Rightarrow> int" where
  "exactIn g hs \<equiv> len (filter (\<lambda>h. hitGroup h = g \<and> hitExact h) hs)"

definition exactFirst :: "scored list \<Rightarrow> bool" where
  "exactFirst hs = sorted_wrt (\<lambda>a b. hitExact b \<longrightarrow> hitExact a) hs"

lemma rankHits_exactFirst: "exactFirst (rankHits hits)"
proof -
  let ?k = "\<lambda>h. (if hitExact h then 0 else 1 :: int, - hitScore h)"
  have "sorted_wrt (\<lambda>a b. ?k a \<le> ?k b) (rankHits hits)"
    using sorted_sort_key [of ?k hits] by (simp add: rankHits_def sorted_map)
  then show ?thesis
    unfolding exactFirst_def by (rule sorted_wrt_mono_rel [rotated]) (auto split: if_splits)
qed

text \<open>The first pass: how much it takes, that it stops early only at a group's cap, and how much it takes of a group.\<close>

lemma firstPass_Cons:
  assumes "firstPass limit c pg t (x # hs) = (sel, n)"
  obtains (full) "t = limit" "sel = map (\<lambda>_. False) (x # hs)" "n = t"
  | (skip) sel' where "t \<noteq> limit" "\<not> hitExact x" "c \<le> pg (hitGroup x)" "firstPass limit c pg t hs = (sel', n)" "sel = False # sel'"
  | (keep) sel' where "t \<noteq> limit" "hitExact x \<or> pg (hitGroup x) < c"
      "firstPass limit c (pg(hitGroup x := pg (hitGroup x) + 1)) (t + 1) hs = (sel', n)" "sel = True # sel'"
proof (cases "t = limit")
  case True
  then have "sel = map (\<lambda>_. False) (x # hs)" "n = t"
    using assms by simp_all
  with True show thesis
    by (rule full)
next
  case open': False
  show thesis
  proof (cases "\<not> hitExact x \<and> c \<le> pg (hitGroup x)")
    case True
    then show thesis
      using assms open' skip [of "fst (firstPass limit c pg t hs)"] by (simp add: case_prod_beta prod_eq_iff)
  next
    case False
    then show thesis
      using assms open' keep [of "fst (firstPass limit c (pg(hitGroup x := pg (hitGroup x) + 1)) (t + 1) hs)"]
      by (auto simp: case_prod_beta prod_eq_iff)
  qed
qed

lemma firstPass_facts:
  assumes "firstPass limit c pg t hs = (sel, n)" "t \<le> limit"
  shows "length sel = length hs \<and> n = t + len (picked sel hs) \<and> n \<le> limit"
  using assms
proof (induction hs arbitrary: pg t sel n)
  case (Cons h hs)
  from Cons.prems(1) show ?case
  proof (cases rule: firstPass_Cons)
    case full
    then show ?thesis
      using picked_none [of "h # hs"] by simp
  next
    case (skip sel')
    then show ?thesis
      using Cons.IH [OF skip(4)] Cons.prems(2) by simp
  next
    case (keep sel')
    then show ?thesis
      using Cons.IH [OF keep(3)] Cons.prems(2) by simp
  qed
qed simp

lemma firstPass_left:
  assumes "firstPass limit c pg t hs = (sel, n)" "t \<le> limit" "n < limit" "i < length hs" "\<not> sel ! i"
  shows "\<not> hitExact (hs ! i) \<and> c \<le> pg (hitGroup (hs ! i)) + inGroup (hitGroup (hs ! i)) (picked sel hs)"
  using assms
proof (induction hs arbitrary: pg t sel n i)
  case (Cons x hs)
  from Cons.prems(1) show ?case
  proof (cases rule: firstPass_Cons)
    case full
    then show ?thesis
      using Cons.prems(3) by simp
  next
    case (skip sel')
    then show ?thesis
      using Cons.IH [OF skip(4) Cons.prems(2,3)] Cons.prems(4,5) by (cases i) auto
  next
    case (keep sel')
    then obtain j where j: "i = Suc j" "j < length hs" "\<not> sel' ! j" "t + 1 \<le> limit"
      using Cons.prems(2,4,5) by (cases i) auto
    show ?thesis
      using Cons.IH [OF keep(3) j(4) Cons.prems(3) j(2,3)] keep(4) j(1) by (auto split: if_splits)
  qed
qed simp

lemma firstPass_exact:
  assumes "firstPass limit c pg t hs = (sel, n)" "t \<le> limit" "exactFirst hs"
  shows "filter hitExact (picked sel hs) = take (nat (limit - t)) (filter hitExact hs)"
  using assms
proof (induction hs arbitrary: pg t sel n)
  case (Cons x hs)
  have rest: "exactFirst hs" and none: "\<not> hitExact x \<Longrightarrow> filter hitExact hs = []"
    using Cons.prems(3) by (auto simp: exactFirst_def filter_empty_conv)
  from Cons.prems(1) show ?case
  proof (cases rule: firstPass_Cons)
    case full
    then show ?thesis
      using picked_none [of "x # hs"] by simp
  next
    case (skip sel')
    then show ?thesis
      using Cons.IH [OF skip(4) Cons.prems(2) rest] by simp
  next
    case (keep sel')
    moreover have "nat (limit - t) = Suc (nat (limit - (t + 1)))"
      using keep(1) Cons.prems(2) by simp
    ultimately show ?thesis
      using Cons.IH [OF keep(3) _ rest] Cons.prems(2) none by simp
  qed
qed simp

lemma firstPass_group:
  assumes "firstPass limit c pg t hs = (sel, n)" "t \<le> limit" "exactFirst hs"
  shows "pg g + inGroup g (picked sel hs) \<le> max (max c (pg g)) (pg g + exactIn g (picked sel hs))"
  using assms
proof (induction hs arbitrary: pg t sel n)
  case (Cons x hs)
  have rest: "exactFirst hs"
    using Cons.prems(3) by (simp add: exactFirst_def)
  from Cons.prems(1) show ?case
  proof (cases rule: firstPass_Cons)
    case full
    then show ?thesis
      using picked_none [of "x # hs"] by simp
  next
    case (skip sel')
    then show ?thesis
      using Cons.IH [OF skip(4) Cons.prems(2) rest] by simp
  next
    case (keep sel')
    then have t': "t + 1 \<le> limit"
      using Cons.prems(2) by simp
    have noex: "exactIn g (picked sel' hs) = 0" if "\<not> hitExact x"
    proof -
      have "set (picked sel' hs) \<subseteq> set hs"
        by (auto simp: picked_def dest: set_zip_leftD)
      then show ?thesis
        using Cons.prems(3) that by (auto simp: exactFirst_def filter_empty_conv)
    qed
    show ?thesis
      using Cons.IH [OF keep(3) t' rest] keep(2,4) noex by (cases "hitGroup x = g"; cases "hitExact x") auto
  qed
qed simp

lemma backfill_facts:
  "taken \<le> limit \<Longrightarrow> length (backfill limit taken sel) = length sel
     \<and> (\<forall>i < length sel. sel ! i \<longrightarrow> backfill limit taken sel ! i)"
proof (induction sel arbitrary: taken)
  case (Cons b sel)
  then show ?case
    using Cons.IH [of "taken + 1"] Cons.IH [of taken] by (auto simp: nth_Cons' split: if_splits)
qed simp

lemma backfill_full: "backfill limit limit sel = sel"
  by (cases sel) auto

lemma backfill_count:
  "taken \<le> limit \<Longrightarrow> length sel = length hs \<Longrightarrow>
   len (picked (backfill limit taken sel) hs)
     = len (picked sel hs) + min (limit - taken) (len hs - len (picked sel hs))"
proof (induction sel arbitrary: taken hs)
  case (Cons b sel)
  obtain h hs' where hs: "hs = h # hs'" "length sel = length hs'"
    using Cons.prems(2) by (cases hs) auto
  have le: "length (picked sel hs') \<le> length hs'"
    using picked_subseq [OF hs(2)] by (rule list_emb_length)
  show ?case
  proof (cases "taken = limit \<or> b")
    case True
    then show ?thesis
      using Cons.IH [OF Cons.prems(1) hs(2)] hs(1) le by auto
  next
    case False
    then show ?thesis
      using Cons.IH [of "taken + 1", OF _ hs(2)] Cons.prems(1) hs(1) le by auto
  qed
qed simp

lemma picked_filter:
  "length sel = length hs \<Longrightarrow> (\<And>i. i < length hs \<Longrightarrow> P (hs ! i) \<Longrightarrow> sel ! i) \<Longrightarrow> filter P (picked sel hs) = filter P hs"
proof (induction hs arbitrary: sel)
  case (Cons h hs)
  obtain b sel' where sel: "sel = b # sel'" "length sel' = length hs"
    using Cons.prems(1) by (cases sel) auto
  have "filter P (picked sel' hs) = filter P hs"
  proof (rule Cons.IH [OF sel(2)])
    fix i
    assume "i < length hs" "P (hs ! i)"
    then show "sel' ! i"
      using Cons.prems(2) [of "Suc i"] sel(1) by simp
  qed
  then show ?case
    using Cons.prems(2) [of 0] sel(1) by auto
qed simp

lemma two_groups: "g \<noteq> g' \<Longrightarrow> inGroup g hs + inGroup g' hs \<le> len hs"
  by (induction hs) auto

text \<open>
  With room left after the first pass, only one group can have reached its cap, so the backfill takes
  hits of that group alone.
\<close>

lemma firstPass_one_group:
  assumes "firstPass limit c (\<lambda>_. 0) 0 hs = (sel, n)" "0 \<le> limit" "n < limit" "limit \<le> 2 * c"
    and "i < length hs" "\<not> sel ! i" "j < length hs" "\<not> sel ! j"
  shows "hitGroup (hs ! i) = hitGroup (hs ! j)"
proof (rule ccontr)
  assume "hitGroup (hs ! i) \<noteq> hitGroup (hs ! j)"
  then show False
    using firstPass_left [OF assms(1,2,3,5,6)] firstPass_left [OF assms(1,2,3,7,8)] firstPass_facts [OF assms(1,2)]
      two_groups [of "hitGroup (hs ! i)" "hitGroup (hs ! j)" "picked sel hs"] assms(3,4) by linarith
qed

lemma selectHits_fair:
  assumes "exactFirst hits" "0 < limit" "r = selectHits limit True hits"
  shows "subseq r hits \<and> len r = min limit (len hits)
     \<and> filter hitExact r = take (nat limit) (filter hitExact hits)
     \<and> (\<forall>g. max ((limit + 1) div 2) (exactIn g r) < inGroup g r
          \<longrightarrow> filter (\<lambda>h. hitGroup h \<noteq> g) r = filter (\<lambda>h. hitGroup h \<noteq> g) hits)"
proof -
  define c where "c = (limit + 1) div 2"
  obtain sel n where fp: "firstPass limit c (\<lambda>_. 0) 0 hits = (sel, n)"
    by fastforce
  have sel: "length sel = length hits" "n = len (picked sel hits)" "n \<le> limit"
    using firstPass_facts [OF fp] assms(2) by auto
  let ?b = "backfill limit n sel"
  have r: "r = picked ?b hits"
    using fp assms(2,3) by (simp add: selectHits_def picked_def c_def signed_divide_int_def Let_def)
  note bf = backfill_facts [OF sel(3), of sel]
  have lb: "length ?b = length hits"
    using bf sel(1) by simp
  have count: "len r = min limit (len hits)"
    using backfill_count [OF sel(3,1)] list_emb_length [OF picked_subseq [OF sel(1)]] sel(2,3) r by simp
  have ex: "filter hitExact r = take (nat limit) (filter hitExact hits)"
  proof (cases "n = limit")
    case True
    then show ?thesis
      using firstPass_exact [OF fp _ assms(1)] assms(2) r by (simp add: backfill_full)
  next
    case False
    then have "sel ! i" if "i < length hits" "hitExact (hits ! i)" for i
      using firstPass_left [OF fp _ _ that(1)] assms(2) sel(3) that(2) by fastforce
    then have "filter hitExact (picked sel hits) = filter hitExact hits" "filter hitExact r = filter hitExact hits"
      unfolding r using sel(1) bf lb by (auto intro!: picked_filter)
    then show ?thesis
      using sel(2,3) length_filter_le [of hitExact "picked sel hits"] by simp
  qed
  have "filter (\<lambda>h. hitGroup h \<noteq> g) r = filter (\<lambda>h. hitGroup h \<noteq> g) hits"
    if over: "max c (exactIn g r) < inGroup g r" for g
  proof -
    have few: "inGroup g (picked sel hits) \<le> max c (exactIn g (picked sel hits))"
      using firstPass_group [OF fp _ assms(1), of g] assms(2) by (simp add: c_def)
    have open': "n < limit"
      using sel(3) over few r by (cases "n = limit") (auto simp: backfill_full)
    have "\<exists>i < length hits. \<not> sel ! i \<and> hitGroup (hits ! i) = g"
    proof (rule ccontr)
      assume "\<not> ?thesis"
      then have "filter (\<lambda>h. hitGroup h = g) (picked sel hits) = filter (\<lambda>h. hitGroup h = g) hits"
          "filter (\<lambda>h. hitGroup h = g) r = filter (\<lambda>h. hitGroup h = g) hits"
        unfolding r using sel(1) bf lb by (auto intro!: picked_filter)
      then have same: "filter (\<lambda>h. hitGroup h = g) r = filter (\<lambda>h. hitGroup h = g) (picked sel hits)"
        by simp
      then have "filter hitExact (filter (\<lambda>h. hitGroup h = g) r) = filter hitExact (filter (\<lambda>h. hitGroup h = g) (picked sel hits))"
        by simp
      then have "exactIn g r = exactIn g (picked sel hits)"
        by (simp add: conj_commute)
      then show False
        using few over unfolding same by linarith
    qed
    then obtain i where i: "i < length hits" "\<not> sel ! i" "hitGroup (hits ! i) = g"
      by blast
    have "limit \<le> 2 * c"
      by (simp add: c_def)
    then have "sel ! j" if "j < length hits" "hitGroup (hits ! j) \<noteq> g" for j
      using firstPass_one_group [OF fp _ open' _ i(1,2) that(1)] assms(2) i(3) that(2) by auto
    then show ?thesis
      unfolding r using bf lb sel(1) by (intro picked_filter) auto
  qed
  then show ?thesis
    using count ex picked_subseq [OF lb] r by (simp add: c_def)
qed

lemma searchLimit_pos: "1 \<le> searchLimit l limit"
  by (simp add: searchLimit_def EffectiveMaxResults_def DefaultLazyToolSearchResults_def Let_def)

section \<open>What a request sends\<close>

lemma foldl_update: "foldl (\<lambda>m r. m(f r \<mapsto> g r)) m0 rs = m0 ++ map_of (rev (map (\<lambda>r. (f r, g r)) rs))"
  by (induction rs arbitrary: m0) (simp_all add: map_add_upd_left)

lemma presented_internal:
  assumes "distinct (map (\<lambda>r. tdName (regDef r)) reg)" "l = NewLazyLoader T reg cfg opts" "i \<in> entryID ` set reg"
  shows "InternalID l (presentedName l i) = i"
proof -
  let ?ps = "map (\<lambda>r. (entryID r, tdName (regDef r))) reg"
  let ?is = "map (\<lambda>r. (tdName (regDef r), entryID r)) reg"
  have p: "presentedFor l = map_of (rev ?ps)" and n: "internalFor l = map_of (rev ?is)"
    by (simp_all add: assms(2) NewLazyLoader_def Let_def foldl_update)
  obtain name where name: "map_of (rev ?ps) i = Some name"
    using assms(3) map_of_eq_None_iff [of "rev ?ps" i] by (force simp: image_iff)
  then have "(name, i) \<in> set (rev ?is)"
    by (auto dest!: map_of_SomeD)
  moreover have "distinct (map fst (rev ?is))"
    using assms(1) by (simp add: comp_def rev_map [symmetric])
  ultimately have "map_of (rev ?is) name = Some i"
    by (metis map_of_is_SomeI)
  then show ?thesis
    by (simp add: InternalID_def presentedName_def p n name)
qed

lemma visibleEntry_harness:
  "visibleEntry T l False
     = (\<lambda>e. if leID e \<noteq> ToolSearchToolName \<and> \<not> Unloaded l (leID e) then [leDef e] else [])"
  by (auto simp: visibleEntry_def Unloaded_def)

lemma visibleEntry_native:
  "map tdName (visibleEntry T l True e) = (if leID e \<noteq> ToolSearchToolName then [tdName (leDef e)] else [])"
  by (simp add: visibleEntry_def case_prod_beta)

lemma concat_map_if: "concat (map (\<lambda>x. if P x then [f x] else []) xs) = map f (filter P xs)"
  by (induction xs) auto

lemma undefer_names: "map tdName (undeferUnreferenced lz defs search ms) = map tdName defs"
  by (auto simp: undeferUnreferenced_def split: option.splits)

lemma undefer_eager: "d \<in> set defs \<Longrightarrow> \<not> Deferred d \<Longrightarrow> d \<in> set (undeferUnreferenced lz defs search ms)"
  by (auto simp: undeferUnreferenced_def image_iff split: option.splits intro: bexI [of _ d])

lemma native_has_eager:
  assumes "loaderOk l" "0 < eagerTools l"
  obtains e where "e \<in> set (llEntries l)" "leDef e \<in> set (Visible T l True)"
proof -
  obtain e where "e \<in> set (llEntries l)" "\<not> lazyDeferred l (leID e)" "leID e \<noteq> ToolSearchToolName"
    using assms by (auto simp: loaderOk_def length_greater_0_conv filter_empty_conv)
  then show thesis
    using that [of e] by (force simp: Visible_def visibleEntry_def)
qed

section \<open>Properties\<close>

text \<open>
  A search is complete and fair. Of the deferred tools not yet loaded that match the query, ranked
  with the tools the query names exactly ahead of the others, it returns as many as the limit allows, in
  rank order; the exactly named tools come first and are cut only by the limit; and no origin takes more
  than half of the places (rounded up, its exactly named tools apart) unless every match of every other
  origin is returned as well.
\<close>

theorem lazy_search_fair:
  assumes "searchTerms T query \<noteq> []" "r = LazySearch T l query limit" "lim = searchLimit l limit"
    and "hits = rankHits (hitsOf T l (searchTerms T query) (toLower T (TrimSpace query)) (\<lambda>i. \<not> Loaded l i))"
  shows "subseq r hits \<and> len r = min lim (len hits) \<and> (\<forall>h \<in> set r. Unloaded l (leID (hitEntry h)))
     \<and> filter hitExact r = take (nat lim) (filter hitExact hits)
     \<and> (\<forall>g. max ((lim + 1) div 2) (exactIn g r) < inGroup g r
          \<longrightarrow> filter (\<lambda>h. hitGroup h \<noteq> g) r = filter (\<lambda>h. hitGroup h \<noteq> g) hits)"
proof -
  have r: "r = selectHits lim True hits"
    using assms by (simp add: LazySearch_def lazySearchWith_def Let_def)
  have fair: "subseq r hits \<and> len r = min lim (len hits) \<and> filter hitExact r = take (nat lim) (filter hitExact hits)
     \<and> (\<forall>g. max ((lim + 1) div 2) (exactIn g r) < inGroup g r
          \<longrightarrow> filter (\<lambda>h. hitGroup h \<noteq> g) r = filter (\<lambda>h. hitGroup h \<noteq> g) hits)"
    using searchLimit_pos [of l limit] assms(3,4) r rankHits_exactFirst by (intro selectHits_fair) auto
  have "Unloaded l (leID (hitEntry h))" if "h \<in> set hits" for h
    using that by (auto simp: assms(4) rankHits_def hitsOf_def Unloaded_def Let_def)
  then have "\<forall>h \<in> set r. Unloaded l (leID (hitEntry h))"
    using fair list_emb_set [of _ r hits] by (metis (full_types))
  with fair show ?thesis
    by blast
qed

definition asciiLower :: "char \<Rightarrow> char" where
  "asciiLower ch = (if CHR ''A'' \<le> ch \<and> ch \<le> CHR ''Z'' then char_of (of_char ch + 32 :: nat) else ch)"

definition plainText :: lazyText where
  "plainText = \<lparr>toLower = map asciiLower, wordsOf = (\<lambda>s. filter (\<lambda>w. w \<noteq> []) (Split s (CHR '' ''))),
     quoted = (\<lambda>s. s), schemaProperties = (\<lambda>_. None)\<rparr>"

definition regTools :: "string list \<Rightarrow> regEntry list" where
  "regTools names = map (\<lambda>name. \<lparr>regDef = toolNamed name, regTool = Some (name, [])\<rparr>) names"

definition sampleLoader :: LazyLoader where
  "sampleLoader = NewLazyLoader plainText
     (regTools [''tool_search'', ''read_file'', ''mcp_git_log'', ''mcp_git_logs'', ''mcp_git_log_all'', ''mcp_ci_log''])
     \<lparr>Strategy = [], Eager = [], MaxResults = 2\<rparr> \<lparr>ControlPlaneTools = [], MCPServers = [''git'', ''ci'']\<rparr>"

theorem lazy_search_fair_witness:
  "searchTerms plainText ''log'' = [''log'']
   \<and> len (LazySearch plainText sampleLoader ''log'' 2) = 2
   \<and> map (\<lambda>h. leID (hitEntry h)) (LazySearch plainText sampleLoader ''log'' 2) = [''mcp_git_log'', ''mcp_ci_log'']"
proof -
  have terms: "searchTerms plainText ''log'' = [''log'']"
    by code_simp
  have ids: "map (\<lambda>h. leID (hitEntry h)) (LazySearch plainText sampleLoader ''log'' 2) = [''mcp_git_log'', ''mcp_ci_log'']"
    by code_simp
  have "2 \<le> len (rankHits (hitsOf plainText sampleLoader (searchTerms plainText ''log'')
      (toLower plainText (TrimSpace ''log'')) (\<lambda>i. \<not> Loaded sampleLoader i)))" "searchLimit sampleLoader 2 = 2"
    by code_simp+
  then show ?thesis
    using lazy_search_fair [OF _ refl refl refl, of plainText "''log''" sampleLoader 2] terms ids by simp
qed



text \<open>
  The names a provider sees and the identifiers the harness keeps are two sides of one table. The
  references of a search result go out under the model-facing names and, echoed by the provider, come
  back as the same deferred tools in the same order, up to the bound on one result.
\<close>

theorem references_roundtrip:
  assumes "distinct (map (\<lambda>r. tdName (regDef r)) reg)" "l = NewLazyLoader T reg cfg opts"
    and "set ids \<subseteq> set (llDeferred l)"
  shows "searchReferences l True (map (presentedName l) ids) = take maxSearchReferences ids"
proof -
  have "i \<in> entryID ` set reg" if "i \<in> set ids" for i
    using that assms(2,3) by (auto simp: NewLazyLoader_def Let_def)
  then have "map (InternalID l) (map (presentedName l) ids) = ids"
    using presented_internal [OF assms(1,2)] by (simp add: map_idI)
  moreover have "filter (lazyDeferred l) ids = ids"
    using assms(3) by (auto simp: filter_id_conv lazyDeferred_def)
  ultimately show ?thesis
    by (simp add: searchReferences_spec)
qed

definition renamedReg :: "regEntry list" where
  "renamedReg = [\<lparr>regDef = toolNamed ''GitLog'', regTool = Some (''mcp_git_log'', ''git'')\<rparr>,
     \<lparr>regDef = toolNamed ''Read'', regTool = Some (''read_file'', [])\<rparr>]"

definition renamedLoader :: LazyLoader where
  "renamedLoader = NewLazyLoader plainText renamedReg \<lparr>Strategy = [], Eager = [], MaxResults = 0\<rparr>
     \<lparr>ControlPlaneTools = [], MCPServers = [''git'']\<rparr>"

theorem references_roundtrip_witness:
  "map (presentedName renamedLoader) [''mcp_git_log''] = [''GitLog'']
   \<and> searchReferences renamedLoader True [''GitLog''] = [''mcp_git_log'']"
proof -
  have "distinct (map (\<lambda>r. tdName (regDef r)) renamedReg)" "set [''mcp_git_log''] \<subseteq> set (llDeferred renamedLoader)"
      "map (presentedName renamedLoader) [''mcp_git_log''] = [''GitLog'']"
    by code_simp+
  then show ?thesis
    using references_roundtrip [OF _ renamedLoader_def, of "[''mcp_git_log'']"] by (simp add: maxSearchReferences_def)
qed

end
