(* ===== verification/Agent_Loop.thy ===== *)
theory Agent_Loop
  imports Screening Turn_Policy Lazy_Tools Sliding_Window
begin

text \<open>
  The agentic loop itself: \<open>runInnerLoop\<close> and \<open>applyEscalation\<close> of \<open>core/loop.go\<close>, \<open>prepareRequest\<close> of
  \<open>core/turnrequest.go\<close>, \<open>bindRequestThinking\<close> of \<open>core/thinkingbinding.go\<close> and the turn events of
  \<open>core/transcript.go\<close>, composed from the components of the other theories.

  The loop's local variables and the fields of \<open>AgenticLoop\<close> it changes are one record. What tools and
  sub-agents change as well, the lazy loader and the token ledger, is the record \<open>loopWorld\<close>, whose
  extension is the rest of the world the tool handlers act on. The parts the loop only calls (router,
  providers, context strategy, escalation policy, git) are functions of an environment, which also
  gives what arrives from outside at each turn: operator input, cancellation and the clock. Spans, logs,
  metrics, trace records and warnings are left out; the events that open and close a turn are kept, and
  so is, for the statements below, the list of the requests sent.
\<close>

section \<open>State\<close>

record loopWorld =
  lwLazy :: "LazyLoader option"
  lwLedger :: TokenLedger

record loopConfig =
  lcMaxTurns :: int
  lcPrompt :: string
  lcMaxTokenBudget :: "int option"
  lcMaxContextTokens :: int
  lcMaxResultBytes :: int
  lcStreamsThinking :: bool
  lcWindDown :: bool

type_synonym ModelSelection = "string \<times> string"

record RouterContext =
  rcMode :: string
  rcTurn :: int
  rcLastStopReason :: string
  rcInput :: int
  rcOutput :: int

text \<open>The parts of the request parameters the loop computes; the rest is copied from the configuration.\<close>

record StreamParams =
  spModel :: string
  spSystem :: string
  spMessages :: "Message list"
  spTools :: "ToolDefinition list"
  spMaxTokens :: int
  spToolRequired :: bool
  spToolSearch :: bool

datatype turnEvent =
    TurnStarted int
  | TurnCommitted int string nat
  | TurnAbandoned int string

text \<open>
  One provider attempt: the stream's events or the error of opening it, and what the retry loop
  observes of it.
\<close>

record providerReply =
  prChannel :: "string + (bool \<times> ModelEvent) list"
  prIsOverflow :: bool
  prIsRetryable :: bool
  prCtxDoneEarly :: bool
  prCtxDone :: bool
  prClock :: int
  prJitter :: "int \<Rightarrow> int"
  prSleepElapsed :: bool

record ('f, 's, 'x) loopState =
  lsMessages :: "Message list"
  lsMonitor :: "PatternMonitor option"
  lsQueue :: userInputQueue
  lsScreenedLen :: nat
  lsTokens :: TokenUsage
  lsStall :: stallDetector
  lsWindDownSent :: bool
  lsRoute :: "ModelSelection option"
  lsPauses :: int
  lsRecoveries :: int
  lsPriorCalls :: nat
  lsEscalations :: nat
  lsToolRequired :: bool
  lsLastStop :: string
  lsFinal :: string
  lsContinued :: string
  lsPreContinuation :: string
  lsRatio :: 'f
  lsBinding :: "(string \<times> ToolDefinition list) option"
  lsRewritten :: bool
  lsStrategy :: 's
  lsWorld :: "'x loopWorld_scheme"
  lsOpen :: "int option"
  lsEvents :: "turnEvent list"
  lsSent :: "StreamParams list"

text \<open>
  \<open>leCtxErr turn k\<close> is whether the context is done at the \<open>k\<close>-th place of the turn that asks. \<open>leArrived\<close>
  is the operator input that reached the queue before the turn's first (\<open>False\<close>) and second drain.
\<close>

record ('f, 's, 'x, 'c, 'v, 'p) loopEnv =
  leScreen :: screenEnv
  leTurnZeroContext :: "string list"
  leRatio :: "'f ratioOps"
  leDispatch :: "PatternMonitor option \<Rightarrow> 'x loopWorld_scheme dispatchEnv"
  leSha :: "string \<Rightarrow> string"
  leCodec :: "'v jsonCodec"
  leLazyText :: lazyText
  leTools :: "ToolDefinition list"
  leToolSearch :: "string \<Rightarrow> string \<Rightarrow> bool \<times> string"
  leStructured :: "(string \<Rightarrow> string \<Rightarrow> bool) option"
  leWindow :: "string \<Rightarrow> string \<Rightarrow> int"
  leReenc :: "string \<Rightarrow> string \<Rightarrow> string option"
  leSystem :: string
  lePrepare :: "'s \<Rightarrow> Message list \<Rightarrow> TokenBudget \<Rightarrow> Message list \<times> 's"
  lePrepareErr :: "'s \<Rightarrow> Message list \<Rightarrow> TokenBudget \<Rightarrow> bool"
  leCompaction :: "'s \<Rightarrow> CompactionEvent option"
  leSelect :: "RouterContext \<Rightarrow> ModelSelection"
  leProvider :: "'p option"
  leProviders :: "(string \<times> 'p) list"
  leStream :: "'p \<Rightarrow> StreamParams \<Rightarrow> int \<Rightarrow> nat \<Rightarrow> nat \<Rightarrow> providerReply"
  leIsBatch :: "'p \<Rightarrow> bool"
  leRetry :: "ProviderRetryConfig option"
  leRetries :: "string \<rightharpoonup> ProviderRetryConfig option"
  leScrub :: "string \<Rightarrow> string"
  leCarry :: "'c streamCarry"
  leCarry0 :: 'c
  leEscalation :: "(EscalationInput \<Rightarrow> EscalationDecision) option"
  leCheckpoint :: "int \<Rightarrow> nat \<Rightarrow> 'x loopWorld_scheme \<Rightarrow> 'x loopWorld_scheme"
  leArrived :: "int \<Rightarrow> bool \<Rightarrow> queuedUserInput list"
  leCtxErr :: "int \<Rightarrow> nat \<Rightarrow> bool"
  leClock :: "int \<Rightarrow> windDownClock"

text \<open>How a turn ends: the run returns with an outcome, the final text and the stop details, or goes on.\<close>

datatype 'st turnStep =
    Finish 'st string string "StopDetails option"
  | Continue 'st

section \<open>Turn events (transcript.go)\<close>

definition outcomeCtxDone :: string where "outcomeCtxDone = ''_ctx_done''"

definition emitTurnStarted :: "int \<Rightarrow> ('f, 's, 'x) loopState \<Rightarrow> ('f, 's, 'x) loopState" where
  "emitTurnStarted turn st = st\<lparr>lsOpen := Some turn, lsEvents := lsEvents st @ [TurnStarted turn]\<rparr>"

definition emitTurnCommitted :: "int \<Rightarrow> string \<Rightarrow> nat \<Rightarrow> ('f, 's, 'x) loopState \<Rightarrow> ('f, 's, 'x) loopState" where
  "emitTurnCommitted turn stopReason toolResults st =
     st\<lparr>lsOpen := None, lsEvents := lsEvents st @ [TurnCommitted turn stopReason toolResults]\<rparr>"

definition emitTurnAbandoned :: "string \<Rightarrow> ('f, 's, 'x) loopState \<Rightarrow> ('f, 's, 'x) loopState" where
  "emitTurnAbandoned reason st =
     (case lsOpen st of
        None \<Rightarrow> st
      | Some turn \<Rightarrow> st\<lparr>lsOpen := None, lsEvents := lsEvents st @ [TurnAbandoned turn reason]\<rparr>)"

definition closeTurn :: "bool \<Rightarrow> int \<Rightarrow> string \<Rightarrow> ('f, 's, 'x) loopState \<Rightarrow> ('f, 's, 'x) loopState" where
  "closeTurn appended turn stopReason st =
     (if appended then emitTurnCommitted turn stopReason 0 st else emitTurnAbandoned ''empty_response'' st)"

definition finish :: "('f, 's, 'x) loopState \<Rightarrow> string \<Rightarrow> ('f, 's, 'x) loopState turnStep" where
  "finish st outcome = Finish st outcome (lsFinal st) None"

definition chargeTurn :: "TokenUsage \<Rightarrow> ('f, 's, 'x) loopState \<Rightarrow> ('f, 's, 'x) loopState" where
  "chargeTurn usage st =
     st\<lparr>lsTokens := RecordTurn (lsTokens st) usage,
        lsWorld := (lsWorld st)\<lparr>lwLedger := Charge usage (lwLedger (lsWorld st))\<rparr>\<rparr>"

definition overBudget :: "loopConfig \<Rightarrow> ('f, 's, 'x) loopState \<Rightarrow> bool" where
  "overBudget cfg st = budgetExhausted (lsTokens st) (lwLedger (lsWorld st)) (lcMaxTokenBudget cfg)"

section \<open>The turn boundary\<close>

definition receiveInput :: "queuedUserInput list \<Rightarrow> userInputQueue \<Rightarrow> userInputQueue" where
  "receiveInput arrived q = foldl (\<lambda>q i. snd (qpush i q)) q arrived"

definition absorbInput ::
  "('f, 's, 'x, 'c, 'v, 'p) loopEnv \<Rightarrow> int \<Rightarrow> bool \<Rightarrow> ('f, 's, 'x) loopState \<Rightarrow> nat \<times> string \<times> ('f, 's, 'x) loopState" where
  "absorbInput env turn second st =
     (case absorbQueuedUserInput (leScreen env) (lsMonitor st) (receiveInput (leArrived env turn second) (lsQueue st))
             (lsMessages st) of
        (n, r) \<Rightarrow> (n, scOutcome r, st\<lparr>lsQueue := [], lsMessages := scMessages r, lsMonitor := scMonitor r\<rparr>))"

definition screenTurn ::
  "('f, 's, 'x, 'c, 'v, 'p) loopEnv \<Rightarrow> loopConfig \<Rightarrow> int \<Rightarrow> ('f, 's, 'x) loopState \<Rightarrow> string \<times> ('f, 's, 'x) loopState" where
  "screenTurn env cfg turn st =
     (if turn = 0
      then (case screenTurnZero (leScreen env) (lsMonitor st) (lcPrompt cfg) (leTurnZeroContext env) of
              (allow, mon) \<Rightarrow> (if allow then [] else ''guardrail_blocked'', st\<lparr>lsMonitor := mon\<rparr>))
      else if length (lsMessages st) > lsScreenedLen st
      then (let r = screenArrivedContent (leScreen env) (lsMonitor st) (lsMessages st)
            in (scOutcome r, st\<lparr>lsMessages := scMessages r, lsMonitor := scMonitor r\<rparr>))
      else ([], st))"

definition turnBoundary ::
  "('f, 's, 'x, 'c, 'v, 'p) loopEnv \<Rightarrow> loopConfig \<Rightarrow> int \<Rightarrow> ('f, 's, 'x) loopState
     \<Rightarrow> ('f, 's, 'x) loopState turnStep" where
  "turnBoundary env cfg turn st =
     (if overBudget cfg st then finish st ''budget_exceeded''
      else if leCtxErr env turn 0 then finish st outcomeCtxDone
      else case (if lsRoute st = None then absorbInput env turn False st
                 else (0, [], st\<lparr>lsQueue := receiveInput (leArrived env turn False) (lsQueue st)\<rparr>)) of
             (_, blocked, st1) \<Rightarrow>
               if blocked \<noteq> [] then finish st1 blocked
               else (case screenTurn env cfg turn st1 of
                       (blocked, st2) \<Rightarrow>
                         if blocked \<noteq> [] then finish st2 blocked
                         else Continue (st2\<lparr>lsScreenedLen := length (lsMessages st2)\<rparr>)))"

section \<open>Planning the request\<close>

definition windDownTurn ::
  "('f, 's, 'x, 'c, 'v, 'p) loopEnv \<Rightarrow> loopConfig \<Rightarrow> int \<Rightarrow> ('f, 's, 'x) loopState \<Rightarrow> ('f, 's, 'x) loopState" where
  "windDownTurn env cfg turn st =
     (if lsRoute st = None \<or> turn + 1 = lcMaxTurns cfg
      then (case windDownIfDue (leRatio env) (leClock env turn) (lcWindDown cfg) (scMode (leScreen env)) (lcMaxTurns cfg)
                   (lcMaxTokenBudget cfg) turn (usageTotal (lsTokens st)) (lsWindDownSent st) (lsMessages st) of
              (ms, trigger, sent) \<Rightarrow>
                st\<lparr>lsMessages := ms, lsWindDownSent := sent, lsRoute := (if trigger \<noteq> [] then None else lsRoute st)\<rparr>)
      else st)"

definition selectModel ::
  "('f, 's, 'x, 'c, 'v, 'p) loopEnv \<Rightarrow> int \<Rightarrow> ('f, 's, 'x) loopState \<Rightarrow> ModelSelection" where
  "selectModel env turn st =
     (case lsRoute st of
        Some selection \<Rightarrow> selection
      | None \<Rightarrow> leSelect env \<lparr>rcMode = scMode (leScreen env), rcTurn = turn, rcLastStopReason = lsLastStop st,
                 rcInput = uInput (lsTokens st), rcOutput = uOutput (lsTokens st)\<rparr>)"

definition hasThinkingBlocks :: "Message list \<Rightarrow> bool" where
  "hasThinkingBlocks messages = list_ex (\<lambda>m. list_ex IsThinkingBlock (MContent m)) messages"

definition bindRequestThinking ::
  "string \<Rightarrow> ToolDefinition list \<Rightarrow> ('f, 's, 'x) loopState \<Rightarrow> ('f, 's, 'x) loopState" where
  "bindRequestThinking systemPrompt toolDefs st =
     (let st' = st\<lparr>lsBinding := Some (systemPrompt, toolDefs)\<rparr>
      in if lsBinding st = None \<or> lsBinding st = Some (systemPrompt, toolDefs) \<or> \<not> hasThinkingBlocks (lsMessages st)
         then st' else st'\<lparr>lsMessages := StripThinkingBlocks (lsMessages st)\<rparr>)"

definition sendsStructuredResults :: "('f, 's, 'x, 'c, 'v, 'p) loopEnv \<Rightarrow> ModelSelection \<Rightarrow> bool" where
  "sendsStructuredResults env selection =
     (case leStructured env of None \<Rightarrow> True | Some f \<Rightarrow> f (fst selection) (snd selection))"

record turnPlan =
  tpSelection :: ModelSelection
  tpDefs :: "ToolDefinition list"
  tpSearch :: lazySearch
  tpStructured :: bool
  tpReserve :: int
  tpBudget :: TokenBudget

definition planRequest ::
  "('f, 's, 'x, 'c, 'v, 'p) loopEnv \<Rightarrow> loopConfig \<Rightarrow> int \<Rightarrow> ('f, 's, 'x) loopState
     \<Rightarrow> turnPlan \<times> ('f, 's, 'x) loopState" where
  "planRequest env cfg turn st =
     (let selection = selectModel env turn st;
          (toolDefs, search) = visibleTools (leLazyText env) (leTools env) (leToolSearch env (fst selection) (snd selection))
             (lwLazy (lsWorld st));
          st1 = bindRequestThinking (leSystem env) toolDefs st;
          structured = sendsStructuredResults env selection;
          currentTokens = estimateCurrentTokens (leReenc env) (lsMessages st1) structured
            + estimateSystemPromptTokens (leSystem env)
            + estimateLoadedToolDefinitionTokens toolDefs (Some (deferredToolLoaded (lwLazy (lsWorld st1))));
          window = fst (resolveContextWindow (lcMaxContextTokens cfg) (leWindow env (fst selection) (snd selection)));
          reserve = effectiveReserveForResponse window
      in (\<lparr>tpSelection = selection, tpDefs = toolDefs, tpSearch = search, tpStructured = structured, tpReserve = reserve,
           tpBudget = newTurnBudget (leRatio env) window reserve (lsRatio st1) currentTokens\<rparr>, st1))"

text \<open>The messages to send with their estimate, or the outcome that ends the run.\<close>

definition prepareRequest ::
  "('f, 's, 'x, 'c, 'v, 'p) loopEnv \<Rightarrow> int \<Rightarrow> turnPlan \<Rightarrow> TokenBudget \<Rightarrow> ('f, 's, 'x) loopState
     \<Rightarrow> (string + Message list \<times> int) \<times> ('f, 's, 'x) loopState" where
  "prepareRequest env turn plan tb st =
     (case lePrepare env (lsStrategy st) (lsMessages st) tb of
        (prepared, s) \<Rightarrow>
          if lePrepareErr env (lsStrategy st) (lsMessages st) tb
          then (Inl (if leCtxErr env turn 1 then outcomeCtxDone else ''error''), st\<lparr>lsStrategy := s\<rparr>)
          else
            let rewritten = (lsRewritten st \<or> leCompaction env s \<noteq> None);
                prepared' = (if rewritten then StripThinkingBlocks prepared else prepared);
                fit = fitPreparedRequest (leReenc env) rewritten (Some (deferredToolLoaded (lwLazy (lsWorld st)))) prepared'
                        (leSystem env) (tpDefs plan) tb (tpStructured plan);
                st' = st\<lparr>lsStrategy := s, lsRewritten := frRewritten fit\<rparr>
            in (if frError fit \<noteq> None then Inl ''context_exhausted'' else Inr (frMessages fit, frTokens fit), st'))"

definition resolveProvider :: "('f, 's, 'x, 'c, 'v, 'p) loopEnv \<Rightarrow> string \<Rightarrow> 'p option" where
  "resolveProvider env name =
     (if name \<noteq> [] \<and> leProviders env \<noteq> [] then map_of (leProviders env) name else leProvider env)"

section \<open>The request\<close>

definition replyResult ::
  "('f, 's, 'x, 'c, 'v, 'p) loopEnv \<Rightarrow> loopConfig \<Rightarrow> providerReply \<Rightarrow> (streamResult option) + streamResult" where
  "replyResult env cfg reply =
     (case prChannel reply of
        Inl _ \<Rightarrow> Inl None
      | Inr ch \<Rightarrow>
          (case streamEventsToResult (leScrub env) (leCarry env) (leCarry0 env) (lcStreamsThinking cfg) ch of
             (err, sr, _) \<Rightarrow> if err = None then Inr sr else Inl (Some sr)))"

definition attemptOf :: "('f, 's, 'x, 'c, 'v, 'p) loopEnv \<Rightarrow> loopConfig \<Rightarrow> providerReply \<Rightarrow> attemptEnv" where
  "attemptOf env cfg reply =
     \<lparr>answer = (case replyResult env cfg reply of Inl failed' \<Rightarrow> Inl (map_option srUsage failed') | Inr sr \<Rightarrow> Inr (srUsage sr)),
      isOverflow = prIsOverflow reply, isRetryable = prIsRetryable reply, ctxDoneEarly = prCtxDoneEarly reply,
      ctxDone = prCtxDone reply, clock = prClock reply, jitter = prJitter reply, sleepElapsed = prSleepElapsed reply\<rparr>"

definition scrubStopDetails :: "(string \<Rightarrow> string) \<Rightarrow> streamResult \<Rightarrow> streamResult" where
  "scrubStopDetails scrub sr =
     sr\<lparr>srStopDetails := map_option (\<lambda>d. d\<lparr>Explanation := scrub (Explanation d)\<rparr>) (srStopDetails sr)\<rparr>"

definition requestParams ::
  "('f, 's, 'x, 'c, 'v, 'p) loopEnv \<Rightarrow> turnPlan \<Rightarrow> bool \<Rightarrow> Message list \<Rightarrow> ('f, 's, 'x) loopState \<Rightarrow> StreamParams" where
  "requestParams env plan required prepared st =
     \<lparr>spModel = snd (tpSelection plan), spSystem = leSystem env,
      spMessages = presentToolReferences (lwLazy (lsWorld st)) prepared,
      spTools = undeferUnreferenced (lwLazy (lsWorld st)) (tpDefs plan) (tpSearch plan) prepared,
      spMaxTokens = tpReserve plan, spToolRequired = required, spToolSearch = lsNative (tpSearch plan)\<rparr>"

text \<open>
  One request of a turn: an answer with its attempt, a retry with the messages of the forced
  compaction, or the end of the run. \<open>k\<close> numbers the requests of the turn.
\<close>

datatype 'st requestOutcome =
    Answered streamResult providerAttempt 'st
  | Failed 'st
  | Resend "Message list" int 'st
  | Ended "'st turnStep"

definition requestRound ::
  "('f, 's, 'x, 'c, 'v, 'p) loopEnv \<Rightarrow> loopConfig \<Rightarrow> int \<Rightarrow> turnPlan \<Rightarrow> 'p \<Rightarrow> bool \<Rightarrow> nat \<Rightarrow> int \<Rightarrow> Message list \<Rightarrow> int
     \<Rightarrow> ('f, 's, 'x) loopState \<Rightarrow> ('f, 's, 'x) loopState requestOutcome" where
  "requestRound env cfg turn plan p required k rejected prepared requestTokens st =
     (let params = requestParams env plan required prepared st;
          replies = leStream env p params turn k;
          pa = requestProvider (\<lambda>n. attemptOf env cfg (replies n)) requestTokens (rejected = 0) (leIsBatch env p)
                 (turnRetryPolicyFor (leRetry env) (leRetries env) (fst (tpSelection plan)));
          sr = (case replyResult env cfg (replies (paAttempts pa)) of
                  Inr r \<Rightarrow> scrubStopDetails (leScrub env) r | Inl _ \<Rightarrow> zeroStreamResult);
          st1 = fold chargeTurn (paCharges pa) (st\<lparr>lsSent := lsSent st @ [params]\<rparr>);
          st2 = (if \<not> paFailed pa \<and> paInputReported pa
                 then st1\<lparr>lsRatio := calObserve (leRatio env) requestTokens (uInput (paTokens pa)) (lsRatio st1)\<rparr> else st1);
          overflowed = (if paFailed pa then prIsOverflow (replies (paAttempts pa))
                        else StopReason sr = ''model_context_window_exceeded'')
      in if leCtxErr env turn (2 + k) \<or> \<not> overflowed
         then if paFailed pa then Failed st2 else Answered sr pa st2
         else
           let st3 = (if paFailed pa then st2 else chargeTurn (paTokens pa) st2)
           in if \<not> paFailed pa \<and> overBudget cfg st3 then Ended (finish st3 ''budget_exceeded'')
              else if rejected > 0 then Ended (finish st3 ''context_exhausted'')
              else case prepareRequest env turn plan (forcedCompaction (tpBudget plan) requestTokens) st3 of
                     (Inl outcome, st4) \<Rightarrow> Ended (finish st4 outcome)
                   | (Inr (messages, tokens), st4) \<Rightarrow> Resend messages tokens st4)"

text \<open>
  The overflow loop. The estimate of a request is positive, so \<open>rejected\<close> is positive in the second
  round, which therefore never asks for a third.
\<close>

definition requestTurn ::
  "('f, 's, 'x, 'c, 'v, 'p) loopEnv \<Rightarrow> loopConfig \<Rightarrow> int \<Rightarrow> turnPlan \<Rightarrow> 'p \<Rightarrow> bool \<Rightarrow> Message list \<Rightarrow> int
     \<Rightarrow> ('f, 's, 'x) loopState \<Rightarrow> ('f, 's, 'x) loopState requestOutcome" where
  "requestTurn env cfg turn plan p required prepared requestTokens st =
     (case requestRound env cfg turn plan p required 0 0 prepared requestTokens st of
        Resend messages tokens st' \<Rightarrow> requestRound env cfg turn plan p required 1 requestTokens messages tokens st'
      | r \<Rightarrow> r)"

section \<open>The response\<close>

definition escalationDecision ::
  "(EscalationInput \<Rightarrow> EscalationDecision) option \<Rightarrow> EscalationInput \<Rightarrow> EscalationDecision" where
  "escalationDecision ep inp = (case ep of None \<Rightarrow> noEscalation | Some decide \<Rightarrow> decide inp)"

definition applyEscalation :: "EscalationDecision \<Rightarrow> ('f, 's, 'x) loopState \<Rightarrow> ('f, 's, 'x) loopState" where
  "applyEscalation decision st =
     (let st1 = (if edKind decision = EscalationNative then st\<lparr>lsToolRequired := True\<rparr> else st)
      in if PromptMessage decision \<noteq> []
         then st1\<lparr>lsMessages := injectSyntheticUserText (lsMessages st1) (PromptMessage decision)\<rparr> else st1)"

text \<open>What the loop notes of a response before it looks at its stop reason.\<close>

definition noteResponse ::
  "turnPlan \<Rightarrow> streamResult \<Rightarrow> providerAttempt \<Rightarrow> ('f, 's, 'x) loopState \<Rightarrow> streamResult \<times> ('f, 's, 'x) loopState" where
  "noteResponse plan sr pa st =
     (case loadSearchedTools (lsNative (tpSearch plan)) (Blocks sr) (lwLazy (lsWorld st)) of
        (blocks, _, lazy) \<Rightarrow>
          (sr\<lparr>Blocks := blocks\<rparr>,
           chargeTurn (paTokens pa)
             (st\<lparr>lsRoute := None, lsPauses := (if StopReason sr \<noteq> ''pause_turn'' then 0 else lsPauses st),
                lsLastStop := StopReason sr, lsWorld := (lsWorld st)\<lparr>lwLazy := lazy\<rparr>\<rparr>)))"

definition postTurnInput :: "screenEnv \<Rightarrow> string \<Rightarrow> guardInput" where
  "postTurnInput env finalText =
     (let (content, n) = (if ChecksPhase (scGuard env) ''post_turn'' then ScrubForGuard env finalText else (finalText, 0))
      in \<lparr>Phase = ''post_turn'', giContent = (if n > 0 then content else finalText), giSource = ''model_output'',
          giToolName = [], giToolInput = [], IgnoreMinChunk = False, giMode = scMode env, giRunID = scRunID env,
          giRedactedSpans = (if n > 0 then Itoa (int n) else [])\<rparr>)"

definition endTurn ::
  "('f, 's, 'x, 'c, 'v, 'p) loopEnv \<Rightarrow> int \<Rightarrow> streamResult \<Rightarrow> bool \<Rightarrow> string \<Rightarrow> string \<Rightarrow> ('f, 's, 'x) loopState
     \<Rightarrow> ('f, 's, 'x) loopState turnStep" where
  "endTurn env turn sr appended finalText priorFinalText st =
     (case (if finalText = [] then (True, None, False) else askGuard (leScreen env) (postTurnInput (leScreen env) finalText)) of
        (allow, decision, _) \<Rightarrow>
          let st1 = st\<lparr>lsMonitor := ratchetRuleOfTwo decision (lsMonitor st)\<rparr>
          in if \<not> allow
             then Finish (emitTurnAbandoned ''guardrail_blocked'' st1) ''guardrail_blocked'' priorFinalText None
             else (case absorbInput env turn True (closeTurn appended turn (StopReason sr) st1) of
                     (injected, blocked, st2) \<Rightarrow>
                       if blocked \<noteq> [] then finish st2 blocked
                       else if injected > 0 then Continue st2
                       else Finish st2 ''success'' (lsFinal st2) (srStopDetails sr)))"

definition pauseTurn ::
  "loopConfig \<Rightarrow> int \<Rightarrow> turnPlan \<Rightarrow> streamResult \<Rightarrow> bool \<Rightarrow> ('f, 's, 'x) loopState \<Rightarrow> ('f, 's, 'x) loopState turnStep" where
  "pauseTurn cfg turn plan sr appended st =
     (let st1 = closeTurn appended turn (StopReason sr) st
      in if \<not> appended \<or> \<not> canContinuePausedTurn (lsPauses st1) turn (lcMaxTurns cfg)
         then Finish st1 (StopReason sr) (lsFinal st1) (srStopDetails sr)
         else Continue (st1\<lparr>lsPauses := lsPauses st1 + 1, lsRoute := Some (tpSelection plan)\<rparr>))"

text \<open>The dispatch environment of this turn: the loop's loader, guard and search.\<close>

definition turnDispatch ::
  "('f, 's, 'x, 'c, 'v, 'p) loopEnv \<Rightarrow> turnPlan \<Rightarrow> ('f, 's, 'x) loopState \<Rightarrow> 'x loopWorld_scheme dispatchEnv" where
  "turnDispatch env plan st =
     (leDispatch env (lsMonitor st))\<lparr>turnSearch := tpSearch plan,
        lazyUnloaded := (if lwLazy (lsWorld st) = None then None
                         else Some (\<lambda>w i. case lwLazy w of None \<Rightarrow> False | Some l \<Rightarrow> Unloaded l i)),
        lazyLoaded := (\<lambda>w. case lwLazy w of None \<Rightarrow> [] | Some l \<Rightarrow> loadOrder l),
        guardOf := scGuard (leScreen env), guardCtxErr := scCtxErr (leScreen env), failOpenOf := scFailOpen (leScreen env),
        runMode := scMode (leScreen env), runID := scRunID (leScreen env)\<rparr>"

definition dispatchTurn ::
  "('f, 's, 'x, 'c, 'v, 'p) loopEnv \<Rightarrow> loopConfig \<Rightarrow> int \<Rightarrow> turnPlan \<Rightarrow> string \<Rightarrow> ToolCall list \<Rightarrow> ('f, 's, 'x) loopState
     \<Rightarrow> ('f, 's, 'x) loopState turnStep" where
  "dispatchTurn env cfg turn plan stopReason calls st =
     (case planAndDispatch (turnDispatch env plan st) (leSha env) (leCodec env) (lcMaxResultBytes cfg) calls (lsStall st) (lsWorld st) of
        (r, w) \<Rightarrow>
          (case takeNudge (drStall r) of
             ((nudge, nudged'), stall) \<Rightarrow>
               let st1 = st\<lparr>lsWorld := w, lsStall := stall, lsMessages := appendToolResults (lsMessages st) (drResults r)\<rparr>;
                   st2 = (if length (drResults r) = length calls
                          then emitTurnCommitted turn stopReason (length (drResults r)) st1
                          else emitTurnAbandoned ''unanswered_tool_calls'' st1);
                   st3 = st2\<lparr>lsPriorCalls := lsPriorCalls st2 + length calls\<rparr>
               in if drOutcome r \<noteq> [] then finish st3 (drOutcome r)
                  else let st4 = (if nudged' then st3\<lparr>lsMessages := injectSyntheticUserText (lsMessages st3) nudge\<rparr> else st3)
                       in if overBudget cfg st4 then finish st4 ''budget_exceeded''
                          else Continue (st4\<lparr>lsWorld := leCheckpoint env turn (length calls) (lsWorld st4)\<rparr>)))"

definition handleResponse ::
  "('f, 's, 'x, 'c, 'v, 'p) loopEnv \<Rightarrow> loopConfig \<Rightarrow> int \<Rightarrow> turnPlan \<Rightarrow> streamResult \<Rightarrow> providerAttempt \<Rightarrow> ('f, 's, 'x) loopState
     \<Rightarrow> ('f, 's, 'x) loopState turnStep" where
  "handleResponse env cfg turn plan sr0 pa st0 =
     (let continuesPause = (lsRoute st0 \<noteq> None);
          (sr, st1) = noteResponse plan sr0 pa st0;
          stop = StopReason sr;
          toolCalls = collectToolCalls (Blocks sr) (InvalidToolInputs sr);
          ownText = lastAssistantText (Blocks sr);
          finalText = lsContinued st1 @ ownText;
          priorFinalText = (if lsContinued st1 \<noteq> [] then lsPreContinuation st1 else lsFinal st1);
          st2 = st1\<lparr>lsContinued := [], lsFinal := (if finalText \<noteq> [] then finalText else lsFinal st1)\<rparr>
      in if canRecoverFromOutputLimit (lsRecoveries st2) stop turn (lcMaxTurns cfg)
         then (case recoverFromOutputLimit sr (lsMessages st2) continuesPause of
                 (messages, hasText, _, continues) \<Rightarrow>
                   let st3 = closeTurn hasText turn stop (st2\<lparr>lsRecoveries := lsRecoveries st2 + 1\<rparr>);
                       st4 = st3\<lparr>lsMessages := messages\<rparr>
                   in Continue (if continues then st4\<lparr>lsContinued := finalText, lsPreContinuation := priorFinalText\<rparr> else st4))
         else
           let (blocks, appended) = committableAssistantBlocks stop (Blocks sr);
               st3 = (if appended
                      then st2\<lparr>lsMessages := commitAssistantContent (lsMessages st2) blocks (srReplayFields sr) continuesPause\<rparr>
                      else st2);
               decision = escalationDecision (leEscalation env)
                 \<lparr>eiMode = scMode (leScreen env), eiProvider = fst (tpSelection plan), eiModel = snd (tpSelection plan),
                  eiStopReason = stop, ToolsAvailable = (tpDefs plan \<noteq> []), PriorToolCalls = lsPriorCalls st3,
                  EscalationsSoFar = lsEscalations st3\<rparr>
           in if stop = ''pause_turn'' then pauseTurn cfg turn plan sr appended st3
              else if toolCalls = [] \<and> stop \<noteq> ''tool_use'' \<and> edKind decision \<noteq> EscalationNone
              then Continue ((applyEscalation decision (closeTurn appended turn stop st3))
                     \<lparr>lsEscalations := lsEscalations st3 + 1\<rparr>)
              else if stop = ''end_turn'' then endTurn env turn sr appended finalText priorFinalText st3
              else if stop \<noteq> ''tool_use''
              then (if stop = [] then finish st3 ''error''
                    else let st4 = closeTurn appended turn stop st3 in Finish st4 stop (lsFinal st4) (srStopDetails sr))
              else if toolCalls = [] then finish (emitTurnAbandoned ''missing_tool_calls'' st3) ''error''
              else dispatchTurn env cfg turn plan stop toolCalls st3)"

section \<open>The loop\<close>

definition oneTurn ::
  "('f, 's, 'x, 'c, 'v, 'p) loopEnv \<Rightarrow> loopConfig \<Rightarrow> int \<Rightarrow> ('f, 's, 'x) loopState \<Rightarrow> ('f, 's, 'x) loopState turnStep" where
  "oneTurn env cfg turn st =
     (case turnBoundary env cfg turn st of
        Finish st' outcome final details \<Rightarrow> Finish st' outcome final details
      | Continue st1 \<Rightarrow>
          (case planRequest env cfg turn (windDownTurn env cfg turn st1) of
             (plan, st2) \<Rightarrow>
               (case prepareRequest env turn plan (tpBudget plan) st2 of
                  (Inl outcome, st3) \<Rightarrow> finish st3 outcome
                | (Inr (prepared, requestTokens), st3) \<Rightarrow>
                    (case resolveProvider env (fst (tpSelection plan)) of
                       None \<Rightarrow> finish st3 ''error''
                     | Some p \<Rightarrow>
                         let required = lsToolRequired st3;
                             st4 = emitTurnStarted turn (st3\<lparr>lsToolRequired := False\<rparr>)
                         in (case requestTurn env cfg turn plan p required prepared requestTokens st4 of
                               Answered sr pa st5 \<Rightarrow> handleResponse env cfg turn plan sr pa st5
                             | Failed st5 \<Rightarrow> finish st5 (if leCtxErr env turn 4 then outcomeCtxDone else ''error'')
                             | Resend _ _ st5 \<Rightarrow> finish st5 ''context_exhausted''
                             | Ended step \<Rightarrow> step)))))"

function runInnerLoop ::
  "('f, 's, 'x, 'c, 'v, 'p) loopEnv \<Rightarrow> loopConfig \<Rightarrow> int \<Rightarrow> ('f, 's, 'x) loopState
     \<Rightarrow> int \<times> ('f, 's, 'x) loopState \<times> string \<times> string \<times> StopDetails option" where
  "runInnerLoop env cfg turn st =
     (if turn < lcMaxTurns cfg
      then (case oneTurn env cfg turn st of
              Finish st' outcome final details \<Rightarrow> (turn + 1, emitTurnAbandoned ''no_response'' st', outcome, final, details)
            | Continue st' \<Rightarrow> runInnerLoop env cfg (turn + 1) st')
      else (turn, emitTurnAbandoned ''no_response'' st, ''max_turns'', lsFinal st, None))"
  by pat_completeness auto
termination
  by (relation "measure (\<lambda>(_, cfg, turn, _). nat (lcMaxTurns cfg - turn))") auto

declare runInnerLoop.simps [simp del]

text \<open>The local variables of the loop at its start; \<open>carried\<close> counts the tool calls of a continued history.\<close>

definition enterLoop :: "('f, 's, 'x, 'c, 'v, 'p) loopEnv \<Rightarrow> nat \<Rightarrow> ('f, 's, 'x) loopState \<Rightarrow> ('f, 's, 'x) loopState" where
  "enterLoop env carried st =
     st\<lparr>lsStall := zeroDetector, lsRoute := None, lsPauses := 0, lsPriorCalls := carried, lsEscalations := 0,
        lsToolRequired := False, lsLastStop := [], lsFinal := [], lsContinued := [], lsPreContinuation := [],
        lsRatio := fzero (leRatio env)\<rparr>"

section \<open>The log of turns\<close>

text \<open>
  A log in which turns are opened one at a time, in increasing order, and each is closed once. The
  option is the turn that is open, the number a bound above all turns opened so far.
\<close>

inductive turnLog :: "int option \<Rightarrow> int \<Rightarrow> turnEvent list \<Rightarrow> bool" where
  turnLog_empty: "turnLog None n []"
| turnLog_start: "turnLog None n evs \<Longrightarrow> n \<le> t \<Longrightarrow> turnLog (Some t) (t + 1) (evs @ [TurnStarted t])"
| turnLog_commit: "turnLog (Some t) n evs \<Longrightarrow> turnLog None n (evs @ [TurnCommitted t reason k])"
| turnLog_abandon: "turnLog (Some t) n evs \<Longrightarrow> turnLog None n (evs @ [TurnAbandoned t reason])"

definition openedTurns :: "turnEvent list \<Rightarrow> int list" where
  "openedTurns evs = concat (map (\<lambda>e. case e of TurnStarted t \<Rightarrow> [t] | _ \<Rightarrow> []) evs)"

definition closedTurns :: "turnEvent list \<Rightarrow> int list" where
  "closedTurns evs = concat (map (\<lambda>e. case e of TurnCommitted t _ _ \<Rightarrow> [t] | TurnAbandoned t _ \<Rightarrow> [t] | _ \<Rightarrow> []) evs)"

lemma turns_append [simp]:
  "openedTurns (xs @ ys) = openedTurns xs @ openedTurns ys" "closedTurns (xs @ ys) = closedTurns xs @ closedTurns ys"
  by (simp_all add: openedTurns_def closedTurns_def)

lemma turns_simps [simp]:
  "openedTurns [] = []" "openedTurns [TurnStarted t] = [t]" "openedTurns [TurnCommitted t r k] = []" "openedTurns [TurnAbandoned t r] = []"
  "closedTurns [] = []" "closedTurns [TurnStarted t] = []" "closedTurns [TurnCommitted t r k] = [t]" "closedTurns [TurnAbandoned t r] = [t]"
  by (simp_all add: openedTurns_def closedTurns_def)

lemma turnLog_balanced:
  "turnLog op n evs \<Longrightarrow>
     openedTurns evs = closedTurns evs @ (case op of None \<Rightarrow> [] | Some t \<Rightarrow> [t])
     \<and> sorted_wrt (<) (openedTurns evs) \<and> (\<forall>t \<in> set (openedTurns evs). t < n)"
proof (induction rule: turnLog.induct)
  case (turnLog_start n evs t)
  then show ?case
    by (fastforce simp: sorted_wrt_append)
qed auto

section \<open>Helper facts\<close>

lemma sendable_map_same:
  assumes "\<And>m. Role (f m) = Role m" "\<And>m. toolUseIDs (f m) = toolUseIDs m" "\<And>m. toolResultIDs (f m) = toolResultIDs m"
  shows "wf_history (map f ms) = wf_history ms" "sendable (map f ms) = sendable ms"
    "ms \<noteq> [] \<Longrightarrow> Role (last (map f ms)) = Role (last ms)"
proof -
  show wf: "wf_history (map f ms) = wf_history ms"
    by (cases ms) (simp_all add: exchanges_map_same assms)
  show "sendable (map f ms) = sendable ms" "ms \<noteq> [] \<Longrightarrow> Role (last (map f ms)) = Role (last ms)"
    by (cases "ms = []"; simp add: sendable_def wf last_map assms)+
qed

lemmas sendable_strip = sendable_map_same [of withoutThinking, simplified, folded StripThinkingBlocks_eq]

lemma sendable_cutShort: "sendable ms \<Longrightarrow> cutShort ms"
  using wf_history_take [of ms "length ms - 1"] by (simp add: sendable_def cutShort_def butlast_conv_take)

lemma presentBlock_same:
  "Type (presentBlock l b) = Type b" "ID (presentBlock l b) = ID b" "ToolUseID (presentBlock l b) = ToolUseID b"
  by (simp_all add: presentBlock_def)

lemma presentToolReferences_wf:
  "wf_history (presentToolReferences lz ms) = wf_history ms" "presentToolReferences lz ms = [] \<longleftrightarrow> ms = []"
proof -
  have "toolUseIDs (m\<lparr>MContent := map (presentBlock l) (MContent m)\<rparr>) = toolUseIDs m"
    "toolResultIDs (m\<lparr>MContent := map (presentBlock l) (MContent m)\<rparr>) = toolResultIDs m" for l m
    by (simp_all add: toolUseIDs_def toolResultIDs_def filter_map comp_def presentBlock_same)
  then show "wf_history (presentToolReferences lz ms) = wf_history ms"
    by (cases lz) (simp_all add: presentToolReferences_def PresentReferences_def sendable_map_same(1))
  show "presentToolReferences lz ms = [] \<longleftrightarrow> ms = []"
    by (cases lz) (simp_all add: presentToolReferences_def PresentReferences_def)
qed

lemma truncated_wf: "wf_history (fst (TruncateToolResults ms excess)) = wf_history ms"
    "fst (TruncateToolResults ms excess) = [] \<longleftrightarrow> ms = []"
proof -
  have "trimmedHistory ms (fst (TruncateToolResults ms excess))"
  proof (cases "0 < excess")
    case True
    then show ?thesis
      using hv_inv_trimmed [OF runTruncator_truncated(1), of ms excess] runTruncator_truncated(2) [of ms excess]
      by (simp add: TruncateToolResults_eq)
  qed (simp add: TruncateToolResults_def)
  then show "wf_history (fst (TruncateToolResults ms excess)) = wf_history ms"
      "fst (TruncateToolResults ms excess) = [] \<longleftrightarrow> ms = []"
    using wf_history_trimmed by (auto dest: list_all2_lengthD)
qed

lemma strip_Nil: "StripThinkingBlocks ms = [] \<longleftrightarrow> ms = []"
  by (simp add: StripThinkingBlocks_eq)

lemma fitPreparedRequest_wf:
  "wf_history ms \<Longrightarrow> ms \<noteq> [] \<Longrightarrow>
   wf_history (frMessages (fitPreparedRequest reenc rw ld ms sys defs b sr))
   \<and> frMessages (fitPreparedRequest reenc rw ld ms sys defs b sr) \<noteq> []"
  by (simp add: fitPreparedRequest_def Let_def case_prod_beta truncated_wf sendable_strip(1) strip_Nil)

lemma fitPreparedRequest_pos: "0 < frTokens (fitPreparedRequest reenc rw ld ms sys defs b sr)"
proof -
  have "0 < estimateCurrentTokens reenc ms' sr + estimateSystemPromptTokens sys + estimateLoadedToolDefinitionTokens defs ld" for ms'
  proof -
    have "1 \<le> estimateCurrentTokens reenc ms' sr" "0 \<le> estimateSystemPromptTokens sys" "0 \<le> estimateLoadedToolDefinitionTokens defs ld"
      by (auto simp: estimateCurrentTokens_def estimateSystemPromptTokens_def estimateLoadedToolDefinitionTokens_def
          tokenEstimationDivisor_def toolDefinitionOverheadTokens_def messageOverheadTokens_def signed_divide_int_def Let_def
          intro!: sum_list_nonneg)
    then show ?thesis
      by linarith
  qed
  then show ?thesis
    by (simp add: fitPreparedRequest_def Let_def case_prod_beta)
qed

lemma collectLoop_ids: "map tcID (collectLoop i bs f) = map ID (filter (\<lambda>b. Type b = ''tool_use'') bs)"
  by (induction bs arbitrary: i) auto

lemma loadSearchedLoop_shape:
  "map Type (fst (loadSearchedLoop native bs l)) = map Type bs"
proof (induction bs arbitrary: l)
  case (Cons b bs)
  show ?case
    by (simp add: Let_def case_prod_beta Cons.IH)
qed simp

lemma loadSearchedTools_noResults:
  assumes "noResults bs" "loadSearchedTools native bs lz = (bs', added, lz')"
  shows "noResults bs'"
proof -
  have "map Type bs' = map Type bs"
    using assms(2) loadSearchedLoop_shape [of native bs] by (auto simp: loadSearchedTools_def case_prod_beta split: option.splits)
  moreover have "noResults xs = list_all (\<lambda>t. t \<noteq> ''tool_result'') (map Type xs)" for xs
    by (simp add: noResults_def list.pred_map comp_def)
  ultimately show ?thesis
    using assms(1) by simp
qed

lemma screenArrived_screened: "screened ms (scMessages (screenArrivedContent env mon ms))"
proof (cases "arrivedUntrustedChunks ms = []")
  case True
  then show ?thesis
    by (simp add: screenArrivedContent_def)
next
  case False
  define r where "r = screenArrivedContent env mon ms"
  from False r_def have "screened ms (scMessages r)"
  proof (cases rule: screen_cases)
    case abort
    then show ?thesis
      by simp
  next
    case (asked ms1 ms2 chunks1 cs source spans changed inp)
    then show ?thesis
      using guardView_screened [OF asked(4)] applyVerdict_screened screened_trans by metis
  qed
  then show ?thesis
    by (simp add: r_def)
qed

section \<open>What holds between, during and after turns\<close>

definition ready :: "('s \<Rightarrow> bool) \<Rightarrow> ('f, 's, 'x) loopState \<Rightarrow> bool" where
  "ready inv' st = (sendable (lsMessages st) \<and> (lsRoute st = None \<longrightarrow> Role (last (lsMessages st)) = ''user'')
     \<and> inv' (lsStrategy st))"

definition sentOk :: "('f, 's, 'x) loopState \<Rightarrow> bool" where
  "sentOk st = (\<forall>p \<in> set (lsSent st). wf_history (spMessages p) \<and> spMessages p \<noteq> [])"

definition betweenTurns :: "('s \<Rightarrow> bool) \<Rightarrow> int \<Rightarrow> ('f, 's, 'x) loopState \<Rightarrow> bool" where
  "betweenTurns inv' turn st = (ready inv' st \<and> sentOk st \<and> lsOpen st = None \<and> (\<exists>n \<le> turn. turnLog None n (lsEvents st)))"

definition duringTurn :: "('s \<Rightarrow> bool) \<Rightarrow> int \<Rightarrow> ('f, 's, 'x) loopState \<Rightarrow> bool" where
  "duringTurn inv' turn st = (ready inv' st \<and> sentOk st \<and> lsOpen st = Some turn \<and> turnLog (Some turn) (turn + 1) (lsEvents st))"

definition runEnded :: "('s \<Rightarrow> bool) \<Rightarrow> int \<Rightarrow> ('f, 's, 'x) loopState \<Rightarrow> bool" where
  "runEnded inv' turn st = (cutShort (lsMessages st) \<and> sentOk st \<and> inv' (lsStrategy st)
     \<and> (\<exists>n \<le> turn + 1. turnLog (lsOpen st) n (lsEvents st)))"

definition stepOk :: "('s \<Rightarrow> bool) \<Rightarrow> int \<Rightarrow> ('f, 's, 'x) loopState turnStep \<Rightarrow> bool" where
  "stepOk inv' turn step =
     (case step of
        Finish st outcome _ _ \<Rightarrow> runEnded inv' turn st \<and> (outcome = ''success'' \<longrightarrow> sendable (lsMessages st))
      | Continue st \<Rightarrow> betweenTurns inv' (turn + 1) st)"

definition sameTurn :: "('f, 's, 'x) loopState \<Rightarrow> ('f, 's, 'x) loopState \<Rightarrow> bool" where
  "sameTurn st st' = (lsOpen st' = lsOpen st \<and> lsEvents st' = lsEvents st \<and> lsSent st' = lsSent st
     \<and> lsStrategy st' = lsStrategy st \<and> lsRoute st' = lsRoute st)"

lemma betweenTurns_ended: "betweenTurns inv' turn st \<Longrightarrow> runEnded inv' turn st"
  unfolding betweenTurns_def runEnded_def ready_def using sendable_cutShort
  by (metis dual_order.trans zle_add1_eq_le less_add_one order_less_imp_le)

lemma duringTurn_ended: "duringTurn inv' turn st \<Longrightarrow> runEnded inv' turn st"
  by (force simp: duringTurn_def runEnded_def ready_def sendable_cutShort)

lemma turn_sendable:
  "betweenTurns inv' turn st \<Longrightarrow> sendable (lsMessages st)" "duringTurn inv' turn st \<Longrightarrow> sendable (lsMessages st)"
  by (simp_all add: betweenTurns_def duringTurn_def ready_def)

lemma betweenTurns_transfer:
  assumes "betweenTurns inv' turn st" "sameTurn st st'" "sendable (lsMessages st')"
    and "lsRoute st' = None \<Longrightarrow> Role (last (lsMessages st')) = ''user''"
  shows "betweenTurns inv' turn st'"
  using assms by (auto simp: betweenTurns_def sameTurn_def ready_def sentOk_def)

lemma stepOk_finish:
  "stepOk inv' turn (finish st outcome) \<longleftrightarrow> runEnded inv' turn st \<and> (outcome = ''success'' \<longrightarrow> sendable (lsMessages st))"
  by (simp add: stepOk_def finish_def)

section \<open>The stages of a turn\<close>

lemma absorbInput_ok:
  assumes "absorbInput env turn second st = (n, blocked, st')" "sendable (lsMessages st)"
  shows "sameTurn st st' \<and> sendable (lsMessages st') \<and> (n = 0 \<longrightarrow> lsMessages st' = lsMessages st)
     \<and> (n > 0 \<longrightarrow> Role (last (lsMessages st')) = ''user'')"
proof -
  let ?q = "receiveInput (leArrived env turn second) (lsQueue st)"
  obtain r where r: "absorbQueuedUserInput (leScreen env) (lsMonitor st) ?q (lsMessages st) = (n, r)"
      "st' = st\<lparr>lsQueue := [], lsMessages := scMessages r, lsMonitor := scMonitor r\<rparr>"
    using assms(1) by (auto simp: absorbInput_def split: prod.splits)
  have "n = length ?q \<and> scMessages r = (if ?q = [] then lsMessages st else injectUserInput (lsMessages st) (map qText ?q))"
    using r(1) by (auto simp: absorbQueuedUserInput_def Let_def case_prod_beta split: if_splits)
  then show ?thesis
    using r(2) appendUserText_sendable(5,6) [OF assms(2), of "map qText ?q"] assms(2)
    by (auto simp: sameTurn_def split: if_splits)
qed

lemma screenTurn_ok:
  assumes "screenTurn env cfg turn st = (blocked, st')" "sendable (lsMessages st)"
  shows "sameTurn st st' \<and> sendable (lsMessages st') \<and> Role (last (lsMessages st')) = Role (last (lsMessages st))"
proof -
  have "screened (lsMessages st) (lsMessages st')" "sameTurn st st'"
    using assms(1) screenArrived_screened [of "lsMessages st" "leScreen env" "lsMonitor st"]
    by (auto simp: screenTurn_def Let_def sameTurn_def split: if_splits prod.splits)
  moreover have "lsMessages st \<noteq> []"
    using assms(2) by (simp add: sendable_def)
  ultimately show ?thesis
    using screened_wf(2) [of "lsMessages st" "lsMessages st'"] assms(2) by (auto simp: screened_def sameShape_def)
qed

lemma turnBoundary_ok:
  assumes "betweenTurns inv' turn st"
  shows "case turnBoundary env cfg turn st of Finish st' _ _ _ \<Rightarrow> betweenTurns inv' turn st' | Continue st' \<Rightarrow> betweenTurns inv' turn st'"
proof -
  have send: "sendable (lsMessages st)"
    using assms by (simp add: betweenTurns_def ready_def)
  let ?a = "if lsRoute st = None then absorbInput env turn False st
            else (0, [], st\<lparr>lsQueue := receiveInput (leArrived env turn False) (lsQueue st)\<rparr>)"
  obtain n blocked st1 where a: "?a = (n, blocked, st1)"
    by (metis prod_cases3)
  have b1: "betweenTurns inv' turn st1" and s1: "sendable (lsMessages st1)"
  proof -
    have "sameTurn st st1 \<and> sendable (lsMessages st1) \<and> (lsRoute st1 = None \<longrightarrow> Role (last (lsMessages st1)) = ''user'')"
    proof (cases "lsRoute st = None")
      case True
      then have "absorbInput env turn False st = (n, blocked, st1)"
        using a by simp
      from absorbInput_ok [OF this send] show ?thesis
        using True assms by (cases "n = 0") (auto simp: betweenTurns_def ready_def)
    next
      case False
      then show ?thesis
        using a send by (auto simp: sameTurn_def)
    qed
    then show "betweenTurns inv' turn st1" "sendable (lsMessages st1)"
      using betweenTurns_transfer [OF assms] by auto
  qed
  obtain blocked2 st2 where sc: "screenTurn env cfg turn st1 = (blocked2, st2)"
    by fastforce
  note ok2 = screenTurn_ok [OF sc s1]
  have b2: "betweenTurns inv' turn st2"
    using betweenTurns_transfer [OF b1, of st2] ok2 b1 by (auto simp: betweenTurns_def ready_def sameTurn_def)
  have "betweenTurns inv' turn (st2\<lparr>lsScreenedLen := length (lsMessages st2)\<rparr>)"
    using betweenTurns_transfer [OF b2, of "st2\<lparr>lsScreenedLen := length (lsMessages st2)\<rparr>"] b2
    by (simp add: sameTurn_def betweenTurns_def ready_def)
  then show ?thesis
    using a sc b1 b2 assms by (simp add: turnBoundary_def finish_def)
qed

lemma windDownTurn_ok:
  assumes "betweenTurns inv' turn st"
  shows "betweenTurns inv' turn (windDownTurn env cfg turn st)"
proof (cases "lsRoute st = None \<or> turn + 1 = lcMaxTurns cfg")
  case True
  obtain ms trigger sent where w: "windDownIfDue (leRatio env) (leClock env turn) (lcWindDown cfg) (scMode (leScreen env))
      (lcMaxTurns cfg) (lcMaxTokenBudget cfg) turn (usageTotal (lsTokens st)) (lsWindDownSent st) (lsMessages st) = (ms, trigger, sent)"
    by (metis prod_cases3)
  have send: "sendable (lsMessages st)"
    using assms by (simp add: betweenTurns_def ready_def)
  show ?thesis
    using True w windDownIfDue_sendable [OF w send] assms
    by (cases "trigger = []") (simp_all add: windDownTurn_def betweenTurns_def ready_def sentOk_def)
next
  case False
  then show ?thesis
    using assms by (auto simp: windDownTurn_def)
qed

lemma planRequest_ok:
  assumes "betweenTurns inv' turn st" "planRequest env cfg turn st = (plan, st')"
  shows "betweenTurns inv' turn st'"
proof -
  obtain defs where st': "st' = bindRequestThinking (leSystem env) defs st"
    using assms(2) by (auto simp: planRequest_def Let_def case_prod_beta)
  have "lsMessages st' \<in> {lsMessages st, StripThinkingBlocks (lsMessages st)}" "sameTurn st st'"
    by (auto simp: st' bindRequestThinking_def Let_def sameTurn_def)
  moreover have "sendable (lsMessages st)" "lsMessages st \<noteq> []" "lsRoute st = None \<Longrightarrow> Role (last (lsMessages st)) = ''user''"
    using assms(1) by (auto simp: betweenTurns_def ready_def sendable_def)
  ultimately show ?thesis
    using betweenTurns_transfer [OF assms(1), of st'] sendable_strip(2,3) [of "lsMessages st"]
    by (auto simp: sameTurn_def)
qed

lemma prepareRequest_ok:
  assumes "context_strategy (lePrepare env) (leCompaction env) inv'"
    and "prepareRequest env turn plan tb st = (res, st')" "inv' (lsStrategy st)" "sendable (lsMessages st)"
  shows "inv' (lsStrategy st') \<and> lsOpen st' = lsOpen st \<and> lsEvents st' = lsEvents st \<and> lsSent st' = lsSent st
     \<and> lsRoute st' = lsRoute st \<and> lsMessages st' = lsMessages st
     \<and> (\<forall>messages tokens. res = Inr (messages, tokens) \<longrightarrow> wf_history messages \<and> messages \<noteq> [] \<and> 0 < tokens)"
proof -
  let ?p = "lePrepare env (lsStrategy st) (lsMessages st) tb"
  let ?rw = "lsRewritten st \<or> leCompaction env (snd ?p) \<noteq> None"
  let ?ms = "if ?rw then StripThinkingBlocks (fst ?p) else fst ?p"
  note strategy = context_strategy.prepare_wf [OF assms(1), of "lsStrategy st" "lsMessages st" tb]
    context_strategy.prepare_nonempty [OF assms(1), of "lsStrategy st" "lsMessages st" tb]
    context_strategy.prepare_inv [OF assms(1), of "lsStrategy st" "lsMessages st" tb]
  have "wf_history ?ms" "?ms \<noteq> []"
    using strategy assms(3,4) sendable_strip(1) strip_Nil by (auto simp: sendable_def)
  note fit = fitPreparedRequest_wf [OF this] fitPreparedRequest_pos [where ms = ?ms]
  show ?thesis
  proof (cases "lePrepareErr env (lsStrategy st) (lsMessages st) tb")
    case True
    then show ?thesis
      using assms(2,3) strategy(3) by (auto simp: prepareRequest_def case_prod_beta)
  next
    case False
    then show ?thesis
      using assms(2,3) strategy(3) fit by (auto simp: prepareRequest_def case_prod_beta Let_def split: if_splits)
  qed
qed

lemma duringTurn_transfer:
  assumes "duringTurn inv' turn st" "sameTurn st st'" "lsMessages st' = lsMessages st"
  shows "duringTurn inv' turn st'"
  using assms by (auto simp: duringTurn_def sameTurn_def ready_def sentOk_def)

lemma chargeTurn_same: "sameTurn st (chargeTurn u st)" "lsMessages (chargeTurn u st) = lsMessages st"
  by (simp_all add: chargeTurn_def sameTurn_def)

lemma duringTurn_charge: "duringTurn inv' turn st \<Longrightarrow> duringTurn inv' turn (chargeTurn u st)"
  using duringTurn_transfer chargeTurn_same by blast

lemma duringTurn_charges: "duringTurn inv' turn st \<Longrightarrow> duringTurn inv' turn (fold chargeTurn us st)"
  by (induction us arbitrary: st) (auto simp: duringTurn_charge)

lemma replyResult_noResults:
  assumes "replyResult env cfg reply = Inr sr"
  shows "noResults (Blocks sr)"
proof -
  obtain ch es where "streamEventsToResult (leScrub env) (leCarry env) (leCarry0 env) (lcStreamsThinking cfg) ch = (None, sr, es)"
    using assms by (auto simp: replyResult_def case_prod_beta prod_eq_iff split: sum.splits if_splits)
  from streamEventsToResult_facts [OF this] show ?thesis
    by (fastforce simp: noResults_def list_all_iff streamBlockTypes_def)
qed

definition requestOk :: "('s \<Rightarrow> bool) \<Rightarrow> int \<Rightarrow> int \<Rightarrow> ('f, 's, 'x) loopState requestOutcome \<Rightarrow> bool" where
  "requestOk inv' turn rejected r =
     (case r of
        Answered sr _ st \<Rightarrow> duringTurn inv' turn st \<and> noResults (Blocks sr)
      | Failed st \<Rightarrow> duringTurn inv' turn st
      | Resend messages tokens st \<Rightarrow> duringTurn inv' turn st \<and> wf_history messages \<and> messages \<noteq> [] \<and> 0 < tokens \<and> rejected \<le> 0
      | Ended step \<Rightarrow> stepOk inv' turn step)"

lemma requestRound_ok:
  assumes strategy: "context_strategy (lePrepare env) (leCompaction env) inv'"
    and st: "duringTurn inv' turn st" and prepared: "wf_history prepared" "prepared \<noteq> []"
  shows "requestOk inv' turn rejected (requestRound env cfg turn plan p required k rejected prepared requestTokens st)"
proof -
  define params where "params = requestParams env plan required prepared st"
  define replies where "replies = leStream env p params turn k"
  define pa where "pa = requestProvider (\<lambda>n. attemptOf env cfg (replies n)) requestTokens (rejected = 0) (leIsBatch env p)
     (turnRetryPolicyFor (leRetry env) (leRetries env) (fst (tpSelection plan)))"
  define sr where "sr = (case replyResult env cfg (replies (paAttempts pa)) of
     Inr r \<Rightarrow> scrubStopDetails (leScrub env) r | Inl _ \<Rightarrow> zeroStreamResult)"
  define st1 where "st1 = fold chargeTurn (paCharges pa) (st\<lparr>lsSent := lsSent st @ [params]\<rparr>)"
  define st2 where "st2 = (if \<not> paFailed pa \<and> paInputReported pa
     then st1\<lparr>lsRatio := calObserve (leRatio env) requestTokens (uInput (paTokens pa)) (lsRatio st1)\<rparr> else st1)"
  define over where "over = (if paFailed pa then prIsOverflow (replies (paAttempts pa)) else StopReason sr = ''model_context_window_exceeded'')"
  define st3 where "st3 = (if paFailed pa then st2 else chargeTurn (paTokens pa) st2)"
  have "duringTurn inv' turn (st\<lparr>lsSent := lsSent st @ [params]\<rparr>)"
    using st prepared by (auto simp: duringTurn_def ready_def sentOk_def params_def requestParams_def presentToolReferences_wf)
  then have "duringTurn inv' turn st1"
    by (simp add: st1_def duringTurn_charges)
  then have d2: "duringTurn inv' turn st2"
    using duringTurn_transfer [of inv' turn st1 st2] by (auto simp: st2_def sameTurn_def)
  then have d3: "duringTurn inv' turn st3"
    by (simp add: st3_def duringTurn_charge)
  have blocks: "noResults (Blocks sr)"
    using replyResult_noResults by (auto simp: sr_def scrubStopDetails_def zeroStreamResult_def noResults_def split: sum.splits)
  obtain res st4 where prep: "prepareRequest env turn plan (forcedCompaction (tpBudget plan) requestTokens) st3 = (res, st4)"
    by fastforce
  have "inv' (lsStrategy st3)" "sendable (lsMessages st3)"
    using d3 by (simp_all add: duringTurn_def ready_def)
  note ok4 = prepareRequest_ok [OF strategy prep this]
  then have d4: "duringTurn inv' turn st4"
    using d3 by (simp add: duringTurn_def ready_def sentOk_def)
  have "requestRound env cfg turn plan p required k rejected prepared requestTokens st =
     (if leCtxErr env turn (2 + k) \<or> \<not> over then if paFailed pa then Failed st2 else Answered sr pa st2
      else if \<not> paFailed pa \<and> overBudget cfg st3 then Ended (finish st3 ''budget_exceeded'')
      else if rejected > 0 then Ended (finish st3 ''context_exhausted'')
      else case (res, st4) of (Inl outcome, st4) \<Rightarrow> Ended (finish st4 outcome) | (Inr (messages, tokens), st4) \<Rightarrow> Resend messages tokens st4)"
    unfolding requestRound_def Let_def params_def [symmetric] replies_def [symmetric] pa_def [symmetric] sr_def [symmetric]
      st1_def [symmetric] st2_def [symmetric] over_def [symmetric] st3_def [symmetric] prep by simp
  then show ?thesis
    using d2 d3 d4 blocks ok4 by (auto simp: requestOk_def stepOk_finish duringTurn_ended turn_sendable split: sum.splits)
qed

lemma requestTurn_ok:
  assumes "context_strategy (lePrepare env) (leCompaction env) inv'"
    and "duringTurn inv' turn st" "wf_history prepared" "prepared \<noteq> []" "0 < requestTokens"
  shows "requestOk inv' turn 1 (requestTurn env cfg turn plan p required prepared requestTokens st)"
proof -
  note first = requestRound_ok [OF assms(1-4), of 0 cfg plan p required 0 requestTokens]
  show ?thesis
  proof (cases "requestRound env cfg turn plan p required 0 0 prepared requestTokens st")
    case (Resend messages tokens st')
    then have "requestOk inv' turn requestTokens (requestRound env cfg turn plan p required 1 requestTokens messages tokens st')"
      using first by (intro requestRound_ok [OF assms(1)]) (simp_all add: requestOk_def)
    then show ?thesis
      using Resend assms(5) by (auto simp: requestTurn_def requestOk_def split: requestOutcome.splits)
  qed (use first in \<open>auto simp: requestTurn_def requestOk_def\<close>)
qed

section \<open>The response\<close>

definition openAt :: "('s \<Rightarrow> bool) \<Rightarrow> int \<Rightarrow> ('f, 's, 'x) loopState \<Rightarrow> bool" where
  "openAt inv' turn st = (sentOk st \<and> inv' (lsStrategy st) \<and> lsOpen st = Some turn \<and> turnLog (Some turn) (turn + 1) (lsEvents st))"

definition closedAt :: "('s \<Rightarrow> bool) \<Rightarrow> int \<Rightarrow> ('f, 's, 'x) loopState \<Rightarrow> bool" where
  "closedAt inv' turn st = (sentOk st \<and> inv' (lsStrategy st) \<and> lsOpen st = None \<and> (\<exists>n \<le> turn + 1. turnLog None n (lsEvents st)))"

lemma emit_fields [simp]:
  "lsMessages (closeTurn a turn r st) = lsMessages st" "lsMessages (emitTurnAbandoned r st) = lsMessages st"
  "lsMessages (emitTurnCommitted turn r k st) = lsMessages st" "lsRoute (closeTurn a turn r st) = lsRoute st"
  "lsRoute (emitTurnAbandoned r st) = lsRoute st" "lsRoute (emitTurnCommitted turn r k st) = lsRoute st"
  by (simp_all add: closeTurn_def emitTurnAbandoned_def emitTurnCommitted_def split: option.splits)

lemma at_updates [simp]:
  "openAt inv' turn (st\<lparr>lsMessages := ms\<rparr>) = openAt inv' turn st" "closedAt inv' turn (st\<lparr>lsMessages := ms\<rparr>) = closedAt inv' turn st"
  "openAt inv' turn (st\<lparr>lsFinal := t\<rparr>) = openAt inv' turn st" "closedAt inv' turn (st\<lparr>lsContinued := t\<rparr>) = closedAt inv' turn st"
  "openAt inv' turn (st\<lparr>lsContinued := t\<rparr>) = openAt inv' turn st" "closedAt inv' turn (st\<lparr>lsPreContinuation := t\<rparr>) = closedAt inv' turn st"
  "openAt inv' turn (st\<lparr>lsRecoveries := i\<rparr>) = openAt inv' turn st" "openAt inv' turn (st\<lparr>lsMonitor := mon\<rparr>) = openAt inv' turn st"
  "openAt inv' turn (st\<lparr>lsWorld := w\<rparr>) = openAt inv' turn st" "closedAt inv' turn (st\<lparr>lsWorld := w\<rparr>) = closedAt inv' turn st"
  "openAt inv' turn (st\<lparr>lsStall := sd\<rparr>) = openAt inv' turn st" "closedAt inv' turn (st\<lparr>lsPriorCalls := n\<rparr>) = closedAt inv' turn st"
  "closedAt inv' turn (st\<lparr>lsEscalations := n\<rparr>) = closedAt inv' turn st" "closedAt inv' turn (st\<lparr>lsToolRequired := b\<rparr>) = closedAt inv' turn st"
  "closedAt inv' turn (st\<lparr>lsPauses := i\<rparr>) = closedAt inv' turn st" "closedAt inv' turn (st\<lparr>lsRoute := route\<rparr>) = closedAt inv' turn st"
  "openAt inv' turn (st\<lparr>lsRoute := route\<rparr>) = openAt inv' turn st" "openAt inv' turn (st\<lparr>lsPauses := i\<rparr>) = openAt inv' turn st"
  "openAt inv' turn (st\<lparr>lsLastStop := r\<rparr>) = openAt inv' turn st" "openAt inv' turn (chargeTurn u st) = openAt inv' turn st"
  by (simp_all add: openAt_def closedAt_def sentOk_def chargeTurn_def)

lemma openAt_close:
  assumes "openAt inv' turn st"
  shows "closedAt inv' turn (emitTurnCommitted turn r k st)" "closedAt inv' turn (emitTurnAbandoned r st)"
    "closedAt inv' turn (closeTurn a turn r st)"
  using assms turnLog_commit turnLog_abandon
  by (auto simp: openAt_def closedAt_def sentOk_def closeTurn_def emitTurnCommitted_def emitTurnAbandoned_def)

lemma closedAt_between:
  "closedAt inv' turn st \<Longrightarrow> sendable (lsMessages st) \<Longrightarrow> lsRoute st = None \<longrightarrow> Role (last (lsMessages st)) = ''user''
   \<Longrightarrow> betweenTurns inv' (turn + 1) st"
  by (simp add: closedAt_def betweenTurns_def ready_def)

lemma closedAt_ended: "closedAt inv' turn st \<Longrightarrow> cutShort (lsMessages st) \<Longrightarrow> runEnded inv' turn st"
  by (auto simp: closedAt_def runEnded_def)

lemma openAt_ended: "openAt inv' turn st \<Longrightarrow> cutShort (lsMessages st) \<Longrightarrow> runEnded inv' turn st"
  by (auto simp: openAt_def runEnded_def)

lemma closedAt_same: "closedAt inv' turn st \<Longrightarrow> sameTurn st st' \<Longrightarrow> closedAt inv' turn st'"
  by (auto simp: closedAt_def sameTurn_def sentOk_def)

lemma duringTurn_openAt: "duringTurn inv' turn st \<Longrightarrow> openAt inv' turn st"
  by (simp add: duringTurn_def openAt_def ready_def)

lemma appendToolResults_cutShort:
  assumes "wf_history ms" "ms \<noteq> []" "Role (last ms) = ''assistant''" "set (map trToolUseID rs) \<subseteq> set (toolUseIDs (last ms))"
  shows "cutShort (appendToolResults ms rs)"
  using assms by (simp add: cutShort_def appendToolResults_def resultBlock_ids ids_mkMessage(3))

lemma pauseTurn_ok:
  assumes "openAt inv' turn st" "sendable (lsMessages st)"
  shows "stepOk inv' turn (pauseTurn cfg turn plan sr appended st)"
  using openAt_close(3) [OF assms(1)] assms(2)
  by (auto simp: pauseTurn_def stepOk_def Let_def closedAt_ended sendable_cutShort intro!: closedAt_between)

lemma endTurn_ok:
  assumes "openAt inv' turn st" "sendable (lsMessages st)"
  shows "stepOk inv' turn (endTurn env turn sr appended finalText prior st)"
proof -
  obtain allow decision spot where g: "(if finalText = [] then (True, None, False)
      else askGuard (leScreen env) (postTurnInput (leScreen env) finalText)) = (allow, decision, spot)"
    by (metis prod_cases3)
  define st1 where "st1 = st\<lparr>lsMonitor := ratchetRuleOfTwo decision (lsMonitor st)\<rparr>"
  have o1: "openAt inv' turn st1" "lsMessages st1 = lsMessages st"
    using assms(1) by (simp_all add: st1_def)
  obtain injected blocked st2 where a: "absorbInput env turn True (closeTurn appended turn (StopReason sr) st1) = (injected, blocked, st2)"
    by (metis prod_cases3)
  note absorb = absorbInput_ok [OF a, simplified, unfolded o1(2), OF assms(2)]
  have c2: "closedAt inv' turn st2"
    using closedAt_same openAt_close(3) [OF o1(1)] absorb by blast
  have "endTurn env turn sr appended finalText prior st =
     (if \<not> allow then Finish (emitTurnAbandoned ''guardrail_blocked'' st1) ''guardrail_blocked'' prior None
      else if blocked \<noteq> [] then finish st2 blocked
      else if injected > 0 then Continue st2 else Finish st2 ''success'' (lsFinal st2) (srStopDetails sr))"
    by (simp add: endTurn_def g st1_def [symmetric] Let_def a)
  then show ?thesis
    using c2 absorb openAt_close(2) [OF o1(1)] o1(2) assms(2)
    by (auto simp: stepOk_def finish_def intro!: closedAt_ended closedAt_between sendable_cutShort)
qed

lemma dispatchTurn_ok:
  assumes "openAt inv' turn st" "wf_history (lsMessages st)" "lsMessages st \<noteq> []" "Role (last (lsMessages st)) = ''assistant''"
    and ids: "toolUseIDs (last (lsMessages st)) = map tcID calls"
  shows "stepOk inv' turn (dispatchTurn env cfg turn plan stop calls st)"
proof -
  obtain r w where d: "planAndDispatch (turnDispatch env plan st) (leSha env) (leCodec env) (lcMaxResultBytes cfg) calls (lsStall st)
      (lsWorld st) = (r, w)"
    by fastforce
  obtain nudge nudged' stall where n: "takeNudge (drStall r) = ((nudge, nudged'), stall)"
    by (metis surj_pair)
  define st1 where "st1 = st\<lparr>lsWorld := w, lsStall := stall, lsMessages := appendToolResults (lsMessages st) (drResults r)\<rparr>"
  define st2 where "st2 = (if length (drResults r) = length calls then emitTurnCommitted turn stop (length (drResults r)) st1
                           else emitTurnAbandoned ''unanswered_tool_calls'' st1)"
  define st3 where "st3 = st2\<lparr>lsPriorCalls := lsPriorCalls st2 + length calls\<rparr>"
  define st4 where "st4 = (if nudged' then st3\<lparr>lsMessages := injectSyntheticUserText (lsMessages st3) nudge\<rparr> else st3)"
  have eq: "dispatchTurn env cfg turn plan stop calls st =
     (if drOutcome r \<noteq> [] then finish st3 (drOutcome r) else if overBudget cfg st4 then finish st4 ''budget_exceeded''
      else Continue (st4\<lparr>lsWorld := leCheckpoint env turn (length calls) (lsWorld st4)\<rparr>))"
    unfolding dispatchTurn_def d prod.case n Let_def st1_def [symmetric] st2_def [symmetric] st3_def [symmetric] st4_def [symmetric] by simp
  obtain m where m: "m \<le> length calls" "map trToolUseID (drResults r) = map tcID (take m calls)" "drOutcome r = [] \<longrightarrow> m = length calls"
      "drOutcome r \<in> {[], ''stalled'', ''tool_failures''}"
    using planAndDispatch_results [OF d] by blast
  have sub: "set (map trToolUseID (drResults r)) \<subseteq> set (toolUseIDs (last (lsMessages st)))"
    unfolding m(2) ids by (auto dest: in_set_takeD)
  have ms: "lsMessages st3 = appendToolResults (lsMessages st) (drResults r)"
    by (simp add: st3_def st2_def st1_def)
  have "openAt inv' turn st1"
    using assms(1) by (simp add: st1_def)
  then have c3: "closedAt inv' turn st3"
    using openAt_close by (auto simp: st3_def st2_def)
  have cut: "cutShort (lsMessages st3)"
    unfolding ms by (rule appendToolResults_cutShort [OF assms(2-4) sub])
  show ?thesis
  proof (cases "drOutcome r = []")
    case False
    then show ?thesis
      using eq c3 cut m(4) by (auto simp: stepOk_finish closedAt_ended)
  next
    case True
    then have "set (map trToolUseID (drResults r)) = set (toolUseIDs (last (lsMessages st)))"
      using m by (simp add: ids)
    from appendToolResults_sendable [OF assms(2-4) this]
    have s3: "sendable (lsMessages st3)" "Role (last (lsMessages st3)) = ''user''"
      by (simp_all add: ms)
    then have s4: "sendable (lsMessages st4)" "Role (last (lsMessages st4)) = ''user''" "closedAt inv' turn st4"
      using appendUserText_sendable(3,4) [OF s3(1)] c3 by (simp_all add: st4_def)
    then show ?thesis
      using eq True by (auto simp: stepOk_def finish_def intro!: closedAt_ended closedAt_between sendable_cutShort)
  qed
qed

text \<open>The history after a response is committed: open calls only for a turn that dispatches them.\<close>

lemma commit_ok:
  assumes "sendable ms" "Role (last ms) = ''user'' \<or> cp" "noResults blocks"
    and "committableAssistantBlocks stop blocks = (kept, appended)"
    and "ms' = (if appended then commitAssistantContent ms kept rf cp else ms)"
  shows "stop \<noteq> ''tool_use'' \<Longrightarrow> sendable ms'"
    "stop = ''tool_use'' \<Longrightarrow> filter (\<lambda>b. Type b = ''tool_use'') blocks = [] \<Longrightarrow> ms' = ms"
    "stop = ''tool_use'' \<Longrightarrow> filter (\<lambda>b. Type b = ''tool_use'') blocks \<noteq> [] \<Longrightarrow>
       wf_history ms' \<and> ms' \<noteq> [] \<and> Role (last ms') = ''assistant''
       \<and> toolUseIDs (last ms') = map ID (filter (\<lambda>b. Type b = ''tool_use'') blocks)"
proof -
  note kept = committable_blocks [OF assms(4,3)]
  note cases = commitAssistantContent_cases [OF assms(1) kept(1) assms(2) refl, of rf]
  show "sendable ms'" if "stop \<noteq> ''tool_use''"
    using cases kept(2) [OF that] assms(1,5) by (cases appended) (simp_all add: sendable_def)
  have tu: "kept = blocks \<and> appended = (length (withoutToolUse blocks) < length blocks)" if "stop = ''tool_use''"
    using assms(4) that by (auto simp: committableAssistantBlocks_def)
  have split: "length (withoutToolUse blocks) + length (filter (\<lambda>b. Type b = ''tool_use'') blocks) = length blocks"
    using sum_length_filter_compl [of "\<lambda>b. Type b = ''tool_use''" blocks] by (simp add: withoutToolUse_def)
  show "ms' = ms" if "stop = ''tool_use''" "filter (\<lambda>b. Type b = ''tool_use'') blocks = []"
    using tu [OF that(1)] split that(2) assms(5) by simp
  show "wf_history ms' \<and> ms' \<noteq> [] \<and> Role (last ms') = ''assistant''
       \<and> toolUseIDs (last ms') = map ID (filter (\<lambda>b. Type b = ''tool_use'') blocks)"
    if "stop = ''tool_use''" "filter (\<lambda>b. Type b = ''tool_use'') blocks \<noteq> []"
  proof -
    have "0 < length (filter (\<lambda>b. Type b = ''tool_use'') blocks)"
      using that(2) length_greater_0_conv by blast
    then have appended
      using tu [OF that(1)] split by linarith
    then show ?thesis
      using cases tu [OF that(1)] assms(5) by simp
  qed
qed

definition promptsOnEscalation :: "('f, 's, 'x, 'c, 'v, 'p) loopEnv \<Rightarrow> bool" where
  "promptsOnEscalation env =
     (\<forall>inp. edKind (escalationDecision (leEscalation env) inp) \<noteq> EscalationNone
        \<longrightarrow> PromptMessage (escalationDecision (leEscalation env) inp) \<noteq> [])"

lemma handleResponse_ok:
  assumes st0: "duringTurn inv' turn st0" and blocks0: "noResults (Blocks sr0)" and prompts: "promptsOnEscalation env"
  shows "stepOk inv' turn (handleResponse env cfg turn plan sr0 pa st0)"
proof -
  define cp where "cp = (lsRoute st0 \<noteq> None)"
  obtain sr st1 where nr: "noteResponse plan sr0 pa st0 = (sr, st1)"
    by fastforce
  let ?ms = "lsMessages st0"
  have ready: "sendable ?ms" "Role (last ?ms) = ''user'' \<or> cp"
    using st0 by (auto simp: duringTurn_def ready_def cp_def)
  obtain bs added lz where ls: "loadSearchedTools (lsNative (tpSearch plan)) (Blocks sr0) (lwLazy (lsWorld st0)) = (bs, added, lz)"
    by (metis prod_cases3)
  have o1: "openAt inv' turn st1" "lsMessages st1 = ?ms" "lsRoute st1 = None"
    using nr duringTurn_openAt [OF st0] chargeTurn_same(2) by (auto simp: noteResponse_def ls chargeTurn_def openAt_def sentOk_def)
  have blocks: "noResults (Blocks sr)"
    using nr loadSearchedTools_noResults [OF blocks0 ls] by (auto simp: noteResponse_def ls)
  define stop where "stop = StopReason sr"
  define toolCalls where "toolCalls = collectToolCalls (Blocks sr) (InvalidToolInputs sr)"
  define finalText where "finalText = lsContinued st1 @ lastAssistantText (Blocks sr)"
  define prior where "prior = (if lsContinued st1 \<noteq> [] then lsPreContinuation st1 else lsFinal st1)"
  define st2 where "st2 = st1\<lparr>lsContinued := [], lsFinal := (if finalText \<noteq> [] then finalText else lsFinal st1)\<rparr>"
  have o2: "openAt inv' turn st2" "lsMessages st2 = ?ms" "lsRoute st2 = None"
    using o1 by (simp_all add: st2_def)
  obtain messages hasText instr continues where rec': "recoverFromOutputLimit sr (lsMessages st2) cp = (messages, hasText, instr, continues)"
    by (metis prod_cases4)
  define stR where "stR = (closeTurn hasText turn stop (st2\<lparr>lsRecoveries := lsRecoveries st2 + 1\<rparr>))\<lparr>lsMessages := messages\<rparr>"
  obtain kept appended where cb: "committableAssistantBlocks stop (Blocks sr) = (kept, appended)"
    by fastforce
  define st3 where "st3 = (if appended then st2\<lparr>lsMessages := commitAssistantContent (lsMessages st2) kept (srReplayFields sr) cp\<rparr> else st2)"
  have o3: "openAt inv' turn st3" "lsRoute st3 = None"
    using o2 by (simp_all add: st3_def)
  have ms3: "lsMessages st3 = (if appended then commitAssistantContent ?ms kept (srReplayFields sr) cp else ?ms)"
    by (simp add: st3_def o2(2))
  note commit = commit_ok [OF ready blocks cb ms3]
  have calls: "map tcID toolCalls = map ID (filter (\<lambda>b. Type b = ''tool_use'') (Blocks sr))"
    by (simp add: toolCalls_def collectToolCalls_def collectLoop_ids)
  define decision where "decision = escalationDecision (leEscalation env)
     \<lparr>eiMode = scMode (leScreen env), eiProvider = fst (tpSelection plan), eiModel = snd (tpSelection plan),
      eiStopReason = stop, ToolsAvailable = (tpDefs plan \<noteq> []), PriorToolCalls = lsPriorCalls st3, EscalationsSoFar = lsEscalations st3\<rparr>"
  have eq: "handleResponse env cfg turn plan sr0 pa st0 =
     (if canRecoverFromOutputLimit (lsRecoveries st2) stop turn (lcMaxTurns cfg)
      then Continue (if continues then stR\<lparr>lsContinued := finalText, lsPreContinuation := prior\<rparr> else stR)
      else if stop = ''pause_turn'' then pauseTurn cfg turn plan sr appended st3
      else if toolCalls = [] \<and> stop \<noteq> ''tool_use'' \<and> edKind decision \<noteq> EscalationNone
      then Continue ((applyEscalation decision (closeTurn appended turn stop st3))\<lparr>lsEscalations := lsEscalations st3 + 1\<rparr>)
      else if stop = ''end_turn'' then endTurn env turn sr appended finalText prior st3
      else if stop \<noteq> ''tool_use''
      then (if stop = [] then finish st3 ''error''
            else Finish (closeTurn appended turn stop st3) stop (lsFinal (closeTurn appended turn stop st3)) (srStopDetails sr))
      else if toolCalls = [] then finish (emitTurnAbandoned ''missing_tool_calls'' st3) ''error''
      else dispatchTurn env cfg turn plan stop toolCalls st3)"
    unfolding handleResponse_def nr prod.case Let_def stop_def [symmetric] toolCalls_def [symmetric] finalText_def [symmetric]
      prior_def [symmetric] st2_def [symmetric] cp_def [symmetric] rec' cb st3_def [symmetric] decision_def [symmetric] stR_def [symmetric]
    by simp
  consider (recover) "canRecoverFromOutputLimit (lsRecoveries st2) stop turn (lcMaxTurns cfg)"
    | (stopped) "\<not> canRecoverFromOutputLimit (lsRecoveries st2) stop turn (lcMaxTurns cfg)" "stop \<noteq> ''tool_use''"
    | (missing) "\<not> canRecoverFromOutputLimit (lsRecoveries st2) stop turn (lcMaxTurns cfg)" "stop = ''tool_use''" "toolCalls = []"
    | (dispatch) "\<not> canRecoverFromOutputLimit (lsRecoveries st2) stop turn (lcMaxTurns cfg)" "stop = ''tool_use''" "toolCalls \<noteq> []"
    by blast
  then show ?thesis
  proof cases
    case recover
    have "StopReason sr = ''max_tokens''"
      using recover by (simp add: canRecoverFromOutputLimit_def stop_def)
    from recoverFromOutputLimit_sendable [OF ready(1) blocks this ready(2)]
    have "sendable (lsMessages stR)" "Role (last (lsMessages stR)) = ''user''" "closedAt inv' turn stR"
      using rec' openAt_close(3) [of inv' turn "st2\<lparr>lsRecoveries := lsRecoveries st2 + 1\<rparr>"] o2 by (simp_all add: stR_def)
    then show ?thesis
      using eq recover by (auto simp: stepOk_def intro!: closedAt_between)
  next
    case stopped
    note s3 = commit(1) [OF stopped(2)] and c3 = openAt_close(3) [OF o3(1)]
    have esc: "stepOk inv' turn (Continue ((applyEscalation decision (closeTurn appended turn stop st3))\<lparr>lsEscalations := lsEscalations st3 + 1\<rparr>))"
      if "edKind decision \<noteq> EscalationNone"
    proof -
      have "PromptMessage decision \<noteq> []"
        using that prompts by (auto simp: promptsOnEscalation_def decision_def)
      then show ?thesis
        using c3 appendUserText_sendable(3,4) [OF s3]
        by (auto simp: stepOk_def applyEscalation_def Let_def intro!: closedAt_between)
    qed
    have "stepOk inv' turn (finish st3 ''error'')"
        "stepOk inv' turn (Finish (closeTurn appended turn stop st3) stop (lsFinal (closeTurn appended turn stop st3)) (srStopDetails sr))"
      using c3 o3(1) s3 sendable_cutShort [OF s3] by (simp_all add: stepOk_def finish_def closedAt_ended openAt_ended)
    with stopped esc pauseTurn_ok [OF o3(1) s3, of cfg plan sr appended] endTurn_ok [OF o3(1) s3, of env sr appended finalText prior]
    show ?thesis
      unfolding eq by simp
  next
    case missing
    then have "lsMessages st3 = ?ms"
      using commit(2) calls by simp
    then show ?thesis
      using eq missing openAt_close(2) [OF o3(1)] sendable_cutShort [OF ready(1)] by (simp add: stepOk_finish closedAt_ended)
  next
    case dispatch
    then have "filter (\<lambda>b. Type b = ''tool_use'') (Blocks sr) \<noteq> []"
      using calls by (metis map_is_Nil_conv)
    from commit(3) [OF dispatch(2) this] have "stepOk inv' turn (dispatchTurn env cfg turn plan stop toolCalls st3)"
      using calls by (intro dispatchTurn_ok [OF o3(1)]) simp_all
    then show ?thesis
      using eq dispatch by simp
  qed
qed

lemma oneTurn_ok:
  assumes strategy: "context_strategy (lePrepare env) (leCompaction env) inv'" and prompts: "promptsOnEscalation env"
    and st: "betweenTurns inv' turn st"
  shows "stepOk inv' turn (oneTurn env cfg turn st)"
proof (cases "turnBoundary env cfg turn st")
  case (Finish st' outcome final details)
  then show ?thesis
    using turnBoundary_ok [OF st, of env cfg] by (simp add: oneTurn_def stepOk_def betweenTurns_ended turn_sendable)
next
  case (Continue st1)
  then have "betweenTurns inv' turn (windDownTurn env cfg turn st1)"
    using turnBoundary_ok [OF st, of env cfg] windDownTurn_ok by auto
  moreover obtain plan st2 where plan: "planRequest env cfg turn (windDownTurn env cfg turn st1) = (plan, st2)"
    by fastforce
  ultimately have b2: "betweenTurns inv' turn st2"
    using planRequest_ok by blast
  obtain res st3 where prep: "prepareRequest env turn plan (tpBudget plan) st2 = (res, st3)"
    by fastforce
  have "inv' (lsStrategy st2)" "sendable (lsMessages st2)"
    using b2 by (simp_all add: betweenTurns_def ready_def)
  note ok3 = prepareRequest_ok [OF strategy prep this]
  then have b3: "betweenTurns inv' turn st3"
    using b2 by (simp add: betweenTurns_def ready_def sentOk_def)
  show ?thesis
  proof (cases res)
    case (Inl outcome)
    then show ?thesis
      using Continue plan prep b3 by (simp add: oneTurn_def stepOk_finish betweenTurns_ended turn_sendable)
  next
    case (Inr rt)
    obtain prepared tokens where rt: "rt = (prepared, tokens)"
      by fastforce
    show ?thesis
    proof (cases "resolveProvider env (fst (tpSelection plan))")
      case None
      then show ?thesis
        using Continue plan prep Inr rt b3 by (simp add: oneTurn_def stepOk_finish betweenTurns_ended turn_sendable)
    next
      case (Some p)
      define st4 where "st4 = emitTurnStarted turn (st3\<lparr>lsToolRequired := False\<rparr>)"
      have d4: "duringTurn inv' turn st4"
        using b3 turnLog_start by (auto simp: st4_def emitTurnStarted_def duringTurn_def betweenTurns_def ready_def sentOk_def)
      have req: "requestOk inv' turn 1 (requestTurn env cfg turn plan p (lsToolRequired st3) prepared tokens st4)"
        using ok3 Inr rt by (intro requestTurn_ok [OF strategy d4]) auto
      have "oneTurn env cfg turn st = (case requestTurn env cfg turn plan p (lsToolRequired st3) prepared tokens st4 of
             Answered sr pa st5 \<Rightarrow> handleResponse env cfg turn plan sr pa st5
           | Failed st5 \<Rightarrow> finish st5 (if leCtxErr env turn 4 then outcomeCtxDone else ''error'')
           | Resend _ _ st5 \<Rightarrow> finish st5 ''context_exhausted''
           | Ended step \<Rightarrow> step)"
        using Continue plan prep Inr rt Some by (simp add: oneTurn_def st4_def)
      then show ?thesis
        using req handleResponse_ok [OF _ _ prompts]
        by (auto simp: requestOk_def stepOk_finish duringTurn_ended turn_sendable split: requestOutcome.splits)
    qed
  qed
qed

text \<open>The deferred report of a turn no other path closed.\<close>

lemma runEnded_close:
  assumes "runEnded inv' turn st" "st' = emitTurnAbandoned ''no_response'' st"
  shows "cutShort (lsMessages st') \<and> sentOk st' \<and> inv' (lsStrategy st') \<and> lsOpen st' = None
     \<and> (\<exists>n \<le> turn + 1. turnLog None n (lsEvents st'))"
proof (cases "lsOpen st")
  case (Some t)
  then show ?thesis
    using assms turnLog_abandon [of t _ "lsEvents st" "''no_response''"] by (auto simp: runEnded_def emitTurnAbandoned_def sentOk_def)
qed (use assms in \<open>auto simp: runEnded_def emitTurnAbandoned_def\<close>)

lemma runInnerLoop_ok:
  assumes "context_strategy (lePrepare env) (leCompaction env) inv'" "promptsOnEscalation env"
    and "betweenTurns inv' turn st" "runInnerLoop env cfg turn st = (next', st', outcome, final, details)"
  shows "turn \<le> next' \<and> next' \<le> max turn (lcMaxTurns cfg) \<and> cutShort (lsMessages st') \<and> sentOk st' \<and> lsOpen st' = None
     \<and> inv' (lsStrategy st') \<and> (\<exists>n \<le> next'. turnLog None n (lsEvents st'))
     \<and> (outcome = ''success'' \<longrightarrow> sendable (lsMessages st'))"
  using assms
proof (induction env cfg turn st rule: runInnerLoop.induct)
  case (1 env cfg turn st)
  note step = oneTurn_ok [OF "1.prems"(1,2,3), of cfg]
  show ?case
  proof (cases "turn < lcMaxTurns cfg")
    case False
    then have "next' = turn" "st' = emitTurnAbandoned ''no_response'' st" "outcome = ''max_turns''"
      using "1.prems"(4) by (simp_all add: runInnerLoop.simps [of env cfg turn st])
    moreover have "lsOpen st = None"
      using "1.prems"(3) by (simp add: betweenTurns_def)
    ultimately have "next' = turn" "st' = st" "outcome = ''max_turns''"
      by (simp_all add: emitTurnAbandoned_def)
    then show ?thesis
      using "1.prems"(3) sendable_cutShort by (auto simp: betweenTurns_def ready_def)
  next
    case True
    show ?thesis
    proof (cases "oneTurn env cfg turn st")
      case (Finish st1 outcome1 final1 details1)
      then have "next' = turn + 1" "st' = emitTurnAbandoned ''no_response'' st1" "runEnded inv' turn st1"
        "outcome = outcome1" "outcome1 = ''success'' \<longrightarrow> sendable (lsMessages st1)"
        using True "1.prems"(4) step by (simp_all add: runInnerLoop.simps [of env cfg turn st] stepOk_def)
      then show ?thesis
        using runEnded_close [of inv' turn st1 st'] True by auto
    next
      case (Continue st1)
      then have "runInnerLoop env cfg (turn + 1) st1 = (next', st', outcome, final, details)" "betweenTurns inv' (turn + 1) st1"
        using True "1.prems"(4) step by (simp_all add: runInnerLoop.simps [of env cfg turn st] stepOk_def)
      then show ?thesis
        using "1.IH" [OF True Continue "1.prems"(1,2)] True by auto
    qed
  qed
qed

section \<open>Properties\<close>


section \<open>A run of two turns\<close>

definition tokenRatio :: "int ratioOps" where
  "tokenRatio = \<lparr>ofTokens = id, toTokens = id, fdiv = (div), fmul = (*), fadd = (+), fle = (\<le>), fzero = 0, fone = 1,
     calibrationMinRatio = 1, calibrationMaxRatio = 4, calibrationSmoothing = 1, calibrationKept = 0, windDownBudgetFraction = 1\<rparr>"

definition greetTool :: "loopWorld tool" where
  "greetTool = \<lparr>tName = ''greet'', tDescription = [], tInputSchema = ''{}'', WorkspaceMutating = False, RequiresApproval = False,
     SelfBoundedResult = False, StructuredHandler = None, Handler = Some (\<lambda>input w. (Inr ''hello'', w)), AsyncHandler = None\<rparr>"

definition sampleDispatch :: "loopWorld dispatchEnv" where
  "sampleDispatch =
     \<lparr>resolveTool = [''greet'' \<mapsto> greetTool], listTools = [toolDefinitionOf greetTool], lazyUnloaded = None, lazyLoaded = (\<lambda>_. []),
      turnSearch = \<lparr>lsNative = False, lsTool = []\<rparr>, equalFold = (=), strip = (\<lambda>s. Inr (s, [])),
      validateSchema = (\<lambda>_ _. None), guardFindings = (\<lambda>_ _ _. []), scrubText = id, quoteText = id,
      scrubGuard = (\<lambda>s. (s, 0)), jsonValid = (\<lambda>_. True), jsonString = id, guardOf = None, guardCtxErr = (\<lambda>_ _. None),
      failOpenOf = False, runMode = ''execution'', runID = ''run-1'', permissions = AllowAll, permEnv = exampleEnv, awaitResponse = None\<rparr>"

definition sampleReply :: "int \<Rightarrow> providerReply" where
  "sampleReply turn =
     \<lparr>prChannel = Inr (map (Pair False)
        (if turn = 0
         then [(eventOf ''tool_call'')\<lparr>seID := ''c1'', seName := ''greet''\<rparr>, (eventOf ''message_complete'')\<lparr>seStopReason := ''tool_use''\<rparr>]
         else [(eventOf ''text_delta'')\<lparr>seText := ''done''\<rparr>, (eventOf ''message_complete'')\<lparr>seStopReason := ''end_turn''\<rparr>])),
      prIsOverflow = False, prIsRetryable = False, prCtxDoneEarly = False, prCtxDone = False, prClock = 0, prJitter = (\<lambda>_. 0),
      prSleepElapsed = True\<rparr>"

definition sampleEnv :: "(int, CompactionEvent option, unit, unit, string, unit) loopEnv" where
  "sampleEnv =
     \<lparr>leScreen = denyingEnv\<lparr>scGuard := None\<rparr>, leTurnZeroContext = [], leRatio = tokenRatio, leDispatch = (\<lambda>_. sampleDispatch),
      leSha = id, leCodec = exampleCodec, leLazyText = plainText, leTools = [toolDefinitionOf greetTool],
      leToolSearch = (\<lambda>_ _. (False, [])), leStructured = None, leWindow = (\<lambda>_ _. 0), leReenc = (\<lambda>_ _. None), leSystem = ''be kind'',
      lePrepare = (\<lambda>_ ms b. SlidingWindowPrepare (\<lambda>_ _. None) ms b), lePrepareErr = (\<lambda>_ _ _. False), leCompaction = (\<lambda>ev. ev),
      leSelect = (\<lambda>_. ([], ''model'')), leProvider = Some (), leProviders = [], leStream = (\<lambda>_ _ turn _ _. sampleReply turn),
      leIsBatch = (\<lambda>_. False), leRetry = None, leRetries = Map.empty, leScrub = id, leCarry = plainCarry, leCarry0 = (),
      leEscalation = None, leCheckpoint = (\<lambda>_ _ w. w), leArrived = (\<lambda>_ _. []), leCtxErr = (\<lambda>_ _. False),
      leClock = (\<lambda>_. \<lparr>wdStart = None, wdDeadline = None, wdNow = 0\<rparr>)\<rparr>"

definition sampleConfig :: loopConfig where
  "sampleConfig = \<lparr>lcMaxTurns = 5, lcPrompt = ''greet me'', lcMaxTokenBudget = None, lcMaxContextTokens = 0, lcMaxResultBytes = 0,
     lcStreamsThinking = False, lcWindDown = False\<rparr>"

definition sampleStart :: "(int, CompactionEvent option, unit) loopState" where
  "sampleStart = enterLoop sampleEnv 0
     \<lparr>lsMessages = buildMessages ''greet me'', lsMonitor = None, lsQueue = [], lsScreenedLen = 0, lsTokens = zeroUsage,
      lsStall = zeroDetector, lsWindDownSent = False, lsRoute = None, lsPauses = 0, lsRecoveries = 0, lsPriorCalls = 0,
      lsEscalations = 0, lsToolRequired = False, lsLastStop = [], lsFinal = [], lsContinued = [], lsPreContinuation = [],
      lsRatio = 0, lsBinding = None, lsRewritten = False, lsStrategy = None,
      lsWorld = \<lparr>lwLazy = None, lwLedger = NewTokenLedger None\<rparr>, lsOpen = None, lsEvents = [], lsSent = []\<rparr>"

lemma sampleEnv_ok: "context_strategy (lePrepare sampleEnv) (leCompaction sampleEnv) (\<lambda>_. True)" "promptsOnEscalation sampleEnv"
  using sliding.context_strategy_axioms [of "\<lambda>_ _. None"]
  by (simp_all add: sampleEnv_def promptsOnEscalation_def escalationDecision_def noEscalation_def)

lemma sampleStart_ok: "betweenTurns (\<lambda>_. True) 1 sampleStart"
proof -
  have "turnLog None 1 []"
    by (rule turnLog_empty)
  then show ?thesis
    using sendable_build [of "''greet me''"]
    by (auto simp: sampleStart_def enterLoop_def betweenTurns_def ready_def sentOk_def buildMessages_def mkMessage_def)
qed


end
