(* ===== verification/Go_Net.thy ===== *)
theory Go_Net
  imports Go_Prelude
begin

text \<open>
  The part of Go's standard library that the network-facing packages use: case mapping of
  \<open>strings\<close>, big-endian reads of \<open>encoding/binary\<close>, host and port splitting and address
  parsing of \<open>net\<close>, and the header map of \<open>net/http\<close>.

  \<open>strings.ToLower\<close> maps ASCII bytes itself; on a string with other bytes it consults Unicode's case
  tables, which are the argument \<open>uni\<close> of every definition that lowers a string.
  A byte index or slice outside its list is a run-time panic in Go: the byte readers return
  \<^const>\<open>None\<close> there, so that the absence of panics is a theorem about their callers.
\<close>

section \<open>Package strings\<close>

definition isASCII :: "char \<Rightarrow> bool" where
  "isASCII c = ((of_char c :: nat) < 128)"

definition lowerByte :: "char \<Rightarrow> char" where
  "lowerByte c =
     (if 65 \<le> (of_char c :: nat) \<and> (of_char c :: nat) \<le> 90 then char_of ((of_char c :: nat) + 32) else c)"

definition upperByte :: "char \<Rightarrow> char" where
  "upperByte c =
     (if 97 \<le> (of_char c :: nat) \<and> (of_char c :: nat) \<le> 122 then char_of ((of_char c :: nat) - 32) else c)"

definition ToLower :: "(string \<Rightarrow> string) \<Rightarrow> string \<Rightarrow> string" where
  "ToLower uni s = (if list_all isASCII s then map lowerByte s else uni s)"

definition HasSuffix :: "string \<Rightarrow> string \<Rightarrow> bool" where
  "HasSuffix s p = (length p \<le> length s \<and> drop (length s - length p) s = p)"

fun IndexByte :: "string \<Rightarrow> char \<Rightarrow> nat option" where
  "IndexByte [] c = None"
| "IndexByte (x # s) c = (if x = c then Some 0 else map_option Suc (IndexByte s c))"

definition LastIndexByte :: "string \<Rightarrow> char \<Rightarrow> nat option" where
  "LastIndexByte s c = map_option (\<lambda>i. length s - Suc i) (IndexByte (rev s) c)"

definition ContainsAny :: "string \<Rightarrow> string \<Rightarrow> bool" where
  "ContainsAny s chars = list_ex (\<lambda>c. c \<in> set chars) s"

lemma HasSuffix_iff [go_string]: "HasSuffix s p \<longleftrightarrow> (\<exists>l. s = l @ p)"
proof
  assume "HasSuffix s p"
  then show "\<exists>l. s = l @ p"
    unfolding HasSuffix_def by (metis append_take_drop_id)
qed (auto simp: HasSuffix_def)

lemma lowerByte_idem [simp]: "lowerByte (lowerByte c) = lowerByte c"
  by (auto simp: lowerByte_def)

lemma isASCII_lowerByte [simp]: "isASCII (lowerByte c) = isASCII c"
  by (auto simp: lowerByte_def isASCII_def)

lemma ToLower_ascii: "list_all isASCII s \<Longrightarrow> ToLower uni s = map lowerByte s"
  by (simp add: ToLower_def)

section \<open>Package encoding/binary\<close>

abbreviation byteVal :: "char \<Rightarrow> nat" where
  "byteVal c \<equiv> of_char c"

text \<open>\<open>b[i]\<close> and \<open>binary.BigEndian.Uint16(b[i : i+2])\<close>; \<^const>\<open>None\<close> is the index panic.\<close>

definition readByte :: "string \<Rightarrow> nat \<Rightarrow> nat option" where
  "readByte b i = (if i < length b then Some (byteVal (b ! i)) else None)"

definition readU16 :: "string \<Rightarrow> nat \<Rightarrow> nat option" where
  "readU16 b i =
     (if i + 2 \<le> length b then Some (256 * byteVal (b ! i) + byteVal (b ! Suc i)) else None)"

text \<open>\<open>b[i:j]\<close> with Go's bounds check.\<close>

definition readSlice :: "string \<Rightarrow> nat \<Rightarrow> nat \<Rightarrow> string option" where
  "readSlice b i j = (if i \<le> j \<and> j \<le> length b then Some (slice b i j) else None)"

text \<open>The encoder's side: \<open>binary.BigEndian.PutUint16\<close> of a value below \<open>2^16\<close>.\<close>

definition u16 :: "nat \<Rightarrow> string" where
  "u16 n = [char_of (n div 256), char_of (n mod 256)]"

lemma length_u16 [simp]: "length (u16 n) = 2"
  by (simp add: u16_def)

lemma readU16_prefix [go_slice]:
  "n < 65536 \<Longrightarrow> readU16 (u16 n @ s) 0 = Some n"
  by (simp add: readU16_def u16_def)

lemma readU16_at [go_slice]:
  "length p = i \<Longrightarrow> n < 65536 \<Longrightarrow> readU16 (p @ u16 n @ s) i = Some n"
  by (auto simp: readU16_def u16_def nth_append)

lemma readByte_at [go_slice]: "length p = i \<Longrightarrow> readByte (p @ c # s) i = Some (byteVal c)"
  by (auto simp: readByte_def)

lemma readSlice_at [go_slice]:
  "length p = i \<Longrightarrow> j = i + length m \<Longrightarrow> readSlice (p @ m @ s) i j = Some m"
  by (simp add: readSlice_def slice_def)

lemma readByte_Some: "i < length b \<Longrightarrow> \<exists>v. readByte b i = Some v \<and> v < 256"
  by (simp add: readByte_def)

lemma readU16_Some: "i + 2 \<le> length b \<Longrightarrow> \<exists>v. readU16 b i = Some v"
  by (simp add: readU16_def)

section \<open>Package net\<close>

text \<open>\<open>net.SplitHostPort\<close>; its several address errors are one \<^const>\<open>None\<close>.\<close>

definition SplitHostPort :: "string \<Rightarrow> (string \<times> string) option" where
  "SplitHostPort hp =
     (case LastIndexByte hp (CHR '':'') of
        None \<Rightarrow> None
      | Some i \<Rightarrow>
          (if HasPrefix hp ''['' then
             case IndexByte hp (CHR '']'') of
               None \<Rightarrow> None
             | Some e \<Rightarrow>
                 if Suc e \<noteq> i then None
                 else if CHR ''['' \<in> set (drop 1 hp) \<or> CHR '']'' \<in> set (drop (Suc e) hp) then None
                 else Some (slice hp 1 e, drop (Suc i) hp)
           else
             let host = take i hp in
             if CHR '':'' \<in> set host \<or> CHR ''['' \<in> set hp \<or> CHR '']'' \<in> set hp then None
             else Some (host, drop (Suc i) hp)))"

definition JoinHostPort :: "string \<Rightarrow> string \<Rightarrow> string" where
  "JoinHostPort host port =
     (if CHR '':'' \<in> set host then ''['' @ host @ '']:'' @ port else host @ '':'' @ port)"

text \<open>
  \<open>net.ParseIP\<close>, through \<open>netip.ParseAddr\<close>: dotted decimal without leading zeros, or hexadecimal
  groups with at most one \<open>::\<close> and an optional dotted tail. The result is the 16-byte form;
  an address with a zone is refused.
\<close>

fun ipv4Fields :: "string \<Rightarrow> nat \<Rightarrow> nat \<Rightarrow> nat list \<Rightarrow> nat list option" where
  "ipv4Fields [] val digLen acc = (if length acc = 3 \<and> 0 < digLen then Some (acc @ [val]) else None)"
| "ipv4Fields (c # s) val digLen acc =
     (if isDigit c then
        if digLen = 1 \<and> val = 0 then None
        else let v = 10 * val + (byteVal c - 48) in
             if 255 < v then None else ipv4Fields s v (Suc digLen) acc
      else if c = CHR ''.'' then
        if digLen = 0 \<or> s = [] \<or> 3 \<le> length acc then None
        else ipv4Fields s 0 0 (acc @ [val])
      else None)"

definition parseIPv4 :: "string \<Rightarrow> nat list option" where
  "parseIPv4 s = ipv4Fields s 0 0 []"

definition hexVal :: "char \<Rightarrow> nat option" where
  "hexVal c =
     (let n = byteVal c in
      if 48 \<le> n \<and> n \<le> 57 then Some (n - 48)
      else if 97 \<le> n \<and> n \<le> 102 then Some (n - 87)
      else if 65 \<le> n \<and> n \<le> 70 then Some (n - 55)
      else None)"

definition hexGroup :: "string \<Rightarrow> string" where
  "hexGroup s = takeWhile (\<lambda>c. hexVal c \<noteq> None) s"

definition hexNumber :: "string \<Rightarrow> nat" where
  "hexNumber g = foldl (\<lambda>acc c. 16 * acc + the (hexVal c)) 0 g"

text \<open>
  The group loop of \<open>parseIPv6\<close>: the bytes so far, the position of the ellipsis, and the rest of the
  string. It stops with the bytes, the ellipsis and what is left of the string.
\<close>

function ipv6Loop ::
  "string \<Rightarrow> nat list \<Rightarrow> nat option \<Rightarrow> (nat list \<times> nat option \<times> string) option" where
  "ipv6Loop s ip ell =
     (if 16 \<le> length ip then Some (ip, ell, s)
      else
        let g = hexGroup s; off = length g; rest = drop off s in
        if off = 0 \<or> 4 < off then None
        else if HasPrefix rest ''.'' then
          if (ell = None \<and> length ip \<noteq> 12) \<or> 12 < length ip then None
          else map_option (\<lambda>fs. (ip @ fs, ell, [])) (parseIPv4 s)
        else
          let ip' = ip @ [hexNumber g div 256, hexNumber g mod 256] in
          case rest of
            [] \<Rightarrow> Some (ip', ell, [])
          | c # s1 \<Rightarrow>
              if c \<noteq> CHR '':'' \<or> s1 = [] then None
              else if HasPrefix s1 '':'' then
                if ell \<noteq> None then None
                else if drop 1 s1 = [] then Some (ip', Some (length ip'), [])
                else ipv6Loop (drop 1 s1) ip' (Some (length ip'))
              else ipv6Loop s1 ip' ell)"
  by pat_completeness auto
termination
  by (relation "measure (\<lambda>(_, ip, _). 16 - length ip)") auto

declare ipv6Loop.simps [simp del]

definition parseIPv6 :: "string \<Rightarrow> nat list option" where
  "parseIPv6 s =
     (let lead = HasPrefix s ''::''; s' = (if lead then drop 2 s else s) in
      if CHR ''%'' \<in> set s then None
      else if lead \<and> s' = [] then Some (replicate 16 0)
      else case ipv6Loop s' [] (if lead then Some 0 else None) of
             None \<Rightarrow> None
           | Some (ip, ell, rest) \<Rightarrow>
               if rest \<noteq> [] then None
               else if length ip < 16 then
                 (case ell of
                    None \<Rightarrow> None
                  | Some e \<Rightarrow> Some (take e ip @ replicate (16 - length ip) 0 @ drop e ip))
               else if ell \<noteq> None then None
               else Some ip)"

text \<open>An address is its bytes; \<open>v4InV6\<close> is the 16-byte form of an IPv4 address.\<close>

type_synonym IP = "nat list"

definition v4InV6 :: "IP \<Rightarrow> IP" where
  "v4InV6 ip = replicate 10 0 @ [255, 255] @ ip"

definition ParseIP :: "string \<Rightarrow> IP option" where
  "ParseIP s =
     (case find (\<lambda>c. c = CHR ''.'' \<or> c = CHR '':'' \<or> c = CHR ''%'') s of
        Some c \<Rightarrow>
          if c = CHR ''.'' then map_option v4InV6 (parseIPv4 s)
          else if c = CHR '':'' then parseIPv6 s else None
      | None \<Rightarrow> None)"

definition To4 :: "IP \<Rightarrow> IP option" where
  "To4 ip =
     (if length ip = 4 then Some ip
      else if length ip = 16 \<and> take 12 ip = replicate 10 0 @ [255, 255] then Some (drop 12 ip)
      else None)"

lemma To4_length: "To4 ip = Some v \<Longrightarrow> length v = 4"
  by (auto simp: To4_def split: if_splits)

lemma To4_v4InV6 [simp]: "length ip = 4 \<Longrightarrow> To4 (v4InV6 ip) = Some ip"
  by (simp add: To4_def v4InV6_def numeral_eq_Suc)

lemma ipv4Fields_step:
  assumes "ipv4Fields (c # s) v d acc = Some ip"
  obtains v' d' acc' where "ipv4Fields s v' d' acc' = Some ip" "v' < 256"
    "acc' = acc \<or> acc' = acc @ [v]"
  using assms that by (auto simp: Let_def not_less less_Suc_eq_le split: if_splits)

lemma ipv4Fields_range:
  "ipv4Fields s v d acc = Some ip \<Longrightarrow> v < 256 \<Longrightarrow> \<forall>b \<in> set acc. b < 256
   \<Longrightarrow> length ip = 4 \<and> (\<forall>b \<in> set ip. b < 256)"
proof (induction s arbitrary: v d acc)
  case Nil
  then show ?case by (auto split: if_splits)
next
  case (Cons c s)
  obtain v' d' acc' where step: "ipv4Fields s v' d' acc' = Some ip" "v' < 256"
    "acc' = acc \<or> acc' = acc @ [v]"
    using ipv4Fields_step [OF Cons.prems(1)] .
  moreover have "\<forall>b \<in> set acc'. b < 256"
    using step(3) Cons.prems by auto
  ultimately show ?case
    using Cons.IH by blast
qed

lemma parseIPv4_range: "parseIPv4 s = Some ip \<Longrightarrow> length ip = 4 \<and> (\<forall>b \<in> set ip. b < 256)"
  using ipv4Fields_range [of s 0 0 "[]" ip] by (simp add: parseIPv4_def)

section \<open>Package net/http\<close>

text \<open>
  \<open>http.Header\<close> maps a canonical key to its values. \<open>textproto.CanonicalMIMEHeaderKey\<close> leaves a key
  with a byte that no header name may hold unchanged.
\<close>

type_synonym Header = "string \<rightharpoonup> string list"

definition validHeaderByte :: "char \<Rightarrow> bool" where
  "validHeaderByte c =
     (isDigit c \<or> (65 \<le> byteVal c \<and> byteVal c \<le> 90) \<or> (97 \<le> byteVal c \<and> byteVal c \<le> 122)
      \<or> c \<in> set [CHR ''!'', CHR ''#'', CHR ''$'', CHR ''%'', CHR ''&'', CHR 0x27, CHR ''*'', CHR ''+'',
                  CHR ''-'', CHR ''.'', CHR ''^'', CHR ''_'', CHR 0x60, CHR ''|'', CHR ''~''])"

fun canonicalBytes :: "bool \<Rightarrow> string \<Rightarrow> string" where
  "canonicalBytes up [] = []"
| "canonicalBytes up (c # s) =
     (if up then upperByte c else lowerByte c) # canonicalBytes (c = CHR ''-'') s"

definition CanonicalHeaderKey :: "string \<Rightarrow> string" where
  "CanonicalHeaderKey s = (if list_all validHeaderByte s then canonicalBytes True s else s)"

definition headerGet :: "Header \<Rightarrow> string \<Rightarrow> string" where
  "headerGet h key =
     (case h (CanonicalHeaderKey key) of Some (v # _) \<Rightarrow> v | _ \<Rightarrow> [])"

definition headerDel :: "Header \<Rightarrow> string \<Rightarrow> Header" where
  "headerDel h key = h(CanonicalHeaderKey key := None)"

lemma fold_headerDel:
  "foldl headerDel h ks k = (if k \<in> CanonicalHeaderKey ` set ks then None else h k)"
  by (induction ks arbitrary: h) (auto simp: headerDel_def)

end
