(* ===== verification/Egress.thy ===== *)
theory Egress
  imports Go_Net
begin

text \<open>
  The in-process egress proxy, package \<open>egressproxy\<close>: the allowlist matcher (\<open>matcher.go\<close>), the
  ClientHello parser (\<open>sni.go\<close>), the allowlist probe (\<open>probe.go\<close>) and the proxy's request handlers
  (\<open>proxy.go\<close>).

  A handler is a function from what the environment does (the client's bytes, whether a dial, a write
  or a hijack succeeds) to the list of its effects in order. The Unicode case tables are the
  argument \<open>uni\<close>, IDNA conversion in \<open>http.Transport\<close> the argument \<open>idna\<close>, the upstream's
  answer to a forwarded request the argument \<open>answer\<close> and the resolver the argument \<open>lookup\<close>.
  Logging, timeouts as wall-clock time, and the copying of bytes in \<open>splice\<close> in both directions are
  not modelled; \<open>splice\<close> is the effect that hands the upstream the rest of the client's bytes.
\<close>

section \<open>The allowlist (matcher.go)\<close>

definition defaultAllowPort :: int where
  "defaultAllowPort = 443"

record matcherEntry =
  meHost :: string
  meWildcard :: bool
  mePort :: int

record Matcher =
  entries :: "matcherEntry list"

datatype allowlistError = EmptyHost string | InvalidChars string | InvalidPort string | PortRange string

definition canonicaliseHost :: "(string \<Rightarrow> string) \<Rightarrow> string \<Rightarrow> string" where
  "canonicaliseHost uni host = TrimSuffix (ToLower uni (TrimSpace host)) ''.''"

text \<open>\<open>Inr None\<close> is the skipped empty row.\<close>

definition parseAllowlistEntry ::
  "(string \<Rightarrow> string) \<Rightarrow> string \<Rightarrow> allowlistError + matcherEntry option" where
  "parseAllowlistEntry uni raw =
     (let trimmed = TrimSpace raw in
      if trimmed = [] then Inr None
      else
        let (hostPart, portPart) =
              (case LastIndexByte trimmed (CHR '':'') of
                 None \<Rightarrow> (trimmed, [])
               | Some idx \<Rightarrow> (take idx trimmed, drop (Suc idx) trimmed));
            wildcard = HasPrefix hostPart ''*.'';
            hostPart = (if wildcard then drop 2 hostPart else hostPart);
            host = canonicaliseHost uni hostPart in
        if host = [] then Inl (EmptyHost raw)
        else if ContainsAny host [CHR '' '', CHR 0x09, CHR ''/''] then Inl (InvalidChars raw)
        else if portPart = [] then
          Inr (Some \<lparr>meHost = host, meWildcard = wildcard, mePort = defaultAllowPort\<rparr>)
        else case Atoi portPart of
               None \<Rightarrow> Inl (InvalidPort raw)
             | Some p \<Rightarrow>
                 if p \<le> 0 \<or> 65535 < p then Inl (PortRange raw)
                 else Inr (Some \<lparr>meHost = host, meWildcard = wildcard, mePort = p\<rparr>))"

fun matcherLoop ::
  "(string \<Rightarrow> string) \<Rightarrow> string list \<Rightarrow> matcherEntry list \<Rightarrow> allowlistError + matcherEntry list" where
  "matcherLoop uni [] acc = Inr acc"
| "matcherLoop uni (raw # rest) acc =
     (case parseAllowlistEntry uni raw of
        Inl e \<Rightarrow> Inl e
      | Inr None \<Rightarrow> matcherLoop uni rest acc
      | Inr (Some e) \<Rightarrow> matcherLoop uni rest (acc @ [e]))"

definition NewMatcher :: "(string \<Rightarrow> string) \<Rightarrow> string list \<Rightarrow> allowlistError + Matcher" where
  "NewMatcher uni allowlist =
     (case matcherLoop uni allowlist [] of
        Inl e \<Rightarrow> Inl e
      | Inr es \<Rightarrow> Inr \<lparr>entries = es\<rparr>)"

definition entryMatches :: "string \<Rightarrow> int \<Rightarrow> matcherEntry \<Rightarrow> bool" where
  "entryMatches canonical port e =
     (if mePort e \<noteq> port then False
      else if meWildcard e then
        (let suffix = ''.'' @ meHost e in
         HasSuffix canonical suffix \<and> length suffix < length canonical)
      else canonical = meHost e)"

text \<open>A nil matcher is \<^const>\<open>None\<close>.\<close>

definition Match :: "(string \<Rightarrow> string) \<Rightarrow> Matcher option \<Rightarrow> string \<Rightarrow> int \<Rightarrow> bool" where
  "Match uni m host port =
     (case m of
        None \<Rightarrow> False
      | Some m \<Rightarrow>
          let canonical = canonicaliseHost uni host in
          if canonical = [] then False else list_ex (entryMatches canonical port) (entries m))"

definition Entries :: "Matcher option \<Rightarrow> string list" where
  "Entries m =
     (case m of
        None \<Rightarrow> []
      | Some m \<Rightarrow>
          map (\<lambda>e. (if meWildcard e then ''*.'' @ meHost e else meHost e) @ '':'' @ Itoa (mePort e))
            (entries m))"

section \<open>The allowlist probe (probe.go)\<close>

definition probeHost :: "string \<Rightarrow> string" where
  "probeHost entry =
     TrimPrefix
       (case LastIndexByte entry (CHR '':'') of None \<Rightarrow> entry | Some idx \<Rightarrow> take idx entry) ''*.''"

datatype probeError = ProbeParse allowlistError | Unresolvable "string list"

text \<open>\<open>lookup\<close> says whether the resolver knows the host; the failures are the entries it does not.\<close>

definition ProbeAllowlist ::
  "(string \<Rightarrow> string) \<Rightarrow> (string \<Rightarrow> bool) \<Rightarrow> string list \<Rightarrow> probeError option" where
  "ProbeAllowlist uni lookup allowlist =
     (case NewMatcher uni allowlist of
        Inl e \<Rightarrow> Some (ProbeParse e)
      | Inr m \<Rightarrow>
          let failures =
                filter (\<lambda>entry. probeHost entry \<noteq> [] \<and> \<not> lookup (probeHost entry)) (Entries (Some m))
          in if failures = [] then None else Some (Unresolvable failures))"

section \<open>The ClientHello parser (sni.go)\<close>

text \<open>
  What the parser returns: a name, the error \<open>errSNINotPresent\<close>, another error, or an
  index panic.
\<close>

datatype sniResult = SNI string | SNINotPresent | SNIError string | SNIPanic

function serverNameLoop :: "(string \<Rightarrow> string) \<Rightarrow> string \<Rightarrow> nat \<Rightarrow> sniResult" where
  "serverNameLoop uni names off =
     (if off + 3 \<le> length names then
        (case (readByte names off, readU16 names (off + 1)) of
           (Some nameType, Some nameLen) \<Rightarrow>
             if length names < off + 3 + nameLen then SNIError ''server_name entry overrun''
             else if nameType = 0 then
               (case readSlice names (off + 3) (off + 3 + nameLen) of
                  None \<Rightarrow> SNIPanic
                | Some n \<Rightarrow> SNI (ToLower uni (TrimSuffix n ''.'')))
             else serverNameLoop uni names (off + 3 + nameLen)
         | _ \<Rightarrow> SNIPanic)
      else SNINotPresent)"
  by pat_completeness auto
termination
  by (relation "measure (\<lambda>(_, names, off). length names - off)") auto

declare serverNameLoop.simps [simp del]

definition parseServerNameExtension :: "(string \<Rightarrow> string) \<Rightarrow> string \<Rightarrow> sniResult" where
  "parseServerNameExtension uni buf =
     (if length buf < 2 then SNIError ''server_name extension truncated''
      else case readU16 buf 0 of
             None \<Rightarrow> SNIPanic
           | Some listLen \<Rightarrow>
               if length buf < listLen + 2 then SNIError ''server_name list overrun''
               else case readSlice buf 2 (2 + listLen) of
                      None \<Rightarrow> SNIPanic
                    | Some names \<Rightarrow> serverNameLoop uni names 0)"

function extensionLoop :: "(string \<Rightarrow> string) \<Rightarrow> string \<Rightarrow> nat \<Rightarrow> nat \<Rightarrow> sniResult" where
  "extensionLoop uni body off end' =
     (if off + 4 \<le> end' then
        (case (readU16 body off, readU16 body (off + 2)) of
           (Some extType, Some extLen) \<Rightarrow>
             if end' < off + 4 + extLen then SNIError ''extension length overrun''
             else if extType = 0 then
               (case readSlice body (off + 4) (off + 4 + extLen) of
                  None \<Rightarrow> SNIPanic
                | Some buf \<Rightarrow> parseServerNameExtension uni buf)
             else extensionLoop uni body (off + 4 + extLen) end'
         | _ \<Rightarrow> SNIPanic)
      else SNINotPresent)"
  by pat_completeness auto
termination
  by (relation "measure (\<lambda>(_, _, off, end'). end' - off)") auto

declare extensionLoop.simps [simp del]

definition headerLen :: nat where
  "headerLen = 4 + 2 + 32"

definition parseExtensions :: "(string \<Rightarrow> string) \<Rightarrow> string \<Rightarrow> nat \<Rightarrow> sniResult" where
  "parseExtensions uni body off =
     (if length body < off + 2 then SNINotPresent
      else case readU16 body off of
             None \<Rightarrow> SNIPanic
           | Some extTotal \<Rightarrow>
               if length body < off + 2 + extTotal then SNIError ''ClientHello extensions truncated''
               else extensionLoop uni body (off + 2) (off + 2 + extTotal))"

definition parseCompression :: "(string \<Rightarrow> string) \<Rightarrow> string \<Rightarrow> nat \<Rightarrow> sniResult" where
  "parseCompression uni body off =
     (if length body < off + 1 then SNIError ''ClientHello compression_methods truncated''
      else case readByte body off of
             None \<Rightarrow> SNIPanic
           | Some cmLen \<Rightarrow>
               if length body < off + 1 + cmLen
               then SNIError ''ClientHello compression_methods overrun''
               else parseExtensions uni body (off + 1 + cmLen))"

definition parseCipherSuites :: "(string \<Rightarrow> string) \<Rightarrow> string \<Rightarrow> nat \<Rightarrow> sniResult" where
  "parseCipherSuites uni body off =
     (if length body < off + 2 then SNIError ''ClientHello cipher_suites truncated''
      else case readU16 body off of
             None \<Rightarrow> SNIPanic
           | Some csLen \<Rightarrow>
               if length body < off + 2 + csLen then SNIError ''ClientHello cipher_suites overrun''
               else parseCompression uni body (off + 2 + csLen))"

definition parseSNIFromHandshake :: "(string \<Rightarrow> string) \<Rightarrow> string \<Rightarrow> sniResult" where
  "parseSNIFromHandshake uni body =
     (if length body < 4 then SNIError ''ClientHello body too short''
      else case readByte body 0 of
             None \<Rightarrow> SNIPanic
           | Some msgType \<Rightarrow>
               if msgType \<noteq> 1 then SNIError ''handshake message is not a ClientHello''
               else if length body < headerLen then SNIError ''ClientHello header truncated''
               else if length body < headerLen + 1 then SNIError ''ClientHello session_id truncated''
               else case readByte body headerLen of
                      None \<Rightarrow> SNIPanic
                    | Some sidLen \<Rightarrow>
                        if length body < headerLen + 1 + sidLen
                        then SNIError ''ClientHello session_id overrun''
                        else parseCipherSuites uni body (headerLen + 1 + sidLen))"

text \<open>
  A reader is the bytes that arrive before the read deadline; \<open>io.ReadFull\<close> fails on fewer than it
  asks for.
\<close>

definition readFull :: "string \<Rightarrow> nat \<Rightarrow> (string \<times> string) option" where
  "readFull r n = (if n \<le> length r then Some (take n r, drop n r) else None)"

definition maxClientHello :: nat where
  "maxClientHello = 16384 + 256"

definition peekTLSClientHello :: "(string \<Rightarrow> string) \<Rightarrow> string \<Rightarrow> string \<times> sniResult" where
  "peekTLSClientHello uni r =
     (case readFull r 5 of
        None \<Rightarrow> ([], SNIError ''read'')
      | Some (header, r') \<Rightarrow>
          if readByte header 0 \<noteq> Some 0x16
          then ([], SNIError ''first TLS record is not a handshake'')
          else
            (case readU16 header 3 of
               None \<Rightarrow> ([], SNIPanic)
             | Some n \<Rightarrow>
                 if n \<le> 0 \<or> maxClientHello < n
                 then ([], SNIError ''ClientHello length out of range'')
                 else
                   (case readFull r' n of
                      None \<Rightarrow> ([], SNIError ''read'')
                    | Some (body, _) \<Rightarrow> (header @ body, parseSNIFromHandshake uni body))))"

section \<open>Header hygiene (proxy.go)\<close>

definition hopByHopHeaders :: "string list" where
  "hopByHopHeaders =
     [''Connection'', ''Proxy-Connection'', ''Keep-Alive'', ''Proxy-Authenticate'',
      ''Proxy-Authorization'', ''Te'', ''Trailer'', ''Transfer-Encoding'', ''Upgrade'']"

definition isBlank :: "char \<Rightarrow> bool" where
  "isBlank c = (c = CHR '' '' \<or> c = CHR 0x09)"

definition trimBlank :: "string \<Rightarrow> string" where
  "trimBlank tok = rev (dropWhile isBlank (rev (dropWhile isBlank tok)))"

function splitConnectionLoop :: "string \<Rightarrow> nat \<Rightarrow> nat \<Rightarrow> string list \<Rightarrow> string list" where
  "splitConnectionLoop v start i out =
     (if length v < i then out
      else if i = length v \<or> v ! i = CHR '','' then
        let tok = trimBlank (slice v start i) in
        splitConnectionLoop v (Suc i) (Suc i) (if tok \<noteq> [] then out @ [tok] else out)
      else splitConnectionLoop v start (Suc i) out)"
  by pat_completeness auto
termination
  by (relation "measure (\<lambda>(v, _, i, _). Suc (length v) - i)") auto

declare splitConnectionLoop.simps [simp del]

definition splitConnectionHeader :: "string \<Rightarrow> string list" where
  "splitConnectionHeader v = splitConnectionLoop v 0 0 []"

definition stripHopByHopHeaders :: "Header \<Rightarrow> Header" where
  "stripHopByHopHeaders h =
     (let conn = headerGet h ''Connection'';
          h = (if conn \<noteq> [] then foldl headerDel h (splitConnectionHeader conn) else h)
      in foldl headerDel h hopByHopHeaders)"

section \<open>Requests (proxy.go)\<close>

text \<open>The fields of \<open>*http.Request\<close> that the handlers read.\<close>

record proxyRequest =
  rqMethod :: string
  rqScheme :: string
  rqURLHost :: string
  rqHost :: string
  rqHeader :: Header

definition hostHeader :: "proxyRequest \<Rightarrow> string" where
  "hostHeader r = (if rqURLHost r \<noteq> [] then rqURLHost r else rqHost r)"

definition parseHostPort :: "(string \<Rightarrow> string) \<Rightarrow> string \<Rightarrow> (string \<times> int) option" where
  "parseHostPort uni hostPort =
     (if hostPort = [] then None
      else case SplitHostPort hostPort of
             None \<Rightarrow> Some (canonicaliseHost uni hostPort, 443)
           | Some (host, portStr) \<Rightarrow>
               (case Atoi portStr of
                  None \<Rightarrow> None
                | Some port \<Rightarrow> Some (canonicaliseHost uni host, port)))"

text \<open>The effects of a handler, in order.\<close>

datatype proxyEffect =
  Respond nat                                  \<comment> \<open>\<open>http.Error\<close> with this status\<close>
| Established                                  \<comment> \<open>the \<open>200 Connection Established\<close> line\<close>
| Blocked string int string string             \<comment> \<open>\<open>egress_blocked\<close>: host, port, reason, method\<close>
| Allowed string int string                    \<comment> \<open>\<open>egress_allowed\<close>: host, port, method\<close>
| Dial string                                  \<comment> \<open>a connection attempt to this address\<close>
| ToUpstream string                            \<comment> \<open>bytes written to the upstream connection\<close>
| Splice string                                \<comment> \<open>bytes of the client that \<open>splice\<close> relays\<close>
| Forward proxyRequest                         \<comment> \<open>a request sent upstream\<close>
| Reply nat Header string                      \<comment> \<open>the upstream's answer relayed to the client\<close>
| CloseClient                                  \<comment> \<open>the deferred close of the hijacked connection\<close>

text \<open>\<open>deny\<close>: status 0 stands for a hijacked connection. A nil \<open>security\<close> emitter is \<^const>\<open>False\<close>.\<close>

definition deny :: "bool \<Rightarrow> proxyRequest \<Rightarrow> string \<Rightarrow> int \<Rightarrow> string \<Rightarrow> nat \<Rightarrow> proxyEffect list" where
  "deny security r host port reason statusCode =
     (if statusCode \<noteq> 0 then [Respond statusCode] else [])
     @ (if security then [Blocked host port reason (rqMethod r)] else [])"

definition allow :: "bool \<Rightarrow> string \<Rightarrow> int \<Rightarrow> string \<Rightarrow> proxyEffect list" where
  "allow security host port meth = (if security then [Allowed host port meth] else [])"

text \<open>
  What the environment does to a CONNECT request. The client's bytes are those already in the hijacked
  buffer and those still on the connection; while it fills itself, the buffered reader may take
  \<open>ceReadAhead\<close> more bytes off the connection than the ClientHello needs.
\<close>

record connectEnv =
  ceHijacker :: bool
  ceHijackOk :: bool
  ceWriteOk :: bool
  ceDeadlineOk :: bool
  ceBuffered :: string
  ceConn :: string
  ceReadAhead :: nat
  ceDialOk :: "string \<Rightarrow> bool"
  ceHelloOk :: bool

definition clientStream :: "connectEnv \<Rightarrow> string" where
  "clientStream e = ceBuffered e @ ceConn e"

text \<open>\<open>splice\<close> reads the raw connection, from where the ClientHello's reader left it.\<close>

definition splicedBytes :: "connectEnv \<Rightarrow> string \<Rightarrow> string" where
  "splicedBytes e hello =
     drop (length hello - length (ceBuffered e) + (if ceBuffered e \<noteq> [] then ceReadAhead e else 0))
       (ceConn e)"

definition connectTunnel ::
  "(string \<Rightarrow> string) \<Rightarrow> bool \<Rightarrow> connectEnv \<Rightarrow> proxyRequest \<Rightarrow> string \<Rightarrow> int \<Rightarrow> proxyEffect list" where
  "connectTunnel uni security e r host port =
     (case peekTLSClientHello uni (clientStream e) of
        (rawHello, SNINotPresent) \<Rightarrow> deny security r host port ''sni_absent'' 0
      | (rawHello, SNIError _) \<Rightarrow> deny security r host port ''tls_parse_failed'' 0
      | (rawHello, SNIPanic) \<Rightarrow> []
      | (rawHello, SNI sni) \<Rightarrow>
          if canonicaliseHost uni sni \<noteq> canonicaliseHost uni host
          then deny security r host port ''sni_mismatch'' 0
          else
            let addr = JoinHostPort host (Itoa port) in
            [Dial addr]
            @ (if \<not> ceDialOk e addr then deny security r host port ''upstream_dial_failed'' 0
               else allow security host port ''CONNECT''
                    @ (if ceHelloOk e then [ToUpstream rawHello, Splice (splicedBytes e rawHello)]
                       else [])))"

definition handleConnect ::
  "(string \<Rightarrow> string) \<Rightarrow> Matcher option \<Rightarrow> bool \<Rightarrow> connectEnv \<Rightarrow> proxyRequest \<Rightarrow> proxyEffect list" where
  "handleConnect uni m security e r =
     (case parseHostPort uni (rqHost r) of
        None \<Rightarrow> deny security r [] 0 ''invalid_host'' 400
      | Some (host, port) \<Rightarrow>
          if \<not> Match uni m host port then deny security r host port ''not_allowlisted'' 403
          else if \<not> ceHijacker e then [Respond 500]
          else if \<not> ceHijackOk e then []
          else if \<not> ceWriteOk e then [CloseClient]
          else if \<not> ceDeadlineOk e then [Established, CloseClient]
          else [Established] @ connectTunnel uni security e r host port @ [CloseClient])"

text \<open>
  \<open>http.Transport\<close> dials the URL's host at its explicit port, or at the scheme's; a request without
  a host or with another scheme is an error (\<^const>\<open>None\<close>).
\<close>

definition validOptionalPort :: "string \<Rightarrow> bool" where
  "validOptionalPort p = (p = [] \<or> (HasPrefix p '':'' \<and> list_all isDigit (drop 1 p)))"

definition urlSplit :: "string \<Rightarrow> string \<times> string" where
  "urlSplit h =
     (let (host, port) =
            (case LastIndexByte h (CHR '':'') of
               None \<Rightarrow> (h, [])
             | Some i \<Rightarrow> if validOptionalPort (drop i h) then (take i h, drop (Suc i) h) else (h, []))
      in (if HasPrefix host ''['' \<and> HasSuffix host '']'' then slice host 1 (length host - 1) else host,
          port))"

definition transportAddr :: "(string \<Rightarrow> string) \<Rightarrow> proxyRequest \<Rightarrow> string option" where
  "transportAddr idna r =
     (let (host, port) = urlSplit (rqURLHost r) in
      if rqURLHost r = [] then None
      else if rqScheme r = ''http'' then
        Some (JoinHostPort (idna host) (if port = [] then ''80'' else port))
      else if rqScheme r = ''https'' then
        Some (JoinHostPort (idna host) (if port = [] then ''443'' else port))
      else None)"

text \<open>\<open>answer\<close> is what the upstream at an address returns to a request; \<^const>\<open>None\<close> is a failed round trip.\<close>

type_synonym answer = "string \<Rightarrow> proxyRequest \<Rightarrow> (nat \<times> Header \<times> string) option"

definition handleHTTP ::
  "(string \<Rightarrow> string) \<Rightarrow> (string \<Rightarrow> string) \<Rightarrow> Matcher option \<Rightarrow> bool \<Rightarrow> answer \<Rightarrow> proxyRequest
   \<Rightarrow> proxyEffect list" where
  "handleHTTP uni idna m security answer r =
     (case parseHostPort uni (hostHeader r) of
        None \<Rightarrow> deny security r [] 0 ''invalid_host'' 400
      | Some (host, port) \<Rightarrow>
          if \<not> Match uni m host port then deny security r host port ''not_allowlisted'' 403
          else
            let outReq = r\<lparr>rqHeader := stripHopByHopHeaders (rqHeader r)\<rparr> in
            (case transportAddr idna outReq of
               None \<Rightarrow> deny security r host port ''upstream_request_failed'' 502
             | Some addr \<Rightarrow>
                 [Dial addr, Forward outReq]
                 @ (case answer addr outReq of
                      None \<Rightarrow> deny security r host port ''upstream_request_failed'' 502
                    | Some (status, header, body) \<Rightarrow>
                        allow security host port (rqMethod r)
                        @ [Reply status (stripHopByHopHeaders header) body])))"

definition handle ::
  "(string \<Rightarrow> string) \<Rightarrow> (string \<Rightarrow> string) \<Rightarrow> Matcher option \<Rightarrow> bool \<Rightarrow> connectEnv \<Rightarrow> answer
   \<Rightarrow> proxyRequest \<Rightarrow> proxyEffect list" where
  "handle uni idna m security e answer r =
     (if rqMethod r = ''CONNECT'' then handleConnect uni m security e r
      else handleHTTP uni idna m security answer r)"

section \<open>Start and Stop (proxy.go)\<close>

record proxyConfig =
  pcAllowlist :: "string list"
  pcDialTimeout :: int
  pcReadTimeout :: int
  pcIdleTimeout :: int

record Proxy =
  pxMatcher :: "Matcher option"
  pxDialTimeout :: int
  pxReadTimeout :: int
  pxIdleTimeout :: int
  pxStopped :: bool
  pxStopErr :: "string option"
  pxShutdownCloses :: nat

text \<open>Durations are nanoseconds.\<close>

definition second :: int where "second = 1000000000"
definition defaultDialTimeout :: int where "defaultDialTimeout = 10 * second"
definition defaultReadTimeout :: int where "defaultReadTimeout = 60 * second"
definition defaultIdleTimeout :: int where "defaultIdleTimeout = 120 * second"

datatype startError = StartAllowlist allowlistError | StartListen

definition Start :: "(string \<Rightarrow> string) \<Rightarrow> bool \<Rightarrow> proxyConfig \<Rightarrow> startError + Proxy" where
  "Start uni listenOk cfg =
     (case NewMatcher uni (pcAllowlist cfg) of
        Inl e \<Rightarrow> Inl (StartAllowlist e)
      | Inr m \<Rightarrow>
          if \<not> listenOk then Inl StartListen
          else Inr \<lparr>
            pxMatcher = Some m,
            pxDialTimeout = (if pcDialTimeout cfg \<le> 0 then defaultDialTimeout else pcDialTimeout cfg),
            pxReadTimeout = (if pcReadTimeout cfg \<le> 0 then defaultReadTimeout else pcReadTimeout cfg),
            pxIdleTimeout = (if pcIdleTimeout cfg \<le> 0 then defaultIdleTimeout else pcIdleTimeout cfg),
            pxStopped = False, pxStopErr = None, pxShutdownCloses = 0\<rparr>)"

text \<open>
  \<open>Stop\<close> in its two critical sections: the first returns at once when the proxy is stopped, and
  otherwise claims the stop and closes the shutdown channel; the second stores what
  \<open>server.Shutdown\<close>, which runs between them without the lock, returned.
\<close>

datatype stopEntry = StopReturns "string option" | StopShutsDown

definition stopEnter :: "Proxy \<Rightarrow> Proxy \<times> stopEntry" where
  "stopEnter p =
     (if pxStopped p then (p, StopReturns (pxStopErr p))
      else (p\<lparr>pxStopped := True, pxShutdownCloses := Suc (pxShutdownCloses p)\<rparr>, StopShutsDown))"

definition stopFinish :: "string option \<Rightarrow> Proxy \<Rightarrow> Proxy" where
  "stopFinish err p = p\<lparr>pxStopErr := err\<rparr>"

text \<open>Any interleaving of the critical sections of any number of callers.\<close>

datatype stopSection = EnterStop | FinishStop "string option"

fun stopSections :: "stopSection list \<Rightarrow> Proxy \<Rightarrow> Proxy" where
  "stopSections [] p = p"
| "stopSections (EnterStop # ss) p = stopSections ss (fst (stopEnter p))"
| "stopSections (FinishStop err # ss) p = stopSections ss (stopFinish err p)"

section \<open>What the allowlist admits\<close>

lemma matcherLoop_spec:
  "matcherLoop uni al acc = Inr es \<longleftrightarrow>
     (\<forall>raw \<in> set al. \<exists>o'. parseAllowlistEntry uni raw = Inr o') \<and>
     es = acc @ concat (map (\<lambda>raw. case parseAllowlistEntry uni raw of Inr (Some e) \<Rightarrow> [e] | _ \<Rightarrow> []) al)"
  by (induction al arbitrary: acc) (auto split: sum.splits option.splits)

lemma matcher_entries:
  assumes "NewMatcher uni al = Inr m"
  shows "e \<in> set (entries m) \<longleftrightarrow> (\<exists>raw \<in> set al. parseAllowlistEntry uni raw = Inr (Some e))"
proof -
  have "entries m = concat (map (\<lambda>raw. case parseAllowlistEntry uni raw of Inr (Some e) \<Rightarrow> [e] | _ \<Rightarrow> []) al)"
    using assms matcherLoop_spec [of uni al "[]" "entries m"]
    by (auto simp: NewMatcher_def simp del: matcherLoop.simps split: sum.splits)
  then show ?thesis
    by (auto split: sum.splits option.splits) (metis list.set_intros(1) option.simps(5) sum.case(2))
qed

lemma parsed_entry_ok:
  assumes "parseAllowlistEntry uni raw = Inr (Some e)"
  shows "meHost e \<noteq> [] \<and> 0 < mePort e \<and> mePort e \<le> 65535"
  using assms
  by (auto simp: parseAllowlistEntry_def defaultAllowPort_def Let_def split: if_splits option.splits prod.splits)

lemma entryMatches_spec:
  "entryMatches c port e \<longleftrightarrow>
     mePort e = port \<and>
     (if meWildcard e then \<exists>l. l \<noteq> [] \<and> c = l @ ''.'' @ meHost e else c = meHost e)"
  by (auto simp: entryMatches_def Let_def HasSuffix_iff)

lemma Match_spec:
  "Match uni (Some m) host port \<longleftrightarrow>
     canonicaliseHost uni host \<noteq> [] \<and> (\<exists>e \<in> set (entries m). entryMatches (canonicaliseHost uni host) port e)"
  by (simp add: Match_def Let_def list_ex_iff)

section \<open>The parser stays in bounds\<close>

named_theorems in_bounds \<open>the ClientHello readers do not panic\<close>

lemma serverNameLoop_in_bounds [in_bounds]: "serverNameLoop uni names off \<noteq> SNIPanic"
proof (induction uni names off rule: serverNameLoop.induct)
  case (1 uni names off)
  then show ?case
    by (subst serverNameLoop.simps) (auto simp: readByte_def readU16_def readSlice_def)
qed

lemma parseServerNameExtension_in_bounds [in_bounds]: "parseServerNameExtension uni buf \<noteq> SNIPanic"
  by (auto simp: parseServerNameExtension_def readU16_def readSlice_def in_bounds)

lemma extensionLoop_in_bounds [in_bounds]:
  "end' \<le> length body \<Longrightarrow> extensionLoop uni body off end' \<noteq> SNIPanic"
proof (induction uni body off end' rule: extensionLoop.induct)
  case (1 uni body off end')
  then show ?case
    by (subst extensionLoop.simps) (auto simp: readU16_def readSlice_def in_bounds)
qed

lemma parseExtensions_in_bounds [in_bounds]: "parseExtensions uni body off \<noteq> SNIPanic"
  by (auto simp: parseExtensions_def readU16_def in_bounds)

lemma parseCompression_in_bounds [in_bounds]: "parseCompression uni body off \<noteq> SNIPanic"
  by (auto simp: parseCompression_def readByte_def in_bounds)

lemma parseCipherSuites_in_bounds [in_bounds]: "parseCipherSuites uni body off \<noteq> SNIPanic"
  by (auto simp: parseCipherSuites_def readU16_def in_bounds)

lemma parseSNIFromHandshake_in_bounds [in_bounds]: "parseSNIFromHandshake uni body \<noteq> SNIPanic"
  by (auto simp: parseSNIFromHandshake_def readByte_def headerLen_def in_bounds)

lemma peek_cases:
  assumes "peekTLSClientHello uni r = (raw, res)"
  shows "res \<noteq> SNIPanic \<and> length raw \<le> 5 + maxClientHello \<and>
         (\<forall>sni. res = SNI sni \<longrightarrow> raw = take (length raw) r \<and> 5 < length raw
            \<and> parseSNIFromHandshake uni (drop 5 raw) = SNI sni)"
  using assms in_bounds
  by (auto simp: peekTLSClientHello_def readFull_def readU16_def split: if_splits)
     (auto simp: take_add)

section \<open>A reference encoder of the ClientHello\<close>

text \<open>
  The wire format of RFC 5246, section 7.4.1.2, and RFC 6066, section 3, from the sender's side, and
  the name a ClientHello carries: the first host name of its first \<open>server_name\<close> extension.
\<close>

definition encodeName :: "nat \<times> string \<Rightarrow> string" where
  "encodeName tn = char_of (fst tn) # u16 (length (snd tn)) @ snd tn"

definition encodeExtension :: "nat \<times> string \<Rightarrow> string" where
  "encodeExtension td = u16 (fst td) @ u16 (length (snd td)) @ snd td"

definition serverNameExtension :: "(nat \<times> string) list \<Rightarrow> string" where
  "serverNameExtension names =
     u16 (length (concat (map encodeName names))) @ concat (map encodeName names)"

record ClientHello =
  chHead :: string
  chSession :: string
  chCiphers :: string
  chCompression :: string
  chExtensions :: "(nat \<times> string) list"

definition encodeHello :: "ClientHello \<Rightarrow> string" where
  "encodeHello h =
     (char_of (1 :: nat) # chHead h) @ (char_of (length (chSession h)) # chSession h
      @ u16 (length (chCiphers h)) @ chCiphers h
      @ char_of (length (chCompression h)) # chCompression h
      @ u16 (length (concat (map encodeExtension (chExtensions h))))
      @ concat (map encodeExtension (chExtensions h)))"

definition helloOk :: "ClientHello \<Rightarrow> bool" where
  "helloOk h =
     (length (chHead h) = 37 \<and> length (chSession h) < 256 \<and> length (chCiphers h) < 65536
      \<and> length (chCompression h) < 256
      \<and> length (concat (map encodeExtension (chExtensions h))) < 65536
      \<and> list_all (\<lambda>td. fst td < 65536) (chExtensions h))"

definition namesOk :: "(nat \<times> string) list \<Rightarrow> bool" where
  "namesOk names =
     (list_all (\<lambda>tn. fst tn < 256) names \<and> length (concat (map encodeName names)) < 65536)"

fun firstName :: "(string \<Rightarrow> string) \<Rightarrow> (nat \<times> string) list \<Rightarrow> sniResult" where
  "firstName uni [] = SNINotPresent"
| "firstName uni ((t, n) # names) =
     (if t = 0 then SNI (ToLower uni (TrimSuffix n ''.'')) else firstName uni names)"

fun firstServerName :: "(string \<Rightarrow> string) \<Rightarrow> (nat \<times> string) list \<Rightarrow> sniResult" where
  "firstServerName uni [] = SNINotPresent"
| "firstServerName uni ((t, d) # exts) =
     (if t = 0 then parseServerNameExtension uni d else firstServerName uni exts)"

lemma length_encodeName [simp]: "length (encodeName tn) = 3 + length (snd tn)"
  by (simp add: encodeName_def)

lemma length_encodeExtension [simp]: "length (encodeExtension td) = 4 + length (snd td)"
  by (simp add: encodeExtension_def)

lemma serverNameLoop_reads:
  assumes "list_all (\<lambda>tn. fst tn < 256) names" "length (concat (map encodeName names)) < 65536"
  shows "serverNameLoop uni (p @ concat (map encodeName names)) (length p) = firstName uni names"
  using assms
proof (induction names arbitrary: p)
  case Nil
  then show ?case by (subst serverNameLoop.simps) simp
next
  case (Cons tn names)
  obtain t n where tn: "tn = (t, n)" by (cases tn)
  let ?s = "concat (map encodeName names)" and ?b = "p @ concat (map encodeName (tn # names))"
  have b: "?b = p @ char_of t # (u16 (length n) @ n @ ?s)"
    by (simp add: tn encodeName_def)
  have t: "t < 256" and n: "length n < 65536"
    using Cons.prems by (simp_all add: tn)
  have "readByte ?b (length p) = Some t"
    unfolding b using t by (subst readByte_at) (simp_all)
  moreover have "readU16 ?b (length p + 1) = Some (length n)"
    unfolding b using readU16_at [of "p @ [char_of t]" "length p + 1" "length n" "n @ ?s"] n by simp
  moreover have "readSlice ?b (length p + 3) (length p + 3 + length n) = Some n"
    unfolding b using readSlice_at [of "p @ char_of t # u16 (length n)" "length p + 3" _ n ?s] by simp
  moreover have "serverNameLoop uni ?b (length p + 3 + length n) = firstName uni names"
    using Cons.IH [of "p @ encodeName tn"] Cons.prems by (simp add: tn add.commute add.left_commute)
  moreover have "length ?b = length p + 3 + length n + length ?s"
    by (simp add: tn)
  ultimately show ?case
    unfolding tn by (subst serverNameLoop.simps) (cases "t = 0"; simp del: append_assoc list.map concat.simps)
qed

lemma parseServerNameExtension_reads:
  assumes "namesOk names"
  shows "parseServerNameExtension uni (serverNameExtension names) = firstName uni names"
proof -
  let ?l = "concat (map encodeName names)"
  have "length ?l < 65536" "list_all (\<lambda>tn. fst tn < 256) names"
    using assms by (simp_all add: namesOk_def)
  moreover from this have "readU16 (u16 (length ?l) @ ?l) 0 = Some (length ?l)"
    by (intro readU16_prefix)
  moreover have "readSlice (u16 (length ?l) @ ?l) 2 (2 + length ?l) = Some ?l"
    using readSlice_at [of "u16 (length ?l)" 2 _ ?l "[]"] by simp
  ultimately show ?thesis
    using serverNameLoop_reads [of names uni "[]"]
    by (simp add: parseServerNameExtension_def serverNameExtension_def)
qed

lemma extensionLoop_reads:
  assumes "list_all (\<lambda>td. fst td < 65536) exts" "length (concat (map encodeExtension exts)) < 65536"
  shows "extensionLoop uni (p @ concat (map encodeExtension exts)) (length p)
           (length p + length (concat (map encodeExtension exts))) = firstServerName uni exts"
  using assms
proof (induction exts arbitrary: p)
  case Nil
  then show ?case by (subst extensionLoop.simps) simp
next
  case (Cons td exts)
  obtain t d where td: "td = (t, d)" by (cases td)
  let ?s = "concat (map encodeExtension exts)" and ?b = "p @ concat (map encodeExtension (td # exts))"
  let ?e = "length p + (4 + length d + length ?s)"
  have b: "?b = p @ u16 t @ u16 (length d) @ d @ ?s"
    by (simp add: td encodeExtension_def)
  have t: "t < 65536" and d: "length d < 65536"
    using Cons.prems by (simp_all add: td)
  have "readU16 ?b (length p) = Some t"
    unfolding b using t by (simp add: readU16_at)
  moreover have "readU16 ?b (length p + 2) = Some (length d)"
    unfolding b using readU16_at [of "p @ u16 t" "length p + 2" "length d" "d @ ?s"] d by simp
  moreover have "readSlice ?b (length p + 4) (length p + 4 + length d) = Some d"
    unfolding b using readSlice_at [of "p @ u16 t @ u16 (length d)" "length p + 4" _ d ?s] by simp
  moreover have "extensionLoop uni ?b (length p + 4 + length d) ?e = firstServerName uni exts"
    using Cons.IH [of "p @ encodeExtension td"] Cons.prems
    by (simp add: td add.commute add.left_commute)
  moreover have "length p + length (concat (map encodeExtension (td # exts))) = ?e"
    by (simp add: td)
  ultimately show ?case
    unfolding td by (subst extensionLoop.simps) (cases "t = 0"; simp del: append_assoc list.map concat.simps)
qed

lemma parseExtensions_reads:
  assumes "list_all (\<lambda>td. fst td < 65536) exts" "length (concat (map encodeExtension exts)) < 65536"
    and "length p = off"
  shows "parseExtensions uni
           (p @ u16 (length (concat (map encodeExtension exts))) @ concat (map encodeExtension exts)) off
         = firstServerName uni exts"
proof -
  let ?x = "concat (map encodeExtension exts)"
  have "readU16 (p @ u16 (length ?x) @ ?x) off = Some (length ?x)"
    using assms by (intro readU16_at)
  moreover have "extensionLoop uni (p @ u16 (length ?x) @ ?x) (off + 2) (off + 2 + length ?x)
                 = firstServerName uni exts"
    using extensionLoop_reads [OF assms(1,2), of uni "p @ u16 (length ?x)"] assms(3) by simp
  ultimately show ?thesis
    using assms(3) by (simp add: parseExtensions_def)
qed

lemma parseCompression_reads:
  assumes "length p = off" "length c < 256"
  shows "parseCompression uni (p @ char_of (length c) # c @ s) off
         = parseExtensions uni ((p @ char_of (length c) # c) @ s) (off + 1 + length c)"
proof -
  have "readByte (p @ char_of (length c) # c @ s) off = Some (length c)"
    using assms by (simp add: readByte_at)
  then show ?thesis
    using assms by (simp add: parseCompression_def)
qed

lemma parseCipherSuites_reads:
  assumes "length p = off" "length c < 65536"
  shows "parseCipherSuites uni (p @ u16 (length c) @ c @ s) off
         = parseCompression uni ((p @ u16 (length c) @ c) @ s) (off + 2 + length c)"
proof -
  have "readU16 (p @ u16 (length c) @ c @ s) off = Some (length c)"
    using assms by (simp add: readU16_at)
  then show ?thesis
    using assms by (simp add: parseCipherSuites_def)
qed

lemma parseHandshake_reads:
  assumes "length p = 37" "length sess < 256"
  shows "parseSNIFromHandshake uni ((char_of (1 :: nat) # p) @ char_of (length sess) # sess @ s)
         = parseCipherSuites uni (((char_of (1 :: nat) # p) @ char_of (length sess) # sess) @ s)
             (39 + length sess)"
proof -
  let ?b = "(char_of (1 :: nat) # p) @ char_of (length sess) # sess @ s"
  have "readByte ?b 0 = Some 1"
    by (simp add: readByte_def)
  moreover have "readByte ?b 38 = Some (length sess)"
    using assms by (subst readByte_at) simp_all
  ultimately show ?thesis
    using assms by (simp add: parseSNIFromHandshake_def headerLen_def)
qed

lemma parseHello_reads:
  assumes "helloOk h"
  shows "parseSNIFromHandshake uni (encodeHello h) = firstServerName uni (chExtensions h)"
proof -
  let ?p1 = "(char_of (1 :: nat) # chHead h) @ char_of (length (chSession h)) # chSession h"
  let ?p2 = "?p1 @ u16 (length (chCiphers h)) @ chCiphers h"
  let ?p3 = "?p2 @ char_of (length (chCompression h)) # chCompression h"
  let ?o1 = "39 + length (chSession h)"
  let ?o2 = "?o1 + 2 + length (chCiphers h)"
  let ?x = "concat (map encodeExtension (chExtensions h))"
  have "parseSNIFromHandshake uni (encodeHello h)
        = parseCipherSuites uni (?p1 @ u16 (length (chCiphers h)) @ chCiphers h
            @ char_of (length (chCompression h)) # chCompression h @ u16 (length ?x) @ ?x) ?o1"
    unfolding encodeHello_def using assms by (subst parseHandshake_reads) (simp_all add: helloOk_def)
  also have "\<dots> = parseCompression uni (?p2 @ char_of (length (chCompression h)) # chCompression h
            @ u16 (length ?x) @ ?x) ?o2"
    using assms by (subst parseCipherSuites_reads) (simp_all add: helloOk_def)
  also have "\<dots> = parseExtensions uni (?p3 @ u16 (length ?x) @ ?x)
                  (?o2 + 1 + length (chCompression h))"
    using assms by (subst parseCompression_reads) (simp_all add: helloOk_def)
  also have "\<dots> = firstServerName uni (chExtensions h)"
    using assms by (intro parseExtensions_reads) (simp_all add: helloOk_def)
  finally show ?thesis .
qed

lemma firstServerName_skip:
  "list_all (\<lambda>td. fst td \<noteq> 0) pre \<Longrightarrow> firstServerName uni (pre @ (0, d) # post) = parseServerNameExtension uni d"
  by (induction uni pre rule: firstServerName.induct) auto

lemma firstName_skip:
  "list_all (\<lambda>tn. fst tn \<noteq> 0) pre \<Longrightarrow>
     firstName uni (pre @ (0, n) # post) = SNI (ToLower uni (TrimSuffix n ''.''))"
  by (induction uni pre rule: firstName.induct) auto

text \<open>
  C32: the SNI parser reads back what a ClientHello says. For every ClientHello whose vectors fit
  their length fields, whatever its random, session id, cipher suites, compression methods and other
  extensions, \<open>parseSNIFromHandshake\<close> returns the first host name of its first \<open>server_name\<close>
  extension, lower-cased and without its trailing dot.
\<close>

theorem sni_roundtrip:
  assumes "helloOk h" "namesOk names"
    and "chExtensions h = pre @ (0, serverNameExtension names) # post" "list_all (\<lambda>td. fst td \<noteq> 0) pre"
    and "names = npre @ (0, host) # npost" "list_all (\<lambda>tn. fst tn \<noteq> 0) npre"
  shows "parseSNIFromHandshake uni (encodeHello h) = SNI (ToLower uni (TrimSuffix host ''.''))"
proof -
  have "parseSNIFromHandshake uni (encodeHello h) = parseServerNameExtension uni (serverNameExtension names)"
    using parseHello_reads [OF assms(1)] by (simp add: assms(3) firstServerName_skip [OF assms(4)])
  then show ?thesis
    using parseServerNameExtension_reads [OF assms(2)] firstName_skip [OF assms(6)]
    by (simp add: assms(5))
qed

definition sampleHello :: ClientHello where
  "sampleHello =
     \<lparr>chHead = replicate 37 CHR 0x00, chSession = [], chCiphers = [CHR 0x13, CHR 0x01],
      chCompression = [CHR 0x00],
      chExtensions = [(43, [CHR 0x02, CHR 0x03, CHR 0x04]), (0, serverNameExtension [(0, ''API.example.com.'')])]\<rparr>"

theorem sni_roundtrip_witness:
  "parseSNIFromHandshake id (encodeHello sampleHello) = SNI ''api.example.com''"
proof -
  have 1: "helloOk sampleHello" "namesOk [(0, ''API.example.com.'')]"
    by (simp_all add: helloOk_def namesOk_def sampleHello_def serverNameExtension_def)
  have 2: "ToLower id (TrimSuffix ''API.example.com.'' ''.'') = ''api.example.com''"
    by code_simp
  show ?thesis
    using sni_roundtrip [OF 1, of "[(43, [CHR 0x02, CHR 0x03, CHR 0x04])]" "[]" "[]" "''API.example.com.''" "[]" id] 2
    by (simp add: sampleHello_def)
qed

text \<open>
  C34: the allowlist admits exactly what its rows say. A matcher built from an allowlist admits a host
  and port if and only if the canonical host is not empty and some row of the list has that port and
  is either that host or, for a wildcard row, a proper suffix of it after at least one more label; so
  \<open>*.example.com\<close> never admits \<open>example.com\<close>. Every row has a host and a port between 1 and 65535.
\<close>

theorem allowlist_match:
  assumes "NewMatcher uni al = Inr m"
  shows "(Match uni (Some m) host port \<longleftrightarrow>
            canonicaliseHost uni host \<noteq> [] \<and>
            (\<exists>raw \<in> set al. \<exists>e. parseAllowlistEntry uni raw = Inr (Some e) \<and> mePort e = port \<and>
               (if meWildcard e then \<exists>l. l \<noteq> [] \<and> canonicaliseHost uni host = l @ ''.'' @ meHost e
                else canonicaliseHost uni host = meHost e)))
         \<and> (\<forall>e \<in> set (entries m). meHost e \<noteq> [] \<and> 0 < mePort e \<and> mePort e \<le> 65535)"
proof
  show "Match uni (Some m) host port \<longleftrightarrow>
            canonicaliseHost uni host \<noteq> [] \<and>
            (\<exists>raw \<in> set al. \<exists>e. parseAllowlistEntry uni raw = Inr (Some e) \<and> mePort e = port \<and>
               (if meWildcard e then \<exists>l. l \<noteq> [] \<and> canonicaliseHost uni host = l @ ''.'' @ meHost e
                else canonicaliseHost uni host = meHost e))"
    unfolding Match_spec entryMatches_spec Bex_def matcher_entries [OF assms] by blast
  show "\<forall>e \<in> set (entries m). meHost e \<noteq> [] \<and> 0 < mePort e \<and> mePort e \<le> 65535"
    using matcher_entries [OF assms] parsed_entry_ok by blast
qed

theorem allowlist_match_witness:
  "\<exists>m. NewMatcher id [''*.example.com'', '' registry.npmjs.org:8080 ''] = Inr m
     \<and> Match id (Some m) ''A.b.example.com.'' 443 \<and> \<not> Match id (Some m) ''example.com'' 443
     \<and> Match id (Some m) ''registry.npmjs.org'' 8080"
proof -
  let ?al = "[''*.example.com'', '' registry.npmjs.org:8080 '']"
  let ?e = "\<lparr>meHost = ''example.com'', meWildcard = True, mePort = 443\<rparr>"
  let ?f = "\<lparr>meHost = ''registry.npmjs.org'', meWildcard = False, mePort = 8080\<rparr>"
  let ?m = "\<lparr>entries = [?e, ?f]\<rparr>"
  have e: "parseAllowlistEntry id (?al ! 0) = Inr (Some ?e)" by code_simp
  have f: "parseAllowlistEntry id (?al ! 1) = Inr (Some ?f)" by code_simp
  have m: "NewMatcher id ?al = Inr ?m"
    using e f by (simp add: NewMatcher_def)
  have c: "canonicaliseHost id ''A.b.example.com.'' = ''A.b'' @ ''.'' @ ''example.com''
           \<or> canonicaliseHost id ''A.b.example.com.'' = ''a.b'' @ ''.'' @ ''example.com''"
    "canonicaliseHost id ''A.b.example.com.'' \<noteq> []"
    "canonicaliseHost id ''example.com'' = ''example.com''"
    "canonicaliseHost id ''registry.npmjs.org'' = ''registry.npmjs.org''"
    by code_simp+
  have "Match id (Some ?m) ''A.b.example.com.'' 443"
    using allowlist_match [OF m, of "''A.b.example.com.''" 443] c e by force
  moreover have "\<not> Match id (Some ?m) ''example.com'' 443"
    using allowlist_match [OF m, of "''example.com''" 443] c e f by auto
  moreover have "Match id (Some ?m) ''registry.npmjs.org'' 8080"
    using allowlist_match [OF m, of "''registry.npmjs.org''" 8080] c f by force
  ultimately show ?thesis
    using m by blast
qed

section \<open>What reaches the network\<close>

fun touchesUpstream :: "proxyEffect \<Rightarrow> bool" where
  "touchesUpstream (Dial _) = True"
| "touchesUpstream (ToUpstream _) = True"
| "touchesUpstream (Splice _) = True"
| "touchesUpstream (Forward _) = True"
| "touchesUpstream _ = False"

fun isAudit :: "proxyEffect \<Rightarrow> bool" where
  "isAudit (Blocked _ _ _ _) = True"
| "isAudit (Allowed _ _ _) = True"
| "isAudit _ = False"

lemma deny_quiet [simp]: "filter touchesUpstream (deny sec r host port reason st) = []"
  by (simp add: deny_def)

lemma allow_quiet [simp]: "filter touchesUpstream (allow sec host port meth) = []"
  by (simp add: allow_def)

lemma connectTunnel_upstream:
  assumes "filter touchesUpstream (connectTunnel uni sec e r host port) \<noteq> []"
  obtains hello sni where
    "peekTLSClientHello uni (clientStream e) = (hello, SNI sni)"
    "canonicaliseHost uni sni = canonicaliseHost uni host"
    "filter touchesUpstream (connectTunnel uni sec e r host port)
       = Dial (JoinHostPort host (Itoa port)) #
         (if ceDialOk e (JoinHostPort host (Itoa port)) \<and> ceHelloOk e
          then [ToUpstream hello, Splice (splicedBytes e hello)] else [])"
  using assms that
  by (auto simp: connectTunnel_def Let_def split: sniResult.splits prod.splits if_splits)

lemma handleConnect_upstream:
  assumes "filter touchesUpstream (handleConnect uni m sec e r) \<noteq> []"
  obtains host port where "parseHostPort uni (rqHost r) = Some (host, port)" "Match uni m host port"
    "filter touchesUpstream (handleConnect uni m sec e r)
       = filter touchesUpstream (connectTunnel uni sec e r host port)"
  using assms that by (auto simp: handleConnect_def split: option.splits prod.splits if_splits)

text \<open>
  C31: a CONNECT request reaches the network only for an allowlisted destination that the client's own
  TLS handshake names. If the handler opens a connection or sends a byte upstream, then the request's
  host and port parse and are on the allowlist, the first bytes of the client are a ClientHello record
  of bounded length whose server name is that host, the only address dialled is that host and port, and
  the first bytes sent are that record unchanged; otherwise nothing is dialled at all.
\<close>

theorem connect_gated:
  assumes "filter touchesUpstream (handleConnect uni m sec e r) \<noteq> []"
  shows "\<exists>host port hello sni.
           parseHostPort uni (rqHost r) = Some (host, port) \<and> Match uni m host port
           \<and> hello = take (length hello) (clientStream e) \<and> length hello \<le> 5 + maxClientHello
           \<and> parseSNIFromHandshake uni (drop 5 hello) = SNI sni
           \<and> canonicaliseHost uni sni = canonicaliseHost uni host
           \<and> filter touchesUpstream (handleConnect uni m sec e r)
               = Dial (JoinHostPort host (Itoa port)) #
                 (if ceDialOk e (JoinHostPort host (Itoa port)) \<and> ceHelloOk e
                  then [ToUpstream hello, Splice (splicedBytes e hello)] else [])"
proof -
  obtain host port where hp: "parseHostPort uni (rqHost r) = Some (host, port)" "Match uni m host port"
    and eq: "filter touchesUpstream (handleConnect uni m sec e r)
             = filter touchesUpstream (connectTunnel uni sec e r host port)"
    using handleConnect_upstream [OF assms] by metis
  obtain hello sni where sni: "peekTLSClientHello uni (clientStream e) = (hello, SNI sni)"
    "canonicaliseHost uni sni = canonicaliseHost uni host"
    "filter touchesUpstream (connectTunnel uni sec e r host port)
       = Dial (JoinHostPort host (Itoa port)) #
         (if ceDialOk e (JoinHostPort host (Itoa port)) \<and> ceHelloOk e
          then [ToUpstream hello, Splice (splicedBytes e hello)] else [])"
    using connectTunnel_upstream assms unfolding eq by metis
  show ?thesis
    using hp sni peek_cases [OF sni(1)] unfolding eq by blast
qed

text \<open>A client that waits for the 200, as HTTP requires, has every byte it sends relayed in order.\<close>

lemma connect_relays_stream:
  assumes "peekTLSClientHello uni (clientStream e) = (hello, SNI sni)" "ceBuffered e = []"
  shows "hello @ splicedBytes e hello = clientStream e"
  using peek_cases [OF assms(1)] assms(2)
  by (simp add: splicedBytes_def clientStream_def) (metis append_take_drop_id)

section \<open>Forwarded headers\<close>

lemma Split_no_sep: "c \<notin> set s \<Longrightarrow> Split s c = [s]"
  by (induction s) auto

lemma Split_first: "c \<notin> set s \<Longrightarrow> Split (s @ c # t) c = s # Split t c"
  by (induction s) auto

definition connectionTokens :: "string \<Rightarrow> string list" where
  "connectionTokens v = filter (\<lambda>t. t \<noteq> []) (map trimBlank (Split v (CHR '','')))"

lemma splitConnectionLoop_spec:
  assumes "start \<le> i" "i \<le> length v" "CHR '','' \<notin> set (slice v start i)"
  shows "splitConnectionLoop v start i out = out @ connectionTokens (drop start v)"
  using assms
proof (induction v start i out rule: splitConnectionLoop.induct)
  case (1 v start i out)
  consider (stop) "i = length v" | (comma) "i < length v" "v ! i = CHR '',''"
    | (other) "i < length v" "v ! i \<noteq> CHR '',''"
    using "1.prems" by linarith
  then show ?case
  proof cases
    case stop
    then have "slice v start i = drop start v"
      by (simp add: slice_def)
    then show ?thesis
      using stop "1.prems"
      by (subst splitConnectionLoop.simps, subst splitConnectionLoop.simps)
        (simp add: Let_def connectionTokens_def Split_no_sep)
  next
    case comma
    have d: "drop start v = slice v start i @ CHR '','' # drop (Suc i) v"
      using comma "1.prems" Cons_nth_drop_Suc slice_drop by metis
    have "splitConnectionLoop v (Suc i) (Suc i) out' = out' @ connectionTokens (drop (Suc i) v)"
      if "out' = (if trimBlank (slice v start i) \<noteq> [] then out @ [trimBlank (slice v start i)] else out)" for out'
      using "1.IH"(1) comma that by simp
    then show ?thesis
      using comma "1.prems"
      by (subst splitConnectionLoop.simps) (simp add: Let_def connectionTokens_def d Split_first)
  next
    case other
    then have "CHR '','' \<notin> set (slice v start (Suc i))"
      using "1.prems" by (auto simp: slice_Suc)
    then show ?thesis
      using "1.IH"(2) other "1.prems" by (subst splitConnectionLoop.simps) simp
  qed
qed

lemma splitConnectionHeader_eq: "splitConnectionHeader v = connectionTokens v"
  using splitConnectionLoop_spec [of 0 0 v "[]"] by (simp add: splitConnectionHeader_def)

lemma stripHopByHopHeaders_spec:
  "stripHopByHopHeaders h k =
     (if k \<in> CanonicalHeaderKey ` set (hopByHopHeaders @ connectionTokens (headerGet h ''Connection''))
      then None else h k)"
proof (cases "headerGet h ''Connection'' = []")
  case True
  have "connectionTokens [] = []"
    by (simp add: connectionTokens_def trimBlank_def)
  then show ?thesis
    using True by (simp add: stripHopByHopHeaders_def fold_headerDel)
next
  case False
  then show ?thesis
    by (simp add: stripHopByHopHeaders_def fold_headerDel splitConnectionHeader_eq Let_def image_Un)
qed

lemma hopByHop_canonical: "CanonicalHeaderKey ` set hopByHopHeaders = set hopByHopHeaders"
  by code_simp

lemma handleHTTP_upstream:
  assumes "eff \<in> set (handleHTTP uni idna m sec answer r)" "touchesUpstream eff"
  shows "\<exists>host port out addr. parseHostPort uni (hostHeader r) = Some (host, port) \<and> Match uni m host port
           \<and> out = r\<lparr>rqHeader := stripHopByHopHeaders (rqHeader r)\<rparr> \<and> transportAddr idna out = Some addr
           \<and> (eff = Dial addr \<or> eff = Forward out)"
  using assms
  by (auto simp: handleHTTP_def deny_def allow_def Let_def split: option.splits prod.splits if_splits)

lemma peek_reads:
  assumes "length v = 2" "0 < length body" "length body \<le> maxClientHello"
  shows "peekTLSClientHello uni (CHR 0x16 # v @ u16 (length body) @ body @ rest)
         = (CHR 0x16 # v @ u16 (length body) @ body, parseSNIFromHandshake uni body)"
proof -
  let ?h = "CHR 0x16 # v @ u16 (length body)"
  have "readU16 ?h 3 = Some (length body)"
    using assms readU16_at [of "CHR 0x16 # v" 3 "length body" "[]"] by (simp add: maxClientHello_def)
  moreover have "readFull (?h @ body @ rest) 5 = Some (?h, body @ rest)"
    using assms(1) by (simp add: readFull_def)
  moreover have "readByte ?h 0 = Some 0x16"
    by (simp add: readByte_def)
  moreover have "readFull (body @ rest) (length body) = Some (body, rest)"
    by (simp add: readFull_def)
  ultimately show ?thesis
    using assms by (simp add: peekTLSClientHello_def)
qed

definition sampleRecord :: string where
  "sampleRecord = CHR 0x16 # [CHR 0x03, CHR 0x01] @ u16 (length (encodeHello sampleHello)) @ encodeHello sampleHello"

definition sampleConnect :: "string \<Rightarrow> string \<Rightarrow> connectEnv" where
  "sampleConnect buffered conn =
     \<lparr>ceHijacker = True, ceHijackOk = True, ceWriteOk = True, ceDeadlineOk = True,
      ceBuffered = buffered, ceConn = conn, ceReadAhead = 0, ceDialOk = (\<lambda>_. True), ceHelloOk = True\<rparr>"

definition sampleRequest :: "string \<Rightarrow> string \<Rightarrow> string \<Rightarrow> proxyRequest" where
  "sampleRequest meth scheme host =
     \<lparr>rqMethod = meth, rqScheme = scheme, rqURLHost = host, rqHost = host, rqHeader = Map.empty\<rparr>"

definition sampleMatcher :: Matcher where
  "sampleMatcher = \<lparr>entries = [\<lparr>meHost = ''example.com'', meWildcard = True, mePort = 443\<rparr>]\<rparr>"

lemma peek_sample:
  "peekTLSClientHello id (sampleRecord @ rest) = (sampleRecord, SNI ''api.example.com'')"
proof -
  have h: "helloOk sampleHello"
    by (simp add: helloOk_def sampleHello_def serverNameExtension_def)
  have n: "namesOk [(0, ''API.example.com.'')]"
    by (simp add: namesOk_def)
  have l: "ToLower id (TrimSuffix ''API.example.com.'' ''.'') = ''api.example.com''"
    by code_simp
  have "parseSNIFromHandshake id (encodeHello sampleHello) = SNI ''api.example.com''"
    using parseHello_reads [OF h, of id] parseServerNameExtension_reads [OF n, of id] l
    by (simp add: sampleHello_def)
  moreover have "0 < length (encodeHello sampleHello)" "length (encodeHello sampleHello) \<le> maxClientHello"
    by (simp_all add: encodeHello_def sampleHello_def serverNameExtension_def maxClientHello_def)
  ultimately show ?thesis
    using peek_reads [of "[CHR 0x03, CHR 0x01]" "encodeHello sampleHello" id rest]
    by (simp add: sampleRecord_def)
qed

lemma sample_connect_parses:
  "parseHostPort id ''api.example.com:443'' = Some (''api.example.com'', 443)"
  "Match id (Some sampleMatcher) ''api.example.com'' 443"
  "canonicaliseHost id ''api.example.com'' = ''api.example.com''"
  "JoinHostPort ''api.example.com'' (Itoa 443) = ''api.example.com:443''"
  by code_simp+

lemma sample_connect_upstream:
  assumes "buffered @ conn = sampleRecord @ rest"
  shows "filter touchesUpstream
           (handleConnect id (Some sampleMatcher) True (sampleConnect buffered conn)
              (sampleRequest ''CONNECT'' [] ''api.example.com:443''))
         = [Dial ''api.example.com:443'', ToUpstream sampleRecord,
            Splice (splicedBytes (sampleConnect buffered conn) sampleRecord)]"
  using peek_sample [of rest] assms
  by (simp add: handleConnect_def connectTunnel_def sampleRequest_def sample_connect_parses clientStream_def
      sampleConnect_def Let_def)

theorem connect_gated_witness:
  "\<exists>host port hello sni.
     parseHostPort id ''api.example.com:443'' = Some (host, port) \<and> Match id (Some sampleMatcher) host port
     \<and> parseSNIFromHandshake id (drop 5 hello) = SNI sni
     \<and> canonicaliseHost id sni = canonicaliseHost id host
     \<and> hello = take (length hello) sampleRecord"
proof -
  have "filter touchesUpstream (handleConnect id (Some sampleMatcher) True (sampleConnect [] sampleRecord)
          (sampleRequest ''CONNECT'' [] ''api.example.com:443'')) \<noteq> []"
    using sample_connect_upstream [of "[]" sampleRecord "[]"] by simp
  from connect_gated [OF this] show ?thesis
    by (auto simp: sampleRequest_def clientStream_def sampleConnect_def)
qed

text \<open>
  A client that sends past its ClientHello before it reads the 200 loses bytes. \<open>handleConnect\<close>
  reads the ClientHello through the hijacked buffer but \<open>splice\<close> reads the raw connection, so what the
  buffer holds after the record is neither replayed nor relayed.
\<close>

theorem connect_drops_buffered:
  "filter touchesUpstream
     (handleConnect id (Some sampleMatcher) True (sampleConnect (sampleRecord @ ''early data'') ''later data'')
        (sampleRequest ''CONNECT'' [] ''api.example.com:443''))
   = [Dial ''api.example.com:443'', ToUpstream sampleRecord, Splice ''later data'']"
  using sample_connect_upstream [of "sampleRecord @ ''early data''" "''later data''" "''early datalater data''"]
  by (simp add: splicedBytes_def sampleConnect_def)

text \<open>
  A plain request is forwarded only when the host and port of its URL are on the allowlist, without
  its hop-by-hop headers and those its first \<open>Connection\<close> value names.
\<close>

lemma http_gated:
  assumes "Forward out \<in> set (handleHTTP uni idna m sec answer r)"
  shows "(\<exists>host port. parseHostPort uni (hostHeader r) = Some (host, port) \<and> Match uni m host port)
         \<and> (\<forall>k \<in> set hopByHopHeaders. rqHeader out k = None)
         \<and> (\<forall>k \<in> set (connectionTokens (headerGet (rqHeader r) ''Connection'')).
              rqHeader out (CanonicalHeaderKey k) = None)"
  using handleHTTP_upstream [OF assms] hopByHop_canonical
  by (auto simp: stripHopByHopHeaders_spec image_Un)

text \<open>
  A plain-HTTP request without an explicit port is checked against port 443 and sent to port 80.
  An allowlist row without a port, which means port 443, admits it in clear text to port 80, and a row
  that opens port 80 refuses it.
\<close>

theorem http_default_port_mismatch:
  "(\<exists>m. NewMatcher id [''example.com''] = Inr m \<and>
      Dial ''example.com:80'' \<in> set (handleHTTP id id (Some m) True answer
        (sampleRequest ''GET'' ''http'' ''example.com'')))
   \<and> (\<exists>m. NewMatcher id [''example.com:80''] = Inr m \<and>
      handleHTTP id id (Some m) True answer (sampleRequest ''GET'' ''http'' ''example.com'')
        = [Respond 403, Blocked ''example.com'' 443 ''not_allowlisted'' ''GET''])"
proof -
  let ?r = "sampleRequest ''GET'' ''http'' ''example.com''"
  let ?m = "\<lambda>p. \<lparr>entries = [\<lparr>meHost = ''example.com'', meWildcard = False, mePort = p\<rparr>]\<rparr>"
  have m: "NewMatcher id [''example.com''] = Inr (?m 443)" "NewMatcher id [''example.com:80''] = Inr (?m 80)"
    by code_simp+
  have p: "parseHostPort id ''example.com'' = Some (''example.com'', 443)"
    "Match id (Some (?m 443)) ''example.com'' 443" "\<not> Match id (Some (?m 80)) ''example.com'' 443"
    by code_simp+
  have h: "hostHeader ?r = ''example.com''" "rqMethod ?r = ''GET''"
    by (simp_all add: hostHeader_def sampleRequest_def)
  have a: "transportAddr id (?r\<lparr>rqHeader := hd'\<rparr>) = Some ''example.com:80''" for hd'
  proof -
    have "urlSplit ''example.com'' = (''example.com'', [])" by code_simp
    then show ?thesis
      by (simp add: transportAddr_def sampleRequest_def JoinHostPort_def)
  qed
  have 1: "Dial ''example.com:80'' \<in> set (handleHTTP id id (Some (?m 443)) True answer ?r)"
    by (simp add: handleHTTP_def h p a Let_def)
  have 2: "handleHTTP id id (Some (?m 80)) True answer ?r
      = [Respond 403, Blocked ''example.com'' 443 ''not_allowlisted'' ''GET'']"
    by (simp add: handleHTTP_def h p deny_def)
  show ?thesis
    using m 1 2 by blast
qed

section \<open>Stop\<close>

text \<open>
  However the critical sections of concurrent \<open>Stop\<close> calls interleave, the shutdown channel is closed
  at most once (a second close would panic) and a stopped proxy stays stopped.
\<close>

lemma stopSections_closes:
  assumes "pxShutdownCloses p = (if pxStopped p then 1 else 0)"
  shows "pxShutdownCloses (stopSections ss p) = (if pxStopped (stopSections ss p) then 1 else 0)
         \<and> (pxStopped p \<or> EnterStop \<in> set ss \<longrightarrow> pxStopped (stopSections ss p))"
  using assms
  by (induction ss p rule: stopSections.induct) (auto simp: stopEnter_def stopFinish_def)

lemma Start_stop_once:
  assumes "Start uni listenOk cfg = Inr p"
  shows "pxShutdownCloses (stopSections ss p) \<le> 1 \<and> 0 < pxDialTimeout p \<and> 0 < pxReadTimeout p
         \<and> 0 < pxIdleTimeout p"
proof -
  have p: "pxShutdownCloses p = 0" "\<not> pxStopped p" "0 < pxDialTimeout p" "0 < pxReadTimeout p" "0 < pxIdleTimeout p"
    using assms
    by (auto simp: Start_def defaultDialTimeout_def defaultReadTimeout_def defaultIdleTimeout_def second_def
        split: sum.splits if_splits)
  then show ?thesis
    using stopSections_closes [of p ss] by auto
qed

end
