(* ===== verification/Ssrf.thy ===== *)
theory Ssrf
  imports Go_Net
begin

unbundle bit_operations_syntax

text \<open>
  The SSRF guard, \<open>security/ssrf.go\<close>: which addresses count as public, the host check that every
  component dialling a supplied host shares, and the two dial functions built on it.

  The resolver is the argument \<open>dns\<close>: \<open>dns n host\<close> is the answer to the \<open>n\<close>-th lookup, \<^const>\<open>None\<close> a
  failed one. A dial function returns an error or the addresses the dialer may connect to:
  \<open>net.Dialer\<close> uses an address literal as it is and looks every other host up itself. Contexts,
  timeouts and the connection are not modelled.
\<close>

section \<open>Addresses (package net)\<close>

definition ipEqual :: "IP \<Rightarrow> IP \<Rightarrow> bool" where
  "ipEqual ip x =
     (if length ip = length x then ip = x
      else if length ip = 4 \<and> length x = 16 then x = v4InV6 ip
      else if length ip = 16 \<and> length x = 4 then ip = v4InV6 x
      else False)"

definition IPv4zero :: IP where "IPv4zero = v4InV6 [0, 0, 0, 0]"
definition IPv6unspecified :: IP where "IPv6unspecified = replicate 16 0"
definition IPv6loopback :: IP where "IPv6loopback = replicate 15 0 @ [1]"

definition IsUnspecified :: "IP \<Rightarrow> bool" where
  "IsUnspecified ip = (ipEqual ip IPv4zero \<or> ipEqual ip IPv6unspecified)"

definition IsLoopback :: "IP \<Rightarrow> bool" where
  "IsLoopback ip = (case To4 ip of Some v \<Rightarrow> v ! 0 = 127 | None \<Rightarrow> ipEqual ip IPv6loopback)"

definition IsPrivate :: "IP \<Rightarrow> bool" where
  "IsPrivate ip =
     (case To4 ip of
        Some v \<Rightarrow> v ! 0 = 10 \<or> (v ! 0 = 172 \<and> v ! 1 AND 0xf0 = 16) \<or> (v ! 0 = 192 \<and> v ! 1 = 168)
      | None \<Rightarrow> length ip = 16 \<and> ip ! 0 AND 0xfe = 0xfc)"

definition IsMulticast :: "IP \<Rightarrow> bool" where
  "IsMulticast ip =
     (case To4 ip of Some v \<Rightarrow> v ! 0 AND 0xf0 = 0xe0 | None \<Rightarrow> length ip = 16 \<and> ip ! 0 = 0xff)"

definition IsLinkLocalMulticast :: "IP \<Rightarrow> bool" where
  "IsLinkLocalMulticast ip =
     (case To4 ip of
        Some v \<Rightarrow> v ! 0 = 224 \<and> v ! 1 = 0 \<and> v ! 2 = 0
      | None \<Rightarrow> length ip = 16 \<and> ip ! 0 = 0xff \<and> ip ! 1 AND 0x0f = 0x02)"

definition IsLinkLocalUnicast :: "IP \<Rightarrow> bool" where
  "IsLinkLocalUnicast ip =
     (case To4 ip of
        Some v \<Rightarrow> v ! 0 = 169 \<and> v ! 1 = 254
      | None \<Rightarrow> length ip = 16 \<and> ip ! 0 = 0xfe \<and> ip ! 1 AND 0xc0 = 0x80)"

section \<open>The guard (ssrf.go)\<close>

text \<open>\<open>cgnatNet.Contains\<close> on a 4-byte address: 100.64.0.0/10.\<close>

definition cgnatContains :: "IP \<Rightarrow> bool" where
  "cgnatContains v = (v ! 0 = 100 \<and> v ! 1 AND 0xc0 = 64)"

definition IsPublicIP :: "IP \<Rightarrow> bool" where
  "IsPublicIP ip =
     (if (case To4 ip of Some v \<Rightarrow> cgnatContains v | None \<Rightarrow> False) then False
      else \<not> IsLoopback ip \<and> \<not> IsPrivate ip \<and> \<not> IsMulticast ip \<and> \<not> IsLinkLocalMulticast ip
           \<and> \<not> IsLinkLocalUnicast ip \<and> \<not> IsUnspecified ip)"

datatype dialError = BadAddress | NoHost | PrivateHost string | ResolveFailed string | NoAddresses string

type_synonym lookup = "string \<Rightarrow> IP list option"

definition localName :: "string \<Rightarrow> bool" where
  "localName host = (host = ''localhost'' \<or> HasSuffix host ''.localhost'')"

definition guardHost :: "(string \<Rightarrow> string) \<Rightarrow> string \<Rightarrow> string" where
  "guardHost uni host = TrimSpace (ToLower uni host)"

text \<open>\<^const>\<open>None\<close> is the nil error.\<close>

definition ValidatePublicHost :: "(string \<Rightarrow> string) \<Rightarrow> lookup \<Rightarrow> string \<Rightarrow> dialError option" where
  "ValidatePublicHost uni lookup raw =
     (let host = guardHost uni raw in
      if host = [] then Some NoHost
      else if localName host then Some (PrivateHost host)
      else case ParseIP host of
             Some ip \<Rightarrow> if \<not> IsPublicIP ip then Some (PrivateHost host) else None
           | None \<Rightarrow>
               (case lookup host of
                  None \<Rightarrow> Some (ResolveFailed host)
                | Some [] \<Rightarrow> Some (NoAddresses host)
                | Some addrs \<Rightarrow>
                    if list_ex (\<lambda>ip. \<not> IsPublicIP ip) addrs then Some (PrivateHost host) else None))"

definition IsLoopbackHost :: "(string \<Rightarrow> string) \<Rightarrow> string \<Rightarrow> bool" where
  "IsLoopbackHost uni raw =
     (let host = guardHost uni raw in
      if localName host then True
      else case ParseIP host of Some ip \<Rightarrow> IsLoopback ip | None \<Rightarrow> False)"

text \<open>\<open>dialer.DialContext\<close>: the addresses it tries.\<close>

definition dialTargets :: "lookup \<Rightarrow> string \<Rightarrow> dialError + IP list" where
  "dialTargets lookup host =
     (case ParseIP host of
        Some ip \<Rightarrow> Inr [ip]
      | None \<Rightarrow> (case lookup host of None \<Rightarrow> Inl (ResolveFailed host) | Some ips \<Rightarrow> Inr ips))"

definition SafeDialContext ::
  "(string \<Rightarrow> string) \<Rightarrow> (nat \<Rightarrow> lookup) \<Rightarrow> bool \<Rightarrow> string \<Rightarrow> dialError + IP list" where
  "SafeDialContext uni dns allowPrivateHosts address =
     (case SplitHostPort address of
        None \<Rightarrow> Inl BadAddress
      | Some (host, port) \<Rightarrow>
          if allowPrivateHosts then dialTargets (dns 1) host
          else case ValidatePublicHost uni (dns 0) host of
                 Some err \<Rightarrow> Inl err
               | None \<Rightarrow> dialTargets (dns 1) host)"

definition LoopbackAwareDialContext ::
  "(string \<Rightarrow> string) \<Rightarrow> (nat \<Rightarrow> lookup) \<Rightarrow> string \<Rightarrow> dialError + IP list" where
  "LoopbackAwareDialContext uni dns address =
     (case SplitHostPort address of
        None \<Rightarrow> Inl BadAddress
      | Some (host, port) \<Rightarrow>
          if IsLoopbackHost uni host then dialTargets (dns 1) host
          else case ValidatePublicHost uni (dns 0) host of
                 Some err \<Rightarrow> Inl err
               | None \<Rightarrow> dialTargets (dns 1) host)"

section \<open>A reference: address blocks\<close>

definition ipValue :: "IP \<Rightarrow> nat" where
  "ipValue ip = foldl (\<lambda>acc b. 256 * acc + b) 0 ip"

definition inBlock :: "IP \<Rightarrow> IP \<times> nat \<Rightarrow> bool" where
  "inBlock ip blk =
     (length ip = length (fst blk) \<and>
      ipValue ip div 2 ^ (8 * length ip - snd blk) = ipValue (fst blk) div 2 ^ (8 * length ip - snd blk))"

text \<open>The blocks that are not public, in CIDR notation with their RFCs.\<close>

definition reserved4 :: "(IP \<times> nat) list" where
  "reserved4 =
     [([0, 0, 0, 0], 32), ([10, 0, 0, 0], 8), ([100, 64, 0, 0], 10), ([127, 0, 0, 0], 8),
      ([169, 254, 0, 0], 16), ([172, 16, 0, 0], 12), ([192, 168, 0, 0], 16), ([224, 0, 0, 0], 4)]"

definition reserved6 :: "(IP \<times> nat) list" where
  "reserved6 =
     [(replicate 16 0, 128), (replicate 15 0 @ [1], 128), (252 # replicate 15 0, 7),
      (254 # 128 # replicate 14 0, 10), (255 # replicate 15 0, 8)]"

lemma high_mask:
  assumes "b < 256" "k \<le> 8"
  shows "b AND push_bit k (mask (8 - k)) = b div 2 ^ k * (2 ^ k :: nat)"
proof -
  have b: "b = take_bit 8 b"
    using assms(1) by (simp add: take_bit_nat_eq_self)
  have "bit b n \<Longrightarrow> n < 8" for n
    by (metis b bit_take_bit_iff)
  then have "b AND push_bit k (mask (8 - k)) = push_bit k (drop_bit k b)"
    using assms(2) by (intro bit_eqI) (auto simp: bit_and_iff bit_push_bit_iff bit_mask_iff bit_drop_bit_eq
        intro!: diff_less_mono)
  then show ?thesis
    by (simp add: push_bit_eq_mult drop_bit_eq_div)
qed

lemma byte_masks:
  assumes "b < (256 :: nat)"
  shows "(b AND 0xf0 = 16) = (b div 16 = 1)" "(b AND 0xf0 = 0xe0) = (b div 16 = 14)"
    "(b AND 0xfe = 0xfc) = (b div 2 = 126)" "(b AND 0xc0 = 0x80) = (b div 64 = 2)"
    "(b AND 0xc0 = 64) = (b div 64 = 1)"
  using high_mask [OF assms, of 4] high_mask [OF assms, of 1] high_mask [OF assms, of 6]
  by (auto simp: mask_eq_exp_minus_1 push_bit_eq_mult)

lemma ipValue_append: "ipValue (xs @ ys) = ipValue xs * 256 ^ length ys + ipValue ys"
  by (induction ys rule: rev_induct) (simp_all add: ipValue_def algebra_simps)

lemma ipValue_less: "\<forall>b \<in> set ip. b < 256 \<Longrightarrow> ipValue ip < 256 ^ length ip"
proof (induction ip rule: rev_induct)
  case (snoc b ip)
  then have "ipValue ip + 1 \<le> 256 ^ length ip" "b < 256"
    by auto
  then have "256 * (ipValue ip + 1) \<le> 256 * 256 ^ length ip"
    by (intro mult_left_mono) auto
  then show ?case
    using \<open>b < 256\<close> by (simp add: ipValue_append) (simp add: ipValue_def)
qed (simp add: ipValue_def)

lemma ipValue_drop:
  assumes "\<forall>b \<in> set ys. b < 256" "m \<le> 8 * length xs" "k = m + 8 * length ys"
  shows "ipValue (xs @ ys) div 2 ^ k = ipValue xs div 2 ^ m"
proof -
  have p: "(256 :: nat) ^ length ys = 2 ^ (8 * length ys)"
    by (simp add: power_mult)
  have "ipValue (xs @ ys) div 2 ^ (8 * length ys) = ipValue xs"
    using ipValue_less [OF assms(1)] by (simp add: ipValue_append p)
  then show ?thesis
    by (metis (no_types) assms(3) add.commute div_mult2_eq power_add)
qed

lemma ipValue_inj:
  "length xs = length ys \<Longrightarrow> \<forall>b \<in> set xs. b < 256 \<Longrightarrow> \<forall>b \<in> set ys. b < 256 \<Longrightarrow> ipValue xs = ipValue ys
   \<Longrightarrow> xs = ys"
proof (induction xs arbitrary: ys rule: rev_induct)
  case (snoc x xs)
  then obtain y ys' where ys: "ys = ys' @ [y]"
    by (cases ys rule: rev_cases) auto
  have b: "x < 256" "y < 256"
    using snoc.prems by (simp_all add: ys)
  have "ipValue [z] = z" for z
    by (simp add: ipValue_def)
  then have "ipValue xs * 256 + x = ipValue ys' * 256 + y"
    using snoc.prems by (simp add: ys ipValue_append)
  then have "(ipValue xs * 256 + x) div 256 = (ipValue ys' * 256 + y) div 256"
    "(ipValue xs * 256 + x) mod 256 = (ipValue ys' * 256 + y) mod 256"
    by simp_all
  then have "ipValue xs = ipValue ys'" "x = y"
    using b by simp_all
  then show ?case
    using snoc by (simp add: ys)
qed simp

definition notReserved :: "IP \<Rightarrow> bool" where
  "notReserved ip =
     (case To4 ip of
        Some v \<Rightarrow> \<not> list_ex (inBlock v) reserved4
      | None \<Rightarrow> \<not> list_ex (inBlock ip) reserved6)"

definition bytesOk :: "IP \<Rightarrow> bool" where
  "bytesOk ip = list_all (\<lambda>b. b < 256) ip"

lemma inBlock_host:
  assumes "bytesOk ip" "bytesOk base" "length ip = length base" "n = 8 * length base"
  shows "inBlock ip (base, n) \<longleftrightarrow> ip = base"
  using ipValue_inj [of ip base] assms by (auto simp: inBlock_def bytesOk_def list_all_iff)

lemma inBlock_prefix:
  assumes "bytesOk (xs @ ys)" "bytesOk (bs @ cs)" "length xs = length bs" "length ys = length cs"
    and "n \<le> 8 * length bs"
  shows "inBlock (xs @ ys) (bs @ cs, n) \<longleftrightarrow>
         ipValue xs div 2 ^ (8 * length bs - n) = ipValue bs div 2 ^ (8 * length bs - n)"
proof -
  let ?m = "8 * length bs - n" and ?k = "8 * length (xs @ ys) - n"
  have k: "?k = ?m + 8 * length ys" "?k = ?m + 8 * length cs"
    using assms by simp_all
  have "ipValue (xs @ ys) div 2 ^ ?k = ipValue xs div 2 ^ ?m"
    using assms k by (intro ipValue_drop) (auto simp: bytesOk_def list_all_iff)
  moreover have "ipValue (bs @ cs) div 2 ^ ?k = ipValue bs div 2 ^ ?m"
    using assms k by (intro ipValue_drop) (auto simp: bytesOk_def list_all_iff)
  ultimately show ?thesis
    using assms by (simp add: inBlock_def)
qed

lemma inBlock_byte:
  assumes "bytesOk (a # ys)" "bytesOk (b # cs)" "length ys = length cs" "n \<le> 8"
  shows "inBlock (a # ys) (b # cs, n) \<longleftrightarrow> a div 2 ^ (8 - n) = b div 2 ^ (8 - n)"
  using inBlock_prefix [of "[a]" ys "[b]" cs n] assms by (simp add: ipValue_def)

lemma two_bytes:
  assumes "a < 256" "b < 256" "c < 256" "d < (256 :: nat)" "k \<le> 8"
  shows "(256 * a + b) div 2 ^ k = (256 * c + d) div 2 ^ k \<longleftrightarrow> a = c \<and> b div 2 ^ k = d div 2 ^ k"
proof -
  have split: "(256 * x + y) div 2 ^ k = 2 ^ (8 - k) * x + y div 2 ^ k" for x y :: nat
  proof -
    have "(256 :: nat) = 2 ^ (8 - k) * 2 ^ k"
      using assms(5) by (simp flip: power_add)
    then have "256 * x + y = y + (2 ^ (8 - k) * x) * 2 ^ k"
      by (simp add: algebra_simps)
    then show ?thesis
      by (metis add.commute div_mult_self1 power_not_zero zero_neq_numeral)
  qed
  have small: "y div 2 ^ k < 2 ^ (8 - k)" if "y < 256" for y :: nat
    using that assms(5) by (simp add: less_mult_imp_div_less flip: power_add)
  have eq: "x * m + y = x' * m + y' \<longleftrightarrow> x = x' \<and> y = y'" if "y < m" "y' < m" for x x' y y' m :: nat
    using that by (metis add.commute div_mult_self3 div_less mod_mult_self3 mod_less add_cancel_left_left less_nat_zero_code)
  show ?thesis
    unfolding split using eq [of "b div 2 ^ k" "2 ^ (8 - k)" "d div 2 ^ k" a c] small assms
    by (simp add: mult.commute)
qed

lemma inBlock_two_bytes:
  assumes "bytesOk (a # b # ys)" "bytesOk (c # d # cs)" "length ys = length cs" "8 \<le> n" "n \<le> 16"
  shows "inBlock (a # b # ys) (c # d # cs, n) \<longleftrightarrow> a = c \<and> b div 2 ^ (16 - n) = d div 2 ^ (16 - n)"
  using inBlock_prefix [of "[a, b]" ys "[c, d]" cs n] two_bytes [of a b c d "16 - n"] assms
  by (simp add: ipValue_def bytesOk_def)

lemma four_bytes:
  assumes "length v = 4"
  obtains a b c d where "v = [a, b, c, d]"
  using assms by (auto simp: numeral_eq_Suc length_Suc_conv)

lemma reserved4_spec:
  assumes "bytesOk [a, b, c, d]"
  shows "list_ex (inBlock [a, b, c, d]) reserved4 \<longleftrightarrow>
         [a, b, c, d] = [0, 0, 0, 0] \<or> a = 10 \<or> (a = 100 \<and> b div 64 = 1) \<or> a = 127 \<or> (a = 169 \<and> b = 254)
         \<or> (a = 172 \<and> b div 16 = 1) \<or> (a = 192 \<and> b = 168) \<or> a div 16 = 14"
proof -
  note ok = assms
  have "inBlock [a, b, c, d] ([0, 0, 0, 0], 32) \<longleftrightarrow> [a, b, c, d] = [0, 0, 0, 0]"
    using ok by (intro inBlock_host) (simp_all add: bytesOk_def)
  moreover have "inBlock [a, b, c, d] (m # [0, 0, 0], n) \<longleftrightarrow> a div 2 ^ (8 - n) = m div 2 ^ (8 - n)"
    if "m < 256" "n \<le> 8" for m n
    using ok that by (intro inBlock_byte) (simp_all add: bytesOk_def)
  moreover have "inBlock [a, b, c, d] (m # k # [0, 0], n) \<longleftrightarrow> a = m \<and> b div 2 ^ (16 - n) = k div 2 ^ (16 - n)"
    if "m < 256" "k < 256" "8 < n" "n \<le> 16" for m k n
    using ok that by (intro inBlock_two_bytes) (simp_all add: bytesOk_def)
  ultimately show ?thesis
    by (simp add: reserved4_def)
qed

lemma reserved6_spec:
  assumes "bytesOk (a # b # ys)" "length ys = 14"
  shows "list_ex (inBlock (a # b # ys)) reserved6 \<longleftrightarrow>
         a # b # ys = IPv6unspecified \<or> a # b # ys = IPv6loopback \<or> a div 2 = 126
         \<or> (a = 254 \<and> b div 64 = 2) \<or> a = 255"
proof -
  have "inBlock (a # b # ys) (IPv6unspecified, 128) \<longleftrightarrow> a # b # ys = IPv6unspecified"
    using assms by (intro inBlock_host) (simp_all add: bytesOk_def IPv6unspecified_def list_all_iff)
  moreover have "inBlock (a # b # ys) (IPv6loopback, 128) \<longleftrightarrow> a # b # ys = IPv6loopback"
    using assms by (intro inBlock_host) (simp_all add: bytesOk_def IPv6loopback_def list_all_iff)
  moreover have "inBlock (a # b # ys) (m # replicate 15 0, n) \<longleftrightarrow> a div 2 ^ (8 - n) = m div 2 ^ (8 - n)"
    if "m < 256" "n \<le> 8" for m n
    using assms that by (intro inBlock_byte) (simp_all add: bytesOk_def list_all_iff)
  moreover have "inBlock (a # b # ys) (254 # 128 # replicate 14 0, 10) \<longleftrightarrow> a = 254 \<and> b div 64 = 2"
    using assms by (subst inBlock_two_bytes) (simp_all add: bytesOk_def list_all_iff)
  ultimately show ?thesis
    by (simp add: reserved6_def del: One_nat_def flip: IPv6unspecified_def IPv6loopback_def)
qed

lemma v4InV6_not_unspecified: "v4InV6 v \<noteq> IPv6unspecified"
proof
  assume "v4InV6 v = IPv6unspecified"
  then have "v4InV6 v ! 10 = IPv6unspecified ! 10"
    by simp
  then show False
    by (simp add: v4InV6_def IPv6unspecified_def nth_append)
qed

lemma v4InV6_inj [simp]: "v4InV6 v = v4InV6 w \<longleftrightarrow> v = w"
  by (simp add: v4InV6_def)

lemma To4_cases:
  assumes "To4 ip = Some v"
  shows "length v = 4 \<and> (ip = v \<or> ip = v4InV6 v)"
proof (cases "length ip = 4")
  case False
  then have "length ip = 16" "take 12 ip = replicate 10 0 @ [255, 255]" "v = drop 12 ip"
    using assms by (auto simp: To4_def split: if_splits)
  then show ?thesis
    by (metis To4_length append_assoc append_take_drop_id assms v4InV6_def)
qed (use assms in \<open>simp add: To4_def\<close>)

lemma unspecified4:
  assumes "To4 ip = Some v"
  shows "IsUnspecified ip \<longleftrightarrow> v = [0, 0, 0, 0]"
proof -
  have "length v = 4" "ip = v \<or> ip = v4InV6 v"
    using To4_cases [OF assms] by simp_all
  moreover have "length (v4InV6 w) = 12 + length w" for w
    by (simp add: v4InV6_def)
  moreover have "length IPv6unspecified = 16"
    by (simp add: IPv6unspecified_def)
  ultimately show ?thesis
    using v4InV6_not_unspecified [of v]
    by (auto simp: IsUnspecified_def ipEqual_def IPv4zero_def)
qed

lemma unspecified6:
  assumes "To4 ip = None" "length ip = 16"
  shows "IsUnspecified ip \<longleftrightarrow> ip = IPv6unspecified"
proof -
  have "ip \<noteq> IPv4zero"
    using assms by (auto simp: IPv4zero_def)
  then show ?thesis
    using assms by (auto simp: IsUnspecified_def ipEqual_def IPv4zero_def IPv6unspecified_def v4InV6_def)
qed

lemma public4:
  assumes "To4 ip = Some v" "bytesOk v"
  shows "IsPublicIP ip \<longleftrightarrow> \<not> list_ex (inBlock v) reserved4"
proof -
  obtain a b c d where v: "v = [a, b, c, d]"
    using To4_length [OF assms(1)] by (rule four_bytes)
  have "a < 256" "b < 256"
    using assms(2) by (simp_all add: v bytesOk_def)
  moreover have "a = 224 \<Longrightarrow> a div 16 = 14"
    by simp
  moreover have "list_ex (inBlock v) reserved4 \<longleftrightarrow>
         v = [0, 0, 0, 0] \<or> a = 10 \<or> (a = 100 \<and> b div 64 = 1) \<or> a = 127 \<or> (a = 169 \<and> b = 254)
         \<or> (a = 172 \<and> b div 16 = 1) \<or> (a = 192 \<and> b = 168) \<or> a div 16 = 14"
    unfolding v using assms(2) by (intro reserved4_spec) (simp add: v)
  moreover have "IsPublicIP ip \<longleftrightarrow>
         \<not> (a = 100 \<and> b div 64 = 1) \<and> a \<noteq> 127 \<and> \<not> (a = 10 \<or> (a = 172 \<and> b div 16 = 1) \<or> (a = 192 \<and> b = 168))
         \<and> a div 16 \<noteq> 14 \<and> \<not> (a = 224 \<and> b = 0 \<and> c = 0) \<and> \<not> (a = 169 \<and> b = 254) \<and> v \<noteq> [0, 0, 0, 0]"
    using assms(1) calculation(1,2) unspecified4 [OF assms(1)]
    by (simp add: IsPublicIP_def cgnatContains_def IsLoopback_def IsPrivate_def IsMulticast_def
        IsLinkLocalMulticast_def IsLinkLocalUnicast_def v byte_masks)
  ultimately show ?thesis
    by (cases "a = 224") blast+
qed

lemma public6:
  assumes "To4 ip = None" "length ip = 16" "bytesOk ip"
  shows "IsPublicIP ip \<longleftrightarrow> \<not> list_ex (inBlock ip) reserved6"
proof -
  obtain a b ys where ip: "ip = a # b # ys" "length ys = 14"
    using assms(2) by (auto simp: numeral_eq_Suc length_Suc_conv)
  have "a < 256" "b < 256"
    using assms(3) by (simp_all add: ip bytesOk_def)
  moreover have "ipEqual ip IPv6loopback \<longleftrightarrow> ip = IPv6loopback"
    using assms(2) by (simp add: ipEqual_def IPv6loopback_def)
  ultimately show ?thesis
    using reserved6_spec [of a b ys] assms unspecified6 [OF assms(1,2)]
    by (auto simp: IsPublicIP_def IsLoopback_def IsPrivate_def IsMulticast_def
        IsLinkLocalMulticast_def IsLinkLocalUnicast_def ip byte_masks)
qed

text \<open>
  C33: the address check is the address table. For every IPv4 address, plain or mapped into IPv6, and
  every other IPv6 address, \<open>IsPublicIP\<close> holds exactly outside the blocks 0.0.0.0/32, 10/8, 100.64/10,
  127/8, 169.254/16, 172.16/12, 192.168/16 and 224/4, and outside ::/128, ::1/128, fc00::/7, fe80::/10
  and ff00::/8.
\<close>

theorem public_ip_reference:
  assumes "bytesOk ip" "length ip = 4 \<or> length ip = 16"
  shows "IsPublicIP ip \<longleftrightarrow> notReserved ip"
proof (cases "To4 ip")
  case None
  then have "length ip = 16"
    using assms by (auto simp: To4_def split: if_splits)
  then show ?thesis
    using public6 [OF None] assms None by (simp add: notReserved_def)
next
  case (Some v)
  then have "set v \<subseteq> set ip"
    by (auto simp: To4_def split: if_splits dest: in_set_dropD)
  then have "bytesOk v"
    using assms(1) by (auto simp: bytesOk_def list_all_iff)
  then show ?thesis
    using public4 [OF Some] Some by (simp add: notReserved_def)
qed

theorem public_ip_reference_witness:
  "\<not> IsPublicIP [169, 254, 169, 254] \<and> IsPublicIP [8, 8, 8, 8]"
proof -
  have "\<not> notReserved [169, 254, 169, 254]" "notReserved [8, 8, 8, 8]"
    by (simp_all add: notReserved_def To4_def reserved4_def inBlock_def ipValue_def)
  then show ?thesis
    using public_ip_reference [of "[169, 254, 169, 254]"] public_ip_reference [of "[8, 8, 8, 8]"]
    by (simp add: bytesOk_def)
qed

section \<open>Where a guarded dial can go\<close>

text \<open>Case does not matter to an address literal, so the guard and the dialer read the same address.\<close>

lemma byteVal_lowerByte:
  "byteVal (lowerByte c) = (if 65 \<le> byteVal c \<and> byteVal c \<le> 90 then byteVal c + 32 else byteVal c)"
  by (simp add: lowerByte_def)

lemma lowerByte_below: "byteVal x < 65 \<Longrightarrow> lowerByte c = x \<longleftrightarrow> c = x"
  using byteVal_lowerByte [of c] by (auto simp: lowerByte_def split: if_splits)

lemma lowerByte_punct [simp]:
  "lowerByte c = CHR ''.'' \<longleftrightarrow> c = CHR ''.''" "lowerByte c = CHR '':'' \<longleftrightarrow> c = CHR '':''"
  "lowerByte c = CHR ''%'' \<longleftrightarrow> c = CHR ''%''"
  by (rule lowerByte_below; simp)+

lemma isDigit_lowerByte: "isDigit (lowerByte c) = isDigit c" "isDigit c \<Longrightarrow> lowerByte c = c"
  by (auto simp: lowerByte_def isDigit_def)

lemma hexVal_lowerByte [simp]: "hexVal (lowerByte c) = hexVal c"
  by (auto simp: lowerByte_def hexVal_def Let_def)

lemma ipv4Fields_lower: "ipv4Fields (map lowerByte s) v d acc = ipv4Fields s v d acc"
  by (induction s arbitrary: v d acc) (auto simp: Let_def isDigit_lowerByte)

lemma parseIPv4_lower [simp]: "parseIPv4 (map lowerByte s) = parseIPv4 s"
  by (simp add: parseIPv4_def ipv4Fields_lower)

lemma hexGroup_lower: "hexGroup (map lowerByte s) = map lowerByte (hexGroup s)"
  by (simp add: hexGroup_def takeWhile_map o_def)

lemma hexNumber_lower [simp]: "hexNumber (map lowerByte g) = hexNumber g"
  by (induction g rule: rev_induct) (simp_all add: hexNumber_def)

lemma HasPrefix_lower:
  "HasPrefix (map lowerByte s) ''.'' = HasPrefix s ''.''" "HasPrefix (map lowerByte s) '':'' = HasPrefix s '':''"
  "HasPrefix (map lowerByte s) ''::'' = HasPrefix s ''::''"
  by (cases s; simp add: HasPrefix_def) (cases s rule: remdups_adj.cases; simp add: HasPrefix_def)+

definition lowerRest :: "nat list \<times> nat option \<times> string \<Rightarrow> nat list \<times> nat option \<times> string" where
  "lowerRest st = (case st of (ip, ell, rest) \<Rightarrow> (ip, ell, map lowerByte rest))"

lemma HasPrefix_single: "HasPrefix (x # s) [c] = (x = c)" "\<not> HasPrefix [] [c]"
  by (simp_all add: HasPrefix_def)

lemma ipv6Loop_lower: "ipv6Loop (map lowerByte s) ip ell = map_option lowerRest (ipv6Loop s ip ell)"
proof (induction "16 - length ip" arbitrary: s ip ell rule: less_induct)
  case less
  show ?case
  proof (cases "16 \<le> length ip")
    case True
    then show ?thesis
      by (subst (1 2) ipv6Loop.simps) (simp add: lowerRest_def)
  next
    case False
    define rest where "rest = drop (length (hexGroup s)) s"
    have IH: "ipv6Loop (map lowerByte t) (ip @ [x, y]) e = map_option lowerRest (ipv6Loop t (ip @ [x, y]) e)"
      for t x y e
      using False by (intro less.hyps) simp
    show ?thesis
      by (subst (1 2) ipv6Loop.simps, cases rest)
        (simp_all add: Let_def hexGroup_lower HasPrefix_lower HasPrefix_single drop_map IH False lowerRest_def option.map_comp o_def
          flip: rest_def)
  qed
qed

lemma parseIPv6_lower [simp]: "parseIPv6 (map lowerByte s) = parseIPv6 s"
proof -
  have "CHR ''%'' \<in> lowerByte ` set s \<longleftrightarrow> CHR ''%'' \<in> set s"
    by (metis (no_types, lifting) image_iff lowerByte_punct(3))
  then show ?thesis
    by (cases "HasPrefix s ''::''") 
      (simp_all add: parseIPv6_def Let_def HasPrefix_lower drop_map ipv6Loop_lower lowerRest_def
        split: option.splits prod.splits)
qed

lemma ParseIP_lower: "ParseIP (map lowerByte s) = ParseIP s"
proof -
  let ?P = "\<lambda>c. c = CHR ''.'' \<or> c = CHR '':'' \<or> c = CHR ''%''"
  have "find ?P (map lowerByte s) = find ?P s"
    by (induction s) auto
  then show ?thesis
    by (simp add: ParseIP_def split: option.splits)
qed

text \<open>A resolver that gives the same answer again, whatever the case of the name.\<close>

definition stableResolver :: "(nat \<Rightarrow> lookup) \<Rightarrow> string \<Rightarrow> bool" where
  "stableResolver dns host = (dns 1 host = dns 0 (map lowerByte host))"

lemma guarded_targets_public:
  assumes "ValidatePublicHost uni (dns 0) host = None" "dialTargets (dns 1) host = Inr ips"
    and "list_all isASCII host" "TrimSpace (map lowerByte host) = map lowerByte host"
    and "stableResolver dns host" "ip \<in> set ips"
  shows "IsPublicIP ip"
proof -
  have g: "guardHost uni host = map lowerByte host"
    using assms(3,4) by (simp add: guardHost_def ToLower_ascii)
  show ?thesis
    using assms unfolding ValidatePublicHost_def g Let_def dialTargets_def ParseIP_lower stableResolver_def
    by (auto simp: list_ex_iff split: option.splits if_splits list.splits)
qed



text \<open>
  C38: a resolver that changes its answer defeats the guarded dial. \<open>SafeDialContext\<close> and
  \<open>LoopbackAwareDialContext\<close> check one lookup of the host and hand the dialer the host name, which it
  looks up again: with a public answer to the first lookup and the metadata address to the second, both
  connect to 169.254.169.254, which is not public.
\<close>

theorem guarded_dial_rebinds:
  "\<exists>dns. SafeDialContext id dns False ''rebind.example:80'' = Inr [[169, 254, 169, 254]]
     \<and> LoopbackAwareDialContext id dns ''rebind.example:80'' = Inr [[169, 254, 169, 254]]
     \<and> \<not> IsPublicIP [169, 254, 169, 254]"
proof -
  let ?dns = "\<lambda>n _. if n = 0 then Some [[93, 184, 216, 34]] else Some [[169, 254, 169, 254]]"
  have "SafeDialContext id ?dns False ''rebind.example:80'' = Inr [[169, 254, 169, 254]]"
    "LoopbackAwareDialContext id ?dns ''rebind.example:80'' = Inr [[169, 254, 169, 254]]"
    "\<not> IsPublicIP [169, 254, 169, 254]"
    by code_simp+
  then show ?thesis
    by blast
qed

end
