(* ===== verification/Structured_Output.thy ===== *)
theory Structured_Output
  imports Go_Net
begin

text \<open>
  What a run records of its answer: the structured output of \<open>core/structuredoutput.go\<close>, the verifier
  attempts of \<open>core/verification.go\<close> and the byte cap of \<open>types/result.go\<close> both use.

  The JSON decoder and encoder, the schema validator and the scrubber are the fields of an environment.
  The token stream of a document is the one \<open>json.Decoder.Token\<close> returns; the values and their tokens
  are defined below to state what the duplicate-key scan finds.
\<close>

section \<open>The byte cap (types/result.go)\<close>

definition finalAssistantTextTruncationMarker :: string where
  "finalAssistantTextTruncationMarker = ''... [truncated by harness]''"

fun capEnd :: "string \<Rightarrow> nat \<Rightarrow> nat" where
  "capEnd s 0 = 0"
| "capEnd s (Suc e) = (if RuneStart (s ! Suc e) then Suc e else capEnd s e)"

definition CapFinalAssistantText :: "string \<Rightarrow> int \<Rightarrow> string \<times> bool" where
  "CapFinalAssistantText s maxBytes =
     (let m = nat maxBytes in
      if length s \<le> m then (s, False)
      else (take (capEnd s m) s @ finalAssistantTextTruncationMarker, True))"

text \<open>The test on integers, so that evaluation does not count up to the limit.\<close>

lemma CapFinalAssistantText_code [code]:
  "CapFinalAssistantText s maxBytes =
     (if int (length s) \<le> max 0 maxBytes then (s, False)
      else (take (capEnd s (nat maxBytes)) s @ finalAssistantTextTruncationMarker, True))"
  by (auto simp: CapFinalAssistantText_def Let_def)

lemma capEnd_le: "capEnd s e \<le> e"
  by (induction e) auto

lemma capEnd_boundary: "capEnd s e = 0 \<or> RuneStart (s ! capEnd s e)"
  by (induction e) auto

lemma CapFinalAssistantText_length:
  "length (fst (CapFinalAssistantText s m)) \<le> nat m + length finalAssistantTextTruncationMarker"
  using capEnd_le [of s "nat m"] by (auto simp: CapFinalAssistantText_def Let_def)

section \<open>The environment\<close>

datatype jtok = TDelim char | TString string | TOther

record outputEnv =
  oeValid :: "string \<Rightarrow> bool"                        \<comment> \<open>\<open>json.Valid\<close>\<close>
  oeError :: "string \<Rightarrow> string"                      \<comment> \<open>the error of \<open>json.Unmarshal\<close>\<close>
  oeCompact :: "string \<Rightarrow> string + string"           \<comment> \<open>\<open>json.Compact\<close>\<close>
  oeTokens :: "string \<Rightarrow> jtok list"                  \<comment> \<open>the tokens before the first error\<close>
  oeUnquote :: "string \<Rightarrow> string option"             \<comment> \<open>\<open>json.Unmarshal\<close> of a literal\<close>
  oeQuote :: "string \<Rightarrow> string option"               \<comment> \<open>\<open>json.Encoder\<close> without HTML escapes\<close>
  oeReserved :: "string \<Rightarrow> string + string list"     \<comment> \<open>\<open>StripDangerousKeysFromInput\<close>\<close>
  oeValidate :: "string \<Rightarrow> string \<Rightarrow> string option"   \<comment> \<open>\<open>ValidateJSONSchema\<close>, its error's text\<close>
  oeScrub :: "string \<Rightarrow> string"
  oeShow :: "string \<Rightarrow> string"                       \<comment> \<open>the verb \<open>%q\<close>\<close>
  oeFold :: "string \<Rightarrow> string \<Rightarrow> bool"               \<comment> \<open>\<open>strings.EqualFold\<close>\<close>

section \<open>Structured output (structuredoutput.go)\<close>

definition maxStructuredOutputCorrections :: nat where "maxStructuredOutputCorrections = 2"
definition maxStructuredOutputBytes :: int where "maxStructuredOutputBytes = 200 * 1024"
definition maxStructuredOutputViolationBytes :: int where "maxStructuredOutputViolationBytes = 2048"

definition structuredOutputLimit :: "int \<Rightarrow> int" where
  "structuredOutputLimit resolvedMaxFinalText = min resolvedMaxFinalText maxStructuredOutputBytes"

text \<open>
  The errors of \<open>checkStructuredOutput\<close>: a document broken by scrubbing, or a reason for the model.
\<close>

datatype outputError = Redacted string | Rejected string

definition fence :: string where
  "fence = [CHR 0x60, CHR 0x60, CHR 0x60]"

definition notSingleDocument :: string where
  "notSingleDocument = ''the final message is not a single JSON document: ''"

definition sendOnlyHint :: string where
  "sendOnlyHint =
     ''; send only the JSON document, or a single '' @ fence @ ''json fenced block with nothing around it''"

definition checkDocument :: "outputEnv \<Rightarrow> string \<Rightarrow> outputError + string" where
  "checkDocument env t =
     (if \<not> oeValid env t
      then Inl (Rejected (notSingleDocument @ oeError env t
             @ (if Index t fence \<noteq> None \<or> (\<not> HasPrefix t ''{'' \<and> \<not> HasPrefix t ''['')
                then sendOnlyHint else [])))
      else Inr t)"

definition extractStructuredOutput :: "outputEnv \<Rightarrow> string \<Rightarrow> outputError + string" where
  "extractStructuredOutput env text' =
     (let t = TrimSpace text' in
      if t = [] then Inl (Rejected ''the final message has no text; it must be a single JSON document'')
      else if HasPrefix t fence then
        (case IndexByte t nl of
           None \<Rightarrow> Inl (Rejected ''the fenced block has no content'')
         | Some newline \<Rightarrow>
             let lang = TrimSpace (slice t 3 newline); body = drop (Suc newline) t in
             if lang \<noteq> [] \<and> \<not> oeFold env lang ''json''
             then Inl (Rejected (''the fenced block is tagged '' @ oeShow env lang
                         @ ''; tag it json or send the bare document''))
             else if \<not> HasSuffix body fence
             then Inl (Rejected (''the final message must be only the fenced JSON block, ''
                         @ ''with nothing after its closing fence''))
             else checkDocument env (TrimSpace (TrimSuffix body fence)))
      else checkDocument env t)"

record keyContainer =
  kcKeys :: "string list option"
  kcWantKey :: bool

fun valueDone :: "keyContainer list \<Rightarrow> keyContainer list" where
  "valueDone [] = []"
| "valueDone (c # stack) = (if kcKeys c \<noteq> None then c\<lparr>kcWantKey := True\<rparr> # stack else c # stack)"

definition wantsKey :: "keyContainer list \<Rightarrow> bool" where
  "wantsKey stack = (stack \<noteq> [] \<and> kcWantKey (hd stack))"

definition seenKeys :: "keyContainer \<Rightarrow> string list" where
  "seenKeys c = (case kcKeys c of None \<Rightarrow> [] | Some ks \<Rightarrow> ks)"

fun duplicateLoop :: "jtok list \<Rightarrow> keyContainer list \<Rightarrow> string option" where
  "duplicateLoop [] stack = None"
| "duplicateLoop (TString key # toks) stack =
     (if wantsKey stack then
        if key \<in> set (seenKeys (hd stack)) then Some key
        else duplicateLoop toks ((hd stack)\<lparr>kcKeys := Some (key # seenKeys (hd stack)), kcWantKey := False\<rparr> # tl stack)
      else duplicateLoop toks (valueDone stack))"
| "duplicateLoop (TDelim d # toks) stack =
     (if d = CHR ''{'' then duplicateLoop toks (\<lparr>kcKeys = Some [], kcWantKey = True\<rparr> # stack)
      else if d = CHR ''['' then duplicateLoop toks (\<lparr>kcKeys = None, kcWantKey = False\<rparr> # stack)
      else duplicateLoop toks (valueDone (tl stack)))"
| "duplicateLoop (TOther # toks) stack = duplicateLoop toks (valueDone stack)"

definition duplicateKey :: "outputEnv \<Rightarrow> string \<Rightarrow> string option" where
  "duplicateKey env doc = duplicateLoop (oeTokens env doc) []"

text \<open>The index of the quote that closes a literal, from the byte after its opening quote.\<close>

fun literalEnd :: "string \<Rightarrow> nat option" where
  "literalEnd [] = None"
| "literalEnd (c # s) =
     (if c = CHR 0x22 then Some 0
      else if c = CHR 0x5C then (case s of [] \<Rightarrow> None | _ # s' \<Rightarrow> map_option (\<lambda>n. n + 2) (literalEnd s'))
      else map_option Suc (literalEnd s))"

lemma literalEnd_less: "literalEnd s = Some n \<Longrightarrow> n < length s"
proof (induction s arbitrary: n rule: literalEnd.induct)
  case (2 c s)
  then show ?case
    by (cases s) (auto split: if_splits)
qed simp

definition scrubLiteral :: "outputEnv \<Rightarrow> string \<Rightarrow> string" where
  "scrubLiteral env literal =
     (case oeUnquote env literal of
        None \<Rightarrow> literal
      | Some s \<Rightarrow>
          let scrubbed = oeScrub env s in
          if scrubbed = s then literal
          else (case oeQuote env scrubbed of
                  None \<Rightarrow> literal
                | Some enc \<Rightarrow> TrimSuffix enc [nl]))"

function scrubJSONStrings :: "outputEnv \<Rightarrow> string \<Rightarrow> string" where
  "scrubJSONStrings env doc =
     (case doc of
        [] \<Rightarrow> []
      | c # rest \<Rightarrow>
          if c \<noteq> CHR 0x22 then c # scrubJSONStrings env rest
          else (case literalEnd rest of
                  None \<Rightarrow> doc
                | Some n \<Rightarrow> scrubLiteral env (take (n + 2) doc) @ scrubJSONStrings env (drop (n + 2) doc)))"
  by pat_completeness auto
termination
  by (relation "measure (\<lambda>(_, doc). length doc)") (auto dest: literalEnd_less)

declare scrubJSONStrings.simps [simp del]

definition schemaViolationText :: "string \<Rightarrow> string" where
  "schemaViolationText msg =
     (case IndexByte msg nl of
        Some i \<Rightarrow>
          (let details = drop (Suc i) msg in
           if TrimSpace details \<noteq> []
           then ''the JSON document does not satisfy the schema:'' @ [nl] @ details else msg)
      | None \<Rightarrow> msg)"

definition redactedText :: string where
  "redactedText = ''scrubbing secrets from the JSON document broke it''"

definition checkStructuredOutput :: "outputEnv \<Rightarrow> string \<Rightarrow> string \<Rightarrow> int \<Rightarrow> outputError + string" where
  "checkStructuredOutput env text' schema maxBytes =
     (case extractStructuredOutput env text' of
        Inl e \<Rightarrow> Inl e
      | Inr doc \<Rightarrow>
          (case oeCompact env doc of
             Inl err \<Rightarrow> Inl (Rejected (notSingleDocument @ err))
           | Inr compact \<Rightarrow>
               (case oeReserved env compact of
                  Inl err \<Rightarrow> Inl (Rejected (notSingleDocument @ err))
                | Inr (key # _) \<Rightarrow>
                    Inl (Rejected (''the JSON document uses the reserved key '' @ oeShow env key @ ''; rename it''))
                | Inr [] \<Rightarrow>
                    (case duplicateKey env compact of
                       Some key \<Rightarrow>
                         Inl (Rejected (''the JSON document repeats the key '' @ oeShow env key @ '' in one object''))
                     | None \<Rightarrow>
                         (case oeValidate env compact schema of
                            Some err \<Rightarrow> Inl (Rejected (schemaViolationText err))
                          | None \<Rightarrow>
                              let scrubbed = scrubJSONStrings env compact in
                              if len scrubbed > maxBytes
                              then Inl (Rejected (''the JSON document is '' @ Itoa (len scrubbed) @ '' bytes, over the ''
                                     @ Itoa maxBytes @ ''-byte limit; return a smaller document''))
                              else if scrubbed = compact then Inr scrubbed
                              else (case duplicateKey env scrubbed of
                                      Some key \<Rightarrow>
                                        Inl (Redacted (redactedText @ '': two keys became '' @ oeShow env key))
                                    | None \<Rightarrow>
                                        (case oeValidate env scrubbed schema of
                                           Some err \<Rightarrow> Inl (Redacted (redactedText @ '': '' @ schemaViolationText err))
                                         | None \<Rightarrow> Inr scrubbed)))))))"

definition errorText :: "outputError \<Rightarrow> string" where
  "errorText e = (case e of Redacted t \<Rightarrow> t | Rejected t \<Rightarrow> t)"

definition structuredOutputViolation :: "outputEnv \<Rightarrow> outputError \<Rightarrow> string" where
  "structuredOutputViolation env e =
     fst (CapFinalAssistantText (oeScrub env (errorText e)) maxStructuredOutputViolationBytes)"

definition structuredOutputCorrection :: "string \<Rightarrow> string" where
  "structuredOutputCorrection violation =
     ''Your final message did not satisfy the required output schema: '' @ violation @ [nl, nl]
     @ ''Reply with only a JSON document that conforms to the schema in <output_schema> (a single ''
     @ fence @ ''json fenced block is also accepted).''"

section \<open>Verifier attempts (verification.go)\<close>

definition verificationTextMaxBytes :: int where "verificationTextMaxBytes = 4096"

text \<open>
  A value of \<open>Details\<close>. A value outside the JSON-native shapes is what its JSON round trip decodes to,
  or \<^const>\<open>None\<close> when it has none, with the name of its Go type.
\<close>

datatype detail =
    DAtom string
  | DString string
  | DMap "(string \<times> detail) list"
  | DList "detail list"
  | DForeign "detail option" string

record VerificationResult =
  vrAttempt :: nat
  vrPassed :: bool
  vrFeedback :: string
  vrError :: string
  vrDetails :: "(string \<times> detail) list option"

definition verifierRecorded :: "string \<Rightarrow> bool" where
  "verifierRecorded verifierType = (verifierType \<noteq> [] \<and> verifierType \<noteq> ''none'')"

definition boundVerificationText :: "(string \<Rightarrow> string) \<Rightarrow> string \<Rightarrow> string" where
  "boundVerificationText scrub s = fst (CapFinalAssistantText (scrub s) verificationTextMaxBytes)"

primrec boundVerificationValue :: "(string \<Rightarrow> string) \<Rightarrow> detail \<Rightarrow> detail" where
  "boundVerificationValue scrub (DAtom a) = DAtom a"
| "boundVerificationValue scrub (DString s) = DString (boundVerificationText scrub s)"
| "boundVerificationValue scrub (DMap kvs) = DMap (map (map_prod id (boundVerificationValue scrub)) kvs)"
| "boundVerificationValue scrub (DList vs) = DList (map (boundVerificationValue scrub) vs)"
| "boundVerificationValue scrub (DForeign d ty) =
     (case map_option (boundVerificationValue scrub) d of
        None \<Rightarrow> DString (''[unrecordable '' @ ty @ '']'')
      | Some v \<Rightarrow> v)"

definition boundVerificationDetails ::
  "(string \<Rightarrow> string) \<Rightarrow> (string \<times> detail) list option \<Rightarrow> (string \<times> detail) list option" where
  "boundVerificationDetails scrub details =
     map_option (map (map_prod id (boundVerificationValue scrub))) details"

definition boundedVerificationResult ::
  "(string \<Rightarrow> string) \<Rightarrow> nat \<Rightarrow> VerificationResult \<Rightarrow> VerificationResult" where
  "boundedVerificationResult scrub attempt vr =
     \<lparr>vrAttempt = attempt, vrPassed = vrPassed vr, vrFeedback = boundVerificationText scrub (vrFeedback vr),
      vrError = boundVerificationText scrub (vrError vr), vrDetails = boundVerificationDetails scrub (vrDetails vr)\<rparr>"

text \<open>The strings of a value that are not map keys.\<close>

primrec detailStrings :: "detail \<Rightarrow> string list" where
  "detailStrings (DAtom a) = []"
| "detailStrings (DString s) = [s]"
| "detailStrings (DMap kvs) = concat (map snd (map (map_prod id detailStrings) kvs))"
| "detailStrings (DList vs) = concat (map detailStrings vs)"
| "detailStrings (DForeign d ty) = (case map_option detailStrings d of None \<Rightarrow> [] | Some ss \<Rightarrow> ss)"

lemma boundVerificationValue_strings:
  "s \<in> set (detailStrings (boundVerificationValue scrub v)) \<Longrightarrow>
     (\<exists>t. s = boundVerificationText scrub t) \<or> (\<exists>ty. s = ''[unrecordable '' @ ty @ '']'')"
proof (induction v arbitrary: s)
  case (DMap kvs)
  then show ?case by (fastforce simp: snds.simps)
next
  case (DForeign d ty)
  then show ?case by (cases d) auto
qed auto

section \<open>Repeated keys\<close>

datatype jval = JOther | JStr string | JArr "jval list" | JObj "(string \<times> jval) list"

primrec tokensOf :: "jval \<Rightarrow> jtok list" where
  "tokensOf JOther = [TOther]"
| "tokensOf (JStr s) = [TString s]"
| "tokensOf (JArr vs) = TDelim (CHR ''['') # concat (map tokensOf vs) @ [TDelim (CHR '']'')]"
| "tokensOf (JObj kvs) =
     TDelim (CHR ''{'') # concat (map (\<lambda>kv. TString (fst kv) # snd kv) (map (map_prod id tokensOf) kvs))
     @ [TDelim (CHR ''}'')]"

primrec repeatedKeys :: "jval \<Rightarrow> string set" where
  "repeatedKeys JOther = {}"
| "repeatedKeys (JStr s) = {}"
| "repeatedKeys (JArr vs) = (\<Union> (set (map repeatedKeys vs)))"
| "repeatedKeys (JObj kvs) =
     {k. 1 < count_list (map fst kvs) k} \<union> (\<Union> (set (map snd (map (map_prod id repeatedKeys) kvs))))"

definition entryTokens :: "string \<times> jval \<Rightarrow> jtok list" where
  "entryTokens kv = TString (fst kv) # tokensOf (snd kv)"

lemma tokensOf_obj:
  "tokensOf (JObj kvs) = TDelim (CHR ''{'') # concat (map entryTokens kvs) @ [TDelim (CHR ''}'')]"
  by (simp add: entryTokens_def [abs_def] o_def)

lemma repeatedKeys_obj:
  "repeatedKeys (JObj kvs) = {k. 1 < count_list (map fst kvs) k} \<union> (\<Union>kv \<in> set kvs. repeatedKeys (snd kv))"
  by (auto simp: o_def)

text \<open>
  What a scan says: it goes on as \<open>cont\<close> when there is no repeated key, and stops at one otherwise.
\<close>

definition scanSays :: "string set \<Rightarrow> string option \<Rightarrow> string option \<Rightarrow> bool" where
  "scanSays R r cont = (if R = {} then r = cont else \<exists>k \<in> R. r = Some k)"

lemma scanSays_seq: "scanSays A r r' \<Longrightarrow> scanSays B r' cont \<Longrightarrow> scanSays (A \<union> B) r cont"
  by (auto simp: scanSays_def split: if_splits)

lemma scanSays_empty [simp]: "scanSays {} r cont \<longleftrightarrow> r = cont"
  by (simp add: scanSays_def)

lemma scanSays_hit: "k \<in> R \<Longrightarrow> r = Some k \<Longrightarrow> scanSays R r cont"
  by (auto simp: scanSays_def)

definition scansValue :: "jval \<Rightarrow> bool" where
  "scansValue v =
     (\<forall>rest stack. \<not> wantsKey stack \<longrightarrow>
        scanSays (repeatedKeys v) (duplicateLoop (tokensOf v @ rest) stack) (duplicateLoop rest (valueDone stack)))"

lemma scans_array:
  assumes "\<And>v. v \<in> set vs \<Longrightarrow> scansValue v"
  shows "scanSays (\<Union>v \<in> set vs. repeatedKeys v)
           (duplicateLoop (concat (map tokensOf vs) @ TDelim (CHR '']'') # rest) (\<lparr>kcKeys = None, kcWantKey = False\<rparr> # stack))
           (duplicateLoop rest (valueDone stack))"
  using assms
proof (induction vs)
  case (Cons v vs)
  let ?s = "\<lparr>kcKeys = None, kcWantKey = False\<rparr> # stack"
  let ?r = "concat (map tokensOf vs) @ TDelim (CHR '']'') # rest"
  have s: "valueDone ?s = ?s" "\<not> wantsKey ?s"
    by (simp_all add: wantsKey_def)
  have "scanSays (repeatedKeys v) (duplicateLoop (tokensOf v @ ?r) ?s) (duplicateLoop ?r ?s)"
    using Cons.prems [of v] s unfolding scansValue_def by (metis list.set_intros(1))
  from scanSays_seq [OF this Cons.IH] show ?case
    using Cons.prems by simp
qed simp

lemma scans_object:
  assumes "\<And>kv. kv \<in> set kvs \<Longrightarrow> scansValue (snd kv)"
  shows "scanSays ({k. k \<in> set (map fst kvs) \<and> (k \<in> set ks \<or> 1 < count_list (map fst kvs) k)}
                     \<union> (\<Union>kv \<in> set kvs. repeatedKeys (snd kv)))
           (duplicateLoop (concat (map entryTokens kvs) @ TDelim (CHR ''}'') # rest)
              (\<lparr>kcKeys = Some ks, kcWantKey = True\<rparr> # stack))
           (duplicateLoop rest (valueDone stack))"
  using assms
proof (induction kvs arbitrary: ks)
  case (Cons kv kvs)
  obtain k v where kv: "kv = (k, v)" by fastforce
  let ?s = "\<lparr>kcKeys = Some (k # ks), kcWantKey = False\<rparr> # stack"
  let ?s' = "\<lparr>kcKeys = Some (k # ks), kcWantKey = True\<rparr> # stack"
  let ?r = "concat (map entryTokens kvs) @ TDelim (CHR ''}'') # rest"
  let ?R = "\<lambda>ks kvs. {k. k \<in> set (map fst kvs) \<and> (k \<in> set ks \<or> 1 < count_list (map fst kvs) k)}
                  \<union> (\<Union>kv \<in> set kvs. repeatedKeys (snd kv))"
  let ?l = "duplicateLoop (concat (map entryTokens (kv # kvs)) @ TDelim (CHR ''}'') # rest)
              (\<lparr>kcKeys = Some ks, kcWantKey = True\<rparr> # stack)"
  show ?case
  proof (cases "k \<in> set ks")
    case True
    then show ?thesis
      by (intro scanSays_hit [of k]) (simp_all add: kv entryTokens_def wantsKey_def seenKeys_def)
  next
    case False
    then have l: "?l = duplicateLoop (tokensOf v @ ?r) ?s"
      by (simp add: kv entryTokens_def wantsKey_def seenKeys_def)
    have s: "valueDone ?s = ?s'" "\<not> wantsKey ?s"
      by (simp_all add: wantsKey_def)
    have "scanSays (repeatedKeys v) ?l (duplicateLoop ?r ?s')"
      using Cons.prems [of kv] s unfolding scansValue_def l by (metis kv list.set_intros(1) snd_conv)
    from scanSays_seq [OF this Cons.IH [of "k # ks"]]
    have "scanSays (repeatedKeys v \<union> ?R (k # ks) kvs) ?l (duplicateLoop rest (valueDone stack))"
      using Cons.prems by simp
    moreover have "repeatedKeys v \<union> ?R (k # ks) kvs = ?R ks (kv # kvs)"
    proof -
      have "1 < count_list (map fst (kv # kvs)) x \<longleftrightarrow>
            (if x = k then k \<in> set (map fst kvs) else 1 < count_list (map fst kvs) x)" for x
        using count_list_0_iff [of "map fst kvs" k] by (auto simp: kv)
      then show ?thesis
        using False by (auto simp: kv split: if_splits)
    qed
    ultimately show ?thesis
      by simp
  qed
qed simp

lemma scans_value: "scansValue v"
proof (induction v)
  case (JArr vs)
  then show ?case
    using scans_array [of vs] by (auto simp: scansValue_def)
next
  case (JObj kvs)
  have values': "scansValue (snd kv)" if "kv \<in> set kvs" for kv
    using JObj [of kv "snd kv"] that by (simp add: snds.simps)
  have "1 < count_list (map fst kvs) x \<Longrightarrow> x \<in> set (map fst kvs)" for x
    by (metis count_list_0_iff less_nat_zero_code)
  then have keys: "{k. 1 < count_list (map fst kvs) k}
      = {k. k \<in> set (map fst kvs) \<and> (k \<in> set [] \<or> 1 < count_list (map fst kvs) k)}"
    by auto
  have "scanSays (repeatedKeys (JObj kvs))
          (duplicateLoop (concat (map entryTokens kvs) @ TDelim (CHR ''}'') # rest)
             (\<lparr>kcKeys = Some [], kcWantKey = True\<rparr> # stack)) (duplicateLoop rest (valueDone stack))" for rest stack
    unfolding repeatedKeys_obj keys by (rule scans_object [OF values'])
  then show ?case
    by (simp add: scansValue_def tokensOf_obj del: tokensOf.simps repeatedKeys.simps)
qed (simp_all add: scansValue_def)

text \<open>
  The duplicate-key scan finds repeated keys and nothing else. On the token stream of any JSON value
  it returns a key exactly when some object of the value, however deeply nested, has a key twice, and
  the key it returns is such a key; strings in value position are never mistaken for keys.
\<close>

theorem duplicate_key_scan:
  assumes "oeTokens env doc = tokensOf v"
  shows "(duplicateKey env doc = None \<longleftrightarrow> repeatedKeys v = {})
         \<and> (\<forall>k. duplicateKey env doc = Some k \<longrightarrow> k \<in> repeatedKeys v)"
proof -
  have "scanSays (repeatedKeys v) (duplicateKey env doc) None"
    using scans_value [of v, unfolded scansValue_def, rule_format, of "[]" "[]"] assms
    by (simp add: duplicateKey_def wantsKey_def)
  then show ?thesis
    by (auto simp: scanSays_def split: if_splits)
qed

definition sampleOutputEnv :: outputEnv where
  "sampleOutputEnv =
     \<lparr>oeValid = (\<lambda>_. True), oeError = (\<lambda>_. []), oeCompact = Inr,
      oeTokens = (\<lambda>_. tokensOf (JArr [JObj [(''a'', JStr ''b''), (''b'', JObj [(''a'', JOther)])], JObj [(''c'', JOther), (''c'', JOther)]])),
      oeUnquote = (\<lambda>l. Some (slice l 1 (length l - 1))), oeQuote = (\<lambda>s. Some (CHR 0x22 # s @ [CHR 0x22, nl])),
      oeReserved = (\<lambda>_. Inr []), oeValidate = (\<lambda>_ _. None), oeScrub = (\<lambda>s. if s = ''secret'' then ''***'' else s),
      oeShow = id, oeFold = (=)\<rparr>"

theorem duplicate_key_scan_witness:
  "duplicateKey sampleOutputEnv [] = Some ''c''"
proof -
  let ?v = "JArr [JObj [(''a'', JStr ''b''), (''b'', JObj [(''a'', JOther)])], JObj [(''c'', JOther), (''c'', JOther)]]"
  have "oeTokens sampleOutputEnv [] = tokensOf ?v"
    by (simp add: sampleOutputEnv_def)
  moreover have "''c'' \<in> repeatedKeys ?v"
    by simp
  ultimately obtain k where k: "duplicateKey sampleOutputEnv [] = Some k" "k \<in> repeatedKeys ?v"
    using duplicate_key_scan by (metis empty_iff option.exhaust)
  then have "k = ''c''"
    by (auto split: if_splits)
  then show ?thesis
    using k(1) by simp
qed

section \<open>Scrubbing a document\<close>

text \<open>A document as its literals and what lies between them; a literal's body is its bytes between the quotes.\<close>

datatype segment = Plain string | Literal string

fun wellEscaped :: "string \<Rightarrow> bool" where
  "wellEscaped [] = True"
| "wellEscaped (c # s) =
     (if c = CHR 0x5C then (case s of [] \<Rightarrow> False | _ # s' \<Rightarrow> wellEscaped s') else c \<noteq> CHR 0x22 \<and> wellEscaped s)"

fun segmentOk :: "segment \<Rightarrow> bool" where
  "segmentOk (Plain s) = (CHR 0x22 \<notin> set s)"
| "segmentOk (Literal b) = wellEscaped b"

definition quoted :: "string \<Rightarrow> string" where
  "quoted b = CHR 0x22 # b @ [CHR 0x22]"

fun renderSegment :: "segment \<Rightarrow> string" where
  "renderSegment (Plain s) = s"
| "renderSegment (Literal b) = quoted b"

fun scrubSegment :: "outputEnv \<Rightarrow> segment \<Rightarrow> string" where
  "scrubSegment env (Plain s) = s"
| "scrubSegment env (Literal b) = scrubLiteral env (quoted b)"

lemma literalEnd_body: "wellEscaped b \<Longrightarrow> literalEnd (b @ CHR 0x22 # t) = Some (length b)"
proof (induction b rule: wellEscaped.induct)
  case (2 c s)
  then show ?case
    by (cases s) (auto split: if_splits)
qed simp

lemma scrub_plain: "CHR 0x22 \<notin> set s \<Longrightarrow> scrubJSONStrings env (s @ t) = s @ scrubJSONStrings env t"
proof (induction s)
  case (Cons c s)
  then show ?case
    by (subst scrubJSONStrings.simps) auto
qed simp

lemma scrub_literal:
  assumes "wellEscaped b"
  shows "scrubJSONStrings env (quoted b @ t) = scrubLiteral env (quoted b) @ scrubJSONStrings env t"
  using literalEnd_body [OF assms, of t]
  by (subst scrubJSONStrings.simps) (simp add: quoted_def)

lemma scrub_segments:
  "list_all segmentOk segs \<Longrightarrow>
     scrubJSONStrings env (concat (map renderSegment segs)) = concat (map (scrubSegment env) segs)"
proof (induction segs)
  case Nil
  show ?case by (subst scrubJSONStrings.simps) simp
next
  case (Cons seg segs)
  then show ?case
    by (cases seg) (simp_all add: scrub_plain scrub_literal)
qed

text \<open>
  C35: a structured output is the document the schema admits, scrubbed. When a final answer is accepted,
  the document returned is the compacted answer with each string literal scrubbed on its own and every
  other byte kept, it is within the size limit, it repeats no key, and the validator accepts it as
  returned, that is, after scrubbing.
\<close>

theorem structured_output_sound:
  assumes "checkStructuredOutput env text' schema maxBytes = Inr doc"
    and "\<forall>d c. extractStructuredOutput env text' = Inr d \<longrightarrow> oeCompact env d = Inr c \<longrightarrow>
           (\<exists>segs. list_all segmentOk segs \<and> c = concat (map renderSegment segs))"
  shows "oeValidate env doc schema = None \<and> len doc \<le> maxBytes \<and> duplicateKey env doc = None
         \<and> (\<exists>segs d. extractStructuredOutput env text' = Inr d \<and> oeCompact env d = Inr (concat (map renderSegment segs))
              \<and> oeReserved env (concat (map renderSegment segs)) = Inr []
              \<and> list_all segmentOk segs \<and> doc = concat (map (scrubSegment env) segs))"
proof -
  obtain d where d: "extractStructuredOutput env text' = Inr d"
    using assms(1) by (auto simp: checkStructuredOutput_def split: sum.splits)
  then obtain c where c: "oeCompact env d = Inr c"
    using assms(1) by (auto simp: checkStructuredOutput_def split: sum.splits)
  then obtain segs where segs: "list_all segmentOk segs" "c = concat (map renderSegment segs)"
    using assms(2) d by blast
  have r: "oeReserved env c = Inr []" "duplicateKey env c = None" "oeValidate env c schema = None"
    using assms(1) d c by (auto simp: checkStructuredOutput_def split: sum.splits list.splits option.splits)
  have doc: "doc = scrubJSONStrings env c" "len doc \<le> maxBytes" "duplicateKey env doc = None" "oeValidate env doc schema = None"
    using assms(1) d c r by (auto simp: checkStructuredOutput_def Let_def split: if_splits option.splits)
  then show ?thesis
    using d c segs r(1) scrub_segments [OF segs(1), of env] by auto
qed

theorem structured_output_sound_witness:
  "checkStructuredOutput (sampleOutputEnv\<lparr>oeTokens := \<lambda>_. []\<rparr>)
     ('' {'' @ quoted ''k'' @ '':'' @ quoted ''secret'' @ ''}'') [] 100
     = Inr (''{'' @ quoted ''k'' @ '':'' @ quoted ''***'' @ ''}'')
   \<and> duplicateKey (sampleOutputEnv\<lparr>oeTokens := \<lambda>_. []\<rparr>) (''{'' @ quoted ''k'' @ '':'' @ quoted ''***'' @ ''}'') = None"
proof -
  let ?env = "sampleOutputEnv\<lparr>oeTokens := \<lambda>_. []\<rparr>"
  let ?t = "'' {'' @ quoted ''k'' @ '':'' @ quoted ''secret'' @ ''}''"
  let ?d = "''{'' @ quoted ''k'' @ '':'' @ quoted ''secret'' @ ''}''"
  let ?segs = "[Plain ''{'', Literal ''k'', Plain '':'', Literal ''secret'', Plain ''}'']"
  have c: "checkStructuredOutput ?env ?t [] 100 = Inr (''{'' @ quoted ''k'' @ '':'' @ quoted ''***'' @ ''}'')"
    by code_simp
  have e: "extractStructuredOutput ?env ?t = Inr ?d"
    by code_simp
  have "\<exists>segs. list_all segmentOk segs \<and> c = concat (map renderSegment segs)"
    if "extractStructuredOutput ?env ?t = Inr d" "oeCompact ?env d = Inr c" for d c
  proof -
    have "c = ?d"
      using that e by (simp add: sampleOutputEnv_def)
    then show ?thesis
      by (intro exI [of _ ?segs]) simp
  qed
  then have "\<forall>d c. extractStructuredOutput ?env ?t = Inr d \<longrightarrow> oeCompact ?env d = Inr c \<longrightarrow>
      (\<exists>segs. list_all segmentOk segs \<and> c = concat (map renderSegment segs))"
    by blast
  from structured_output_sound [OF c this] c show ?thesis
    by blast
qed

section \<open>What is recorded of a verifier attempt\<close>

text \<open>
  Every string of the record that is not a key of \<open>Details\<close> is the cap of a scrubbed text, or names a
  type the JSON encoder refuses.
\<close>

lemma verification_record_bounded:
  assumes "r = boundedVerificationResult scrub attempt vr"
    and "s = vrFeedback r \<or> s = vrError r
         \<or> (\<exists>kvs k v. vrDetails r = Some kvs \<and> (k, v) \<in> set kvs \<and> s \<in> set (detailStrings v))"
  shows "((\<exists>t. s = fst (CapFinalAssistantText (scrub t) verificationTextMaxBytes))
            \<and> length s \<le> 4096 + length finalAssistantTextTruncationMarker)
         \<or> (\<exists>ty. s = ''[unrecordable '' @ ty @ '']'')"
proof -
  have "(\<exists>t. s = boundVerificationText scrub t) \<or> (\<exists>ty. s = ''[unrecordable '' @ ty @ '']'')"
    using assms boundVerificationValue_strings [of s scrub]
    by (auto simp: boundedVerificationResult_def boundVerificationDetails_def)
  then show ?thesis
    using CapFinalAssistantText_length [of _ verificationTextMaxBytes]
    by (auto simp: boundVerificationText_def verificationTextMaxBytes_def)
qed

text \<open>The keys of \<open>Details\<close>, at every depth, are recorded as the verifier sent them.\<close>

lemma verification_keys_verbatim:
  "map fst (the (vrDetails (boundedVerificationResult scrub attempt (vr\<lparr>vrDetails := Some kvs\<rparr>)))) = map fst kvs"
  by (simp add: boundedVerificationResult_def boundVerificationDetails_def)

end
