(* ===== verification/Lifecycle_Hooks.thy ===== *)
theory Lifecycle_Hooks
  imports Go_Prelude
begin

text \<open>
  Lifecycle hooks: the runner of \<open>hook/runner.go\<close>, the timeouts of \<open>types/runconfig.go\<close> and the budget and
  warning of \<open>core/loop.go\<close>. The executor is a function on a world that the commands change; what it returns
  is an error, with the result if there is one, or a result. Durations are nanoseconds; the recorded wall time
  and the log lines are left out.
\<close>

section \<open>Configuration and results\<close>

record HookConfig =
  hkName :: string
  hkCommand :: string
  hkTimeoutSeconds :: int
  hkContinueOnError :: bool
  hkRunOn :: string

record HookExecution =
  hxPhase :: string
  hxIndex :: nat
  hxName :: string
  hxCommand :: string
  hxExitCode :: int
  hxTimedOut :: bool
  hxSkipped :: bool
  hxContinuedOnError :: bool
  hxError :: string
  hxOutputTail :: string
  hxTruncated :: bool

definition hookFailed :: "HookExecution \<Rightarrow> bool" where
  "hookFailed h = (hxError h \<noteq> [])"

definition DefaultHookTimeoutSeconds :: int where "DefaultHookTimeoutSeconds = 300"

definition EffectiveHookTimeout :: "HookConfig \<Rightarrow> int" where
  "EffectiveHookTimeout h = (if hkTimeoutSeconds h = 0 then DefaultHookTimeoutSeconds else hkTimeoutSeconds h)"

definition secondNs :: int where "secondNs = 1000000000"

definition postHookBudget :: "HookConfig list option \<Rightarrow> int" where
  "postHookBudget postRun =
     (let sum = (case postRun of None \<Rightarrow> 0 | Some hooks \<Rightarrow> sum_list (map EffectiveHookTimeout hooks))
      in sum * secondNs + 30 * secondNs)"

record execResult =
  xrExitCode :: int
  xrStdout :: string
  xrStderr :: string

text \<open>An executor error has a text and is or is not the timeout error.\<close>

record 'w hookEnv =
  heExec :: "(string \<Rightarrow> int \<Rightarrow> 'w \<Rightarrow> ((execResult option \<times> string \<times> bool) + execResult) \<times> 'w) option"
  heMaxTimeout :: int
  heScrub :: "string \<Rightarrow> string"

section \<open>The runner (hook/runner.go)\<close>

definition maxOutputTailBytes :: nat where "maxOutputTailBytes = 4 * 1024"
definition UTFMax :: nat where "UTFMax = 4"

fun trimRunes :: "nat \<Rightarrow> string \<Rightarrow> string" where
  "trimRunes (Suc n) (c # s) = (if RuneStart c then c # s else trimRunes n s)"
| "trimRunes _ s = s"

definition trimToRuneBoundary :: "string \<Rightarrow> string" where
  "trimToRuneBoundary s = trimRunes UTFMax s"

definition scrubbedTail :: "(string \<Rightarrow> string) \<Rightarrow> string \<Rightarrow> string \<Rightarrow> string \<times> bool" where
  "scrubbedTail scrub stdout stderr =
     (let combined = (if stderr = [] then stdout else if stdout = [] then stderr else stdout @ [nl] @ stderr);
          scrubbed = scrub combined
      in if length scrubbed \<le> maxOutputTailBytes then (scrubbed, False)
         else (trimToRuneBoundary (drop (length scrubbed - maxOutputTailBytes) scrubbed), True))"

definition hookRuns :: "string \<Rightarrow> string \<Rightarrow> bool" where
  "hookRuns runOn outcome =
     (if runOn = ''success'' then outcome = ''success''
      else if runOn = ''failure'' then outcome \<noteq> ''success''
      else True)"

definition hookLabel :: "HookConfig \<Rightarrow> string" where
  "hookLabel h = (if hkName h \<noteq> [] then hkName h else ''unnamed'')"

definition hookTimeout :: "'w hookEnv \<Rightarrow> HookConfig \<Rightarrow> int" where
  "hookTimeout env h =
     (let t = EffectiveHookTimeout h * secondNs
      in if heMaxTimeout env > 0 \<and> t > heMaxTimeout env then heMaxTimeout env else t)"

definition hookEntry :: "string \<Rightarrow> nat \<Rightarrow> HookConfig \<Rightarrow> HookExecution" where
  "hookEntry phase i h =
     \<lparr>hxPhase = phase, hxIndex = i, hxName = hkName h, hxCommand = hkCommand h, hxExitCode = 0, hxTimedOut = False,
      hxSkipped = False, hxContinuedOnError = False, hxError = [], hxOutputTail = [], hxTruncated = False\<rparr>"

definition withResult :: "'w hookEnv \<Rightarrow> execResult \<Rightarrow> HookExecution \<Rightarrow> HookExecution" where
  "withResult env r x =
     (case scrubbedTail (heScrub env) (xrStdout r) (xrStderr r) of
        (t, cutOff) \<Rightarrow> x\<lparr>hxExitCode := xrExitCode r, hxOutputTail := t, hxTruncated := cutOff\<rparr>)"

definition runOne :: "'w hookEnv \<Rightarrow> string \<Rightarrow> nat \<Rightarrow> HookConfig \<Rightarrow> 'w \<Rightarrow> HookExecution \<times> 'w" where
  "runOne env phase i h w =
     (case heExec env of
        None \<Rightarrow> ((hookEntry phase i h)\<lparr>hxError := ''hook runner misconfigured: no executor''\<rparr>, w)
      | Some exec \<Rightarrow>
          (case exec (hkCommand h) (hookTimeout env h) w of
             (Inl (result, err, isTimeout), w') \<Rightarrow>
               (let x = (case result of None \<Rightarrow> hookEntry phase i h | Some r \<Rightarrow> withResult env r (hookEntry phase i h))
                in (x\<lparr>hxTimedOut := isTimeout, hxError := err, hxContinuedOnError := hkContinueOnError h\<rparr>, w'))
           | (Inr r, w') \<Rightarrow>
               (let x = withResult env r (hookEntry phase i h)
                in (if xrExitCode r \<noteq> 0
                    then x\<lparr>hxError := ''exit code '' @ Itoa (xrExitCode r), hxContinuedOnError := hkContinueOnError h\<rparr>
                    else x, w'))))"

definition fatalText :: "string \<Rightarrow> nat \<Rightarrow> HookConfig \<Rightarrow> HookExecution \<Rightarrow> string" where
  "fatalText phase i h x =
     phase @ '' hook '' @ Itoa (int i) @ '' ('' @ hookLabel h @ '') failed: '' @ hxError x"

definition hookSelected :: "string option \<Rightarrow> HookConfig \<Rightarrow> bool" where
  "hookSelected outcome h = (case outcome of None \<Rightarrow> True | Some c \<Rightarrow> hookRuns (hkRunOn h) c)"

text \<open>The loop from index \<open>i\<close>; \<open>outcome\<close> is absent in the phase without a filter.\<close>

fun runHooksFrom ::
  "'w hookEnv \<Rightarrow> string \<Rightarrow> string option \<Rightarrow> nat \<Rightarrow> string option \<Rightarrow> HookConfig list \<Rightarrow> 'w
     \<Rightarrow> HookExecution list \<times> string option \<times> 'w" where
  "runHooksFrom env phase outcome i fatal [] w = ([], fatal, w)"
| "runHooksFrom env phase outcome i fatal (h # hs) w =
     (if \<not> hookSelected outcome h \<or> fatal \<noteq> None
      then (case runHooksFrom env phase outcome (Suc i) fatal hs w of
              (xs, err, w') \<Rightarrow> ((hookEntry phase i h)\<lparr>hxSkipped := True\<rparr> # xs, err, w'))
      else (case runOne env phase i h w of
              (x, w1) \<Rightarrow>
                (case runHooksFrom env phase outcome (Suc i)
                        (if hookFailed x \<and> \<not> hkContinueOnError h then Some (fatalText phase i h x) else None) hs w1 of
                   (xs, err, w') \<Rightarrow> (x # xs, err, w'))))"

definition RunPre :: "'w hookEnv \<Rightarrow> HookConfig list \<Rightarrow> 'w \<Rightarrow> HookExecution list \<times> string option \<times> 'w" where
  "RunPre env hooks w = runHooksFrom env ''preRun'' None 0 None hooks w"

definition RunPost :: "'w hookEnv \<Rightarrow> HookConfig list \<Rightarrow> string \<Rightarrow> 'w \<Rightarrow> HookExecution list \<times> string option \<times> 'w" where
  "RunPost env hooks outcome w = runHooksFrom env ''postRun'' (Some outcome) 0 None hooks w"

section \<open>Warnings (core/loop.go)\<close>

definition formatHookWarning :: "HookExecution \<Rightarrow> string" where
  "formatHookWarning x =
     (let label = hxPhase x @ '' hook '' @ Itoa (int (hxIndex x)) @ (if hxName x \<noteq> [] then '' ('' @ hxName x @ '')'' else [])
      in if hxError x = [] then label @ '' failed and continued'' else label @ '' failed and continued: '' @ hxError x)"

definition hookWarnings :: "HookExecution list \<Rightarrow> string list" where
  "hookWarnings xs = map formatHookWarning (filter hxContinuedOnError xs)"

section \<open>Helper facts\<close>

lemma runOne_fields:
  assumes "runOne env phase i h w = (x, w')"
  shows "hxPhase x = phase" "hxIndex x = i" "hxCommand x = hkCommand h" "\<not> hxSkipped x"
    "hxContinuedOnError x \<Longrightarrow> hkContinueOnError h"
    "(\<exists>exec. heExec env = Some exec) \<Longrightarrow> hxContinuedOnError x \<longleftrightarrow> hkContinueOnError h \<and> (hookFailed x \<or> hxContinuedOnError x)"
  using assms
  by (auto simp: runOne_def hookEntry_def withResult_def Let_def hookFailed_def split: option.splits sum.splits prod.splits if_splits)

lemma trimRunes_suffix: "\<exists>k \<le> n. trimRunes n s = drop k s"
proof (induction n s rule: trimRunes.induct)
  case (1 n c s)
  show ?case
  proof (cases "RuneStart c")
    case True
    then show ?thesis
      by (auto intro: exI [of _ 0])
  next
    case False
    then obtain k where "k \<le> n" "trimRunes n s = drop k s"
      using 1 by blast
    then show ?thesis
      using False by (auto intro: exI [of _ "Suc k"])
  qed
qed auto

lemma scrubbedTail_length: "length (fst (scrubbedTail scrub out err)) \<le> maxOutputTailBytes"
proof -
  have "length (trimRunes UTFMax (drop (length t - m) t)) \<le> m" for t and m :: nat
    using trimRunes_suffix [of UTFMax "drop (length t - m) t"] by auto
  then show ?thesis
    by (simp add: scrubbedTail_def Let_def trimToRuneBoundary_def)
qed

definition fatalAt :: "HookConfig list \<Rightarrow> HookExecution list \<Rightarrow> nat \<Rightarrow> bool" where
  "fatalAt hooks xs k = (hookFailed (xs ! k) \<and> \<not> hxSkipped (xs ! k) \<and> \<not> hkContinueOnError (hooks ! k))"

text \<open>The world after the executed hooks, and nothing else, have run in order.\<close>

definition worldAfter :: "'w hookEnv \<Rightarrow> string \<Rightarrow> (HookConfig \<times> HookExecution) list \<Rightarrow> 'w \<Rightarrow> 'w" where
  "worldAfter env phase pairs w =
     foldl (\<lambda>w (h, x). snd (runOne env phase (hxIndex x) h w)) w (filter (\<lambda>(h, x). \<not> hxSkipped x) pairs)"

lemma runHooksFrom_shape:
  assumes "runHooksFrom env phase outcome i fatal hooks w = (xs, err, w')"
  shows "length xs = length hooks \<and> (\<forall>k < length hooks. hxIndex (xs ! k) = i + k \<and> hxPhase (xs ! k) = phase
      \<and> hxCommand (xs ! k) = hkCommand (hooks ! k)) \<and> w' = worldAfter env phase (zip hooks xs) w"
  using assms
proof (induction hooks arbitrary: i fatal w xs)
  case (Cons h hs)
  show ?case
  proof (cases "\<not> hookSelected outcome h \<or> fatal \<noteq> None")
    case True
    then obtain ys where r: "runHooksFrom env phase outcome (Suc i) fatal hs w = (ys, err, w')"
      and xs: "xs = (hookEntry phase i h)\<lparr>hxSkipped := True\<rparr> # ys"
      using Cons.prems by (auto split: prod.splits)
    show ?thesis
      using Cons.IH [OF r] by (auto simp: xs hookEntry_def worldAfter_def nth_Cons' split: if_splits)
  next
    case False
    obtain x w1 where x: "runOne env phase i h w = (x, w1)"
      by fastforce
    with False obtain ys where r: "runHooksFrom env phase outcome (Suc i)
        (if hookFailed x \<and> \<not> hkContinueOnError h then Some (fatalText phase i h x) else None) hs w1 = (ys, err, w')"
      and xs: "xs = x # ys"
      using Cons.prems by (auto split: prod.splits)
    show ?thesis
      using Cons.IH [OF r] runOne_fields [OF x] x by (auto simp: xs worldAfter_def nth_Cons' split: if_splits)
  qed
qed (simp add: worldAfter_def)

lemma runHooksFrom_fatal:
  "runHooksFrom env phase outcome i (Some e) hooks w = (xs, err, w') \<Longrightarrow>
     err = Some e \<and> w' = w \<and> (\<forall>k < length hooks. hxSkipped (xs ! k))"
proof (induction hooks arbitrary: i xs)
  case (Cons h hs)
  then obtain ys where "runHooksFrom env phase outcome (Suc i) (Some e) hs w = (ys, err, w')"
    "xs = (hookEntry phase i h)\<lparr>hxSkipped := True\<rparr> # ys"
    by (auto split: prod.splits)
  then show ?case
    using Cons.IH by (auto simp: nth_Cons' split: if_splits)
qed simp

lemma runHooksFrom_stops:
  assumes "runHooksFrom env phase outcome i None hooks w = (xs, err, w')"
  shows "case err of
       None \<Rightarrow> \<forall>k < length hooks. hxSkipped (xs ! k) = (\<not> hookSelected outcome (hooks ! k)) \<and> \<not> fatalAt hooks xs k
     | Some e \<Rightarrow> \<exists>j < length hooks. fatalAt hooks xs j \<and> e = fatalText phase (i + j) (hooks ! j) (xs ! j)
         \<and> (\<forall>k < length hooks. hxSkipped (xs ! k) = (\<not> hookSelected outcome (hooks ! k) \<or> j < k))
         \<and> (\<forall>k < j. \<not> fatalAt hooks xs k)"
  using assms
proof (induction hooks arbitrary: i w xs)
  case (Cons h hs)
  have shift: ?case
    if r: "runHooksFrom env phase outcome (Suc i) None hs w1 = (ys, err, w')" and xs: "xs = x # ys"
      and x: "hxSkipped x = (\<not> hookSelected outcome h)" "\<not> (hookFailed x \<and> \<not> hxSkipped x \<and> \<not> hkContinueOnError h)" for w1 ys x
  proof (cases err)
    case None
    then show ?thesis
      using Cons.IH [OF r] x by (auto simp: xs fatalAt_def All_less_Suc2)
  next
    case (Some e)
    then obtain j where j: "j < length hs" "fatalAt hs ys j" "e = fatalText phase (Suc i + j) (hs ! j) (ys ! j)"
      "\<forall>k < length hs. hxSkipped (ys ! k) = (\<not> hookSelected outcome (hs ! k) \<or> j < k)" "\<forall>k < j. \<not> fatalAt hs ys k"
      using Cons.IH [OF r] by auto
    have "\<forall>k < length (h # hs). hxSkipped (xs ! k) = (\<not> hookSelected outcome ((h # hs) ! k) \<or> Suc j < k)"
      using j(4) x by (auto simp: xs less_Suc_eq_0_disj)
    moreover have "\<forall>k < Suc j. \<not> fatalAt (h # hs) xs k"
      using j(5) x by (auto simp: xs fatalAt_def less_Suc_eq_0_disj)
    ultimately show ?thesis
      using j(1,2,3) Some by (auto simp: xs fatalAt_def intro!: exI [of _ "Suc j"])
  qed
  show ?case
  proof (cases "hookSelected outcome h")
    case False
    then obtain ys where "runHooksFrom env phase outcome (Suc i) None hs w = (ys, err, w')"
      "xs = (hookEntry phase i h)\<lparr>hxSkipped := True\<rparr> # ys"
      using Cons.prems by (auto split: prod.splits)
    then show ?thesis
      using shift False by simp
  next
    case True
    obtain x w1 where x: "runOne env phase i h w = (x, w1)"
      by fastforce
    note fields = runOne_fields [OF x]
    show ?thesis
    proof (cases "hookFailed x \<and> \<not> hkContinueOnError h")
      case False
      then obtain ys where "runHooksFrom env phase outcome (Suc i) None hs w1 = (ys, err, w')" "xs = x # ys"
        using Cons.prems True x by (auto split: prod.splits)
      then show ?thesis
        using shift True False fields(4) by blast
    next
      case fatal: True
      then obtain ys where r: "runHooksFrom env phase outcome (Suc i) (Some (fatalText phase i h x)) hs w1 = (ys, err, w')"
        and xs: "xs = x # ys"
        using Cons.prems True x by (auto split: prod.splits)
      have "\<forall>k < length (h # hs). hxSkipped (xs ! k) = (\<not> hookSelected outcome ((h # hs) ! k) \<or> 0 < k)"
        using runHooksFrom_fatal [OF r] True fields(4) by (auto simp: xs less_Suc_eq_0_disj)
      then show ?thesis
        using runHooksFrom_fatal [OF r] fatal fields(4) by (auto simp: xs fatalAt_def intro!: exI [of _ 0])
    qed
  qed
qed simp

section \<open>Properties\<close>

text \<open>
  C39: a phase of hooks runs in order up to its first fatal failure and accounts for every hook. Each
  configured hook has one entry, at its index. Without an error every hook the filter selects has run and none
  failed fatally; with one, the error names the first hook that ran, failed and was not allowed to, the hooks
  before it ran as selected, and those after it did not run. The world afterwards is the one the executed
  commands alone leave.
\<close>

theorem hook_phase_contract:
  assumes "RunPost env hooks outcome w = (xs, err, w')"
  shows "length xs = length hooks \<and> map hxIndex xs = [0..<length hooks] \<and> w' = worldAfter env ''postRun'' (zip hooks xs) w
    \<and> (case err of
         None \<Rightarrow> \<forall>k < length hooks. hxSkipped (xs ! k) = (\<not> hookRuns (hkRunOn (hooks ! k)) outcome) \<and> \<not> fatalAt hooks xs k
       | Some e \<Rightarrow> \<exists>j < length hooks. fatalAt hooks xs j \<and> e = fatalText ''postRun'' j (hooks ! j) (xs ! j)
           \<and> (\<forall>k < length hooks. hxSkipped (xs ! k) = (\<not> hookRuns (hkRunOn (hooks ! k)) outcome \<or> j < k))
           \<and> (\<forall>k < j. \<not> fatalAt hooks xs k))"
proof -
  have r: "runHooksFrom env ''postRun'' (Some outcome) 0 None hooks w = (xs, err, w')"
    using assms by (simp add: RunPost_def)
  have sel: "hookSelected (Some outcome) h = hookRuns (hkRunOn h) outcome" for h
    by (simp add: hookSelected_def)
  note shape = runHooksFrom_shape [OF r] and stops = runHooksFrom_stops [OF r]
  have len: "length xs = length hooks" and idx: "\<And>k. k < length hooks \<Longrightarrow> hxIndex (xs ! k) = k"
    and w: "w' = worldAfter env ''postRun'' (zip hooks xs) w"
    using shape by auto
  have "map hxIndex xs = [0..<length hooks]"
    by (rule nth_equalityI) (simp_all add: len idx)
  then show ?thesis
    using len w stops unfolding sel add_0 by blast
qed

definition sampleHook :: "string \<Rightarrow> bool \<Rightarrow> string \<Rightarrow> HookConfig" where
  "sampleHook command continueOnError runOn =
     \<lparr>hkName = [], hkCommand = command, hkTimeoutSeconds = 0, hkContinueOnError = continueOnError, hkRunOn = runOn\<rparr>"

definition sampleHooks :: "HookConfig list" where
  "sampleHooks = [sampleHook ''lint'' True [], sampleHook ''notify'' False ''failure'', sampleHook ''push'' False [],
     sampleHook ''clean'' False []]"

text \<open>An executor that logs the command and fails all but \<open>clean\<close>.\<close>

definition sampleHookEnv :: "string list hookEnv" where
  "sampleHookEnv = \<lparr>heExec = Some (\<lambda>command t w. (Inr \<lparr>xrExitCode = (if command = ''clean'' then 0 else 2), xrStdout = [], xrStderr = []\<rparr>,
     w @ [command])), heMaxTimeout = 0, heScrub = id\<rparr>"

theorem hook_phase_contract_witness:
  "(case RunPost sampleHookEnv sampleHooks ''success'' [] of
      (xs, err, w) \<Rightarrow> map hxSkipped xs = [False, True, False, True] \<and> w = [''lint'', ''push'']
        \<and> (\<exists>j < 4. fatalAt sampleHooks xs j \<and> err = Some (fatalText ''postRun'' j (sampleHooks ! j) (xs ! j))))"
proof -
  obtain xs err w where r: "RunPost sampleHookEnv sampleHooks ''success'' [] = (xs, err, w)"
    by (metis prod_cases3)
  have "(case RunPost sampleHookEnv sampleHooks ''success'' [] of (xs, err, w) \<Rightarrow> (map hxSkipped xs, err \<noteq> None, w))
      = ([False, True, False, True], True, [''lint'', ''push''])"
    by (simp add: RunPost_def sampleHooks_def sampleHook_def sampleHookEnv_def runOne_def withResult_def hookEntry_def scrubbedTail_def
        hookFailed_def hookSelected_def hookRuns_def fatalText_def hookLabel_def hookTimeout_def Let_def Itoa_def)
  then show ?thesis
    using hook_phase_contract [OF r] r by (fastforce simp: sampleHooks_def split: option.splits)
qed

end
