(* ===== verification/Operator_Input.thy ===== *)
theory Operator_Input
  imports Screening "HOL-Library.Char_ord" "HOL-Library.List_Lexorder"
begin

text \<open>
  Text the control plane sends: the sanitisation of \<open>security/dynamiccontext.go\<close>, the dynamic context
  as \<open>core/loop.go\<close> prepares it for the prompt, and the control routing of \<open>core/userinput.go\<close> and
  \<open>core/streamloss.go\<close>, which queues operator input for a turn boundary and ends the session on a cancel.

  The markup pattern of \<open>dynamiccontext.go\<close> is written out as a matcher, one definition per alternative:
  the bytes it looks for are ASCII, so matching bytes and matching runes is the same. A map is its list of
  entries with distinct keys. Log lines and security events are left out.
\<close>

section \<open>The markup pattern\<close>

definition isLetter :: "char \<Rightarrow> bool" where
  "isLetter c = (let n = of_char c :: nat in (65 \<le> n \<and> n \<le> 90) \<or> (97 \<le> n \<and> n \<le> 122))"

definition isNameChar :: "char \<Rightarrow> bool" where
  "isNameChar c = (isLetter c \<or> isDigit c \<or> c \<in> set '':_-'')"

definition isPatternSpace :: "char \<Rightarrow> bool" where
  "isPatternSpace c = ((of_char c :: nat) \<in> {9, 10, 12, 13, 32})"

text \<open>Each alternative gives the length of its match at the start of the text.\<close>

definition commentEnd :: "string \<Rightarrow> nat option" where
  "commentEnd s =
     (if HasPrefix s ''<!--'' then map_option (\<lambda>i. i + 7) (Index (drop 4 s) ''-->'') else None)"

definition upTo :: "char list \<Rightarrow> string \<Rightarrow> nat option" where
  "upTo stops s =
     (let n = length (takeWhile (\<lambda>c. c \<notin> set stops) s) in if n < length s then Some n else None)"

definition instructionEnd :: "string \<Rightarrow> nat option" where
  "instructionEnd s =
     (if HasPrefix s ''<?''
      then (case upTo ''>'' (drop 2 s) of
              Some n \<Rightarrow> if 0 < n \<and> drop 2 s ! (n - 1) = CHR ''?'' then Some (n + 3) else None
            | None \<Rightarrow> None)
      else None)"

definition declarationEnd :: "string \<Rightarrow> nat option" where
  "declarationEnd s = (if HasPrefix s ''<!'' then map_option (\<lambda>n. n + 3) (upTo ''>'' (drop 2 s)) else None)"

definition tagEnd :: "string \<Rightarrow> nat option" where
  "tagEnd s =
     (if \<not> HasPrefix s ''<'' then None
      else let lead = (if HasPrefix s ''</'' then 2 else 1);
               body = drop lead s;
               n = length (takeWhile isNameChar body)
           in if body = [] \<or> \<not> isLetter (hd body) \<or> length body \<le> n then None
              else if body ! n = CHR ''>'' then Some (lead + n + 1)
              else if isPatternSpace (body ! n)
              then (case upTo ''<>'' (drop n body) of
                      Some k \<Rightarrow> if drop n body ! k = CHR ''>'' then Some (lead + n + k + 1) else None
                    | None \<Rightarrow> None)
              else None)"

definition orElse :: "'a option \<Rightarrow> 'a option \<Rightarrow> 'a option" where
  "orElse a b = (case a of Some x \<Rightarrow> Some x | None \<Rightarrow> b)"

definition markupEnd :: "string \<Rightarrow> nat option" where
  "markupEnd s = orElse (commentEnd s) (orElse (instructionEnd s) (orElse (declarationEnd s) (tagEnd s)))"

lemma HasPrefix_Cons [go_string]: "HasPrefix s (c # p) \<longleftrightarrow> s \<noteq> [] \<and> hd s = c \<and> HasPrefix (tl s) p"
  by (cases s) (auto simp: HasPrefix_def)

lemma HasPrefix_Nil [simp]: "HasPrefix s []"
  by (simp add: HasPrefix_def)

lemma upTo_bound: "upTo stops s = Some n \<Longrightarrow> n < length s"
  by (auto simp: upTo_def Let_def split: if_splits)

lemma markupEnd_shape: "markupEnd s = Some n \<Longrightarrow> 0 < n \<and> n \<le> length s \<and> hd s = CHR ''<''"
  by (auto simp: markupEnd_def orElse_def commentEnd_def instructionEnd_def declarationEnd_def tagEnd_def Let_def go_string
      split: option.splits if_splits dest!: upTo_bound Index_bound)

text \<open>\<open>ReplaceAllString\<close> with the empty string, and \<open>MatchString\<close>.\<close>

function removeMarkup :: "string \<Rightarrow> string" where
  "removeMarkup s =
     (case markupEnd s of
        Some n \<Rightarrow> removeMarkup (drop n s)
      | None \<Rightarrow> (case s of [] \<Rightarrow> [] | c # s' \<Rightarrow> c # removeMarkup s'))"
  by pat_completeness auto
termination
  by (relation "measure length") (auto dest: markupEnd_shape)

declare removeMarkup.simps [simp del]

fun hasMarkup :: "string \<Rightarrow> bool" where
  "hasMarkup [] = False"
| "hasMarkup (c # s) = (markupEnd (c # s) \<noteq> None \<or> hasMarkup s)"

section \<open>Sanitising operator text\<close>

definition MaxOperatorTextBytes :: nat where "MaxOperatorTextBytes = 50000"
definition maxMarkupStripPasses :: nat where "maxMarkupStripPasses = 16"

fun stripPasses :: "nat \<Rightarrow> string \<Rightarrow> string" where
  "stripPasses 0 v = (if hasMarkup v then filter (\<lambda>c. c \<noteq> CHR ''<'') v else v)"
| "stripPasses (Suc n) v = (let next' = removeMarkup v in if next' = v then v else stripPasses n next')"

definition stripMarkup :: "string \<Rightarrow> string" where
  "stripMarkup v = stripPasses maxMarkupStripPasses v"

definition SanitizeOperatorText :: "string \<Rightarrow> string \<times> string list" where
  "SanitizeOperatorText v =
     (let stripped = stripMarkup v;
          why = (if stripped \<noteq> v then [''tags_stripped''] else [])
      in if length stripped > MaxOperatorTextBytes
         then (take MaxOperatorTextBytes stripped, why @ [''truncated''])
         else (stripped, why))"

text \<open>The test on integers, so that evaluation does not count up to the limit.\<close>

lemma SanitizeOperatorText_code [code]:
  "SanitizeOperatorText v =
     (let stripped = stripMarkup v;
          why = (if stripped \<noteq> v then [''tags_stripped''] else [])
      in if int (length stripped) \<le> 50000 then (stripped, why)
         else (take MaxOperatorTextBytes stripped, why @ [''truncated'']))"
  by (auto simp: SanitizeOperatorText_def MaxOperatorTextBytes_def Let_def)

record sanitizationEvent =
  szKey :: string
  szOriginalLength :: nat
  szSanitizedLength :: nat
  szReasons :: "string list"

definition SanitizeDynamicContext :: "(string \<times> string) list \<Rightarrow> (string \<times> string) list \<times> sanitizationEvent list" where
  "SanitizeDynamicContext input =
     (map (\<lambda>(k, v). (k, fst (SanitizeOperatorText v))) input,
      concat (map (\<lambda>(k, v).
        (case SanitizeOperatorText v of
           (s, why) \<Rightarrow>
             if why \<noteq> []
             then [\<lparr>szKey = k, szOriginalLength = length v, szSanitizedLength = length s, szReasons = why\<rparr>]
             else [])) input))"

text \<open>The scan order of \<open>sortedContextValues\<close> is the byte order of the keys.\<close>

definition sortedContextValues :: "(string \<times> string) list \<Rightarrow> string list" where
  "sortedContextValues context = filter (\<lambda>v. v \<noteq> []) (map snd (sort_key fst context))"

definition redactDynamicContext ::
  "screenEnv \<Rightarrow> PatternMonitor option \<Rightarrow> (string \<times> string) list \<Rightarrow> (string \<times> string) list \<times> nat" where
  "redactDynamicContext env mon context =
     (if mon = None then (context, 0)
      else (map (\<lambda>(k, v). case Redact (scDetect env) v of
                   (redacted, n) \<Rightarrow> (k, if n > 0 then fst (SanitizeOperatorText redacted) else v)) context,
            sum_list (map (\<lambda>(k, v). snd (Redact (scDetect env) v)) context)))"

definition fenceDynamicContext :: "screenEnv \<Rightarrow> (string \<times> string) list \<Rightarrow> (string \<times> string) list" where
  "fenceDynamicContext env context =
     concat (map (\<lambda>(k, v). case scScrubSpans env v of
                    (_, ranges, _) \<Rightarrow> if ranges \<noteq> [] then [(k, fenceRanges v ranges)] else []) context)"

text \<open>Repository guidance: the path, the content and the bytes the prompt renders.\<close>

record guidanceDocument =
  gdPath :: string
  gdContent :: string
  gdRenderedBytes :: nat

definition redactRepositoryGuidance ::
  "screenEnv \<Rightarrow> PatternMonitor option \<Rightarrow> guidanceDocument list \<Rightarrow> guidanceDocument list \<times> nat" where
  "redactRepositoryGuidance env mon docs =
     (if mon = None then (docs, 0)
      else (map (\<lambda>d. case Redact (scDetect env) (gdContent d) of
                   (redacted, n) \<Rightarrow>
                     if n > 0 then d\<lparr>gdContent := redacted, gdRenderedBytes := length redacted\<rparr> else d) docs,
            sum_list (map (\<lambda>d. snd (Redact (scDetect env) (gdContent d))) docs)))"

definition guidanceContents :: "guidanceDocument list \<Rightarrow> string list" where
  "guidanceContents docs = filter (\<lambda>c. c \<noteq> []) (map gdContent docs)"

section \<open>Sanitised text holds no markup\<close>

lemma takeWhile_proper: "length (takeWhile P xs) < length xs \<Longrightarrow> takeWhile P (xs @ ys) = takeWhile P xs"
  by (metis nat_neq_iff takeWhile_append1 takeWhile_eq_all_conv)

lemma upTo_append: "upTo stops p = Some n \<Longrightarrow> upTo stops (p @ q) = Some n"
  using takeWhile_proper [of "\<lambda>c. c \<notin> set stops" p q] by (auto simp: upTo_def Let_def split: if_splits)

lemma HasPrefix_append: "HasPrefix p sub \<Longrightarrow> length sub \<le> length p \<and> HasPrefix (p @ q) sub"
  using HasPrefix_length [of p sub] by (auto simp: HasPrefix_def)

lemma Index_append: "Index p sub \<noteq> None \<Longrightarrow> Index (p @ q) sub \<noteq> None"
proof (induction p)
  case Nil
  then have "sub = []"
    by (simp split: if_splits)
  then show ?case
    by (cases q) simp_all
next
  case (Cons c p)
  then show ?case
    using HasPrefix_append [of "c # p" sub q] by (auto split: if_splits)
qed

lemma tagEnd_append: "tagEnd p = Some m \<Longrightarrow> tagEnd (p @ q) \<noteq> None"
proof -
  assume t: "tagEnd p = Some m"
  define lead :: nat where "lead = (if HasPrefix p ''</'' then 2 else 1)"
  define body where "body = drop lead p"
  define n where "n = length (takeWhile isNameChar body)"
  have some: "HasPrefix p ''<''" "body \<noteq> []" "isLetter (hd body)" "n < length body"
    and ends: "body ! n = CHR ''>'' \<or> body ! n \<noteq> CHR ''>'' \<and> isPatternSpace (body ! n)
      \<and> (\<exists>k. upTo ''<>'' (drop n body) = Some k \<and> drop n body ! k = CHR ''>'')"
    using t by (auto simp: tagEnd_def Let_def lead_def body_def n_def split: if_splits option.splits)
  have len: "lead < length p"
    using some(2) by (simp add: body_def)
  then have pre: "HasPrefix (p @ q) ''<''" "HasPrefix (p @ q) ''</'' = HasPrefix p ''</''"
    using some(1) by (cases p; cases "tl p"; auto simp: go_string lead_def)+
  have body': "drop lead (p @ q) = body @ q" "takeWhile isNameChar (body @ q) = takeWhile isNameChar body"
    "(body @ q) ! n = body ! n" "hd (body @ q) = hd body" "drop n (body @ q) = drop n body @ q"
    using len some takeWhile_proper [of isNameChar body q] by (simp_all add: body_def n_def nth_append)
  have more': "upTo ''<>'' (drop n body @ q) = Some k \<and> (drop n body @ q) ! k = drop n body ! k"
    if "upTo ''<>'' (drop n body) = Some k" for k
    using upTo_append [OF that] upTo_bound [OF that] by (simp add: nth_append)
  have "tagEnd (p @ q) =
     (if body ! n = CHR ''>'' then Some (lead + n + 1)
      else if isPatternSpace (body ! n)
      then (case upTo ''<>'' (drop n body @ q) of
              Some k \<Rightarrow> if (drop n body @ q) ! k = CHR ''>'' then Some (lead + n + k + 1) else None
            | None \<Rightarrow> None)
      else None)"
    using some pre(1) body'(3,4)
    unfolding tagEnd_def Let_def pre(2) lead_def [symmetric] body'(1) body'(2) n_def [symmetric] body'(5) by simp
  then show ?thesis
    using ends more' by auto
qed

lemma markupEnd_append:
  assumes "markupEnd p \<noteq> None"
  shows "markupEnd (p @ q) \<noteq> None"
proof -
  consider n where "commentEnd p = Some n" | n where "instructionEnd p = Some n" | n where "declarationEnd p = Some n"
    | n where "tagEnd p = Some n"
    using assms by (auto simp: markupEnd_def orElse_def split: option.splits)
  then show ?thesis
  proof cases
    case 1
    then have "commentEnd (p @ q) \<noteq> None"
      using HasPrefix_append [of p "''<!--''" q] Index_append [of "drop 4 p" "''-->''" q]
      by (auto simp: commentEnd_def split: if_splits)
    then show ?thesis
      by (auto simp: markupEnd_def orElse_def split: option.splits)
  next
    case 2
    then have "instructionEnd (p @ q) \<noteq> None"
      using HasPrefix_append [of p "''<?''" q] upTo_append [of "''>''" "drop 2 p" _ q] upTo_bound [of "''>''" "drop 2 p"]
      by (fastforce simp: instructionEnd_def nth_append split: if_splits option.splits)
    then show ?thesis
      by (auto simp: markupEnd_def orElse_def split: option.splits)
  next
    case 3
    then have "declarationEnd (p @ q) \<noteq> None"
      using HasPrefix_append [of p "''<!''" q] upTo_append [of "''>''" "drop 2 p" _ q]
      by (auto simp: declarationEnd_def split: if_splits)
    then show ?thesis
      by (auto simp: markupEnd_def orElse_def split: option.splits)
  next
    case 4
    then have "tagEnd (p @ q) \<noteq> None"
      by (rule tagEnd_append)
    then show ?thesis
      by (auto simp: markupEnd_def orElse_def split: option.splits)
  qed
qed

lemma hasMarkup_take: "hasMarkup (take n s) \<Longrightarrow> hasMarkup s"
proof (induction s arbitrary: n)
  case (Cons c s)
  then show ?case
    using markupEnd_append [of "take n (c # s)" "drop n (c # s)"] by (cases n) auto
qed simp

lemma hasMarkup_drop: "hasMarkup (drop n s) \<Longrightarrow> hasMarkup s"
  by (induction s arbitrary: n) (auto simp: drop_Cons split: nat.splits)

lemma hasMarkup_bracket: "hasMarkup s \<Longrightarrow> CHR ''<'' \<in> set s"
  by (induction s) (auto dest!: markupEnd_shape)

lemma removeMarkup_length: "length (removeMarkup s) \<le> length s"
  by (induction s rule: removeMarkup.induct, subst removeMarkup.simps) (fastforce split: option.splits list.splits)

lemma removeMarkup_shrinks: "markupEnd s = Some n \<Longrightarrow> length (removeMarkup s) < length s"
  using removeMarkup_length [of "drop n s"] markupEnd_shape [of s n] le_less_trans
  by (fastforce simp: removeMarkup.simps [of s])

lemma removeMarkup_fixpoint: "removeMarkup s = s \<longleftrightarrow> \<not> hasMarkup s"
proof (induction s)
  case (Cons c s)
  show ?case
  proof (cases "markupEnd (c # s)")
    case (Some n)
    then show ?thesis
      using removeMarkup_shrinks [OF Some] by auto
  qed (use Cons in \<open>simp add: removeMarkup.simps [of "c # s"]\<close>)
qed (simp add: removeMarkup.simps markupEnd_def orElse_def commentEnd_def instructionEnd_def declarationEnd_def tagEnd_def HasPrefix_def)

lemma stripPasses_clean: "\<not> hasMarkup (stripPasses n v)"
proof (induction n arbitrary: v)
  case 0
  then show ?case
    using hasMarkup_bracket [of "filter (\<lambda>c. c \<noteq> CHR ''<'') v"] by auto
next
  case (Suc n)
  then show ?case
    using removeMarkup_fixpoint [of v] by (simp add: Let_def)
qed

lemma stripPasses_length: "length (stripPasses n v) \<le> length v"
proof (induction n arbitrary: v)
  case (Suc n)
  then show ?case
    using removeMarkup_length [of v] by (auto simp: Let_def intro: order_trans)
qed simp

lemma stripPasses_unmarked: "\<not> hasMarkup v \<Longrightarrow> stripPasses n v = v"
  using removeMarkup_fixpoint [of v] by (cases n) (simp_all add: Let_def)

lemma sanitize_clean: "\<not> hasMarkup (fst (SanitizeOperatorText v))"
  using stripPasses_clean [of maxMarkupStripPasses v] hasMarkup_take [of MaxOperatorTextBytes "stripMarkup v"]
  by (auto simp: SanitizeOperatorText_def stripMarkup_def Let_def)

lemma sanitize_bound: "length (fst (SanitizeOperatorText v)) \<le> MaxOperatorTextBytes"
  by (simp add: SanitizeOperatorText_def Let_def)

lemma sanitize_unchanged:
  "\<not> hasMarkup v \<Longrightarrow> length v \<le> MaxOperatorTextBytes \<Longrightarrow> SanitizeOperatorText v = (v, [])"
  by (simp add: SanitizeOperatorText_def stripMarkup_def stripPasses_unmarked)

lemma sanitize_reasons: "snd (SanitizeOperatorText v) = [] \<longleftrightarrow> fst (SanitizeOperatorText v) = v"
proof -
  have "take MaxOperatorTextBytes (stripMarkup v) \<noteq> v" if "length (stripMarkup v) > MaxOperatorTextBytes"
    using that stripPasses_length [of maxMarkupStripPasses v] unfolding stripMarkup_def
    by (metis length_take min.absorb4 not_le)
  then show ?thesis
    by (auto simp: SanitizeOperatorText_def Let_def)
qed

section \<open>Control routing (userinput.go, streamloss.go)\<close>

text \<open>
  An error as \<open>errors.Is\<close> and \<open>Error\<close> see it: the sentinels in its chain and its text.
\<close>

datatype sentinel = ErrCancelledByControlPlane | ErrControlStreamLost | DeadlineExceeded | ContextCanceled

record goError =
  geIs :: "sentinel list"
  geText :: string

definition errorsIs :: "goError option \<Rightarrow> sentinel \<Rightarrow> bool" where
  "errorsIs err target = (case err of None \<Rightarrow> False | Some e \<Rightarrow> target \<in> set (geIs e))"

definition cancelledByControlPlane :: goError where
  "cancelledByControlPlane = \<lparr>geIs = [ErrCancelledByControlPlane], geText = ''cancelled by control plane''\<rparr>"

definition controlStreamLost :: "goError option \<Rightarrow> goError" where
  "controlStreamLost err =
     (case err of
        None \<Rightarrow> \<lparr>geIs = [ErrControlStreamLost], geText = ''control stream lost''\<rparr>
      | Some e \<Rightarrow> \<lparr>geIs = ErrControlStreamLost # geIs e, geText = ''control stream lost: '' @ geText e\<rparr>)"

definition maxPendingRejections :: nat where "maxPendingRejections = 64"

text \<open>
  What the control handler and the loop share. \<open>ctDropped\<close> is the log of \<open>user_response dropped\<close> lines,
  \<open>ctWarned\<close> what reached the transport, and \<open>ctTaken\<close> the input a run took up.
\<close>

record controlState =
  ctQueue :: userInputQueue
  ctNotify :: bool
  ctCancelled :: bool
  ctCause :: "goError option"
  ctActive :: bool
  ctRunCause :: "goError option"
  ctIdleCancel :: bool
  ctRejections :: "(string \<times> string) list"
  ctDropped :: "(string \<times> string) list"
  ctWarned :: "(string \<times> string) list"
  ctTaken :: "queuedUserInput list"

definition ensureControlRouting :: controlState where
  "ensureControlRouting = \<lparr>ctQueue = [], ctNotify = False, ctCancelled = False, ctCause = None, ctActive = False, ctRunCause = None,
     ctIdleCancel = False, ctRejections = [], ctDropped = [], ctWarned = [], ctTaken = []\<rparr>"

definition offerWarning :: "string \<Rightarrow> string \<Rightarrow> controlState \<Rightarrow> controlState" where
  "offerWarning requestID message st =
     (if length (ctRejections st) < maxPendingRejections
      then st\<lparr>ctRejections := ctRejections st @ [(requestID, message)]\<rparr> else st)"

definition droppedMessage :: "string \<Rightarrow> string" where
  "droppedMessage reason = ''user_response dropped: '' @ reason"

definition rejectUserInput :: "string \<Rightarrow> string \<Rightarrow> controlState \<Rightarrow> controlState" where
  "rejectUserInput requestID reason st =
     offerWarning requestID (droppedMessage reason) (st\<lparr>ctDropped := ctDropped st @ [(requestID, reason)]\<rparr>)"

definition reportUserInputSanitized :: "string \<Rightarrow> string list \<Rightarrow> controlState \<Rightarrow> controlState" where
  "reportUserInputSanitized requestID why st =
     offerWarning requestID (''user_response sanitized: '' @ Join why '', '') st"

definition pushUserInput :: "string \<Rightarrow> string \<Rightarrow> controlState \<Rightarrow> controlState" where
  "pushUserInput requestID t st =
     (case qpush \<lparr>RequestID = requestID, qText = t\<rparr> (ctQueue st) of
        (True, q) \<Rightarrow> st\<lparr>ctQueue := q, ctNotify := True\<rparr>
      | (False, q) \<Rightarrow> rejectUserInput requestID
          (''user input queue full ('' @ Itoa (int maxQueuedUserInput) @ '' pending)'') st)"

definition enqueueUserInput :: "string \<Rightarrow> string \<Rightarrow> controlState \<Rightarrow> controlState" where
  "enqueueUserInput requestID response st =
     (let t = TrimSpace response in
      if t = [] then rejectUserInput requestID ''empty user_response'' st
      else if ctCancelled st then rejectUserInput requestID ''session cancelled'' st
      else case SanitizeOperatorText t of
             (sanitized, []) \<Rightarrow> pushUserInput requestID sanitized st
           | (sanitized, why) \<Rightarrow>
               let st1 = reportUserInputSanitized requestID why st in
               if TrimSpace sanitized = [] then rejectUserInput requestID ''empty after sanitisation'' st1
               else pushUserInput requestID (TrimSpace sanitized) st1)"

text \<open>A context keeps the first cause it is cancelled with.\<close>

definition cancelSession :: "goError \<Rightarrow> string \<Rightarrow> controlState \<Rightarrow> controlState" where
  "cancelSession err dropReason st =
     (let st1 = st\<lparr>ctCause := (if ctCause st = None then Some err else ctCause st), ctCancelled := True\<rparr>;
          st2 = foldl (\<lambda>s i. rejectUserInput (RequestID i) dropReason s) (st1\<lparr>ctQueue := []\<rparr>) (ctQueue st1)
      in st2\<lparr>ctRunCause := (if ctActive st2 \<and> ctRunCause st2 = None then Some err else ctRunCause st2),
             ctIdleCancel := True\<rparr>)"

definition ControlStreamLost :: "goError option \<Rightarrow> controlState \<Rightarrow> controlState" where
  "ControlStreamLost err st = cancelSession (controlStreamLost err) ''control stream lost'' st"

definition routeControl :: "string \<Rightarrow> string \<Rightarrow> string \<Rightarrow> controlState \<Rightarrow> controlState" where
  "routeControl type requestID response st =
     (if type = ''cancel'' then cancelSession cancelledByControlPlane ''discarded by cancel'' st
      else if type = ''user_response'' then enqueueUserInput requestID response st
      else st)"

text \<open>The cause a run that starts now must be cancelled with; \<open>Run\<close> cancels its context with it at once.\<close>

definition beginRun :: "controlState \<Rightarrow> goError option \<times> controlState" where
  "beginRun st =
     (let err = (if \<not> ctCancelled st then None
                 else if ctCause st = None then Some cancelledByControlPlane else ctCause st)
      in (err, st\<lparr>ctActive := True, ctRunCause := err\<rparr>))"

definition setIdle :: "controlState \<Rightarrow> controlState" where
  "setIdle st = st\<lparr>ctActive := False\<rparr>"

definition drainUserInput :: "controlState \<Rightarrow> controlState" where
  "drainUserInput st = st\<lparr>ctQueue := [], ctTaken := ctTaken st @ ctQueue st\<rparr>"

definition emitRejection :: "controlState \<Rightarrow> controlState" where
  "emitRejection st =
     (case ctRejections st of
        [] \<Rightarrow> st
      | w # ws \<Rightarrow> st\<lparr>ctRejections := ws, ctWarned := ctWarned st @ [w]\<rparr>)"

definition flushQueuedUserInput :: "string \<Rightarrow> controlState \<Rightarrow> controlState" where
  "flushQueuedUserInput reason st =
     foldl (\<lambda>s i. s\<lparr>ctDropped := ctDropped s @ [(RequestID i, reason)],
                    ctWarned := ctWarned s @ [(RequestID i, droppedMessage reason)]\<rparr>)
       (st\<lparr>ctQueue := []\<rparr>) (ctQueue st)"

text \<open>The follow-up loop woken by the queue's signal: the input it starts a run with.\<close>

definition wakeUp :: "controlState \<Rightarrow> queuedUserInput option \<times> controlState" where
  "wakeUp st =
     (let st1 = st\<lparr>ctNotify := False\<rparr> in
      if ctCancelled st1 then (None, st1)
      else case qpop (ctQueue st1) of
             (None, q) \<Rightarrow> (None, st1)
           | (Some i, q) \<Rightarrow> (Some i, st1\<lparr>ctQueue := q, ctTaken := ctTaken st1 @ [i]\<rparr>))"

datatype controlOp =
    Routed string string string
  | StreamEnded "goError option"
  | RunBegins
  | RunEnds
  | TurnDrains
  | RejectionEmitted
  | Woken
  | Flushed string

fun controlStep :: "controlOp \<Rightarrow> controlState \<Rightarrow> controlState" where
  "controlStep (Routed type requestID response) st = routeControl type requestID response st"
| "controlStep (StreamEnded err) st = ControlStreamLost err st"
| "controlStep RunBegins st = snd (beginRun st)"
| "controlStep RunEnds st = setIdle st"
| "controlStep TurnDrains st = drainUserInput st"
| "controlStep RejectionEmitted st = emitRejection st"
| "controlStep Woken st = (if ctNotify st then snd (wakeUp st) else st)"
| "controlStep (Flushed reason) st = flushQueuedUserInput reason st"

definition controlRun :: "controlOp list \<Rightarrow> controlState \<Rightarrow> controlState" where
  "controlRun ops st = foldl (\<lambda>s op. controlStep op s) st ops"

section \<open>No input is lost, and none survives a cancel\<close>

definition cleanInput :: "queuedUserInput \<Rightarrow> bool" where
  "cleanInput i = (qText i \<noteq> [] \<and> \<not> hasMarkup (qText i) \<and> length (qText i) \<le> MaxOperatorTextBytes)"

definition receivedIDs :: "controlOp list \<Rightarrow> string list" where
  "receivedIDs ops = concat (map (\<lambda>op. case op of
      Routed type requestID _ \<Rightarrow> if type = ''user_response'' then [requestID] else []
    | _ \<Rightarrow> []) ops)"

text \<open>The request ids the state accounts for: waiting, taken up by a run, or dropped with a log line.\<close>

definition accountedIDs :: "controlState \<Rightarrow> string multiset" where
  "accountedIDs st = mset (map RequestID (ctQueue st)) + mset (map RequestID (ctTaken st)) + mset (map fst (ctDropped st))"

definition controlOk :: "controlState \<Rightarrow> bool" where
  "controlOk st = (length (ctQueue st) \<le> maxQueuedUserInput \<and> list_all cleanInput (ctQueue st @ ctTaken st)
     \<and> length (ctRejections st) \<le> maxPendingRejections \<and> (ctCancelled st \<longrightarrow> ctQueue st = [])
     \<and> ctCancelled st = (ctCause st \<noteq> None))"

lemma trimLeft_drop: "\<exists>k. trimLeft ws s = drop k s"
proof (induction ws s rule: trimLeft.induct)
  case (1 ws s)
  show ?case
  proof (cases "leadingWith ws s")
    case None
    then show ?thesis
      by (auto simp: trimLeft.simps [of ws s] intro: exI [of _ 0])
  next
    case (Some w)
    then show ?thesis
      using 1 [OF Some] by (auto simp: trimLeft.simps [of ws s])
  qed
qed

lemma TrimSpace_slice: "\<exists>i j. TrimSpace s = take j (drop i s)"
proof -
  obtain i where i: "trimLeft goSpaces s = drop i s"
    using trimLeft_drop by blast
  obtain k where "trimLeft (map rev goSpaces) (rev (drop i s)) = drop k (rev (drop i s))"
    using trimLeft_drop by blast
  then have "TrimSpace s = take (length (drop i s) - k) (drop i s)"
    using i by (simp add: TrimSpace_def drop_rev)
  then show ?thesis
    by blast
qed

lemma TrimSpace_clean: "\<not> hasMarkup s \<Longrightarrow> \<not> hasMarkup (TrimSpace s)" "length (TrimSpace s) \<le> length s"
proof -
  obtain i j where "TrimSpace s = take j (drop i s)"
    using TrimSpace_slice by blast
  then show "\<not> hasMarkup s \<Longrightarrow> \<not> hasMarkup (TrimSpace s)" "length (TrimSpace s) \<le> length s"
    using hasMarkup_take [of j "drop i s"] hasMarkup_drop [of i s] by auto
qed

lemma sanitized_input_clean:
  assumes "SanitizeOperatorText t = (s, why)"
  shows "s \<noteq> [] \<Longrightarrow> cleanInput \<lparr>RequestID = r, qText = s\<rparr>"
    "TrimSpace s \<noteq> [] \<Longrightarrow> cleanInput \<lparr>RequestID = r, qText = TrimSpace s\<rparr>"
  using sanitize_clean [of t] sanitize_bound [of t] TrimSpace_clean [of s] assms by (auto simp: cleanInput_def)

lemma reject_fields [simp]:
  "ctQueue (rejectUserInput r why st) = ctQueue st" "ctTaken (rejectUserInput r why st) = ctTaken st"
  "ctCancelled (rejectUserInput r why st) = ctCancelled st" "ctCause (rejectUserInput r why st) = ctCause st"
  "ctDropped (rejectUserInput r why st) = ctDropped st @ [(r, why)]"
  "ctQueue (offerWarning r m st) = ctQueue st" "ctTaken (offerWarning r m st) = ctTaken st"
  "ctCancelled (offerWarning r m st) = ctCancelled st" "ctCause (offerWarning r m st) = ctCause st"
  "ctDropped (offerWarning r m st) = ctDropped st"
  by (simp_all add: rejectUserInput_def offerWarning_def)

lemma offer_backlog [simp]:
  "length (ctRejections st) \<le> maxPendingRejections \<Longrightarrow> length (ctRejections (offerWarning r m st)) \<le> maxPendingRejections"
  "length (ctRejections st) \<le> maxPendingRejections \<Longrightarrow> length (ctRejections (rejectUserInput r why st)) \<le> maxPendingRejections"
  by (simp_all add: offerWarning_def rejectUserInput_def)

lemma foldl_reject:
  assumes "s = foldl (\<lambda>s i. rejectUserInput (RequestID i) why s) st items"
  shows "ctQueue s = ctQueue st \<and> ctTaken s = ctTaken st \<and> ctCancelled s = ctCancelled st \<and> ctCause s = ctCause st
     \<and> ctDropped s = ctDropped st @ map (\<lambda>i. (RequestID i, why)) items
     \<and> (length (ctRejections st) \<le> maxPendingRejections \<longrightarrow> length (ctRejections s) \<le> maxPendingRejections)"
  using assms by (induction items arbitrary: st) auto

lemma foldl_flush:
  assumes "s = foldl (\<lambda>s i. s\<lparr>ctDropped := ctDropped s @ [(RequestID i, why)], ctWarned := ctWarned s @ [(RequestID i, m)]\<rparr>) st items"
  shows "ctQueue s = ctQueue st \<and> ctTaken s = ctTaken st \<and> ctCancelled s = ctCancelled st \<and> ctCause s = ctCause st
     \<and> ctDropped s = ctDropped st @ map (\<lambda>i. (RequestID i, why)) items \<and> ctRejections s = ctRejections st"
  using assms by (induction items arbitrary: st) auto

lemma map_fst_pairs [simp]: "map (fst \<circ> (\<lambda>i. (RequestID i, why))) items = map RequestID items"
  by simp

lemma cancelSession_fields:
  "ctQueue (cancelSession err why st) = []" "ctCancelled (cancelSession err why st)"
  "ctCause (cancelSession err why st) = (if ctCause st = None then Some err else ctCause st)"
  "ctTaken (cancelSession err why st) = ctTaken st"
  "accountedIDs (cancelSession err why st) = accountedIDs st"
  "length (ctRejections st) \<le> maxPendingRejections \<Longrightarrow> length (ctRejections (cancelSession err why st)) \<le> maxPendingRejections"
  using foldl_reject [OF refl, of why "st\<lparr>ctCause := (if ctCause st = None then Some err else ctCause st), ctCancelled := True,
      ctQueue := []\<rparr>" "ctQueue st"]
  by (simp_all add: cancelSession_def Let_def accountedIDs_def)

definition inputTaken :: "string \<Rightarrow> controlState \<Rightarrow> controlState \<Rightarrow> bool" where
  "inputTaken r st st' = (accountedIDs st' = add_mset r (accountedIDs st) \<and> ctTaken st' = ctTaken st
     \<and> ctCancelled st' = ctCancelled st \<and> ctCause st' = ctCause st \<and> (ctCancelled st \<longrightarrow> ctQueue st' = ctQueue st)
     \<and> (controlOk st \<longrightarrow> controlOk st'))"

lemma reject_taken: "inputTaken r st (rejectUserInput r why st)"
  by (simp add: inputTaken_def accountedIDs_def controlOk_def)

lemma offer_taken:
  assumes "inputTaken r (offerWarning r' m st) st'"
  shows "inputTaken r st st'"
proof -
  have "accountedIDs (offerWarning r' m st) = accountedIDs st" "controlOk st \<Longrightarrow> controlOk (offerWarning r' m st)"
    by (simp_all add: accountedIDs_def controlOk_def)
  then show ?thesis
    using assms by (simp add: inputTaken_def)
qed

lemma push_taken:
  assumes "cleanInput \<lparr>RequestID = r, qText = t\<rparr>" "\<not> ctCancelled st"
  shows "inputTaken r st (pushUserInput r t st)"
  using assms reject_taken [of r st] by (auto simp: pushUserInput_def qpush_def inputTaken_def accountedIDs_def controlOk_def)

lemma enqueue_taken: "inputTaken r st (enqueueUserInput r response st)"
proof (cases "TrimSpace response = [] \<or> ctCancelled st")
  case True
  then show ?thesis
    by (auto simp: enqueueUserInput_def Let_def reject_taken)
next
  case False
  obtain s why where s: "SanitizeOperatorText (TrimSpace response) = (s, why)"
    by fastforce
  show ?thesis
  proof (cases why)
    case Nil
    then have "s = TrimSpace response"
      using sanitize_reasons [of "TrimSpace response"] s by simp
    then show ?thesis
      using False s Nil sanitized_input_clean(1) [OF s, of r] by (simp add: enqueueUserInput_def push_taken)
  next
    case (Cons w ws)
    then show ?thesis
      using False s sanitized_input_clean(2) [OF s, of r]
      by (auto simp: enqueueUserInput_def reportUserInputSanitized_def Let_def simp del: Join.simps
          intro!: offer_taken [OF reject_taken] offer_taken [OF push_taken])
  qed
qed

lemma controlStep_taken:
  assumes "controlOk st"
  shows "controlOk (controlStep op st) \<and> accountedIDs (controlStep op st) = accountedIDs st + mset (receivedIDs [op])
     \<and> (ctCancelled st \<longrightarrow> ctTaken (controlStep op st) = ctTaken st \<and> ctCancelled (controlStep op st)
          \<and> ctCause (controlStep op st) = ctCause st)"
proof (cases op)
  case (Routed type r response)
  show ?thesis
  proof (cases "type = ''user_response''")
    case True
    then show ?thesis
      using Routed assms enqueue_taken [of r st response] by (simp add: routeControl_def receivedIDs_def inputTaken_def)
  next
    case False
    then show ?thesis
      using Routed assms cancelSession_fields [where err = cancelledByControlPlane and why = "''discarded by cancel''" and st = st]
      by (auto simp: routeControl_def receivedIDs_def controlOk_def)
  qed
next
  case (StreamEnded err)
  then show ?thesis
    using assms cancelSession_fields [where err = "controlStreamLost err" and why = "''control stream lost''" and st = st]
    by (auto simp: ControlStreamLost_def receivedIDs_def controlOk_def)
next
  case RejectionEmitted
  then show ?thesis
    using assms by (cases "ctRejections st") (auto simp: emitRejection_def receivedIDs_def controlOk_def accountedIDs_def)
next
  case Woken
  then show ?thesis
    using assms by (cases "ctQueue st") (auto simp: wakeUp_def Let_def qpop_def receivedIDs_def controlOk_def accountedIDs_def)
next
  case (Flushed why)
  then show ?thesis
    using assms foldl_flush [OF refl, where why = why and m = "droppedMessage why" and st = "st\<lparr>ctQueue := []\<rparr>" and items = "ctQueue st"]
    by (auto simp: flushQueuedUserInput_def receivedIDs_def controlOk_def accountedIDs_def)
qed (use assms in \<open>auto simp: beginRun_def Let_def setIdle_def drainUserInput_def receivedIDs_def controlOk_def accountedIDs_def\<close>)

lemma controlRun_taken:
  assumes "controlOk st"
  shows "controlOk (controlRun ops st) \<and> accountedIDs (controlRun ops st) = accountedIDs st + mset (receivedIDs ops)
     \<and> (ctCancelled st \<longrightarrow> ctTaken (controlRun ops st) = ctTaken st \<and> ctCancelled (controlRun ops st)
          \<and> ctCause (controlRun ops st) = ctCause st)"
  using assms
proof (induction ops arbitrary: st)
  case (Cons op ops)
  note step = controlStep_taken [OF Cons.prems, of op]
  have "receivedIDs (op # ops) = receivedIDs [op] @ receivedIDs ops"
    by (simp add: receivedIDs_def)
  then show ?case
    using step Cons.IH [of "controlStep op st"] by (auto simp: controlRun_def)
qed (simp add: controlRun_def receivedIDs_def)

lemma controlStart_ok: "controlOk ensureControlRouting" "accountedIDs ensureControlRouting = {#}"
  by (simp_all add: ensureControlRouting_def controlOk_def accountedIDs_def maxQueuedUserInput_def maxPendingRejections_def)

section \<open>Properties\<close>

text \<open>
  C36: operator text never carries markup into the prompt. Whatever the control plane sends, the sanitised
  value holds no match of the markup pattern at any position, even where removing one tag or cutting the
  text at the limit joins its neighbours; it is at most 50000 bytes; sanitising it again changes nothing;
  and no reason is reported exactly when the value was returned unchanged.
\<close>

theorem operator_text_clean:
  "(case SanitizeOperatorText v of
      (s, why) \<Rightarrow> \<not> hasMarkup s \<and> length s \<le> MaxOperatorTextBytes \<and> SanitizeOperatorText s = (s, []) \<and> (why = [] \<longleftrightarrow> s = v))"
  using sanitize_clean [of v] sanitize_bound [of v] sanitize_unchanged [of "fst (SanitizeOperatorText v)"] sanitize_reasons [of v]
  by (simp add: case_prod_beta)

text \<open>
  C37: no operator input is lost without a trace. After any sequence of control events, stream loss, runs,
  drains and flushes, every \<open>user_response\<close> received is accounted for exactly once: still queued, taken up
  by a run, or dropped with a log line. The queue and the warning backlog keep their bounds, and every input
  queued or taken up is non-empty, free of markup and within the limit.
\<close>

theorem operator_input_conserved:
  "(let st = controlRun ops ensureControlRouting in
      mset (receivedIDs ops) = mset (map RequestID (ctQueue st)) + mset (map RequestID (ctTaken st)) + mset (map fst (ctDropped st))
      \<and> length (ctQueue st) \<le> maxQueuedUserInput \<and> length (ctRejections st) \<le> maxPendingRejections
      \<and> list_all cleanInput (ctQueue st @ ctTaken st))"
  using controlRun_taken [OF controlStart_ok(1), of ops] controlStart_ok(2) by (simp add: Let_def accountedIDs_def controlOk_def)

text \<open>
  C38: a cancel ends the session for good. Once the session is cancelled, by the control plane or by the loss
  of the stream, whatever happens next the queue is empty, no further input is taken up, the first cause is
  kept, and every run that starts is cancelled with that cause at once.
\<close>

theorem cancel_is_sticky:
  assumes "before = controlRun ops ensureControlRouting" "ctCancelled before" "st = controlRun later before"
  shows "ctCancelled st \<and> ctQueue st = [] \<and> ctTaken st = ctTaken before \<and> ctCause st = ctCause before
     \<and> ctCause before \<noteq> None \<and> fst (beginRun st) = ctCause before"
proof -
  have "controlOk before"
    using controlRun_taken [OF controlStart_ok(1), of ops] assms(1) by simp
  then show ?thesis
    using controlRun_taken [of before later] assms(2,3) by (auto simp: controlOk_def beginRun_def Let_def)
qed

lemma enqueue_plain:
  assumes "TrimSpace t = t" "t \<noteq> []" "CHR ''<'' \<notin> set t" "length t \<le> MaxOperatorTextBytes"
  shows "enqueueUserInput r t st = (if ctCancelled st then rejectUserInput r ''session cancelled'' st else pushUserInput r t st)"
proof -
  have "SanitizeOperatorText t = (t, [])"
    using assms hasMarkup_bracket [of t] sanitize_unchanged [of t] by blast
  then show ?thesis
    using assms by (simp add: enqueueUserInput_def)
qed

lemma plain_words:
  "enqueueUserInput r ''hello'' st = (if ctCancelled st then rejectUserInput r ''session cancelled'' st else pushUserInput r ''hello'' st)"
  "enqueueUserInput r ''again'' st = (if ctCancelled st then rejectUserInput r ''session cancelled'' st else pushUserInput r ''again'' st)"
proof -
  have "TrimSpace ''hello'' = ''hello''" "TrimSpace ''again'' = ''again''"
    by code_simp+
  then show "enqueueUserInput r ''hello'' st = (if ctCancelled st then rejectUserInput r ''session cancelled'' st else pushUserInput r ''hello'' st)"
    "enqueueUserInput r ''again'' st = (if ctCancelled st then rejectUserInput r ''session cancelled'' st else pushUserInput r ''again'' st)"
    by (simp_all add: enqueue_plain MaxOperatorTextBytes_def)
qed

lemmas control_simps = controlRun_def routeControl_def plain_words ensureControlRouting_def pushUserInput_def qpush_def
  maxQueuedUserInput_def cancelSession_def Let_def ControlStreamLost_def drainUserInput_def wakeUp_def qpop_def beginRun_def setIdle_def

theorem cancel_is_sticky_witness:
  "(let before = controlRun [Routed ''user_response'' ''r1'' ''hello'', Routed ''cancel'' [] []] ensureControlRouting;
        st = controlRun [Routed ''user_response'' ''r2'' ''again'', StreamEnded None, TurnDrains] before in
      fst (beginRun st) = Some cancelledByControlPlane
      \<and> ctDropped st = [(''r1'', ''discarded by cancel''), (''r2'', ''session cancelled'')] \<and> ctTaken st = [])"
proof -
  define before where "before = controlRun [Routed ''user_response'' ''r1'' ''hello'', Routed ''cancel'' [] []] ensureControlRouting"
  define st where "st = controlRun [Routed ''user_response'' ''r2'' ''again'', StreamEnded None, TurnDrains] before"
  have b: "ctCancelled before" "ctCause before = Some cancelledByControlPlane" "ctTaken before = []"
    by (simp_all add: before_def control_simps)
  have "ctDropped st = [(''r1'', ''discarded by cancel''), (''r2'', ''session cancelled'')]"
    by (simp add: st_def before_def control_simps)
  then show ?thesis
    using cancel_is_sticky [OF before_def b(1) st_def] b by (simp add: before_def [symmetric] st_def [symmetric] Let_def)
qed

text \<open>
  The queue's signal is one bit. Two inputs that arrive before the follow-up loop wakes leave one signal; when
  the run started with the first ends before its first drain, as a run that the Rule-of-Two monitor aborts
  at setup does, the second is left in the queue with no signal to take it up.
\<close>

lemma queued_input_without_signal:
  "(let st = controlRun [Routed ''user_response'' ''r1'' ''hello'', Routed ''user_response'' ''r2'' ''again'', Woken, RunBegins, RunEnds]
       ensureControlRouting in
    map RequestID (ctQueue st) = [''r2''] \<and> \<not> ctNotify st \<and> \<not> ctActive st \<and> \<not> ctCancelled st)"
  by (simp add: control_simps)

end
