(* ===== verification/Run_Finish.thy ===== *)
theory Run_Finish
  imports Lifecycle_Hooks Structured_Output Operator_Input Stream_Result
begin

text \<open>
  How a run ends: the outcomes of cancellation and of a failed setup, the failure text, and the steps after the
  last turn, in \<open>core/loop.go\<close>, \<open>core/handoff.go\<close> and \<open>core/githandoff.go\<close>, with the accumulators of the JSONL
  trace emitter (\<open>trace/jsonl.go\<close>) they record into.

  What the steps call (git, hooks, the command-output store, the exporter, the result sink, the trace writer)
  is given by what it returns. A context is \<^const>\<open>None\<close> while it is alive and its cause once it is done.
  Spans, logs, metrics, budgets of detached contexts and the recorders of other emitters are left out.
\<close>

section \<open>Outcomes of a cancelled context (core/loop.go)\<close>

definition classifyCtxOutcome :: "goError option \<Rightarrow> string" where
  "classifyCtxOutcome err =
     (if errorsIs err ErrCancelledByControlPlane then ''cancelled''
      else if errorsIs err ErrControlStreamLost then ''control_stream_lost''
      else if errorsIs err DeadlineExceeded then ''timeout''
      else if err = None \<or> errorsIs err ContextCanceled then ''cancelled''
      else ''error'')"

definition setupOutcome :: "goError option \<Rightarrow> string \<Rightarrow> string" where
  "setupOutcome ctx fallback = (if ctx \<noteq> None then classifyCtxOutcome ctx else fallback)"

text \<open>The value of the attribute \<open>run.cancelled_by\<close>, if it is set.\<close>

definition rootCancelAttribute :: "goError option \<Rightarrow> string option" where
  "rootCancelAttribute err =
     (if errorsIs err ErrCancelledByControlPlane then Some ''control_plane''
      else if errorsIs err ErrControlStreamLost then Some ''control_stream''
      else if errorsIs err DeadlineExceeded then Some ''deadline''
      else if err = None \<or> errorsIs err ContextCanceled then Some ''signal''
      else None)"

section \<open>The trace and the events of a run\<close>

record GitHandoff =
  ghBranch :: string
  ghSHA :: string
  ghBaseSHA :: string
  ghDirty :: bool
  ghError :: string

definition zeroGitHandoff :: GitHandoff where
  "zeroGitHandoff = \<lparr>ghBranch = [], ghSHA = [], ghBaseSHA = [], ghDirty = False, ghError = []\<rparr>"

record ExportReceipt =
  erURI :: string
  erStatus :: string
  erBytes :: int
  erSHA256 :: string
  erFiles :: int
  erRequired :: bool
  erError :: string

definition zeroExportReceipt :: ExportReceipt where
  "zeroExportReceipt = \<lparr>erURI = [], erStatus = [], erBytes = 0, erSHA256 = [], erFiles = 0, erRequired = False, erError = []\<rparr>"

text \<open>The fields of the trace the end of a run writes.\<close>

record RunTrace =
  rtOutcome :: string
  rtError :: string
  rtFinalAssistantText :: string
  rtStructuredOutput :: "string option"
  rtStopDetails :: "StopDetails option"
  rtGit :: "GitHandoff option"
  rtWorkspaceExport :: "ExportReceipt option"
  rtCommandOutputArchive :: string
  rtVerificationResults :: "VerificationResult list"
  rtHookResults :: "HookExecution list"

definition startedTrace :: RunTrace where
  "startedTrace = \<lparr>rtOutcome = [], rtError = [], rtFinalAssistantText = [], rtStructuredOutput = None, rtStopDetails = None,
     rtGit = None, rtWorkspaceExport = None, rtCommandOutputArchive = [], rtVerificationResults = [], rtHookResults = []\<rparr>"

text \<open>The events of a run outside its turns.\<close>

datatype runEvent =
    Warning string
  | ErrorEvent string
  | Ready
  | RunStarted string
  | UserMessage string string string
  | Done string RunTrace

record runFailure =
  rfOutcome :: string
  rfText :: string

record runReport =
  rpFailure :: runFailure
  rpEvents :: "runEvent list"
  rpTrace :: RunTrace

definition emitRun :: "runEvent \<Rightarrow> runReport \<Rightarrow> runReport" where
  "emitRun e rp = rp\<lparr>rpEvents := rpEvents rp @ [e]\<rparr>"

definition updateTrace :: "(RunTrace \<Rightarrow> RunTrace) \<Rightarrow> runReport \<Rightarrow> runReport" where
  "updateTrace f rp = rp\<lparr>rpTrace := f (rpTrace rp)\<rparr>"

section \<open>Failure texts (core/handoff.go)\<close>

definition maxFailureTextBytes :: int where "maxFailureTextBytes = 1024"

definition capFailureText :: "string \<Rightarrow> string" where
  "capFailureText s = fst (CapFinalAssistantText s maxFailureTextBytes)"

definition noteFailure :: "string \<Rightarrow> string \<Rightarrow> runReport \<Rightarrow> runReport" where
  "noteFailure outcome t rp = rp\<lparr>rpFailure := \<lparr>rfOutcome = outcome, rfText = t\<rparr>\<rparr>"

text \<open>What the steps after the last turn call, and the configuration they read; \<open>fiShow\<close> is the verb \<open>%q\<close>.\<close>

record finishEnv =
  fiScrub :: "string \<Rightarrow> string"
  fiShow :: "string \<Rightarrow> string"
  fiMaxTurns :: int
  fiGit :: "string \<Rightarrow> GitHandoff option \<times> string option"
  fiHooks :: "(string \<Rightarrow> HookExecution list \<times> string option) option"
  fiCommandOutput :: "(string option \<times> string \<times> string option) option"
  fiOwnsCommandOutput :: bool
  fiBestEffort :: bool
  fiExport :: "(ExportReceipt option \<times> string option) option"
  fiExecutorType :: string
  fiExportTo :: string
  fiExportRequired :: "bool option"
  fiDeliver :: "(RunTrace \<Rightarrow> string option) option"
  fiPersist :: "RunTrace \<Rightarrow> string option"

definition describeOutcome :: "finishEnv \<Rightarrow> string \<Rightarrow> string" where
  "describeOutcome env outcome =
     (if outcome = ''max_turns'' then ''reached the turn limit (maxTurns '' @ Itoa (fiMaxTurns env) @ '')''
      else if outcome = ''budget_exceeded'' then ''exceeded the run'' @ [CHR 0x27] @ ''s token budget''
      else if outcome = ''timeout'' then ''reached the run timeout''
      else if outcome = ''cancelled'' then ''cancelled before the run completed''
      else if outcome = ''control_stream_lost'' then ''the control stream ended before the run completed''
      else if outcome = ''stalled'' then ''stopped after repeated identical tool calls''
      else if outcome = ''tool_failures'' then ''stopped after too many consecutive tool failures''
      else if outcome = ''verification_failed'' then ''verification failed after the final retry''
      else if outcome = ''structured_output_failed''
      then ''the final answer did not satisfy outputSchema after the corrective attempts''
      else if outcome = ''guardrail_blocked'' then ''blocked by the guardrail''
      else if outcome = ''rule_of_two_violation'' then ''aborted by Rule-of-Two enforcement''
      else ''run ended with outcome '' @ fiShow env outcome)"

definition runErrorText :: "finishEnv \<Rightarrow> string \<Rightarrow> runReport \<Rightarrow> string" where
  "runErrorText env outcome rp =
     (if outcome = ''success'' then []
      else capFailureText (fiScrub env
             (if rfOutcome (rpFailure rp) \<noteq> outcome \<or> rfText (rpFailure rp) = [] then describeOutcome env outcome
              else rfText (rpFailure rp))))"

section \<open>The steps after the last turn\<close>

text \<open>The final checkpoint (githandoff.go).\<close>

definition dirtyAfterFinalCheckpoint :: string where
  "dirtyAfterFinalCheckpoint = ''working tree has uncommitted changes after the final checkpoint''"

definition finaliseGit :: "finishEnv \<Rightarrow> string \<Rightarrow> runReport \<Rightarrow> string \<times> runReport" where
  "finaliseGit env outcome rp =
     (case fiGit env outcome of
        (handoff0, err0) \<Rightarrow>
          if handoff0 = None \<and> err0 = None then (outcome, rp)
          else
            let handoff = (case handoff0 of None \<Rightarrow> zeroGitHandoff | Some g \<Rightarrow> g);
                err = (if err0 = None \<and> ghDirty handoff then Some dirtyAfterFinalCheckpoint else err0)
            in (case err of
                  None \<Rightarrow> (outcome, updateTrace (rtGit_update (\<lambda>_. Some handoff)) rp)
                | Some e \<Rightarrow>
                    let scrubbed = fiScrub env e;
                        handoff' = handoff\<lparr>ghError := capFailureText scrubbed\<rparr>;
                        rp' = updateTrace (rtGit_update (\<lambda>_. Some handoff'))
                                (emitRun (Warning (''git finalise: '' @ scrubbed)) rp)
                    in if outcome = ''success''
                       then (''handoff_failed'', noteFailure ''handoff_failed'' (''git finalise: '' @ ghError handoff') rp')
                       else (outcome, rp')))"

definition runPostHooks :: "finishEnv \<Rightarrow> string \<Rightarrow> runReport \<Rightarrow> string \<times> runReport" where
  "runPostHooks env outcome rp =
     (case fiHooks env of
        None \<Rightarrow> (outcome, rp)
      | Some post \<Rightarrow>
          (case post outcome of
             (xs, err) \<Rightarrow>
               let rp' = foldl (\<lambda>r w. emitRun (Warning w) r)
                           (updateTrace (\<lambda>t. t\<lparr>rtHookResults := rtHookResults t @ xs\<rparr>) rp) (hookWarnings xs)
               in (case err of
                     Some e \<Rightarrow> if outcome = ''success''
                       then (''hook_failed'', noteFailure ''hook_failed'' (''post-run hooks: '' @ fiScrub env e) rp')
                       else (outcome, rp')
                   | None \<Rightarrow> (outcome, rp'))))"

definition finalizeCommandOutput :: "finishEnv \<Rightarrow> string \<Rightarrow> runReport \<Rightarrow> string \<times> runReport" where
  "finalizeCommandOutput env outcome rp =
     (case fiCommandOutput env of
        None \<Rightarrow> (outcome, rp)
      | Some (fatal, archive, err) \<Rightarrow>
          if \<not> fiOwnsCommandOutput env then (outcome, rp)
          else
            let rp' = (if archive \<noteq> [] then updateTrace (rtCommandOutputArchive_update (\<lambda>_. archive)) rp else rp)
            in if fiBestEffort env \<or> outcome \<noteq> ''success'' then (outcome, rp')
               else (case (fatal, err) of
                       (Some e, _) \<Rightarrow> (''command_output_capture_failed'',
                          noteFailure ''command_output_capture_failed'' (''command output capture: '' @ e) rp')
                     | (None, Some e) \<Rightarrow> (''command_output_archive_failed'',
                          noteFailure ''command_output_archive_failed'' (''command output archive: '' @ e) rp')
                     | (None, None) \<Rightarrow> (outcome, rp')))"

definition hasWorkspace :: "string \<Rightarrow> bool" where
  "hasWorkspace executorType = (executorType \<noteq> ''none'' \<and> executorType \<noteq> ''api'')"

definition ExportRequired :: "finishEnv \<Rightarrow> bool" where
  "ExportRequired env =
     (if fiExportTo env = [] then False
      else case fiExportRequired env of Some required \<Rightarrow> required | None \<Rightarrow> True)"

definition ExportStatusFailed :: string where "ExportStatusFailed = ''failed''"

definition handoffWorkspace :: "finishEnv \<Rightarrow> string \<Rightarrow> runReport \<Rightarrow> string \<times> runReport" where
  "handoffWorkspace env outcome rp =
     (case fiExport env of
        None \<Rightarrow> (outcome, rp)
      | Some (receipt0, err) \<Rightarrow>
          if \<not> hasWorkspace (fiExecutorType env) \<or> (receipt0 = None \<and> err = None) then (outcome, rp)
          else
            let receipt = (case receipt0 of None \<Rightarrow> zeroExportReceipt | Some r \<Rightarrow> r)\<lparr>erRequired := ExportRequired env\<rparr>
            in (case err of
                  None \<Rightarrow> (outcome, updateTrace (rtWorkspaceExport_update (\<lambda>_. Some receipt)) rp)
                | Some e \<Rightarrow>
                    let scrubbed = fiScrub env e;
                        receipt' = receipt\<lparr>erStatus := ExportStatusFailed, erError := capFailureText scrubbed\<rparr>;
                        rp' = updateTrace (rtWorkspaceExport_update (\<lambda>_. Some receipt'))
                                (emitRun (Warning (''workspace export: '' @ scrubbed)) rp)
                    in if erRequired receipt' \<and> outcome = ''success''
                       then (''handoff_failed'', noteFailure ''handoff_failed'' (''workspace export: '' @ erError receipt') rp')
                       else (outcome, rp')))"

text \<open>\<open>Finish\<close> of the emitter: the trace with its outcome, and the error of writing it.\<close>

definition finishTrace :: "finishEnv \<Rightarrow> string \<Rightarrow> runReport \<Rightarrow> RunTrace \<times> string option" where
  "finishTrace env outcome rp =
     (let t = (rpTrace rp)\<lparr>rtOutcome := outcome\<rparr> in (t, fiPersist env t))"

definition deliverResult :: "finishEnv \<Rightarrow> RunTrace \<Rightarrow> runReport \<Rightarrow> runReport" where
  "deliverResult env t rp =
     (case fiDeliver env of
        None \<Rightarrow> rp
      | Some deliver \<Rightarrow>
          (case deliver t of
             None \<Rightarrow> rp
           | Some e \<Rightarrow> emitRun (Warning (''result sink: '' @ capFailureText (fiScrub env e))) rp))"

text \<open>
  The fields of the trace that \<open>done\<close> carries: the final text, the hook results, the archive and the verifier
  attempts stay behind.
\<close>

definition doneSummary :: "RunTrace \<Rightarrow> RunTrace" where
  "doneSummary t = t\<lparr>rtFinalAssistantText := [], rtHookResults := [], rtCommandOutputArchive := [], rtVerificationResults := []\<rparr>"

definition finishRun :: "finishEnv \<Rightarrow> string \<Rightarrow> runReport \<Rightarrow> (RunTrace \<times> string option) \<times> runReport" where
  "finishRun env outcome rp =
     (let errText = runErrorText env outcome rp;
          rp1 = (if errText \<noteq> [] then updateTrace (rtError_update (\<lambda>_. errText)) rp else rp)
      in case finishTrace env outcome rp1 of
           (t, traceErr) \<Rightarrow>
             let t' = (if rtError t \<noteq> [] then t
                       else if errText \<noteq> [] then t\<lparr>rtError := errText\<rparr>
                       else case traceErr of
                              Some e \<Rightarrow> t\<lparr>rtError := capFailureText (fiScrub env (''finish trace: '' @ e))\<rparr>
                            | None \<Rightarrow> t)
             in ((t', traceErr), emitRun (Done outcome (doneSummary t')) (deliverResult env t' rp1)))"

text \<open>A run that failed before its first turn; the error it returns is its reason.\<close>

definition finishWithOutcome :: "finishEnv \<Rightarrow> string \<Rightarrow> string \<Rightarrow> runReport \<Rightarrow> (RunTrace \<times> string option) \<times> runReport" where
  "finishWithOutcome env outcome err rp =
     (case finalizeCommandOutput env outcome (noteFailure outcome err rp) of
        (outcome1, rp1) \<Rightarrow>
          (case handoffWorkspace env outcome1 (emitRun (ErrorEvent err) rp1) of
             (outcome2, rp2) \<Rightarrow>
               (case finishRun env outcome2 rp2 of ((t, _), rp3) \<Rightarrow> ((t, Some err), rp3))))"

text \<open>The steps of \<open>Run\<close> between the last turn and \<open>finishRun\<close>, in their order.\<close>

definition finishSteps :: "finishEnv \<Rightarrow> string \<Rightarrow> runReport \<Rightarrow> string \<times> runReport" where
  "finishSteps env outcome rp =
     (case finaliseGit env outcome rp of
        (outcome1, rp1) \<Rightarrow>
          (case runPostHooks env outcome1 rp1 of
             (outcome2, rp2) \<Rightarrow>
               (case finalizeCommandOutput env outcome2 rp2 of
                  (outcome3, rp3) \<Rightarrow> handoffWorkspace env outcome3 rp3)))"

section \<open>The contract of a finishing step\<close>

text \<open>
  A step passes an earlier failure on untouched. On success it keeps the outcome exactly when what it calls
  succeeded, and otherwise claims the outcome with a reason of its own. It emits warnings only.
\<close>

locale finishing_step =
  fixes step :: "string \<Rightarrow> runReport \<Rightarrow> string \<times> runReport" and ok :: bool
  assumes keeps: "\<And>outcome rp outcome' rp'. step outcome rp = (outcome', rp') \<Longrightarrow> outcome \<noteq> ''success'' \<Longrightarrow>
      outcome' = outcome \<and> rpFailure rp' = rpFailure rp"
    and claims: "\<And>rp outcome' rp'. step ''success'' rp = (outcome', rp') \<Longrightarrow>
      if ok then outcome' = ''success'' \<and> rpFailure rp' = rpFailure rp
      else outcome' \<noteq> ''success'' \<and> rfOutcome (rpFailure rp') = outcome' \<and> rfText (rpFailure rp') \<noteq> []"
    and warns: "\<And>outcome rp outcome' rp'. step outcome rp = (outcome', rp') \<Longrightarrow>
      (\<exists>ws. rpEvents rp' = rpEvents rp @ map Warning ws) \<and> rtError (rpTrace rp') = rtError (rpTrace rp)
        \<and> rtStructuredOutput (rpTrace rp') = rtStructuredOutput (rpTrace rp)"
begin

lemma success_iff:
  assumes "step outcome rp = (outcome', rp')"
  shows "outcome' = ''success'' \<longleftrightarrow> outcome = ''success'' \<and> ok"
  using assms keeps [OF assms] claims [of rp outcome' rp'] by (cases "outcome = ''success''") (auto split: if_splits)

lemma reason:
  assumes "step outcome rp = (outcome', rp')" "outcome' \<noteq> ''success''"
  shows "(outcome \<noteq> ''success'' \<and> outcome' = outcome \<and> rpFailure rp' = rpFailure rp)
     \<or> (outcome = ''success'' \<and> rfOutcome (rpFailure rp') = outcome' \<and> rfText (rpFailure rp') \<noteq> [])"
  using assms keeps [OF assms(1)] claims [of rp outcome' rp'] by (cases "outcome = ''success''") (auto split: if_splits)

end

definition andThen ::
  "(string \<Rightarrow> runReport \<Rightarrow> string \<times> runReport) \<Rightarrow> (string \<Rightarrow> runReport \<Rightarrow> string \<times> runReport)
     \<Rightarrow> string \<Rightarrow> runReport \<Rightarrow> string \<times> runReport" where
  "andThen f g outcome rp = (case f outcome rp of (outcome1, rp1) \<Rightarrow> g outcome1 rp1)"

lemma andThen_step:
  assumes "finishing_step f a" "finishing_step g b"
  shows "finishing_step (andThen f g) (a \<and> b)"
proof
  fix outcome rp outcome' rp'
  assume st: "andThen f g outcome rp = (outcome', rp')"
  obtain o1 rp1 where f: "f outcome rp = (o1, rp1)" and g: "g o1 rp1 = (outcome', rp')"
    using st by (auto simp: andThen_def split: prod.splits)
  show "outcome' = outcome \<and> rpFailure rp' = rpFailure rp" if "outcome \<noteq> ''success''"
    using finishing_step.keeps [OF assms(1) f that] finishing_step.keeps [OF assms(2) g] that by simp
  show "(\<exists>ws. rpEvents rp' = rpEvents rp @ map Warning ws) \<and> rtError (rpTrace rp') = rtError (rpTrace rp)
        \<and> rtStructuredOutput (rpTrace rp') = rtStructuredOutput (rpTrace rp)"
    using finishing_step.warns [OF assms(1) f] finishing_step.warns [OF assms(2) g] by (auto simp flip: map_append)
next
  fix rp outcome' rp'
  assume st: "andThen f g ''success'' rp = (outcome', rp')"
  obtain o1 rp1 where f: "f ''success'' rp = (o1, rp1)" and g: "g o1 rp1 = (outcome', rp')"
    using st by (auto simp: andThen_def split: prod.splits)
  show "if a \<and> b then outcome' = ''success'' \<and> rpFailure rp' = rpFailure rp
     else outcome' \<noteq> ''success'' \<and> rfOutcome (rpFailure rp') = outcome' \<and> rfText (rpFailure rp') \<noteq> []"
    using finishing_step.claims [OF assms(1) f] finishing_step.claims [OF assms(2)] finishing_step.keeps [OF assms(2) g] g
    by (cases a) auto
qed

definition gitOk :: "finishEnv \<Rightarrow> bool" where
  "gitOk env = (case fiGit env ''success'' of (handoff, err) \<Rightarrow> err = None \<and> (case handoff of None \<Rightarrow> True | Some g \<Rightarrow> \<not> ghDirty g))"

definition hooksOk :: "finishEnv \<Rightarrow> bool" where
  "hooksOk env = (case fiHooks env of None \<Rightarrow> True | Some post \<Rightarrow> snd (post ''success'') = None)"

definition commandOutputOk :: "finishEnv \<Rightarrow> bool" where
  "commandOutputOk env =
     (case fiCommandOutput env of
        None \<Rightarrow> True
      | Some (fatal, _, err) \<Rightarrow> \<not> fiOwnsCommandOutput env \<or> fiBestEffort env \<or> (fatal = None \<and> err = None))"

definition exportOk :: "finishEnv \<Rightarrow> bool" where
  "exportOk env =
     (case fiExport env of
        None \<Rightarrow> True
      | Some (_, err) \<Rightarrow> \<not> hasWorkspace (fiExecutorType env) \<or> err = None \<or> \<not> ExportRequired env)"

lemma report_fields [simp]:
  "rpEvents (emitRun e rp) = rpEvents rp @ [e]" "rpFailure (emitRun e rp) = rpFailure rp" "rpTrace (emitRun e rp) = rpTrace rp"
  "rpEvents (updateTrace f rp) = rpEvents rp" "rpFailure (updateTrace f rp) = rpFailure rp" "rpTrace (updateTrace f rp) = f (rpTrace rp)"
  "rpEvents (noteFailure c t rp) = rpEvents rp" "rpTrace (noteFailure c t rp) = rpTrace rp"
  "rfOutcome (rpFailure (noteFailure c t rp)) = c" "rfText (rpFailure (noteFailure c t rp)) = t"
  by (simp_all add: emitRun_def updateTrace_def noteFailure_def)

lemma warnings_appended:
  "foldl (\<lambda>r w. emitRun (Warning w) r) rp ws = rp\<lparr>rpEvents := rpEvents rp @ map Warning ws\<rparr>"
  by (induction ws arbitrary: rp) (simp_all add: emitRun_def)

lemma no_warnings: "\<exists>ws. [Warning w] = map Warning ws" "\<exists>ws'. map Warning ws = map Warning ws'"
  by (auto intro: exI [of _ "[w]"])

interpretation checkpoint: finishing_step "finaliseGit env" "gitOk env" for env
  by unfold_locales
    (auto simp: finaliseGit_def gitOk_def Let_def no_warnings split: prod.splits option.splits if_splits)

interpretation posthooks: finishing_step "runPostHooks env" "hooksOk env" for env
  by unfold_locales
    (auto simp: runPostHooks_def hooksOk_def Let_def no_warnings warnings_appended split: prod.splits option.splits if_splits)

interpretation archive: finishing_step "finalizeCommandOutput env" "commandOutputOk env" for env
  by unfold_locales
    (auto simp: finalizeCommandOutput_def commandOutputOk_def Let_def no_warnings split: prod.splits option.splits if_splits)

interpretation handoff: finishing_step "handoffWorkspace env" "exportOk env" for env
  by unfold_locales
    (auto simp: handoffWorkspace_def exportOk_def Let_def no_warnings split: prod.splits option.splits if_splits)

definition stepsOk :: "finishEnv \<Rightarrow> bool" where
  "stepsOk env = (gitOk env \<and> hooksOk env \<and> commandOutputOk env \<and> exportOk env)"

lemma finishSteps_andThen:
  "finishSteps env = andThen (finaliseGit env) (andThen (runPostHooks env) (andThen (finalizeCommandOutput env) (handoffWorkspace env)))"
  by (intro ext) (simp add: finishSteps_def andThen_def)

interpretation steps: finishing_step "finishSteps env" "stepsOk env" for env
  unfolding finishSteps_andThen stepsOk_def
  by (intro andThen_step checkpoint.finishing_step_axioms posthooks.finishing_step_axioms archive.finishing_step_axioms
      handoff.finishing_step_axioms)

section \<open>The last event\<close>

lemma capFailureText_bound:
  "length (capFailureText s) \<le> 1024 + length finalAssistantTextTruncationMarker"
  using CapFinalAssistantText_length [of s maxFailureTextBytes] by (simp add: capFailureText_def maxFailureTextBytes_def)

lemma capFailureText_not_Nil: "s \<noteq> [] \<Longrightarrow> capFailureText s \<noteq> []"
  by (simp add: capFailureText_def CapFinalAssistantText_def finalAssistantTextTruncationMarker_def Let_def)

lemma describeOutcome_not_Nil: "describeOutcome env outcome \<noteq> []"
  by (simp add: describeOutcome_def)

lemma runErrorText_not_Nil:
  assumes "outcome \<noteq> ''success''" "\<And>s. s \<noteq> [] \<Longrightarrow> fiScrub env s \<noteq> []"
  shows "runErrorText env outcome rp \<noteq> []"
  using assms describeOutcome_not_Nil by (simp add: runErrorText_def capFailureText_not_Nil)

lemma finishRun_ok:
  assumes "finishRun env outcome rp = ((t, err), rp')" "rtError (rpTrace rp) = []"
  shows "rtOutcome t = outcome" "\<exists>ws. rpEvents rp' = rpEvents rp @ map Warning ws @ [Done outcome (doneSummary t)]"
    "err = None \<Longrightarrow> rtError t = runErrorText env outcome rp"
    "outcome \<noteq> ''success'' \<Longrightarrow> rtError t = runErrorText env outcome rp \<or> runErrorText env outcome rp = []"
    "length (rtError t) \<le> 1024 + length finalAssistantTextTruncationMarker"
    "rtStructuredOutput t = rtStructuredOutput (rpTrace rp)" "rtStopDetails t = rtStopDetails (rpTrace rp)"
    "rtVerificationResults t = rtVerificationResults (rpTrace rp)" "rtFinalAssistantText t = rtFinalAssistantText (rpTrace rp)"
proof -
  have cap: "length (runErrorText env outcome rp) \<le> 1024 + length finalAssistantTextTruncationMarker"
    using capFailureText_bound by (simp add: runErrorText_def)
  define warns where "warns = (\<lambda>t'. case fiDeliver env of None \<Rightarrow> [] | Some deliver \<Rightarrow>
      (case deliver t' of None \<Rightarrow> [] | Some e \<Rightarrow> [''result sink: '' @ capFailureText (fiScrub env e)]))"
  have warn: "rpEvents (deliverResult env t' r) = rpEvents r @ map Warning (warns t')" for t' r
    by (simp add: deliverResult_def warns_def split: option.splits)
  show "rtOutcome t = outcome" "\<exists>ws. rpEvents rp' = rpEvents rp @ map Warning ws @ [Done outcome (doneSummary t)]"
    "err = None \<Longrightarrow> rtError t = runErrorText env outcome rp"
    "outcome \<noteq> ''success'' \<Longrightarrow> rtError t = runErrorText env outcome rp \<or> runErrorText env outcome rp = []"
    "length (rtError t) \<le> 1024 + length finalAssistantTextTruncationMarker"
    "rtStructuredOutput t = rtStructuredOutput (rpTrace rp)" "rtStopDetails t = rtStopDetails (rpTrace rp)"
    "rtVerificationResults t = rtVerificationResults (rpTrace rp)" "rtFinalAssistantText t = rtFinalAssistantText (rpTrace rp)"
    using assms cap capFailureText_bound
    by (auto simp: warn finishRun_def finishTrace_def Let_def split: if_splits option.splits)
qed

section \<open>Properties\<close>

text \<open>
  C5: the primary cause of a run's end stays authoritative. The steps after the last turn report success exactly
  when the run had succeeded and the final checkpoint, the hooks, the command output and the required export
  all did; an outcome that was already a failure is reported as it was, with its reason; and a step that turns a
  success into a failure records a reason for the outcome it claims.
\<close>

theorem outcome_authority:
  assumes "finishSteps env outcome rp = (outcome', rp')"
  shows "(outcome' = ''success'' \<longleftrightarrow> outcome = ''success'' \<and> gitOk env \<and> hooksOk env \<and> commandOutputOk env \<and> exportOk env)
    \<and> (outcome \<noteq> ''success'' \<longrightarrow> outcome' = outcome \<and> rpFailure rp' = rpFailure rp)
    \<and> (outcome = ''success'' \<and> outcome' \<noteq> ''success'' \<longrightarrow>
         rfOutcome (rpFailure rp') = outcome' \<and> rfText (rpFailure rp') \<noteq> [])"
  using steps.success_iff [OF assms] steps.reason [OF assms] by (auto simp: stepsOk_def)

definition quietFinish :: finishEnv where
  "quietFinish = \<lparr>fiScrub = id, fiShow = id, fiMaxTurns = 5, fiGit = (\<lambda>_. (None, None)), fiHooks = None, fiCommandOutput = None,
     fiOwnsCommandOutput = False, fiBestEffort = False, fiExport = None, fiExecutorType = ''local'', fiExportTo = [],
     fiExportRequired = None, fiDeliver = None, fiPersist = (\<lambda>_. None)\<rparr>"

definition startedReport :: runReport where
  "startedReport = \<lparr>rpFailure = \<lparr>rfOutcome = [], rfText = []\<rparr>, rpEvents = [], rpTrace = startedTrace\<rparr>"

text \<open>A dirty tree after the checkpoint, and a hook that fails when the checkpoint has failed.\<close>

definition dirtyFinish :: finishEnv where
  "dirtyFinish = quietFinish\<lparr>fiGit := (\<lambda>_. (Some (zeroGitHandoff\<lparr>ghDirty := True\<rparr>), None)),
     fiHooks := Some (\<lambda>outcome. (case RunPost sampleHookEnv [sampleHook ''push'' False ''failure''] outcome [] of (xs, e, _) \<Rightarrow> (xs, e)))\<rparr>"

theorem outcome_authority_witness:
  "(case finishSteps dirtyFinish ''success'' startedReport of
      (outcome, rp) \<Rightarrow> outcome = ''handoff_failed'' \<and> rfOutcome (rpFailure rp) = ''handoff_failed'' \<and> rfText (rpFailure rp) \<noteq> []
        \<and> length (rtHookResults (rpTrace rp)) = 1)"
proof -
  obtain outcome rp where r: "finishSteps dirtyFinish ''success'' startedReport = (outcome, rp)"
    by fastforce
  have "outcome = ''handoff_failed'' \<and> length (rtHookResults (rpTrace rp)) = 1"
    using r by (auto simp: finishSteps_def finaliseGit_def runPostHooks_def finalizeCommandOutput_def handoffWorkspace_def dirtyFinish_def
        quietFinish_def Let_def RunPost_def sampleHook_def hookSelected_def hookRuns_def sampleHookEnv_def runOne_def hookWarnings_def
        withResult_def hookEntry_def scrubbedTail_def hookFailed_def zeroGitHandoff_def updateTrace_def startedReport_def startedTrace_def
        emitRun_def noteFailure_def split: prod.splits)
  then show ?thesis
    using outcome_authority [OF r] r by simp
qed

end
