(* ===== verification/Run_Loop.thy ===== *)
theory Run_Loop
  imports Agent_Loop Run_Finish
begin

text \<open>
  A whole run: \<open>Run\<close> of \<open>core/loop.go\<close> from its setup to its trace, and the history a follow-up run
  continues (\<open>core/followuphistory.go\<close>). The turns are those of \<open>runInnerLoop\<close>; around them stand the setup
  steps, the rounds of structured-output corrections and verification, and the finishing steps.

  What a run keeps between runs, the fields of \<open>AgenticLoop\<close> that outlive one, is the record \<open>loopSession\<close>. The
  verifier, the hooks, repository guidance, the prompt builder, the git strategy and the state of the context at
  the places that ask are given by an environment. The lazy loader is reset and the ledger bound as a run
  starts; heartbeats, metrics, spans and log lines are left out.
\<close>

section \<open>Follow-up history (followuphistory.go)\<close>

record carriedHistory =
  chMessages :: "Message list"
  chUnscreened :: bool
  chRewritten :: bool
  chWithheld :: string
  chToolCalls :: nat
  chCacheKey :: string
  chBinding :: "(string \<times> ToolDefinition list) option"

definition withheldHistory :: "string \<Rightarrow> carriedHistory" where
  "withheldHistory outcome = \<lparr>chMessages = [], chUnscreened = False, chRewritten = False, chWithheld = outcome, chToolCalls = 0,
     chCacheKey = [], chBinding = None\<rparr>"

record ('s, 'x) loopSession =
  ssMonitor :: "PatternMonitor option"
  ssQueue :: userInputQueue
  ssStrategy :: 's
  ssWorld :: "'x loopWorld_scheme"
  ssLazyReported :: bool
  ssCarried :: "carriedHistory option"

text \<open>\<open>rnVerifier\<close> is the configured verifier type, \<open>rnContinues\<close> whether follow-ups continue the history.\<close>

record runConfig =
  rnLoop :: loopConfig
  rnRunID :: string
  rnParentRunID :: string
  rnOutputSchema :: string
  rnMaxFinalText :: int
  rnVerifier :: string
  rnContinues :: bool
  rnContext :: "(string \<times> string) list"

text \<open>
  \<open>reCtx k\<close> is the state of the run's context at the \<open>k\<close>-th step of \<open>Run\<close> that asks; \<open>reInnerFailure r\<close>
  the reason round \<open>r\<close> notes for the outcome \<open>error\<close>; \<open>reVerify a\<close> the verifier's answer to attempt \<open>a\<close>.
\<close>

record ('f, 's, 'x, 'c, 'v, 'p) runEnv =
  reLoop :: "('f, 's, 'x, 'c, 'v, 'p) loopEnv"
  reOutput :: outputEnv
  reFinish :: finishEnv
  reDigest :: "string \<Rightarrow> string"
  reCtx :: "nat \<Rightarrow> goError option"
  rePreHooks :: "(HookExecution list \<times> string option) option"
  reGuidance :: "(string + guidanceDocument list) option"
  rePrompt :: "(string \<times> string) list \<Rightarrow> (string \<times> string) list \<Rightarrow> guidanceDocument list \<Rightarrow> string + string"
  reGitSetup :: "string option"
  reEmitReady :: bool
  reInnerFailure :: "nat \<Rightarrow> string option"
  reVerify :: "nat \<Rightarrow> Message list \<Rightarrow> string + VerificationResult"

definition providerCacheKey :: "(string \<Rightarrow> string) \<Rightarrow> string \<Rightarrow> string" where
  "providerCacheKey digest runID' = (if runID' = [] then [] else digest runID')"

definition continuesHistory :: "carriedHistory option \<Rightarrow> bool" where
  "continuesHistory carried = (case carried of None \<Rightarrow> False | Some c \<Rightarrow> chMessages c \<noteq> [])"

definition rewrote :: "carriedHistory option \<Rightarrow> bool" where
  "rewrote carried = (case carried of None \<Rightarrow> False | Some c \<Rightarrow> chRewritten c)"

definition takeCarriedHistory :: "bool \<Rightarrow> carriedHistory option \<Rightarrow> carriedHistory option" where
  "takeCarriedHistory followUp carried = (if followUp then carried else None)"

text \<open>The tool calls counted so far, the cache key and the thinking binding a run starts with.\<close>

definition beginRunState ::
  "(string \<Rightarrow> string) \<Rightarrow> string \<Rightarrow> carriedHistory option \<Rightarrow> nat \<times> string \<times> (string \<times> ToolDefinition list) option" where
  "beginRunState digest runID' carried =
     (case carried of
        Some c \<Rightarrow>
          if chMessages c \<noteq> []
          then (chToolCalls c, if chCacheKey c \<noteq> [] then chCacheKey c else providerCacheKey digest runID', chBinding c)
          else (0, providerCacheKey digest runID', None)
      | None \<Rightarrow> (0, providerCacheKey digest runID', None))"

definition retainHistory :: "runConfig \<Rightarrow> string \<Rightarrow> string \<Rightarrow> ('f, 's, 'x) loopState \<Rightarrow> carriedHistory option" where
  "retainHistory cfg cacheKey outcome st =
     (if rnParentRunID cfg \<noteq> [] \<or> \<not> rnContinues cfg then None
      else if outcome = ''rule_of_two_violation'' \<or> outcome = ''guardrail_blocked'' then Some (withheldHistory outcome)
      else let committed = committedHistory (lsMessages st)
           in Some \<lparr>chMessages = committed,
                    chUnscreened = (length committed > lsScreenedLen st \<and> arrivedUntrustedChunks committed \<noteq> []),
                    chRewritten = lsRewritten st, chWithheld = [], chToolCalls = countToolUses committed,
                    chCacheKey = cacheKey, chBinding = lsBinding st\<rparr>)"

definition historyWithheld :: "finishEnv \<Rightarrow> string \<Rightarrow> string" where
  "historyWithheld env previousOutcome =
     ''followUpHistory continue: the previous run ended '' @ fiShow env previousOutcome
     @ '', so this follow-up starts from its prompt alone''"

record startedHistory =
  shMessages :: "Message list"
  shScreenedLen :: nat
  shMonitor :: "PatternMonitor option"
  shAbort :: bool
  shWarnings :: "string list"

definition startingHistory ::
  "screenEnv \<Rightarrow> finishEnv \<Rightarrow> string \<Rightarrow> PatternMonitor option \<Rightarrow> carriedHistory option \<Rightarrow> startedHistory" where
  "startingHistory screen env prompt mon carried =
     (let warned = (case carried of
                      None \<Rightarrow> []
                    | Some c \<Rightarrow> if chWithheld c \<noteq> [] then [historyWithheld env (chWithheld c)] else [])
      in case carried of
           Some c \<Rightarrow>
             if chMessages c = []
             then \<lparr>shMessages = buildMessages prompt, shScreenedLen = length (buildMessages prompt), shMonitor = mon,
                   shAbort = False, shWarnings = warned\<rparr>
             else
               let r = (if chUnscreened c then screenArrivedContent screen mon (chMessages c)
                        else \<lparr>scOutcome = [], scMessages = chMessages c, scMonitor = mon, scAsked = []\<rparr>);
                   messages = appendUserText (scMessages r) prompt False
               in \<lparr>shMessages = messages, shScreenedLen = (if scOutcome r \<noteq> [] then 0 else length messages),
                   shMonitor = scMonitor r, shAbort = (scOutcome r \<noteq> []), shWarnings = warned\<rparr>
         | None \<Rightarrow>
             \<lparr>shMessages = buildMessages prompt, shScreenedLen = length (buildMessages prompt), shMonitor = mon,
              shAbort = False, shWarnings = warned\<rparr>)"

section \<open>Setup\<close>

text \<open>
  A setup that failed, with its outcome and error, or what the run starts from. The report holds the
  warnings raised so far back until the run has started or failed.
\<close>

record setupDone =
  sdSystem :: string
  sdTurnZero :: "string list"
  sdMonitor :: "PatternMonitor option"
  sdAbort :: bool

datatype setupResult = SetupFailed string string "PatternMonitor option" | SetupDone setupDone

definition observeInto ::
  "screenEnv \<Rightarrow> string list \<Rightarrow> bool \<times> PatternMonitor option \<Rightarrow> bool \<times> PatternMonitor option" where
  "observeInto screen chunks seen =
     (case observeSensitive screen chunks (snd seen) of (det, mon) \<Rightarrow> (fst seen \<or> Transition det, mon))"

text \<open>The Rule-of-Two enforcement, the prompt and the git setup, once the hooks have run and guidance is loaded.\<close>

definition buildRun ::
  "('f, 's, 'x, 'c, 'v, 'p) runEnv \<Rightarrow> (string \<times> string) list \<Rightarrow> guidanceDocument list \<Rightarrow> bool \<times> PatternMonitor option
     \<Rightarrow> setupResult" where
  "buildRun env context docs seen =
     (let screen = leScreen (reLoop env);
          mon = snd seen;
          redacts = (ruleOfTwoAction mon = ''redact'');
          context' = (if redacts then fst (redactDynamicContext screen mon context) else context);
          docs' = (if redacts then fst (redactRepositoryGuidance screen mon docs) else docs);
          fenced = (if ChecksPhase (scGuard screen) ''pre_turn'' then fenceDynamicContext screen context' else [])
      in case rePrompt env context' fenced docs' of
           Inl err \<Rightarrow> SetupFailed (setupOutcome (reCtx env 2) ''error'') (''build system prompt: '' @ err) mon
         | Inr system \<Rightarrow>
             (case reGitSetup env of
                Some err \<Rightarrow> SetupFailed (setupOutcome (reCtx env 3) ''error'') (''git setup: '' @ err) mon
              | None \<Rightarrow> SetupDone \<lparr>sdSystem = system, sdTurnZero = sortedContextValues context', sdMonitor = mon,
                          sdAbort = (ruleOfTwoAction mon = ''abort'' \<and> fst seen)\<rparr>))"

definition setupRun ::
  "('f, 's, 'x, 'c, 'v, 'p) runEnv \<Rightarrow> runConfig \<Rightarrow> PatternMonitor option \<Rightarrow> string list \<Rightarrow> runReport
     \<Rightarrow> setupResult \<times> string list \<times> runReport" where
  "setupRun env cfg mon held rp =
     (let screen = leScreen (reLoop env);
          prompt = lcPrompt (rnLoop cfg);
          context = fst (SanitizeDynamicContext (rnContext cfg));
          seen1 = (if prompt \<noteq> [] then observeInto screen [prompt] (False, mon) else (False, mon));
          seen2 = observeInto screen (sortedContextValues context) seen1;
          (held1, rp1, hookErr) =
            (case rePreHooks env of
               None \<Rightarrow> (held, rp, None)
             | Some (xs, err) \<Rightarrow>
                 (held @ hookWarnings xs, updateTrace (\<lambda>t. t\<lparr>rtHookResults := rtHookResults t @ xs\<rparr>) rp, err))
      in case hookErr of
           Some err \<Rightarrow>
             (SetupFailed (setupOutcome (reCtx env 0) ''setup_failed'') (''pre-run hooks: '' @ err) (snd seen2), held1, rp1)
         | None \<Rightarrow>
             (case reGuidance env of
                None \<Rightarrow> (buildRun env context [] seen2, held1, rp1)
              | Some (Inl err) \<Rightarrow>
                  (SetupFailed (setupOutcome (reCtx env 1) ''setup_failed'') (''repository guidance: '' @ err) (snd seen2), held1, rp1)
              | Some (Inr docs) \<Rightarrow>
                  (buildRun env context docs (observeInto screen (guidanceContents docs) seen2), held1, rp1)))"

section \<open>The rounds of a run\<close>

definition maxVerificationRetries :: nat where "maxVerificationRetries = 3"

definition finalAnswerText :: "Message list \<Rightarrow> string" where
  "finalAnswerText messages =
     (if messages = [] \<or> Role (last messages) \<noteq> ''assistant'' then [] else lastAssistantText (MContent (last messages)))"

text \<open>The local variables of \<open>Run\<close> that its rounds change.\<close>

record ('f, 's, 'x) runLocals =
  rdState :: "('f, 's, 'x) loopState"
  rdNext :: int
  rdAttempts :: nat
  rdCorrections :: nat
  rdRound :: nat
  rdFinal :: string
  rdStop :: "StopDetails option"
  rdInner :: string
  rdStructured :: "string option"
  rdReport :: runReport

datatype 'l roundStep = RoundEnds string 'l | RoundAgain 'l

definition recordVerification :: "runConfig \<Rightarrow> VerificationResult \<Rightarrow> runReport \<Rightarrow> runReport" where
  "recordVerification cfg r rp =
     (if verifierRecorded (rnVerifier cfg)
      then updateTrace (\<lambda>t. t\<lparr>rtVerificationResults := rtVerificationResults t @ [r]\<rparr>) rp else rp)"

definition reportVerifierError :: "finishEnv \<Rightarrow> runConfig \<Rightarrow> nat \<Rightarrow> string \<Rightarrow> runReport \<Rightarrow> runReport" where
  "reportVerifierError env cfg attempt err rp =
     (let msg = boundVerificationText (fiScrub env) err in
      recordVerification cfg \<lparr>vrAttempt = attempt, vrPassed = False, vrFeedback = [], vrError = msg, vrDetails = None\<rparr>
        (emitRun (Warning (''verifier error (attempt '' @ Itoa (int attempt) @ ''): '' @ msg)) rp))"

definition feedbackMessage :: "string \<Rightarrow> Message" where
  "feedbackMessage feedback =
     (if feedback = []
      then \<lparr>Role = ''user'', MContent = [textBlock ''Verification failed. Please review and fix the issues.''],
            Synthetic = True, MOrigin = [], ReplayFields = []\<rparr>
      else \<lparr>Role = ''user'', MContent = [textBlock feedback], Synthetic = True, MOrigin = verifierFeedback, ReplayFields = []\<rparr>)"

definition verifyAnswer ::
  "('f, 's, 'x, 'c, 'v, 'p) runEnv \<Rightarrow> runConfig \<Rightarrow> ('f, 's, 'x) runLocals \<Rightarrow> ('f, 's, 'x) runLocals roundStep" where
  "verifyAnswer env cfg rd =
     (let attempt = rdAttempts rd + 1;
          fin = reFinish env;
          messages = lsMessages (rdState rd)
      in case reVerify env attempt messages of
           Inl err \<Rightarrow>
             RoundEnds ''verification_error''
               (rd\<lparr>rdReport := noteFailure ''verification_error'' (''verifier: '' @ fiScrub fin err)
                                 (reportVerifierError fin cfg attempt err (rdReport rd))\<rparr>)
         | Inr v \<Rightarrow>
             let rd1 = rd\<lparr>rdReport := recordVerification cfg (boundedVerificationResult (fiScrub fin) attempt v) (rdReport rd)\<rparr>
             in if vrPassed v then RoundEnds ''success'' rd1
                else
                  let rd2 = rd1\<lparr>rdAttempts := attempt\<rparr> in
                  if attempt > maxVerificationRetries \<or> rdNext rd \<ge> lcMaxTurns (rnLoop cfg)
                  then RoundEnds ''verification_failed'' rd2
                  else
                    let m = feedbackMessage (vrFeedback v);
                        rp = emitRun (UserMessage ''verifier_feedback'' (Text (hd (MContent m))) []) (rdReport rd2)
                    in case appendVerifierFeedback (leScreen (reLoop env)) (lsMonitor (rdState rd2)) messages m of
                         (messages', blocked, mon) \<Rightarrow>
                           let rd3 = rd2\<lparr>rdReport := rp, rdState := (rdState rd2)\<lparr>lsMessages := messages', lsMonitor := mon\<rparr>\<rparr>
                           in if blocked \<noteq> [] then RoundEnds blocked rd3 else RoundAgain rd3)"

definition correctAnswer ::
  "('f, 's, 'x, 'c, 'v, 'p) runEnv \<Rightarrow> runConfig \<Rightarrow> outputError \<Rightarrow> ('f, 's, 'x) runLocals \<Rightarrow> ('f, 's, 'x) runLocals roundStep" where
  "correctAnswer env cfg err rd =
     (let violation = structuredOutputViolation (reOutput env) err;
          maxTurns = lcMaxTurns (rnLoop cfg)
      in if (case err of Redacted _ \<Rightarrow> True | Rejected _ \<Rightarrow> False) \<or> rdCorrections rd \<ge> maxStructuredOutputCorrections
         then RoundEnds ''structured_output_failed''
                (rd\<lparr>rdReport := noteFailure ''structured_output_failed'' (''structured output: '' @ violation) (rdReport rd)\<rparr>)
         else if rdNext rd \<ge> maxTurns
         then RoundEnds ''max_turns''
                (rd\<lparr>rdReport := noteFailure ''max_turns''
                      (''reached the turn limit (maxTurns '' @ Itoa maxTurns
                       @ '') before the final answer satisfied the output schema: '' @ violation) (rdReport rd)\<rparr>)
         else
           let correction = structuredOutputCorrection violation in
           RoundAgain (rd\<lparr>rdCorrections := rdCorrections rd + 1,
             rdState := (rdState rd)\<lparr>lsMessages := injectSyntheticUserText (lsMessages (rdState rd)) correction\<rparr>,
             rdReport := emitRun (UserMessage ''structured_output_correction'' correction []) (rdReport rd)\<rparr>))"

text \<open>One round: the turns, then the output schema, then the verifier. \<open>carried\<close> counts continued tool calls.\<close>

definition oneRound ::
  "('f, 's, 'x, 'c, 'v, 'p) runEnv \<Rightarrow> runConfig \<Rightarrow> nat \<Rightarrow> ('f, 's, 'x) runLocals \<Rightarrow> ('f, 's, 'x) runLocals roundStep" where
  "oneRound env cfg carried rd =
     (case runInnerLoop (reLoop env) (rnLoop cfg) (rdNext rd) (enterLoop (reLoop env) carried (rdState rd)) of
        (next', st', outcome, final, details) \<Rightarrow>
          let rd1 = rd\<lparr>rdState := st', rdNext := next', rdRound := rdRound rd + 1, rdStop := details, rdInner := outcome,
                       rdStructured := None, rdFinal := (if final \<noteq> [] then final else rdFinal rd),
                       rdReport := (case reInnerFailure env (rdRound rd) of
                                      None \<Rightarrow> rdReport rd
                                    | Some t \<Rightarrow> noteFailure ''error'' t (rdReport rd))\<rparr>
          in if outcome \<noteq> ''success'' then RoundEnds outcome rd1
             else if rnOutputSchema cfg = [] then verifyAnswer env cfg rd1
             else (case checkStructuredOutput (reOutput env) (finalAnswerText (lsMessages st')) (rnOutputSchema cfg)
                          (structuredOutputLimit (rnMaxFinalText cfg)) of
                     Inl err \<Rightarrow> correctAnswer env cfg err rd1
                   | Inr doc \<Rightarrow> verifyAnswer env cfg (rd1\<lparr>rdStructured := Some doc\<rparr>)))"

lemma verifyAnswer_again:
  "verifyAnswer env cfg rd = RoundAgain rd' \<Longrightarrow>
     rdAttempts rd' = rdAttempts rd + 1 \<and> rdAttempts rd' \<le> maxVerificationRetries \<and> rdCorrections rd' = rdCorrections rd"
  by (auto simp: verifyAnswer_def Let_def split: sum.splits if_splits prod.splits)

lemma correctAnswer_again:
  "correctAnswer env cfg err rd = RoundAgain rd' \<Longrightarrow>
     rdAttempts rd' = rdAttempts rd \<and> rdCorrections rd' = rdCorrections rd + 1 \<and> rdCorrections rd' \<le> maxStructuredOutputCorrections"
  by (auto simp: correctAnswer_def Let_def split: outputError.splits if_splits)

lemma oneRound_again:
  assumes "oneRound env cfg carried rd = RoundAgain rd'"
  shows "(rdAttempts rd' = rdAttempts rd + 1 \<and> rdAttempts rd' \<le> maxVerificationRetries \<and> rdCorrections rd' = rdCorrections rd)
     \<or> (rdAttempts rd' = rdAttempts rd \<and> rdCorrections rd' = rdCorrections rd + 1 \<and> rdCorrections rd' \<le> maxStructuredOutputCorrections)"
  using assms
  by (auto simp: oneRound_def Let_def split: prod.splits if_splits sum.splits dest!: verifyAnswer_again correctAnswer_again)

function runRounds ::
  "('f, 's, 'x, 'c, 'v, 'p) runEnv \<Rightarrow> runConfig \<Rightarrow> nat \<Rightarrow> ('f, 's, 'x) runLocals \<Rightarrow> string \<times> ('f, 's, 'x) runLocals" where
  "runRounds env cfg carried rd =
     (if rdAttempts rd \<le> maxVerificationRetries
      then (case oneRound env cfg carried rd of
              RoundEnds outcome rd' \<Rightarrow> (outcome, rd')
            | RoundAgain rd' \<Rightarrow> runRounds env cfg carried rd')
      else (''success'', rd))"
  by pat_completeness auto
termination
  by (relation "measure (\<lambda>(_, _, _, rd). (Suc maxVerificationRetries - rdAttempts rd) + (maxStructuredOutputCorrections - rdCorrections rd))")
    (auto dest!: oneRound_again)

declare runRounds.simps [simp del]

section \<open>The run\<close>

definition lazyWarning :: "finishEnv \<Rightarrow> string \<Rightarrow> string" where
  "lazyWarning env name = ''tools.lazyLoading.eager names '' @ fiShow env name @ '', which is not a registered tool; it is ignored''"

definition startRun :: "runConfig \<Rightarrow> carriedHistory option \<Rightarrow> ('s, 'x) loopSession \<Rightarrow> string list \<times> ('s, 'x) loopSession" where
  "startRun cfg carried ss =
     (case startLazyTools (continuesHistory carried) (ssLazyReported ss) (lwLazy (ssWorld ss)) of
        (eager, lazy) \<Rightarrow>
          (eager, ss\<lparr>ssCarried := None, ssLazyReported := (ssLazyReported ss \<or> lwLazy (ssWorld ss) \<noteq> None),
             ssWorld := (ssWorld ss)\<lparr>lwLazy := lazy,
               lwLedger := (if rnParentRunID cfg \<noteq> [] then lwLedger (ssWorld ss)
                            else NewTokenLedger (lcMaxTokenBudget (rnLoop cfg)))\<rparr>\<rparr>))"

definition initialState ::
  "'f ratioOps \<Rightarrow> ('s, 'x) loopSession \<Rightarrow> startedHistory \<Rightarrow> bool \<Rightarrow> (string \<times> ToolDefinition list) option
     \<Rightarrow> ('f, 's, 'x) loopState" where
  "initialState R ss sh rewritten binding =
     \<lparr>lsMessages = shMessages sh, lsMonitor = shMonitor sh, lsQueue = ssQueue ss, lsScreenedLen = shScreenedLen sh,
      lsTokens = zeroUsage, lsStall = zeroDetector, lsWindDownSent = False, lsRoute = None, lsPauses = 0, lsRecoveries = 0,
      lsPriorCalls = 0, lsEscalations = 0, lsToolRequired = False, lsLastStop = [], lsFinal = [], lsContinued = [],
      lsPreContinuation = [], lsRatio = fzero R, lsBinding = binding, lsRewritten = rewritten, lsStrategy = ssStrategy ss,
      lsWorld = ssWorld ss, lsOpen = None, lsEvents = [], lsSent = []\<rparr>"

record ('f, 's, 'x) runResult =
  rrTrace :: RunTrace
  rrError :: "string option"
  rrReport :: runReport
  rrSession :: "('s, 'x) loopSession"
  rrRan :: "('f, 's, 'x) runLocals option"

definition emitWarnings :: "string list \<Rightarrow> runReport \<Rightarrow> runReport" where
  "emitWarnings ws rp = foldl (\<lambda>r w. emitRun (Warning w) r) rp ws"

text \<open>From the last round to the trace. \<open>outcome\<close> is the outcome the rounds ended with.\<close>

definition endRun ::
  "('f, 's, 'x, 'c, 'v, 'p) runEnv \<Rightarrow> string \<Rightarrow> ('f, 's, 'x) runLocals \<Rightarrow> (RunTrace \<times> string option) \<times> runReport" where
  "endRun env outcome rd =
     (let fin = reFinish env;
          ended = reCtx env 4;
          outcome1 = (if ended \<noteq> None then outcomeCtxDone else outcome);
          (outcome2, rp1) =
            (if outcome1 = outcomeCtxDone
             then (let c = classifyCtxOutcome ended in
                   (c, if c = ''control_stream_lost''
                       then noteFailure c (case ended of Some e \<Rightarrow> geText e | None \<Rightarrow> []) (rdReport rd) else rdReport rd))
             else (outcome1, rdReport rd))
      in case finishSteps fin outcome2 rp1 of
           (outcome3, rp2) \<Rightarrow>
             let rp3 = updateTrace (\<lambda>t. t\<lparr>rtFinalAssistantText := fiScrub fin (rdFinal rd),
                   rtStructuredOutput := (if outcome3 = ''success'' \<and> rdStructured rd \<noteq> None then rdStructured rd else rtStructuredOutput t),
                   rtStopDetails := (if outcome3 = rdInner rd \<and> rdStop rd \<noteq> None then rdStop rd else rtStopDetails t)\<rparr>) rp2
             in case finishRun fin outcome3 rp3 of
                  ((t, err), rp4) \<Rightarrow> ((t, map_option (\<lambda>e. ''finish trace: '' @ e) err), rp4))"

definition Run ::
  "('f, 's, 'x, 'c, 'v, 'p) runEnv \<Rightarrow> runConfig \<Rightarrow> queuedUserInput option \<Rightarrow> ('s, 'x) loopSession \<Rightarrow> ('f, 's, 'x) runResult" where
  "Run env cfg followUp ss =
     (let fin = reFinish env;
          carried = takeCarriedHistory (followUp \<noteq> None) (ssCarried ss);
          (eager, ss1) = startRun cfg carried ss;
          rp0 = \<lparr>rpFailure = \<lparr>rfOutcome = [], rfText = []\<rparr>, rpEvents = [], rpTrace = startedTrace\<rparr>;
          (su, held, rp1) = setupRun env cfg (ssMonitor ss) (map (lazyWarning fin) eager) rp0
      in case su of
           SetupFailed outcome err mon \<Rightarrow>
             (case finishWithOutcome fin outcome err (emitWarnings held rp1) of
                ((t, e), rp) \<Rightarrow> \<lparr>rrTrace = t, rrError = e, rrReport = rp, rrSession = ss1\<lparr>ssMonitor := mon\<rparr>, rrRan = None\<rparr>)
         | SetupDone sd \<Rightarrow>
             let lenv = (reLoop env)\<lparr>leSystem := sdSystem sd, leTurnZeroContext := sdTurnZero sd\<rparr>;
                 rp2 = emitWarnings held (emitRun (RunStarted (rnRunID cfg)) (if reEmitReady env then emitRun Ready rp1 else rp1));
                 sh = startingHistory (leScreen lenv) fin (lcPrompt (rnLoop cfg)) (sdMonitor sd) carried;
                 rp3 = emitWarnings (shWarnings sh) rp2;
                 rp4 = emitRun (case followUp of
                     Some i \<Rightarrow> UserMessage ''followup_prompt'' (lcPrompt (rnLoop cfg)) (RequestID i)
                   | None \<Rightarrow> UserMessage ''initial_prompt'' (lcPrompt (rnLoop cfg)) []) rp3;
                 (calls, cacheKey, binding) = beginRunState (reDigest env) (rnRunID cfg) carried;
                 rd0 = \<lparr>rdState = initialState (leRatio lenv) ss1 sh (rewrote carried) binding, rdNext = 0, rdAttempts = 0,
                        rdCorrections = 0, rdRound = 0, rdFinal = [], rdStop = None, rdInner = [], rdStructured = None,
                        rdReport = rp4\<rparr>;
                 (outcome, rd) = (if sdAbort sd \<or> shAbort sh then (''rule_of_two_violation'', rd0)
                                  else runRounds (env\<lparr>reLoop := lenv\<rparr>) cfg calls rd0)
             in (case endRun env outcome rd of
                   ((t, e), rp) \<Rightarrow>
                     \<lparr>rrTrace = t, rrError = e, rrReport = rp,
                      rrSession = ss1\<lparr>ssMonitor := lsMonitor (rdState rd), ssQueue := lsQueue (rdState rd),
                        ssStrategy := lsStrategy (rdState rd), ssWorld := lsWorld (rdState rd),
                        ssCarried := retainHistory cfg cacheKey outcome (rdState rd)\<rparr>,
                      rrRan = Some rd\<rparr>))"

section \<open>What holds between rounds\<close>

definition betweenRounds :: "('s \<Rightarrow> bool) \<Rightarrow> int \<Rightarrow> ('f, 's, 'x) loopState \<Rightarrow> bool" where
  "betweenRounds inv' next' st = (sendable (lsMessages st) \<and> Role (last (lsMessages st)) = ''user'' \<and> inv' (lsStrategy st)
     \<and> sentOk st \<and> lsOpen st = None \<and> (\<exists>n \<le> next'. turnLog None n (lsEvents st)))"

definition roundsEnded :: "('s \<Rightarrow> bool) \<Rightarrow> int \<Rightarrow> ('f, 's, 'x) loopState \<Rightarrow> bool" where
  "roundsEnded inv' next' st = (cutShort (lsMessages st) \<and> inv' (lsStrategy st) \<and> sentOk st \<and> lsOpen st = None
     \<and> (\<exists>n \<le> next'. turnLog None n (lsEvents st)))"

lemma betweenRounds_ended: "betweenRounds inv' next' st \<Longrightarrow> roundsEnded inv' next' st"
  by (auto simp: betweenRounds_def roundsEnded_def sendable_cutShort)

lemma enterLoop_between: "betweenRounds inv' next' st \<Longrightarrow> betweenTurns inv' next' (enterLoop env carried st)"
  by (simp add: betweenRounds_def betweenTurns_def ready_def enterLoop_def sentOk_def)

lemma roundsEnded_messages:
  "roundsEnded inv' next' st \<Longrightarrow> sendable ms \<Longrightarrow> roundsEnded inv' next' (st\<lparr>lsMessages := ms, lsMonitor := mon\<rparr>)"
  "roundsEnded inv' next' st \<Longrightarrow> sendable ms \<Longrightarrow> Role (last ms) = ''user'' \<Longrightarrow>
     betweenRounds inv' next' (st\<lparr>lsMessages := ms, lsMonitor := mon\<rparr>)"
  "roundsEnded inv' next' st \<Longrightarrow> sendable ms \<Longrightarrow> Role (last ms) = ''user'' \<Longrightarrow> betweenRounds inv' next' (st\<lparr>lsMessages := ms\<rparr>)"
  by (auto simp: roundsEnded_def betweenRounds_def sentOk_def sendable_cutShort)

lemma feedbackMessage_shape:
  "Role (feedbackMessage t) = ''user''" "toolResultIDs (feedbackMessage t) = []" "toolUseIDs (feedbackMessage t) = []"
  by (simp_all add: feedbackMessage_def textBlock_def zeroBlock_def toolResultIDs_def toolUseIDs_def)

lemma appendVerifierFeedback_ok:
  assumes "appendVerifierFeedback screen mon ms (feedbackMessage t) = (ms', blocked, mon')" "sendable ms"
  shows "sendable ms' \<and> (blocked = [] \<longrightarrow> Role (last ms') = ''user'')"
proof (cases "Role (last ms) = ''user''")
  case True
  then show ?thesis
    using assms appendUserBlock_sendable [OF assms(2)]
    by (auto simp: appendVerifierFeedback_def Let_def sendable_def split: if_splits)
next
  case False
  then have "ms' = ms @ [feedbackMessage t]" "Role (last ms) = ''assistant''" "toolUseIDs (last ms) = []" "ms \<noteq> []" "wf_history ms"
    using assms last_role [of ms] by (auto simp: appendVerifierFeedback_def sendable_def)
  then show ?thesis
    by (simp add: sendable_def wf_history_snoc answers_def feedbackMessage_shape)
qed

text \<open>The answer that ends a successful run: accepted by the schema, if there is one, and by the verifier.\<close>

definition schemaAccepted :: "('f, 's, 'x, 'c, 'v, 'p) runEnv \<Rightarrow> runConfig \<Rightarrow> ('f, 's, 'x) runLocals \<Rightarrow> bool" where
  "schemaAccepted env cfg rd =
     (case rdStructured rd of
        None \<Rightarrow> rnOutputSchema cfg = []
      | Some doc \<Rightarrow> rnOutputSchema cfg \<noteq> []
          \<and> checkStructuredOutput (reOutput env) (finalAnswerText (lsMessages (rdState rd))) (rnOutputSchema cfg)
              (structuredOutputLimit (rnMaxFinalText cfg)) = Inr doc)"

definition answerAccepted :: "('f, 's, 'x, 'c, 'v, 'p) runEnv \<Rightarrow> runConfig \<Rightarrow> ('f, 's, 'x) runLocals \<Rightarrow> bool" where
  "answerAccepted env cfg rd =
     (rdInner rd = ''success'' \<and> rdAttempts rd \<le> maxVerificationRetries
      \<and> (case reVerify env (rdAttempts rd + 1) (lsMessages (rdState rd)) of Inl _ \<Rightarrow> False | Inr v \<Rightarrow> vrPassed v)
      \<and> schemaAccepted env cfg rd)"

lemma schemaAccepted_report [simp]: "schemaAccepted env cfg (rd\<lparr>rdReport := rp\<rparr>) = schemaAccepted env cfg rd"
  by (simp add: schemaAccepted_def split: option.split)

definition roundCounts :: "('f, 's, 'x) runLocals \<Rightarrow> bool" where
  "roundCounts rd = (rdAttempts rd \<le> Suc maxVerificationRetries \<and> rdCorrections rd \<le> maxStructuredOutputCorrections)"

text \<open>What a round's step leaves, given the bound on the turns.\<close>

definition roundOk ::
  "('s \<Rightarrow> bool) \<Rightarrow> ('f, 's, 'x, 'c, 'v, 'p) runEnv \<Rightarrow> runConfig \<Rightarrow> int \<Rightarrow> ('f, 's, 'x) runLocals roundStep \<Rightarrow> bool" where
  "roundOk inv' env cfg next' step =
     (case step of
        RoundEnds outcome rd \<Rightarrow> roundsEnded inv' (rdNext rd) (rdState rd) \<and> rdNext rd = next' \<and> roundCounts rd
          \<and> (outcome = ''success'' \<longrightarrow> answerAccepted env cfg rd)
      | RoundAgain rd \<Rightarrow> betweenRounds inv' (rdNext rd) (rdState rd) \<and> rdNext rd = next' \<and> roundCounts rd)"

lemma verifyAnswer_ok:
  assumes "roundsEnded inv' (rdNext rd) (rdState rd)" "sendable (lsMessages (rdState rd))" "rdAttempts rd \<le> maxVerificationRetries"
    and "rdCorrections rd \<le> maxStructuredOutputCorrections" "rdInner rd = ''success''" "schemaAccepted env cfg rd"
  shows "roundOk inv' env cfg (rdNext rd) (verifyAnswer env cfg rd)"
proof (cases "reVerify env (rdAttempts rd + 1) (lsMessages (rdState rd))")
  case (Inl err)
  then show ?thesis
    using assms by (simp add: verifyAnswer_def Let_def roundOk_def roundCounts_def)
next
  case (Inr v)
  obtain ms blocked mon where a: "appendVerifierFeedback (leScreen (reLoop env)) (lsMonitor (rdState rd)) (lsMessages (rdState rd))
      (feedbackMessage (vrFeedback v)) = (ms, blocked, mon)"
    by (metis prod_cases3)
  have blocked: "blocked = [] \<or> blocked = ''rule_of_two_violation''"
    using a by (auto simp: appendVerifierFeedback_def Let_def screenArrivedContent_def case_prod_beta split: if_splits)
  show ?thesis
    using assms Inr a blocked appendVerifierFeedback_ok [OF a assms(2)] roundsEnded_messages(1,2) [OF assms(1), of ms mon]
    by (auto simp: verifyAnswer_def Let_def roundOk_def roundCounts_def answerAccepted_def)
qed

lemma correctAnswer_ok:
  assumes "roundsEnded inv' (rdNext rd) (rdState rd)" "sendable (lsMessages (rdState rd))" "roundCounts rd"
  shows "roundOk inv' env cfg (rdNext rd) (correctAnswer env cfg err rd)"
  using assms roundsEnded_messages(3) [OF assms(1)] appendUserText_sendable(3,4) [OF assms(2)]
  by (auto simp: correctAnswer_def Let_def roundOk_def roundCounts_def split: outputError.splits)

lemma oneRound_ok:
  assumes "context_strategy (lePrepare (reLoop env)) (leCompaction (reLoop env)) inv'" "promptsOnEscalation (reLoop env)"
    and "betweenRounds inv' (rdNext rd) (rdState rd)" "rdAttempts rd \<le> maxVerificationRetries"
    and "rdCorrections rd \<le> maxStructuredOutputCorrections"
  shows "\<exists>next'. rdNext rd \<le> next' \<and> next' \<le> max (rdNext rd) (lcMaxTurns (rnLoop cfg))
     \<and> roundOk inv' env cfg next' (oneRound env cfg carried rd)"
proof -
  obtain next' st' outcome final details where r: "runInnerLoop (reLoop env) (rnLoop cfg) (rdNext rd)
      (enterLoop (reLoop env) carried (rdState rd)) = (next', st', outcome, final, details)"
    by (metis prod_cases5)
  note inner = runInnerLoop_ok [OF assms(1,2) enterLoop_between [OF assms(3)] r]
  define rd1 where "rd1 = rd\<lparr>rdState := st', rdNext := next', rdRound := rdRound rd + 1, rdStop := details, rdInner := outcome,
      rdStructured := None, rdFinal := (if final \<noteq> [] then final else rdFinal rd),
      rdReport := (case reInnerFailure env (rdRound rd) of None \<Rightarrow> rdReport rd | Some t \<Rightarrow> noteFailure ''error'' t (rdReport rd))\<rparr>"
  have one: "oneRound env cfg carried rd =
     (if outcome \<noteq> ''success'' then RoundEnds outcome rd1
      else if rnOutputSchema cfg = [] then verifyAnswer env cfg rd1
      else (case checkStructuredOutput (reOutput env) (finalAnswerText (lsMessages st')) (rnOutputSchema cfg)
                   (structuredOutputLimit (rnMaxFinalText cfg)) of
              Inl err \<Rightarrow> correctAnswer env cfg err rd1
            | Inr doc \<Rightarrow> verifyAnswer env cfg (rd1\<lparr>rdStructured := Some doc\<rparr>)))"
    unfolding oneRound_def r rd1_def Let_def prod.case by (rule refl)
  have f: "rdState rd1 = st'" "rdNext rd1 = next'" "rdAttempts rd1 = rdAttempts rd" "rdCorrections rd1 = rdCorrections rd"
    "rdInner rd1 = outcome" "rdStructured rd1 = None"
    by (simp_all add: rd1_def)
  have ended: "roundsEnded inv' next' st'"
    using inner by (simp add: roundsEnded_def)
  have "roundOk inv' env cfg next' (oneRound env cfg carried rd)"
  proof (cases "outcome = ''success''")
    case False
    then show ?thesis
      using ended assms(4,5) by (simp add: one roundOk_def roundCounts_def f)
  next
    case True
    then have send: "sendable (lsMessages st')"
      using inner by simp
    have verify: "roundOk inv' env cfg next' (verifyAnswer env cfg (rd1\<lparr>rdStructured := doc\<rparr>))"
      if "schemaAccepted env cfg (rd1\<lparr>rdStructured := doc\<rparr>)" for doc
      using verifyAnswer_ok [of inv' "rd1\<lparr>rdStructured := doc\<rparr>" env cfg] that ended send True assms(4,5) by (simp add: f)
    have "roundOk inv' env cfg next' (correctAnswer env cfg err rd1)" for err
      using correctAnswer_ok [of inv' rd1 env cfg err] ended send assms(4,5) by (simp add: f roundCounts_def)
    moreover have "roundOk inv' env cfg next' (verifyAnswer env cfg rd1)" if "rnOutputSchema cfg = []"
    proof -
      have eq: "rd1\<lparr>rdStructured := None\<rparr> = rd1"
        using f(6) by (cases rd1) simp
      show ?thesis
        using verify [of None] that f(6) unfolding eq by (simp add: schemaAccepted_def)
    qed
    ultimately show ?thesis
      using True verify by (auto simp: one schemaAccepted_def f split: sum.splits)
  qed
  then show ?thesis
    using inner by blast
qed

lemma runRounds_ok:
  assumes "context_strategy (lePrepare (reLoop env)) (leCompaction (reLoop env)) inv'" "promptsOnEscalation (reLoop env)"
    and "betweenRounds inv' (rdNext rd) (rdState rd)" "rdAttempts rd \<le> maxVerificationRetries"
    and "rdCorrections rd \<le> maxStructuredOutputCorrections" "runRounds env cfg carried rd = (outcome, rd')"
  shows "rdNext rd \<le> rdNext rd' \<and> rdNext rd' \<le> max (rdNext rd) (lcMaxTurns (rnLoop cfg))
     \<and> roundsEnded inv' (rdNext rd') (rdState rd') \<and> roundCounts rd' \<and> (outcome = ''success'' \<longrightarrow> answerAccepted env cfg rd')"
  using assms
proof (induction env cfg carried rd rule: runRounds.induct)
  case (1 env cfg carried rd)
  obtain next' where n: "rdNext rd \<le> next'" "next' \<le> max (rdNext rd) (lcMaxTurns (rnLoop cfg))"
    "roundOk inv' env cfg next' (oneRound env cfg carried rd)"
    using oneRound_ok [OF "1.prems"(1-5)] by blast
  show ?case
  proof (cases "oneRound env cfg carried rd")
    case (RoundEnds outcome1 rd1)
    then have "outcome = outcome1" "rd' = rd1"
      using "1.prems"(4,6) by (simp_all add: runRounds.simps [of env cfg carried rd])
    then show ?thesis
      using n RoundEnds by (auto simp: roundOk_def)
  next
    case (RoundAgain rd1)
    have "runRounds env cfg carried rd1 = (outcome, rd')"
      using "1.prems"(4,6) RoundAgain by (simp add: runRounds.simps [of env cfg carried rd])
    moreover have "betweenRounds inv' (rdNext rd1) (rdState rd1)" "rdNext rd1 = next'"
      using n(3) RoundAgain by (auto simp: roundOk_def)
    moreover have "rdAttempts rd1 \<le> maxVerificationRetries \<and> rdCorrections rd1 \<le> maxStructuredOutputCorrections"
      using oneRound_again [OF RoundAgain] "1.prems"(4,5) by auto
    ultimately show ?thesis
      using "1.IH" [OF "1.prems"(4) RoundAgain "1.prems"(1,2)] n(1,2) by auto
  qed
qed

section \<open>The session\<close>

text \<open>
  The runs of \<open>RunFollowUpLoop\<close>: each input it takes up becomes the prompt of a run of its own, under a fresh
  run identifier, and a run that returns an error ends the session.
\<close>

definition followUpConfig :: "runConfig \<Rightarrow> string \<Rightarrow> queuedUserInput \<Rightarrow> runConfig" where
  "followUpConfig cfg runID' input = cfg\<lparr>rnRunID := runID', rnLoop := (rnLoop cfg)\<lparr>lcPrompt := qText input\<rparr>\<rparr>"

fun RunFollowUpLoop ::
  "runConfig \<Rightarrow> (('f, 's, 'x, 'c, 'v, 'p) runEnv \<times> string \<times> queuedUserInput) list \<Rightarrow> ('s, 'x) loopSession
     \<Rightarrow> ('f, 's, 'x) runResult list" where
  "RunFollowUpLoop cfg [] ss = []"
| "RunFollowUpLoop cfg ((env, runID', input) # later) ss =
     (let r = Run env (followUpConfig cfg runID' input) (Some input) ss
      in r # (if rrError r \<noteq> None then [] else RunFollowUpLoop cfg later (rrSession r)))"

definition carriedOk :: "carriedHistory option \<Rightarrow> bool" where
  "carriedOk carried = (case carried of None \<Rightarrow> True | Some c \<Rightarrow> chMessages c = [] \<or> sendable (chMessages c))"

definition sessionOk :: "('s \<Rightarrow> bool) \<Rightarrow> ('s, 'x) loopSession \<Rightarrow> bool" where
  "sessionOk inv' ss = (inv' (ssStrategy ss) \<and> carriedOk (ssCarried ss))"

lemma startingHistory_ok:
  assumes "carriedOk carried"
  shows "sendable (shMessages (startingHistory screen fin prompt mon carried))
     \<and> Role (last (shMessages (startingHistory screen fin prompt mon carried))) = ''user''"
proof (cases "continuesHistory carried")
  case False
  then show ?thesis
    using sendable_build [of prompt]
    by (auto simp: startingHistory_def continuesHistory_def Let_def buildMessages_def mkMessage_def split: option.splits)
next
  case True
  then obtain c where c: "carried = Some c" "chMessages c \<noteq> []"
    by (auto simp: continuesHistory_def split: option.splits)
  define r where "r = (if chUnscreened c then screenArrivedContent screen mon (chMessages c)
     else \<lparr>scOutcome = [], scMessages = chMessages c, scMonitor = mon, scAsked = []\<rparr>)"
  have "screened (chMessages c) (scMessages r)"
    by (simp add: r_def screenArrived_screened)
  then have "sendable (scMessages r)"
    using assms c screened_wf(2) by (auto simp: carriedOk_def)
  then show ?thesis
    using c appendUserText_sendable(1,2) [of "scMessages r" prompt False] by (simp add: startingHistory_def r_def [symmetric] Let_def)
qed

lemma retainHistory_ok: "cutShort (lsMessages st) \<Longrightarrow> carriedOk (retainHistory cfg key outcome st)"
  using committed_sendable [of "lsMessages st"] by (auto simp: retainHistory_def carriedOk_def withheldHistory_def Let_def)

lemma takeCarried_ok: "carriedOk carried \<Longrightarrow> carriedOk (takeCarriedHistory followUp carried)"
  by (simp add: takeCarriedHistory_def carriedOk_def)

lemma initialState_between:
  "sendable (shMessages sh) \<Longrightarrow> Role (last (shMessages sh)) = ''user'' \<Longrightarrow> inv' (ssStrategy ss) \<Longrightarrow>
     betweenRounds inv' 0 (initialState R ss sh rewritten binding)"
  using turnLog_empty [of 0] by (auto simp: betweenRounds_def initialState_def sentOk_def)

definition isDone :: "runEvent \<Rightarrow> bool" where
  "isDone e = (case e of Done _ _ \<Rightarrow> True | _ \<Rightarrow> False)"

definition quietReport :: "runReport \<Rightarrow> bool" where
  "quietReport rp = (rtError (rpTrace rp) = [] \<and> rtStructuredOutput (rpTrace rp) = None \<and> list_all (\<lambda>e. \<not> isDone e) (rpEvents rp))"

lemma quietReport_steps [simp]:
  "quietReport (emitRun (Warning w) rp) = quietReport rp" "quietReport (emitRun (ErrorEvent w) rp) = quietReport rp"
  "quietReport (emitRun Ready rp) = quietReport rp" "quietReport (emitRun (RunStarted i) rp) = quietReport rp"
  "quietReport (emitRun (UserMessage a b c) rp) = quietReport rp" "quietReport (noteFailure o' t rp) = quietReport rp"
  "quietReport (recordVerification cfg v rp) = quietReport rp" "quietReport (reportVerifierError fin cfg n e rp) = quietReport rp"
  "quietReport (updateTrace (\<lambda>t. t\<lparr>rtHookResults := h t\<rparr>) rp) = quietReport rp"
  by (simp_all add: quietReport_def isDone_def recordVerification_def reportVerifierError_def Let_def)

lemma quietReport_warnings [simp]: "quietReport (emitWarnings ws rp) = quietReport rp"
  by (induction ws arbitrary: rp) (simp_all add: emitWarnings_def)

lemma quietReport_finishing:
  assumes "finishing_step step b" "step outcome rp = (outcome', rp')"
  shows "quietReport rp' = quietReport rp"
  using finishing_step.warns [OF assms] by (auto simp: quietReport_def isDone_def list_all_iff)

lemma verifyAnswer_quiet:
  "quietReport (rdReport rd) \<Longrightarrow> case verifyAnswer env cfg rd of RoundEnds _ rd' \<Rightarrow> quietReport (rdReport rd') | RoundAgain rd' \<Rightarrow> quietReport (rdReport rd')"
  by (auto simp: verifyAnswer_def Let_def split: sum.splits prod.splits)

lemma correctAnswer_quiet:
  "quietReport (rdReport rd) \<Longrightarrow> case correctAnswer env cfg err rd of RoundEnds _ rd' \<Rightarrow> quietReport (rdReport rd') | RoundAgain rd' \<Rightarrow> quietReport (rdReport rd')"
  by (auto simp: correctAnswer_def Let_def)

lemma oneRound_quiet:
  assumes "quietReport (rdReport rd)"
  shows "case oneRound env cfg carried rd of RoundEnds _ rd' \<Rightarrow> quietReport (rdReport rd') | RoundAgain rd' \<Rightarrow> quietReport (rdReport rd')"
  unfolding oneRound_def Let_def
  by (auto split: prod.split sum.split option.split simp: assms intro!: verifyAnswer_quiet correctAnswer_quiet)

lemma runRounds_quiet:
  "quietReport (rdReport rd) \<Longrightarrow> runRounds env cfg carried rd = (outcome, rd') \<Longrightarrow> quietReport (rdReport rd')"
proof (induction env cfg carried rd rule: runRounds.induct)
  case (1 env cfg carried rd)
  then show ?case
    using oneRound_quiet [OF "1.prems"(1), of env cfg carried]
    by (auto simp: runRounds.simps [of env cfg carried rd] split: if_splits roundStep.splits)
qed

section \<open>The end of a run\<close>

lemma classify_not_success: "classifyCtxOutcome err \<noteq> ''success''" "fb \<noteq> ''success'' \<Longrightarrow> setupOutcome ctx fb \<noteq> ''success''"
  by (simp_all add: classifyCtxOutcome_def setupOutcome_def)

text \<open>What the returned trace and the events of the run say.\<close>

definition reported :: "finishEnv \<Rightarrow> RunTrace \<Rightarrow> runReport \<Rightarrow> bool" where
  "reported fin t rp = (filter isDone (rpEvents rp) = [Done (rtOutcome t) (doneSummary t)]
     \<and> last (rpEvents rp) = Done (rtOutcome t) (doneSummary t)
     \<and> length (rtError t) \<le> 1024 + length finalAssistantTextTruncationMarker
     \<and> ((\<forall>s. s \<noteq> [] \<longrightarrow> fiScrub fin s \<noteq> []) \<longrightarrow> rtOutcome t \<noteq> ''success'' \<longrightarrow> rtError t \<noteq> []))"

lemma finishRun_reported:
  assumes "finishRun fin outcome rp = ((t, err), rp')" "rtError (rpTrace rp) = []" "list_all (\<lambda>e. \<not> isDone e) (rpEvents rp)"
  shows "rtOutcome t = outcome" "rtStructuredOutput t = rtStructuredOutput (rpTrace rp)" "reported fin t rp'"
proof -
  note f = finishRun_ok [OF assms(1,2)]
  show "rtOutcome t = outcome" "rtStructuredOutput t = rtStructuredOutput (rpTrace rp)"
    by (rule f)+
  obtain ws where e: "rpEvents rp' = rpEvents rp @ map Warning ws @ [Done outcome (doneSummary t)]"
    using f(2) by blast
  have none: "filter isDone (rpEvents rp) = []" "filter isDone (map Warning ws) = []"
    using assms(3) by (auto simp: filter_empty_conv list_all_iff isDone_def)
  have "rtError t \<noteq> []" if "\<forall>s. s \<noteq> [] \<longrightarrow> fiScrub fin s \<noteq> []" "outcome \<noteq> ''success''"
    using f(4) runErrorText_not_Nil [OF that(2)] that by metis
  then show "reported fin t rp'"
    using e none f(1,5) by (simp add: reported_def isDone_def)
qed

lemma endRun_ok:
  assumes "endRun env outcome rd = ((t, e), rp)" "quietReport (rdReport rd)"
  shows "rtOutcome t = ''success'' \<Longrightarrow> outcome = ''success'' \<and> reCtx env 4 = None \<and> stepsOk (reFinish env)"
    "rtStructuredOutput t = (if rtOutcome t = ''success'' then rdStructured rd else None)" "reported (reFinish env) t rp"
proof -
  let ?fin = "reFinish env"
  define outcome1 where "outcome1 = (if reCtx env 4 \<noteq> None then outcomeCtxDone else outcome)"
  obtain outcome2 rp1 where r1: "(if outcome1 = outcomeCtxDone
      then (let c = classifyCtxOutcome (reCtx env 4) in
            (c, if c = ''control_stream_lost''
                then noteFailure c (case reCtx env 4 of Some e \<Rightarrow> geText e | None \<Rightarrow> []) (rdReport rd) else rdReport rd))
      else (outcome1, rdReport rd)) = (outcome2, rp1)"
    by fastforce
  obtain outcome3 rp2 where r2: "finishSteps ?fin outcome2 rp1 = (outcome3, rp2)"
    by fastforce
  define rp3 where "rp3 = updateTrace (\<lambda>t. t\<lparr>rtFinalAssistantText := fiScrub ?fin (rdFinal rd),
       rtStructuredOutput := (if outcome3 = ''success'' \<and> rdStructured rd \<noteq> None then rdStructured rd else rtStructuredOutput t),
       rtStopDetails := (if outcome3 = rdInner rd \<and> rdStop rd \<noteq> None then rdStop rd else rtStopDetails t)\<rparr>) rp2"
  obtain err where r3: "finishRun ?fin outcome3 rp3 = ((t, err), rp)"
    using assms(1) r1 r2 unfolding endRun_def Let_def outcome1_def [symmetric] rp3_def [symmetric]
    by (auto simp: rp3_def split: prod.splits)
  have q1: "quietReport rp1"
    using r1 assms(2) by (auto simp: Let_def split: if_splits)
  have q2: "quietReport rp2"
    using quietReport_finishing [OF steps.finishing_step_axioms r2] q1 by simp
  have q3: "rtError (rpTrace rp3) = []" "list_all (\<lambda>e. \<not> isDone e) (rpEvents rp3)"
    "rtStructuredOutput (rpTrace rp3) = (if outcome3 = ''success'' then rdStructured rd else None)"
    using q2 by (auto simp: rp3_def quietReport_def)
  note fin = finishRun_reported [OF r3 q3(1,2)]
  show "reported ?fin t rp" "rtStructuredOutput t = (if rtOutcome t = ''success'' then rdStructured rd else None)"
    using fin q3(3) by simp_all
  show "outcome = ''success'' \<and> reCtx env 4 = None \<and> stepsOk ?fin" if "rtOutcome t = ''success''"
  proof -
    have "outcome2 = ''success''" "stepsOk ?fin"
      using steps.success_iff [OF r2] fin(1) that by simp_all
    then show ?thesis
      using r1 classify_not_success(1) by (auto simp: outcome1_def Let_def outcomeCtxDone_def split: if_splits)
  qed
qed

lemma finishWithOutcome_ok:
  assumes "finishWithOutcome fin outcome err rp = ((t, e), rp')" "quietReport rp" "outcome \<noteq> ''success''"
  shows "rtOutcome t = outcome" "rtStructuredOutput t = None" "e = Some err" "reported fin t rp'"
proof -
  obtain o1 rp1 where r1: "finalizeCommandOutput fin outcome (noteFailure outcome err rp) = (o1, rp1)"
    by fastforce
  obtain o2 rp2 where r2: "handoffWorkspace fin o1 (emitRun (ErrorEvent err) rp1) = (o2, rp2)"
    by fastforce
  obtain err' where r3: "finishRun fin o2 rp2 = ((t, err'), rp')" and e: "e = Some err"
    using assms(1) r1 r2 by (auto simp: finishWithOutcome_def split: prod.splits)
  have o: "o1 = outcome" "o2 = outcome"
    using archive.keeps [OF r1 assms(3)] handoff.keeps [OF r2] assms(3) by auto
  have "quietReport rp2"
    using quietReport_finishing [OF archive.finishing_step_axioms r1] quietReport_finishing [OF handoff.finishing_step_axioms r2] assms(2)
    by simp
  then show "rtOutcome t = outcome" "rtStructuredOutput t = None" "e = Some err" "reported fin t rp'"
    using finishRun_reported [OF r3] o e by (simp_all add: quietReport_def)
qed

definition setupFails :: "setupResult \<Rightarrow> bool" where
  "setupFails su = (case su of SetupFailed outcome _ _ \<Rightarrow> outcome \<noteq> ''success'' | SetupDone _ \<Rightarrow> True)"

lemma buildRun_fails: "setupFails (buildRun env c d s)"
  by (auto simp: setupFails_def buildRun_def Let_def classify_not_success split: sum.split option.split)

lemma setupRun_ok:
  assumes "setupRun env cfg mon held rp = (su, held', rp')" "quietReport rp"
  shows "quietReport rp'" "setupFails su"
proof -
  show "quietReport rp'"
    using assms by (auto simp: setupRun_def Let_def split: prod.splits option.splits sum.splits)
  have "setupFails (SetupFailed (setupOutcome ctx ''setup_failed'') err m)" for ctx err m
    using classify_not_success(2) [of "''setup_failed''"] by (simp add: setupFails_def)
  then show "setupFails su"
    using assms(1) by (auto simp: setupRun_def Let_def buildRun_fails split: prod.splits option.splits sum.splits)
qed

text \<open>How a run that passed its setup went, with the prompt built for it.\<close>

definition ranAs ::
  "('s \<Rightarrow> bool) \<Rightarrow> ('f, 's, 'x, 'c, 'v, 'p) runEnv \<Rightarrow> runConfig \<Rightarrow> ('f, 's, 'x) runResult \<Rightarrow> ('f, 's, 'x) runLocals
     \<Rightarrow> string \<Rightarrow> ('f, 's, 'x) runLocals \<Rightarrow> nat \<Rightarrow> string \<Rightarrow> string list \<Rightarrow> string \<Rightarrow> bool" where
  "ranAs inv' env cfg r rd outcome rd0 calls sys zero key =
     (endRun env outcome rd = ((rrTrace r, rrError r), rrReport r)
      \<and> betweenRounds inv' 0 (rdState rd0) \<and> rdNext rd0 = 0 \<and> rdAttempts rd0 = 0 \<and> rdCorrections rd0 = 0 \<and> quietReport (rdReport rd0)
      \<and> ((outcome, rd) = (''rule_of_two_violation'', rd0)
         \<or> runRounds (env\<lparr>reLoop := (reLoop env)\<lparr>leSystem := sys, leTurnZeroContext := zero\<rparr>\<rparr>) cfg calls rd0 = (outcome, rd))
      \<and> ssStrategy (rrSession r) = lsStrategy (rdState rd) \<and> ssCarried (rrSession r) = retainHistory cfg key outcome (rdState rd))"

text \<open>Either the setup failed, or the rounds ran on the environment with the prompt built for the run.\<close>

lemma Run_cases:
  assumes "r = Run env cfg followUp ss" "sessionOk inv' ss"
  shows "(rrRan r = None \<and> sessionOk inv' (rrSession r) \<and> rtOutcome (rrTrace r) \<noteq> ''success'' \<and> rrError r \<noteq> None
      \<and> rtStructuredOutput (rrTrace r) = None \<and> reported (reFinish env) (rrTrace r) (rrReport r))
    \<or> (\<exists>rd outcome rd0 calls sys zero key. rrRan r = Some rd \<and> ranAs inv' env cfg r rd outcome rd0 calls sys zero key)"
proof -
  define carried where "carried = takeCarriedHistory (followUp \<noteq> None) (ssCarried ss)"
  obtain eager ss1 where s1: "startRun cfg carried ss = (eager, ss1)"
    by fastforce
  define rp0 where "rp0 = \<lparr>rpFailure = \<lparr>rfOutcome = [], rfText = []\<rparr>, rpEvents = [], rpTrace = startedTrace\<rparr>"
  have q0: "quietReport rp0"
    by (simp add: rp0_def quietReport_def startedTrace_def)
  obtain su held rp1 where s2: "setupRun env cfg (ssMonitor ss) (map (lazyWarning (reFinish env)) eager) rp0 = (su, held, rp1)"
    by (metis prod_cases3)
  note q1 = setupRun_ok [OF s2 q0]
  have ss1: "ssStrategy ss1 = ssStrategy ss" "ssCarried ss1 = None"
    using s1 by (auto simp: startRun_def split: prod.splits)
  have strat: "inv' (ssStrategy ss)" and car: "carriedOk carried"
    using assms(2) takeCarried_ok [of "ssCarried ss"] by (auto simp: sessionOk_def carried_def)
  note run = assms(1) [unfolded Run_def Let_def, folded carried_def, unfolded s1 prod.case, folded rp0_def, unfolded s2 prod.case]
  show ?thesis
  proof (cases su)
    case (SetupFailed outcome err mon)
    obtain t e rp where f: "finishWithOutcome (reFinish env) outcome err (emitWarnings held rp1) = ((t, e), rp)"
      by (metis prod.exhaust)
    have "r = \<lparr>rrTrace = t, rrError = e, rrReport = rp, rrSession = ss1\<lparr>ssMonitor := mon\<rparr>, rrRan = None\<rparr>"
      using run SetupFailed f by simp
    moreover have "outcome \<noteq> ''success''"
      using q1(2) SetupFailed by (simp add: setupFails_def)
    ultimately show ?thesis
      using finishWithOutcome_ok [OF f] q1(1) strat ss1 by (simp add: sessionOk_def carriedOk_def)
  next
    case (SetupDone sd)
    define lenv where "lenv = (reLoop env)\<lparr>leSystem := sdSystem sd, leTurnZeroContext := sdTurnZero sd\<rparr>"
    define sh where "sh = startingHistory (leScreen lenv) (reFinish env) (lcPrompt (rnLoop cfg)) (sdMonitor sd) carried"
    obtain calls key binding where b: "beginRunState (reDigest env) (rnRunID cfg) carried = (calls, key, binding)"
      by (metis prod_cases3)
    define rp4 where "rp4 = emitRun (case followUp of
        Some i \<Rightarrow> UserMessage ''followup_prompt'' (lcPrompt (rnLoop cfg)) (RequestID i)
      | None \<Rightarrow> UserMessage ''initial_prompt'' (lcPrompt (rnLoop cfg)) [])
      (emitWarnings (shWarnings sh) (emitWarnings held
        (emitRun (RunStarted (rnRunID cfg)) (if reEmitReady env then emitRun Ready rp1 else rp1))))"
    define rd0 where "rd0 = \<lparr>rdState = initialState (leRatio lenv) ss1 sh (rewrote carried) binding, rdNext = 0, rdAttempts = 0,
       rdCorrections = 0, rdRound = 0, rdFinal = [], rdStop = None, rdInner = [], rdStructured = None, rdReport = rp4\<rparr>"
    obtain outcome rd where o: "(if sdAbort sd \<or> shAbort sh then (''rule_of_two_violation'', rd0)
        else runRounds (env\<lparr>reLoop := lenv\<rparr>) cfg calls rd0) = (outcome, rd)"
      by fastforce
    obtain t e rp where f: "endRun env outcome rd = ((t, e), rp)"
      by (metis prod.exhaust)
    have r: "r = \<lparr>rrTrace = t, rrError = e, rrReport = rp,
        rrSession = ss1\<lparr>ssMonitor := lsMonitor (rdState rd), ssQueue := lsQueue (rdState rd), ssStrategy := lsStrategy (rdState rd),
          ssWorld := lsWorld (rdState rd), ssCarried := retainHistory cfg key outcome (rdState rd)\<rparr>, rrRan = Some rd\<rparr>"
      using run [unfolded SetupDone setupResult.case, folded lenv_def, folded sh_def, unfolded b prod.case,
          folded rp4_def, folded rd0_def, unfolded o prod.case, unfolded f prod.case] .
    have "betweenRounds inv' 0 (rdState rd0)"
      using startingHistory_ok [OF car, of "leScreen lenv" "reFinish env" "lcPrompt (rnLoop cfg)" "sdMonitor sd"] strat
      by (simp add: rd0_def sh_def initialState_between ss1)
    moreover have "quietReport (rdReport rd0)"
      using q1(1) by (simp add: rd0_def rp4_def split: option.split)
    moreover have "(outcome, rd) = (''rule_of_two_violation'', rd0) \<or> runRounds (env\<lparr>reLoop := lenv\<rparr>) cfg calls rd0 = (outcome, rd)"
      using o by (auto split: if_splits)
    ultimately have "rrRan r = Some rd \<and> ranAs inv' env cfg r rd outcome rd0 calls (sdSystem sd) (sdTurnZero sd) key"
      unfolding lenv_def ranAs_def by (simp add: r f rd0_def)
    then show ?thesis
      by blast
  qed
qed

lemma answerAccepted_env [simp]: "answerAccepted (env\<lparr>reLoop := l\<rparr>) cfg rd = answerAccepted env cfg rd"
  by (simp add: answerAccepted_def schemaAccepted_def split: option.split)

lemma Run_ran:
  assumes "r = Run env cfg followUp ss" "sessionOk inv' ss" "rrRan r = Some rd"
    and "context_strategy (lePrepare (reLoop env)) (leCompaction (reLoop env)) inv'" "promptsOnEscalation (reLoop env)"
  shows "sessionOk inv' (rrSession r)" "0 \<le> rdNext rd" "rdNext rd \<le> max 0 (lcMaxTurns (rnLoop cfg))"
    "roundsEnded inv' (rdNext rd) (rdState rd)" "roundCounts rd" "reported (reFinish env) (rrTrace r) (rrReport r)"
    "rtOutcome (rrTrace r) = ''success'' \<Longrightarrow> answerAccepted env cfg rd \<and> reCtx env 4 = None \<and> stepsOk (reFinish env)"
    "rtStructuredOutput (rrTrace r) = (if rtOutcome (rrTrace r) = ''success'' then rdStructured rd else None)"
proof -
  obtain outcome rd0 calls sys zero key where "ranAs inv' env cfg r rd outcome rd0 calls sys zero key"
    using Run_cases [OF assms(1,2)] assms(3) by auto
  then have e: "endRun env outcome rd = ((rrTrace r, rrError r), rrReport r)"
    and b: "betweenRounds inv' 0 (rdState rd0)" "rdNext rd0 = 0" "rdAttempts rd0 = 0" "rdCorrections rd0 = 0"
      "quietReport (rdReport rd0)"
    and o: "(outcome, rd) = (''rule_of_two_violation'', rd0)
       \<or> runRounds (env\<lparr>reLoop := (reLoop env)\<lparr>leSystem := sys, leTurnZeroContext := zero\<rparr>\<rparr>) cfg calls rd0 = (outcome, rd)"
    and s: "ssStrategy (rrSession r) = lsStrategy (rdState rd)" "ssCarried (rrSession r) = retainHistory cfg key outcome (rdState rd)"
    unfolding ranAs_def by blast+
  let ?env = "env\<lparr>reLoop := (reLoop env)\<lparr>leSystem := sys, leTurnZeroContext := zero\<rparr>\<rparr>"
  have env: "context_strategy (lePrepare (reLoop ?env)) (leCompaction (reLoop ?env)) inv'" "promptsOnEscalation (reLoop ?env)"
    using assms(4,5) by (simp_all add: promptsOnEscalation_def)
  have rounds: "0 \<le> rdNext rd \<and> rdNext rd \<le> max 0 (lcMaxTurns (rnLoop cfg)) \<and> roundsEnded inv' (rdNext rd) (rdState rd)
      \<and> roundCounts rd \<and> (outcome = ''success'' \<longrightarrow> answerAccepted env cfg rd) \<and> quietReport (rdReport rd)"
  proof (cases "(outcome, rd) = (''rule_of_two_violation'', rd0)")
    case True
    then show ?thesis
      using b betweenRounds_ended [OF b(1)] by (simp add: roundCounts_def)
  next
    case False
    then have r: "runRounds ?env cfg calls rd0 = (outcome, rd)"
      using o by blast
    have "betweenRounds inv' (rdNext rd0) (rdState rd0)"
      using b(1,2) by simp
    from runRounds_ok [OF env this _ _ r] show ?thesis
      using b runRounds_quiet [OF b(5) r] by simp
  qed
  note ended = endRun_ok [OF e]
  show "sessionOk inv' (rrSession r)"
    using rounds s by (auto simp: sessionOk_def roundsEnded_def retainHistory_ok)
  show "0 \<le> rdNext rd" "rdNext rd \<le> max 0 (lcMaxTurns (rnLoop cfg))" "roundsEnded inv' (rdNext rd) (rdState rd)" "roundCounts rd"
    using rounds by simp_all
  show "reported (reFinish env) (rrTrace r) (rrReport r)"
    "rtStructuredOutput (rrTrace r) = (if rtOutcome (rrTrace r) = ''success'' then rdStructured rd else None)"
    using ended rounds by simp_all
  show "answerAccepted env cfg rd \<and> reCtx env 4 = None \<and> stepsOk (reFinish env)" if "rtOutcome (rrTrace r) = ''success''"
    using ended(1) [OF _ that] rounds by simp
qed

lemma Run_session:
  assumes "r = Run env cfg followUp ss" "sessionOk inv' ss"
    and "context_strategy (lePrepare (reLoop env)) (leCompaction (reLoop env)) inv'" "promptsOnEscalation (reLoop env)"
  shows "sessionOk inv' (rrSession r) \<and> reported (reFinish env) (rrTrace r) (rrReport r)
    \<and> (case rrRan r of
         None \<Rightarrow> rtOutcome (rrTrace r) \<noteq> ''success'' \<and> rtStructuredOutput (rrTrace r) = None
       | Some rd \<Rightarrow> sentOk (rdState rd))"
  using Run_cases [OF assms(1,2)] Run_ran [OF assms(1,2) _ assms(3,4)]
  by (cases "rrRan r") (auto simp: roundsEnded_def)

section \<open>A run of two rounds\<close>

definition sampleVerify :: "nat \<Rightarrow> Message list \<Rightarrow> string + VerificationResult" where
  "sampleVerify attempt messages =
     Inr \<lparr>vrAttempt = attempt, vrPassed = (attempt \<noteq> 1), vrFeedback = ''too short'', vrError = [], vrDetails = None\<rparr>"

definition sampleRunEnv :: "(int, CompactionEvent option, unit, unit, string, unit) runEnv" where
  "sampleRunEnv = \<lparr>reLoop = sampleEnv\<lparr>leStream := (\<lambda>_ _ turn _ _. sampleReply 1)\<rparr>, reOutput = sampleOutputEnv, reFinish = quietFinish, reDigest = id, reCtx = (\<lambda>_. None),
     rePreHooks = None, reGuidance = None, rePrompt = (\<lambda>_ _ _. Inr ''be kind''), reGitSetup = None, reEmitReady = True,
     reInnerFailure = (\<lambda>_. None), reVerify = sampleVerify\<rparr>"

definition sampleRunConfig :: runConfig where
  "sampleRunConfig = \<lparr>rnLoop = sampleConfig, rnRunID = ''run-1'', rnParentRunID = [], rnOutputSchema = [], rnMaxFinalText = 1000,
     rnVerifier = ''command'', rnContinues = True, rnContext = []\<rparr>"

definition sampleSession :: "(CompactionEvent option, unit) loopSession" where
  "sampleSession = \<lparr>ssMonitor = None, ssQueue = [], ssStrategy = None, ssWorld = \<lparr>lwLazy = None, lwLedger = NewTokenLedger None\<rparr>,
     ssLazyReported = False, ssCarried = None\<rparr>"

definition sampleFollowUp :: queuedUserInput where
  "sampleFollowUp = \<lparr>RequestID = ''r1'', qText = ''and again''\<rparr>"

lemma sampleSession_ok: "sessionOk (\<lambda>_. True) sampleSession"
  by (simp add: sessionOk_def sampleSession_def carriedOk_def)

lemma sampleRunEnv_ok:
  "context_strategy (lePrepare (reLoop sampleRunEnv)) (leCompaction (reLoop sampleRunEnv)) (\<lambda>_. True)"
  "promptsOnEscalation (reLoop sampleRunEnv)" "s \<noteq> [] \<Longrightarrow> fiScrub (reFinish sampleRunEnv) s \<noteq> []"
  using sampleEnv_ok by (simp_all add: sampleRunEnv_def quietFinish_def promptsOnEscalation_def)

definition runSummary :: "('f, 's, 'x) runResult \<Rightarrow> string \<times> string \<times> bool list \<times> (int \<times> nat \<times> nat) option \<times> string option" where
  "runSummary r = (rtOutcome (rrTrace r), rtFinalAssistantText (rrTrace r), map vrPassed (rtVerificationResults (rrTrace r)),
     map_option (\<lambda>rd. (rdNext rd, rdAttempts rd, length (lsSent (rdState rd)))) (rrRan r), rrError r)"

lemma sampleRun_result:
  "runSummary (Run sampleRunEnv sampleRunConfig None sampleSession) = (''success'', ''done'', [False, True], Some (2, 1, 2), None)"
  by code_simp

text \<open>A session whose last run was answered, and the follow-up that continues it.\<close>

definition continuedSession :: "(CompactionEvent option, unit) loopSession" where
  "continuedSession = sampleSession\<lparr>ssCarried := Some \<lparr>chMessages = buildMessages ''greet me'' @ [mkMessage ''assistant'' [textBlock ''done'']],
     chUnscreened = False, chRewritten = False, chWithheld = [], chToolCalls = 0, chCacheKey = ''run-1'', chBinding = None\<rparr>\<rparr>"

definition sentLengths :: "('f, 's, 'x) runResult \<Rightarrow> nat list" where
  "sentLengths r = (case rrRan r of None \<Rightarrow> [] | Some rd \<Rightarrow> map (\<lambda>p. length (spMessages p)) (lsSent (rdState rd)))"

lemma continuedSession_ok: "sessionOk (\<lambda>_. True) continuedSession"
  by (simp add: sessionOk_def continuedSession_def carriedOk_def sendable_def wf_history_snoc buildMessages_def mkMessage_def textBlock_def
      zeroBlock_def answers_def toolUseIDs_def toolResultIDs_def)

lemma followUp_result:
  "map sentLengths (RunFollowUpLoop sampleRunConfig [(sampleRunEnv, ''run-2'', sampleFollowUp)] continuedSession) = [[3, 5]]"
  by code_simp

section \<open>Properties\<close>









end
