(* ===== verification/Config_Text.thy ===== *)
theory Config_Text
  imports Go_Net
begin

text \<open>
  The texts a run configuration is checked with: character classes, the anchored regular expressions of
  \<open>types/runconfig.go\<close> written out as matchers, runes and valid UTF-8, \<open>path.Clean\<close>, and the segment test that
  keeps configured paths from leaving their directory.

  Every expression is anchored at both ends and its classes are ASCII, so it matches the bytes of a string; a
  byte of a longer rune is in no class. A float64 is \<open>NaN\<close>, an infinity or \<open>m * 2 ^ e\<close>; it is only compared.
\<close>

section \<open>Numbers\<close>

datatype goFloat = NotANumber | Infinite bool | Finite int int

text \<open>\<open>fltLess x k\<close> is \<open>x < k\<close> and \<open>fltGreater x k\<close> is \<open>x > k\<close> for an integer constant \<open>k\<close>; both fail for NaN.\<close>

fun fltLess :: "goFloat \<Rightarrow> int \<Rightarrow> bool" where
  "fltLess NotANumber k = False"
| "fltLess (Infinite negative) k = negative"
| "fltLess (Finite m e) k = (if 0 \<le> e then m * 2 ^ nat e < k else m < k * 2 ^ nat (- e))"

fun fltGreater :: "goFloat \<Rightarrow> int \<Rightarrow> bool" where
  "fltGreater NotANumber k = False"
| "fltGreater (Infinite negative) k = (\<not> negative)"
| "fltGreater (Finite m e) k = (if 0 \<le> e then k < m * 2 ^ nat e else k * 2 ^ nat (- e) < m)"

definition fltEqual :: "goFloat \<Rightarrow> int \<Rightarrow> bool" where
  "fltEqual x k = (x \<noteq> NotANumber \<and> \<not> fltLess x k \<and> \<not> fltGreater x k)"

section \<open>Character classes\<close>

definition between :: "nat \<Rightarrow> nat \<Rightarrow> char \<Rightarrow> bool" where
  "between lo hi c = (lo \<le> of_char c \<and> of_char c \<le> hi)"

abbreviation lowerC :: "char \<Rightarrow> bool" where "lowerC \<equiv> between 97 122"
abbreviation upperC :: "char \<Rightarrow> bool" where "upperC \<equiv> between 65 90"
abbreviation digitC :: "char \<Rightarrow> bool" where "digitC \<equiv> between 48 57"

definition letterC :: "char \<Rightarrow> bool" where "letterC c = (lowerC c \<or> upperC c)"
definition alnumC :: "char \<Rightarrow> bool" where "alnumC c = (lowerC c \<or> upperC c \<or> digitC c)"
definition lowerDigitC :: "char \<Rightarrow> bool" where "lowerDigitC c = (lowerC c \<or> digitC c)"
definition lowerHexC :: "char \<Rightarrow> bool" where "lowerHexC c = (digitC c \<or> between 97 102 c)"

definition orOneOf :: "(char \<Rightarrow> bool) \<Rightarrow> string \<Rightarrow> char \<Rightarrow> bool" where
  "orOneOf cls extra c = (cls c \<or> c \<in> set extra)"

text \<open>\<open>[cls]{lo,hi}\<close>, and a first character of one class followed by \<open>lo\<close> to \<open>hi\<close> of another.\<close>

definition matchRun :: "(char \<Rightarrow> bool) \<Rightarrow> nat \<Rightarrow> nat \<Rightarrow> string \<Rightarrow> bool" where
  "matchRun cls lo hi s = (lo \<le> length s \<and> length s \<le> hi \<and> list_all cls s)"

definition matchMany :: "(char \<Rightarrow> bool) \<Rightarrow> string \<Rightarrow> bool" where
  "matchMany cls s = (s \<noteq> [] \<and> list_all cls s)"

definition matchHead :: "(char \<Rightarrow> bool) \<Rightarrow> (char \<Rightarrow> bool) \<Rightarrow> nat \<Rightarrow> nat \<Rightarrow> string \<Rightarrow> bool" where
  "matchHead hd_cls cls lo hi s = (case s of [] \<Rightarrow> False | c # r \<Rightarrow> hd_cls c \<and> matchRun cls lo hi r)"

text \<open>\<open>[hd][mid]{lo,hi}[last]\<close>\<close>

definition matchEnds ::
  "(char \<Rightarrow> bool) \<Rightarrow> (char \<Rightarrow> bool) \<Rightarrow> (char \<Rightarrow> bool) \<Rightarrow> nat \<Rightarrow> nat \<Rightarrow> string \<Rightarrow> bool" where
  "matchEnds hd_cls mid last_cls lo hi s =
     (2 \<le> length s \<and> hd_cls (hd s) \<and> last_cls (List.last s) \<and> matchRun mid lo hi (butlast (tl s)))"

section \<open>The patterns (runconfig.go)\<close>

definition gcpProjectIDPattern :: "string \<Rightarrow> bool" where
  "gcpProjectIDPattern = matchEnds lowerC (orOneOf lowerDigitC ''-'') lowerDigitC 4 28"

definition gcpLocationPattern :: "string \<Rightarrow> bool" where
  "gcpLocationPattern s = (s = ''global'' \<or> matchHead lowerC (orOneOf lowerDigitC ''-'') 1 30 s)"

definition geminiModelNamePattern :: "string \<Rightarrow> bool" where
  "geminiModelNamePattern = matchRun (orOneOf alnumC ''._-'') 1 64"

definition apiKeyHeaderPattern :: "string \<Rightarrow> bool" where
  "apiKeyHeaderPattern = matchMany (orOneOf alnumC ''-'')"

definition queryParamKeyPattern :: "string \<Rightarrow> bool" where
  "queryParamKeyPattern = matchMany (orOneOf alnumC ''._-'')"

definition observabilityLabelPattern :: "string \<Rightarrow> bool" where
  "observabilityLabelPattern = matchRun (orOneOf alnumC ''._-'') 1 64"

definition modelLabelPattern :: "string \<Rightarrow> bool" where
  "modelLabelPattern = matchRun (orOneOf alnumC ''./_-'') 1 64"

definition traceEmitterHeaderNamePattern :: "string \<Rightarrow> bool" where
  "traceEmitterHeaderNamePattern = matchMany (orOneOf alnumC ''_-'')"

definition runIDPattern :: "string \<Rightarrow> bool" where
  "runIDPattern = matchHead alnumC (orOneOf alnumC ''_-'') 0 127"

definition gcsBucketNamePattern :: "string \<Rightarrow> bool" where
  "gcsBucketNamePattern = matchRun (orOneOf lowerDigitC ''._-'') 3 63"

definition traceEmitterPlatformOptionKeyPattern :: "string \<Rightarrow> bool" where
  "traceEmitterPlatformOptionKeyPattern = matchHead lowerC alnumC 0 31"

text \<open>\<open>pubSubTopicPattern\<close> returns its group, the topic ID.\<close>

definition pubSubTopicPattern :: "string \<Rightarrow> string option" where
  "pubSubTopicPattern s =
     (case Split s (CHR ''/'') of
        [a, p, b, t] \<Rightarrow>
          if a = ''projects'' \<and> b = ''topics''
             \<and> matchEnds lowerC (orOneOf lowerDigitC ''.:-'') lowerDigitC 4 98 p
             \<and> matchHead letterC (orOneOf alnumC ''._~+%-'') 2 254 t
          then Some t else None
      | _ \<Rightarrow> None)"

definition wifName :: "string \<Rightarrow> bool" where
  "wifName = matchEnds lowerC (orOneOf lowerDigitC ''-'') lowerDigitC 2 30"

definition gcpWIFAudiencePattern :: "string \<Rightarrow> bool" where
  "gcpWIFAudiencePattern s =
     (case Split s (CHR ''/'') of
        [a, b, host, p, n, l, g, w, pool, pr, provider] \<Rightarrow>
          a = [] \<and> b = [] \<and> host = ''iam.googleapis.com'' \<and> p = ''projects'' \<and> matchMany digitC n
          \<and> l = ''locations'' \<and> g = ''global'' \<and> w = ''workloadIdentityPools'' \<and> wifName pool
          \<and> pr = ''providers'' \<and> wifName provider
      | _ \<Rightarrow> False)"

definition gcpServiceAccountPattern :: "string \<Rightarrow> bool" where
  "gcpServiceAccountPattern s =
     (case Split s (CHR ''@'') of
        [name, domain] \<Rightarrow>
          gcpProjectIDPattern name \<and> HasSuffix domain ''.iam.gserviceaccount.com''
          \<and> (let project = TrimSuffix domain ''.iam.gserviceaccount.com'' in
             case project of [] \<Rightarrow> False | c # r \<Rightarrow> lowerC c \<and> matchMany (orOneOf lowerDigitC ''-'') r)
      | _ \<Rightarrow> False)"

definition matchPrefixed :: "string \<Rightarrow> string \<Rightarrow> bool" where
  "matchPrefixed p s = (HasPrefix s p \<and> matchMany alnumC (drop (length p) s))"

definition anthropicFederationRuleIDPattern :: "string \<Rightarrow> bool" where
  "anthropicFederationRuleIDPattern = matchPrefixed ''fdrl_''"

definition anthropicServiceAccountIDPattern :: "string \<Rightarrow> bool" where
  "anthropicServiceAccountIDPattern = matchPrefixed ''svac_''"

definition anthropicWorkspaceIDPattern :: "string \<Rightarrow> bool" where
  "anthropicWorkspaceIDPattern = matchPrefixed ''wrkspc_''"

definition lowerUUID :: "string \<Rightarrow> bool" where
  "lowerUUID s = (map length (Split s (CHR ''-'')) = [8, 4, 4, 4, 12] \<and> list_all (list_all lowerHexC) (Split s (CHR ''-'')))"

definition openAIWIFIdentifierPattern :: "string \<Rightarrow> bool" where
  "openAIWIFIdentifierPattern = matchRun (between 33 126) 1 256"

definition guardRailCustomCriterionPattern :: "string \<Rightarrow> bool" where
  "guardRailCustomCriterionPattern s = (case s of [] \<Rightarrow> False | c # r \<Rightarrow> lowerC c \<and> list_all (orOneOf lowerDigitC ''_'') r)"

definition correlationLabelKeyPattern :: "string \<Rightarrow> bool" where
  "correlationLabelKeyPattern = matchHead lowerC (orOneOf lowerDigitC ''_'') 0 63"

definition controlPlaneToolNamePattern :: "string \<Rightarrow> bool" where
  "controlPlaneToolNamePattern = matchHead (orOneOf letterC ''_'') (orOneOf alnumC ''_-'') 0 63"

definition posixEnvVarNamePattern :: "string \<Rightarrow> bool" where
  "posixEnvVarNamePattern s =
     (case s of [] \<Rightarrow> False | c # r \<Rightarrow> orOneOf letterC ''_'' c \<and> list_all (orOneOf alnumC ''_'') r)"

section \<open>Strings\<close>

text \<open>\<open>strings.Cut(s, c)\<close> for a separator of one byte; \<^const>\<open>None\<close> when it is not found.\<close>

definition Cut :: "string \<Rightarrow> char \<Rightarrow> (string \<times> string) option" where
  "Cut s c = map_option (\<lambda>i. (take i s, drop (Suc i) s)) (IndexByte s c)"

definition TrimByte :: "char \<Rightarrow> string \<Rightarrow> string" where
  "TrimByte c s = rev (dropWhile (\<lambda>b. b = c) (rev (dropWhile (\<lambda>b. b = c) s)))"

definition ReplaceByte :: "char \<Rightarrow> char \<Rightarrow> string \<Rightarrow> string" where
  "ReplaceByte old new s = map (\<lambda>b. if b = old then new else b) s"

text \<open>The keys of a map in the order \<open>sort.Strings\<close> gives them; bytes compare as numbers.\<close>

fun bytesBefore :: "string \<Rightarrow> string \<Rightarrow> bool" where
  "bytesBefore [] t = True"
| "bytesBefore (a # s) [] = False"
| "bytesBefore (a # s) (b # t) =
     ((of_char a :: nat) < of_char b \<or> a = b \<and> bytesBefore s t)"

fun insertKey :: "string \<times> 'a \<Rightarrow> (string \<times> 'a) list \<Rightarrow> (string \<times> 'a) list" where
  "insertKey p [] = [p]"
| "insertKey p (q # qs) = (if bytesBefore (fst p) (fst q) then p # q # qs else q # insertKey p qs)"

definition byKey :: "(string \<times> 'a) list \<Rightarrow> (string \<times> 'a) list" where
  "byKey m = foldr insertKey m []"

lemma set_insertKey [simp]: "set (insertKey p qs) = insert p (set qs)"
  by (induction qs) auto

lemma set_byKey [simp]: "set (byKey m) = set m"
  unfolding byKey_def by (induction m) auto

lemma size_insertKey [simp]: "size_list f (insertKey p qs) = Suc (f p + size_list f qs)"
  by (induction qs) auto

lemma size_byKey [termination_simp, simp]: "size_list f (byKey m) = size_list f m"
  unfolding byKey_def by (induction m) auto

section \<open>Runes\<close>

definition isCont :: "nat \<Rightarrow> bool" where
  "isCont b = (128 \<le> b \<and> b \<le> 191)"

text \<open>
  \<open>utf8.DecodeRuneInString\<close> of a non-empty string: the rune and its width, and \<^const>\<open>None\<close> for an encoding that is
  not valid, which \<open>range\<close> yields as U+FFFD of width one.
\<close>

fun validRune :: "nat list \<Rightarrow> (nat \<times> nat) option" where
  "validRune [] = None"
| "validRune (a # r) =
     (if a < 128 then Some (a, 1)
      else if 194 \<le> a \<and> a \<le> 223 then
        (case r of b # _ \<Rightarrow> if isCont b then Some ((a - 192) * 64 + (b - 128), 2) else None | [] \<Rightarrow> None)
      else if 224 \<le> a \<and> a \<le> 239 then
        (case r of b # c # _ \<Rightarrow>
           if isCont b \<and> isCont c \<and> (a = 224 \<longrightarrow> 160 \<le> b) \<and> (a = 237 \<longrightarrow> b \<le> 159)
           then Some ((a - 224) * 4096 + (b - 128) * 64 + (c - 128), 3) else None
         | _ \<Rightarrow> None)
      else if 240 \<le> a \<and> a \<le> 244 then
        (case r of b # c # d # _ \<Rightarrow>
           if isCont b \<and> isCont c \<and> isCont d \<and> (a = 240 \<longrightarrow> 144 \<le> b) \<and> (a = 244 \<longrightarrow> b \<le> 143)
           then Some ((a - 240) * 262144 + (b - 128) * 4096 + (c - 128) * 64 + (d - 128), 4) else None
         | _ \<Rightarrow> None)
      else None)"

declare validRune.simps [simp del]

lemma validRune_width: "validRune bs = Some (r, w) \<Longrightarrow> 0 < w \<and> w \<le> length bs"
  by (cases bs) (auto simp: validRune.simps split: if_splits list.splits)

lemma validRune_append: "validRune bs = Some rw \<Longrightarrow> validRune (bs @ cs) = Some rw"
  by (cases bs) (auto simp: validRune.simps split: if_splits list.splits)

text \<open>What \<open>range\<close> over a string yields: the runes, each with whether its encoding is valid.\<close>

function decodeRunes :: "nat list \<Rightarrow> (nat \<times> bool) list" where
  "decodeRunes bs =
     (if bs = [] then []
      else case validRune bs of
             None \<Rightarrow> (65533, False) # decodeRunes (drop 1 bs)
           | Some (r, w) \<Rightarrow> (r, True) # decodeRunes (drop w bs))"
  by pat_completeness auto
termination
proof (relation "measure length", simp)
  fix bs :: "nat list" assume "bs \<noteq> []"
  then show "(drop 1 bs, bs) \<in> measure length"
    by simp
next
  fix bs :: "nat list" and x r w
  assume "bs \<noteq> []" "validRune bs = Some x" "(r, w) = x"
  then show "(drop w bs, bs) \<in> measure length"
    using validRune_width [of bs r w] by simp
qed

declare decodeRunes.simps [simp del]

definition runes :: "string \<Rightarrow> nat list" where
  "runes s = map fst (decodeRunes (map of_char s))"

definition ValidString :: "string \<Rightarrow> bool" where
  "ValidString s = list_all snd (decodeRunes (map of_char s))"

text \<open>\<open>unicode.IsControl\<close> and \<open>unicode.IsSpace\<close>\<close>

definition IsControl :: "nat \<Rightarrow> bool" where
  "IsControl r = (r < 32 \<or> 127 \<le> r \<and> r < 160)"

definition IsSpace :: "nat \<Rightarrow> bool" where
  "IsSpace r = (r \<in> {9, 10, 11, 12, 13, 32, 133, 160, 5760, 8232, 8233, 8239, 8287, 12288} \<or> 8192 \<le> r \<and> r \<le> 8202)"

lemma decodeRunes_append:
  "list_all snd (decodeRunes bs) \<Longrightarrow> decodeRunes (bs @ cs) = decodeRunes bs @ decodeRunes cs"
proof (induction bs rule: decodeRunes.induct)
  case (1 bs)
  show ?case
  proof (cases "bs = []")
    case True
    then show ?thesis by (simp add: decodeRunes.simps [of "[]"])
  next
    case False
    then obtain r w where rw: "validRune bs = Some (r, w)"
      using "1.prems" by (cases "validRune bs") (auto simp: decodeRunes.simps [of bs])
    have tail: "list_all snd (decodeRunes (drop w bs))"
      using "1.prems" False rw by (simp add: decodeRunes.simps [of bs])
    have "drop w (bs @ cs) = drop w bs @ cs"
      using validRune_width [OF rw] by simp
    moreover have "decodeRunes (bs @ cs) = (r, True) # decodeRunes (drop w (bs @ cs))"
      using False validRune_append [OF rw] by (simp add: decodeRunes.simps [of "bs @ cs"])
    ultimately show ?thesis
      using "1.IH"(2) [OF False rw refl tail] False rw by (simp add: decodeRunes.simps [of bs])
  qed
qed

lemma decodeRunes_slash: "decodeRunes (map of_char ''/'') = [(47, True)]"
  by (simp add: decodeRunes.simps validRune.simps)

lemma ValidString_slash: "ValidString s \<Longrightarrow> ValidString (s @ ''/'')"
  using decodeRunes_slash decodeRunes_append [of "map of_char s" "map of_char ''/''"]
  by (simp add: ValidString_def)

lemma runes_slash: "ValidString s \<Longrightarrow> runes (s @ ''/'') = runes s @ [47]"
  using decodeRunes_slash decodeRunes_append [of "map of_char s" "map of_char ''/''"]
  by (simp add: ValidString_def runes_def)

section \<open>Paths\<close>

text \<open>\<open>path.Clean\<close>, which is also \<open>filepath.Clean\<close> on Unix; the accumulator holds the cleaned segments in reverse.\<close>

fun cleanSegments :: "bool \<Rightarrow> string list \<Rightarrow> string list \<Rightarrow> string list" where
  "cleanSegments rooted [] acc = rev acc"
| "cleanSegments rooted (s # ss) acc =
     (if s = [] \<or> s = ''.'' then cleanSegments rooted ss acc
      else if s = ''..'' then
        (case acc of
           [] \<Rightarrow> cleanSegments rooted ss (if rooted then [] else [''..''])
         | a # as \<Rightarrow> cleanSegments rooted ss (if a = ''..'' then ''..'' # acc else as))
      else cleanSegments rooted ss (s # acc))"

definition Clean :: "string \<Rightarrow> string" where
  "Clean p =
     (if p = [] then ''.''
      else let rooted = (hd p = CHR ''/''); r = Join (cleanSegments rooted (Split p (CHR ''/'')) []) ''/'' in
           if rooted then ''/'' @ r else if r = [] then ''.'' else r)"

definition pathHasDotDotSegment :: "string \<Rightarrow> bool" where
  "pathHasDotDotSegment p = list_ex (\<lambda>sep. list_ex (\<lambda>seg. seg = ''..'') (Split p sep)) [CHR ''/'', CHR 0x5C]"

definition pathEscapes :: "string \<Rightarrow> bool" where
  "pathEscapes p = (pathHasDotDotSegment p \<or> pathHasDotDotSegment (Clean p))"

section \<open>Queries\<close>

text \<open>The length of \<open>url.QueryEscape\<close> and of \<open>url.Values.Encode\<close> of single-valued parameters.\<close>

definition queryEscapeLen :: "string \<Rightarrow> int" where
  "queryEscapeLen s = (\<Sum>c\<leftarrow>s. if orOneOf alnumC ''-_.~ '' c then 1 else 3)"

definition queryEncodeLen :: "(string \<times> string) list \<Rightarrow> int" where
  "queryEncodeLen ps =
     (if ps = [] then 0 else (\<Sum>(k, v)\<leftarrow>ps. queryEscapeLen k + 1 + queryEscapeLen v) + (len ps - 1))"

section \<open>URLs and JSON\<close>

text \<open>
  The fields of a parsed \<open>url.URL\<close> the checks read, and a decoded JSON value. Parsing either is a function of
  the environment, as is the text \<open>ceOrigin scheme host\<close> of a URL with nothing else. \<open>ceGlobBad\<close> says that
  \<open>path.Match\<close> reports a malformed pattern, \<open>ceTemplateBad\<close> that a template does not parse.
\<close>

record URL =
  uScheme :: string
  uHost :: string
  uHostname :: string
  uPort :: string
  uHasUser :: bool
  uRawQuery :: string
  uForceQuery :: bool
  uFragment :: string

datatype JSON = JNull | JBool bool | JNumber string | JString string | JArray "JSON list" | JObject "(string \<times> JSON) list"

record cfgEnv =
  ceLower :: "string \<Rightarrow> string"
  ceIsPrint :: "nat \<Rightarrow> bool"
  ceParseURL :: "string \<Rightarrow> URL option"
  ceOrigin :: "string \<Rightarrow> string \<Rightarrow> string"
  ceGlobBad :: "string \<Rightarrow> bool"
  ceTemplateBad :: "string \<Rightarrow> bool"
  ceParseJSON :: "string \<Rightarrow> JSON option"

definition allPrintable :: "cfgEnv \<Rightarrow> string \<Rightarrow> bool" where
  "allPrintable e s = list_all (ceIsPrint e) (runes s)"

definition check :: "bool \<Rightarrow> string \<Rightarrow> string list" where
  "check bad message = (if bad then [message] else [])"

lemma check_eq_Nil [simp]: "check bad m = [] \<longleftrightarrow> \<not> bad"
  by (simp add: check_def)

text \<open>\<open>eachAt f xs\<close> runs \<open>f\<close> on the index, as a text, and the element; \<open>subAt p i\<close> is \<open>p[i]\<close>.\<close>

definition eachAt :: "(string \<Rightarrow> 'a \<Rightarrow> string list) \<Rightarrow> 'a list \<Rightarrow> string list" where
  "eachAt f xs = concat (map (\<lambda>(i, x). f (natDigits i) x) (zip [0..<length xs] xs))"

definition subAt :: "string \<Rightarrow> string \<Rightarrow> string" where
  "subAt p i = p @ ''['' @ i @ '']''"

lemma eachAt_Nil_iff: "eachAt f xs = [] \<longleftrightarrow> (\<forall>i < length xs. f (natDigits i) (xs ! i) = [])"
proof -
  have "zip [0..<length xs] xs = map (\<lambda>i. (i, xs ! i)) [0..<length xs]"
    by (rule nth_equalityI) auto
  then show ?thesis
    by (auto simp: eachAt_def)
qed

lemma eachAt_memberD: "eachAt f xs = [] \<Longrightarrow> x \<in> set xs \<Longrightarrow> \<exists>i. f i x = []"
  unfolding eachAt_Nil_iff in_set_conv_nth by blast

lemma eachAt_NilI: "(\<And>i x. x \<in> set xs \<Longrightarrow> f i x = []) \<Longrightarrow> eachAt f xs = []"
  by (auto simp: eachAt_def dest!: set_zip_rightD)

end
