(* ===== verification/Config_Sets.thy ===== *)
theory Config_Sets
  imports Go_Prelude
begin

text \<open>
  The closed sets of \<open>types/runconfig.go\<close>: the values the fields of a run configuration may take, and the built-in
  tools by what they need. A map to booleans is the list of its true keys.
\<close>

definition validRunModes :: "string list" where
  "validRunModes =
     [''execution'', ''planning'', ''review'', ''research'', ''toil'']"

definition readOnlyModes :: "string list" where
  "readOnlyModes =
     [''planning'', ''review'', ''research'', ''toil'']"

definition validProviderTypes :: "string list" where
  "validProviderTypes =
     [''anthropic'', ''bedrock'', ''openai-compatible'', ''openai-responses'', ''gemini'',
      ''replay'']"

definition validBatchProviderTypes :: "string list" where
  "validBatchProviderTypes =
     [''anthropic'', ''openai-compatible'', ''openai-responses'']"

definition validCompatProfiles :: "string list" where
  "validCompatProfiles =
     [[], ''zai-glm'']"

definition validEndpointProfiles :: "string list" where
  "validEndpointProfiles =
     [[], ''openai'', ''azure-openai'', ''bedrock-mantle'', ''generic'']"

definition openAIWireProviderTypes :: "string list" where
  "openAIWireProviderTypes =
     [''openai-compatible'', ''openai-responses'']"

definition endpointProfilesRequiringBaseURL :: "string list" where
  "endpointProfilesRequiringBaseURL =
     [''azure-openai'', ''bedrock-mantle'']"

definition validToolsProfiles :: "string list" where
  "validToolsProfiles =
     [[], ''default'', ''coding-classic'']"

definition validGeminiSafetyCategories :: "string list" where
  "validGeminiSafetyCategories =
     [''HARM_CATEGORY_HATE_SPEECH'', ''HARM_CATEGORY_HARASSMENT'',
      ''HARM_CATEGORY_DANGEROUS_CONTENT'', ''HARM_CATEGORY_SEXUALLY_EXPLICIT'',
      ''HARM_CATEGORY_CIVIC_INTEGRITY'']"

definition validGeminiSafetyThresholds :: "string list" where
  "validGeminiSafetyThresholds =
     [''BLOCK_NONE'', ''BLOCK_LOW_AND_ABOVE'', ''BLOCK_MEDIUM_AND_ABOVE'', ''BLOCK_ONLY_HIGH'']"

definition validReasoningEfforts :: "string list" where
  "validReasoningEfforts =
     [''minimal'', ''low'', ''medium'', ''high'', ''xhigh'', ''max'']"

definition validModelRouterTypes :: "string list" where
  "validModelRouterTypes =
     [''static'', ''per-mode'', ''dynamic'']"

definition validPromptBuilderTypes :: "string list" where
  "validPromptBuilderTypes =
     [''default'', ''composed'']"

definition validContextStrategyTypes :: "string list" where
  "validContextStrategyTypes =
     [''sliding-window'', ''summarise'', ''offload-to-file'', ''clear-tool-results'']"

definition validVcsBackendTypes :: "string list" where
  "validVcsBackendTypes =
     [''github'', ''gitlab'']"

definition validExecutorTypes :: "string list" where
  "validExecutorTypes =
     [''api'', ''local'', ''container'', ''k8s'', ''k8s-sandbox'', ''none'']"

definition executorExecCapable :: "string list" where
  "executorExecCapable =
     [[], ''local'', ''container'', ''k8s'', ''k8s-sandbox'']"

definition executorWorkspaceArchiver :: "string list" where
  "executorWorkspaceArchiver =
     [[], ''local'', ''container'', ''k8s'', ''k8s-sandbox'']"

definition validContainerRuntimes :: "string list" where
  "validContainerRuntimes =
     [[], ''runc'', ''runsc'', ''kata'', ''kata-qemu'', ''kata-fc'', ''kata-clh'']"

definition validK8sRuntimes :: "string list" where
  "validK8sRuntimes =
     [[], ''runc'', ''gvisor'', ''kata-qemu'', ''kata-fc'', ''kata-clh'']"

definition validEditStrategyTypes :: "string list" where
  "validEditStrategyTypes =
     [''whole-file'', ''search-replace'', ''udiff'', ''multi'']"

definition validVerifierTypes :: "string list" where
  "validVerifierTypes =
     [''none'', ''test-runner'', ''llm-judge'', ''composite'']"

definition validPermissionPolicyTypes :: "string list" where
  "validPermissionPolicyTypes =
     [''allow-all'', ''deny-all'', ''deny-side-effects'', ''ask-upstream'', ''policy-engine'']"

definition validFallbackPolicyTypes :: "string list" where
  "validFallbackPolicyTypes =
     [''allow-all'', ''deny-all'', ''deny-side-effects'', ''ask-upstream'']"

definition validGitStrategyTypes :: "string list" where
  "validGitStrategyTypes =
     [''none'', ''deterministic'']"

definition validTransportTypes :: "string list" where
  "validTransportTypes =
     [''stdio'', ''grpc'']"

definition validTraceEmitterTypes :: "string list" where
  "validTraceEmitterTypes =
     [''jsonl'', ''otel'', ''gcs'']"

definition validTraceEmitterProtocols :: "string list" where
  "validTraceEmitterProtocols =
     [[], ''grpc'', ''http/protobuf'']"

definition validTraceEmitterMetricsTemporalities :: "string list" where
  "validTraceEmitterMetricsTemporalities =
     [[], ''cumulative'', ''delta'']"

definition validTraceEmitterPlatforms :: "string list" where
  "validTraceEmitterPlatforms =
     [[], ''cloudwatch'', ''langfuse'', ''phoenix'']"

definition validLogsExportTypes :: "string list" where
  "validLogsExportTypes =
     [[], ''none'', ''otlp'']"

definition validResultSinkTypes :: "string list" where
  "validResultSinkTypes =
     [''none'', ''stdout-json'', ''gcp-pubsub'', ''gcs'']"

definition resultSinkCredentialTypes :: "string list" where
  "resultSinkCredentialTypes =
     [''gcp-workload-identity'', ''gcp-default'']"

definition validCredentialTypes :: "string list" where
  "validCredentialTypes =
     [''static'', ''aws-default'', ''web-identity'', ''gcp-default'', ''gcp-service-account'',
      ''gcp-workload-identity'', ''gcp-workload-identity-federation'', ''anthropic-wif'',
      ''azure-workload-identity'', ''openai-wif'']"

definition validTokenSourceTypes :: "string list" where
  "validTokenSourceTypes =
     [''gke-metadata'', ''file'', ''env'', ''aws-irsa'', ''azure-imds'', ''github-actions-oidc'']"

definition validCodeScannerTypes :: "string list" where
  "validCodeScannerTypes =
     [''none'', ''patterns'', ''semgrep'', ''composite'']"

definition validCompositeCodeScannerTypes :: "string list" where
  "validCompositeCodeScannerTypes =
     [''none'', ''patterns'', ''semgrep'']"

definition validGuardRailTypes :: "string list" where
  "validGuardRailTypes =
     [''none'', ''granite-guardian'', ''shieldstral'', ''composite'', ''cloud-judge'']"

definition validGuardRailPhases :: "string list" where
  "validGuardRailPhases =
     [''pre_turn'', ''pre_tool'', ''post_turn'']"

definition validCompositeGuardRailTypes :: "string list" where
  "validCompositeGuardRailTypes =
     [''none'', ''granite-guardian'', ''shieldstral'', ''cloud-judge'']"

definition validBuiltInToolNames :: "string list" where
  "validBuiltInToolNames =
     [''read_file'', ''write_file'', ''search_replace'', ''apply_diff'', ''edit_file'',
      ''list_directory'', ''grep_files'', ''find_files'', ''run_command'',
      ''read_command_output'', ''web_fetch'', ''spawn_agent'', ''git_status'',
      ''git_changed_files'', ''git_diff'', ''git_show'']"

definition mutatingTools :: "string list" where
  "mutatingTools =
     [''write_file'', ''run_command'', ''edit_file'', ''search_replace'', ''apply_diff'']"

definition readCapabilityBuiltInTools :: "string list" where
  "readCapabilityBuiltInTools =
     [''read_file'', ''list_directory'', ''grep_files'', ''find_files'', ''git_status'',
      ''git_changed_files'', ''git_diff'', ''git_show'']"

definition execCapabilityBuiltInTools :: "string list" where
  "execCapabilityBuiltInTools =
     [''read_command_output'']"

definition validRuleOfTwoClassifiers :: "string list" where
  "validRuleOfTwoClassifiers =
     [[], ''patterns'', ''none'']"

definition validRuleOfTwoOnDetectActions :: "string list" where
  "validRuleOfTwoOnDetectActions =
     [[], ''block-external'', ''ask-upstream'', ''redact'', ''abort'', ''warn'']"

definition validHookTypes :: "string list" where
  "validHookTypes =
     [[], ''command'']"

definition validHookRunOnValues :: "string list" where
  "validHookRunOnValues =
     [[], ''always'', ''success'', ''failure'']"

definition validLazyToolStrategies :: "string list" where
  "validLazyToolStrategies =
     [[], ''auto'', ''harness'']"

definition nativeToolSearchNames :: "string list" where
  "nativeToolSearchNames =
     [''tool_search_tool_bm25'', ''tool_search_tool_regex'']"

definition validSandboxIdentitySources :: "string list" where
  "validSandboxIdentitySources =
     [''control-plane'']"

definition sandboxIdentityCapableExecutors :: "string list" where
  "sandboxIdentityCapableExecutors =
     [''container'', ''k8s'', ''k8s-sandbox'']"

lemma readOnlyModes_valid: "set readOnlyModes \<subseteq> set validRunModes"
  by (simp add: readOnlyModes_def validRunModes_def)

lemma mutatingTools_builtIn: "set mutatingTools \<subseteq> set validBuiltInToolNames"
  by (simp add: mutatingTools_def validBuiltInToolNames_def)

lemma execution_editable: "''execution'' \<notin> set readOnlyModes"
  by (simp add: readOnlyModes_def)

end
