(* ===== verification/Config_Data.thy ===== *)
theory Config_Data
  imports Config_Text Config_Sets Lazy_Tools Lifecycle_Hooks Turn_Request
begin

text \<open>
  The run configuration: the types of \<open>types/runconfig.go\<close>, \<open>correlation.go\<close> and \<open>repositoryguidance.go\<close>, the
  closed sets of values their fields may take, the values a field's zero stands for, and the defaults
  that validation fills in.

  A pointer that may be nil is an option, a map is the list of its entries in the order a loop over it
  meets them. Fields that neither a check, a default, \<open>Redact\<close> nor a reader modelled here looks at are left
  out.
\<close>

section \<open>Types\<close>

type_synonym stringMap = "(string \<times> string) list"

record CorrelationConfig =
  coSessionID :: string
  coTaskID :: string
  coAttemptID :: string
  coUserID :: string
  coURL :: string
  coLabels :: stringMap

record DynamicContextValue =
  dvValue :: string
  dvSensitive :: bool

record TokenSourceConfig =
  tsType :: string
  tsAudience :: string
  tsPath :: string
  tsEnvVar :: string
  tsResource :: string
  tsClientID :: string

record CredentialConfig =
  crType :: string
  crTokenSource :: "TokenSourceConfig option"
  crRoleARN :: string
  crSessionName :: string
  crAudience :: string
  crServiceAccount :: string
  crFederationRuleID :: string
  crOrganizationID :: string
  crServiceAccountID :: string
  crWorkspaceID :: string
  crAzureTenantID :: string
  crAzureClientID :: string
  crAzureScope :: string
  crAzureTokenURL :: string
  crOpenAIIdentityProviderID :: string
  crOpenAIServiceAccountID :: string
  crOpenAISubjectTokenType :: string

record GeminiSafetySetting =
  gsCategory :: string
  gsThreshold :: string

record BatchProviderConfig =
  baEnabled :: bool
  baMaxWaitSeconds :: "int option"
  baHarnessSidePolling :: bool
  baFallbackOnTimeout :: bool
  baCancelBundleOnRunCancel :: bool
  baAllowInteractiveModes :: bool

record ProviderConfig =
  pvType :: string
  pvAPIKeyRef :: string
  pvRegion :: string
  pvProfile :: string
  pvBaseURL :: string
  pvCredential :: "CredentialConfig option"
  pvAPIKeyHeader :: string
  pvQueryParams :: stringMap
  pvGCPProject :: string
  pvGCPLocation :: string
  pvGCPCredentialsFile :: string
  pvGeminiSafetySettings :: "GeminiSafetySetting list"
  pvReplayFile :: string
  pvRetry :: "ProviderRetryConfig option"
  pvBatch :: "BatchProviderConfig option"
  pvCompatProfile :: string
  pvEndpointProfile :: string

record ModelRouterConfig =
  moType :: string
  moProvider :: string
  moModel :: string
  moModeModels :: stringMap
  moCheapProvider :: string
  moCheapModel :: string
  moExpensiveProvider :: string
  moExpensiveModel :: string

record PromptBuilderConfig =
  pbType :: string
  pbTemplate :: string
  pbPromptModel :: string

record ContextStrategyConfig =
  csType :: string
  csMaxTokens :: int
  csKeep :: "int option"
  csClearAtLeast :: "int option"
  csExcludeTools :: "string list"

record VcsBackendConfig =
  vbType :: string
  vbAPIKeyRef :: string

record NetworkConfig =
  nwMode :: string
  nwAllowlist :: "string list"

record ResourceLimits =
  rlCPUs :: goFloat
  rlMemoryMB :: int
  rlDiskMB :: int
  rlPIDs :: int

record SandboxIdentityConfig =
  siSource :: string
  siEnvVar :: string

record GitProxyConfig =
  gpURL :: string
  gpHosts :: "string list"
  gpTokenEnvVar :: string

record ExecutorConfig =
  exType :: string
  exVcsBackend :: "VcsBackendConfig option"
  exWorkspace :: string
  exImage :: string
  exNetwork :: "NetworkConfig option"
  exResources :: "ResourceLimits option"
  exK8sNamespace :: string
  exK8sKubeconfig :: string
  exK8sNodeSelector :: stringMap
  exK8sServiceAccount :: string
  exK8sEgressProxyURL :: string
  exRuntime :: string
  exRegistryAllowlist :: "string list"
  exWorkspaceExportTo :: string
  exWorkspaceExportRequired :: "bool option"
  exSandboxIdentity :: "SandboxIdentityConfig option"
  exGitProxy :: "GitProxyConfig option"

record EditStrategyConfig =
  esType :: string
  esFuzzyThreshold :: "goFloat option"

datatype VerifierConfig = VerifierConfig (vcType: string) (vcVerifiers: "VerifierConfig list")

record PermissionPolicyConfig =
  ppType :: string
  ppTimeout :: int
  ppPolicyFile :: string
  ppFallback :: string

record TraceArchiveConfig =
  taType :: string
  taFilePath :: string
  taBucket :: string
  taObjectPrefix :: string
  taCredential :: "CredentialConfig option"

record TraceEmitterConfig =
  teType :: string
  teEndpoint :: string
  teMetricsEndpoint :: string
  teMetricsTemporality :: string
  teBucket :: string
  teObjectPrefix :: string
  teCredential :: "CredentialConfig option"
  teProtocol :: string
  teHeaders :: stringMap
  teCaptureContent :: bool
  teCaptureContentMaxBytes :: int
  tePlatform :: string
  tePlatformOptions :: stringMap
  teArchive :: "TraceArchiveConfig option"

record ResultSinkConfig =
  rsType :: string
  rsTopic :: string
  rsAttributes :: stringMap
  rsMaxFinalAssistantTextBytes :: int
  rsBucket :: string
  rsObjectPrefix :: string
  rsOrderingKey :: string
  rsCredential :: "CredentialConfig option"

record PostEditCheckConfig =
  peGlob :: string
  peCommand :: string
  peTimeoutSeconds :: int

record ControlPlaneToolConfig =
  cpName :: string
  cpDescription :: string
  cpInputSchema :: string
  cpTimeoutSeconds :: int

record CommandOutputConfig =
  cmEnabled :: "bool option"
  cmFailurePosture :: string
  cmInlineMaxBytes :: int
  cmPreviewBytesPerStream :: int
  cmMaxBytesPerStream :: int
  cmMaxBytesPerRun :: int

record MCPServerConfig =
  mcName :: string
  mcURI :: string
  mcAPIKeyRef :: string
  mcAllowedTools :: "string list"
  mcAllowedMCPHosts :: "string list"

record ToolsConfig =
  tlBuiltIn :: "string list"
  tlMCPServers :: "MCPServerConfig list"
  tlProfile :: string
  tlCommandOutput :: CommandOutputConfig
  tlControlPlane :: "ControlPlaneToolConfig list"
  tlMaxResultBytes :: int
  tlProtectedWriteTargets :: "string list"
  tlPostEdit :: "PostEditCheckConfig list"
  tlLazyLoading :: LazyToolLoadingConfig

record RuleOfTwoRuntimeConfig =
  rrClassifier :: string
  rrOnDetect :: string
  rrGuardCriteria :: "string list"

record RuleOfTwoConfig =
  rtEnforce :: "bool option"
  rtRuntime :: "RuleOfTwoRuntimeConfig option"

record CodeScannerConfig =
  scType :: string
  scScanners :: "string list"

datatype GuardRailConfig =
  GuardRailConfig
    (grType: string) (grStages: "GuardRailConfig list") (grPhases: "string list") (grEndpoint: string)
    (grAPIKeyRef: string) (grModel: string) (grThreshold: goFloat) (grCriteria: "string list")
    (grCustomCriteria: stringMap) (grThink: "bool option") (grTimeoutMs: int) (grFailOpen: bool)
    (grMinChunkChars: int)

record ObservabilityConfig =
  obServiceName :: string
  obEnvironment :: string
  obServiceNamespace :: string
  obLogsType :: string
  obLogsEndpoint :: string

record ToolChoiceEscalationConfig =
  tcEnabled :: bool
  tcMaxRetries :: int

text \<open>The hooks the runner gets are these without their type.\<close>

record typedHook = HookConfig +
  hkType :: string

record HooksConfig =
  hoPreRun :: "typedHook list"
  hoPostRun :: "typedHook list"

record RepositoryGuidanceConfig =
  rgFiles :: "string list"
  rgMaxBytes :: int
  rgPinnedSHA256 :: stringMap

record RunConfig =
  rcRunID :: string
  rcMode :: string
  rcSessionName :: string
  rcCorrelation :: "CorrelationConfig option"
  rcDynamicContext :: "(string \<times> DynamicContextValue) list"
  rcProvider :: ProviderConfig
  rcProviders :: "(string \<times> ProviderConfig) list"
  rcModelRouter :: ModelRouterConfig
  rcPromptBuilder :: PromptBuilderConfig
  rcContextStrategy :: ContextStrategyConfig
  rcExecutor :: ExecutorConfig
  rcEditStrategy :: EditStrategyConfig
  rcVerifier :: VerifierConfig
  rcPermissionPolicy :: PermissionPolicyConfig
  rcGitStrategy :: string
  rcTransport :: string
  rcTraceEmitter :: TraceEmitterConfig
  rcResultSink :: "ResultSinkConfig option"
  rcTools :: ToolsConfig
  rcMaxTurns :: int
  rcMaxTokenBudget :: "int option"
  rcMaxCostBudget :: "goFloat option"
  rcTimeout :: "int option"
  rcTemperature :: "goFloat option"
  rcReasoningEffort :: string
  rcReasoningSummary :: string
  rcFollowUpGrace :: "int option"
  rcHeartbeatSeconds :: int
  rcFollowUpHistory :: string
  rcSystemPromptOverride :: string
  rcRuleOfTwo :: "RuleOfTwoConfig option"
  rcCodeScanner :: "CodeScannerConfig option"
  rcSensitiveData :: "bool option"
  rcGuardRail :: "GuardRailConfig option"
  rcObservability :: ObservabilityConfig
  rcToolDispatch :: "int option"
  rcToolChoiceEscalation :: "ToolChoiceEscalationConfig option"
  rcHooks :: "HooksConfig option"
  rcOutputSchema :: string
  rcWindDown :: "bool option"
  rcRepositoryGuidance :: "RepositoryGuidanceConfig option"

section \<open>Constants\<close>

definition absoluteMaxTurns :: int where "absoluteMaxTurns = 100"
definition maxFollowUpGrace :: int where "maxFollowUpGrace = 3600"
definition DefaultHeartbeatSeconds :: int where "DefaultHeartbeatSeconds = 30"
definition minHeartbeatSeconds :: int where "minHeartbeatSeconds = 5"
definition maxHeartbeatSeconds :: int where "maxHeartbeatSeconds = 600"
definition maxCostBudget :: int where "maxCostBudget = 100"
definition maxTokenBudget :: int where "maxTokenBudget = 50000000"
definition minContextStrategyMaxTokens :: int where "minContextStrategyMaxTokens = 512"
definition maxTemperature :: int where "maxTemperature = 2"
definition maxSessionNameLength :: int where "maxSessionNameLength = 255"

definition defaultProviderRetryMaxAttempts :: int where "defaultProviderRetryMaxAttempts = 3"
definition defaultProviderRetryInitialDelayMs :: int where "defaultProviderRetryInitialDelayMs = 500"
definition defaultProviderRetryMaxDelayMs :: int where "defaultProviderRetryMaxDelayMs = 16000"
definition defaultProviderRetryWallClockBudgetMs :: int where "defaultProviderRetryWallClockBudgetMs = 90000"
definition maxProviderRetryMaxAttempts :: int where "maxProviderRetryMaxAttempts = 5"
definition maxProviderRetryMaxDelayMs :: int where "maxProviderRetryMaxDelayMs = 60000"
definition maxProviderRetryWallClockBudgetMs :: int where "maxProviderRetryWallClockBudgetMs = 300000"

definition DefaultToolDispatchMaxParallel :: int where "DefaultToolDispatchMaxParallel = 4"
definition MaxToolDispatchMaxParallel :: int where "MaxToolDispatchMaxParallel = 16"
definition MaxRunTimeoutSeconds :: int where "MaxRunTimeoutSeconds = 3600"

definition MinToolMaxResultBytes :: int where "MinToolMaxResultBytes = 1024"
definition MaxToolMaxResultBytes :: int where "MaxToolMaxResultBytes = 1048576"

definition DefaultCommandOutputInlineMaxBytes :: int where "DefaultCommandOutputInlineMaxBytes = 32768"
definition DefaultCommandOutputPreviewBytesPerStream :: int where "DefaultCommandOutputPreviewBytesPerStream = 4096"
definition DefaultCommandOutputMaxBytesPerStream :: int where "DefaultCommandOutputMaxBytesPerStream = 52428800"
definition DefaultCommandOutputMaxBytesPerRun :: int where "DefaultCommandOutputMaxBytesPerRun = 524288000"
definition MaxCommandOutputBytesPerStream :: int where "MaxCommandOutputBytesPerStream = 268435456"
definition MaxCommandOutputBytesPerRun :: int where "MaxCommandOutputBytesPerRun = 2147483648"

definition DefaultPostEditTimeoutSeconds :: int where "DefaultPostEditTimeoutSeconds = 60"
definition MaxPostEditTimeoutSeconds :: int where "MaxPostEditTimeoutSeconds = 600"
definition DefaultToolChoiceEscalationMaxRetries :: int where "DefaultToolChoiceEscalationMaxRetries = 1"
definition MaxToolChoiceEscalationMaxRetries :: int where "MaxToolChoiceEscalationMaxRetries = 3"
definition MaxHookTimeoutSeconds :: int where "MaxHookTimeoutSeconds = 1800"
definition DefaultMaxFinalAssistantTextBytes :: int where "DefaultMaxFinalAssistantTextBytes = 131072"
definition DefaultRepositoryGuidanceMaxBytes :: int where "DefaultRepositoryGuidanceMaxBytes = 32768"
definition MaxRepositoryGuidanceMaxBytes :: int where "MaxRepositoryGuidanceMaxBytes = 50000"

text \<open>\<open>1024 - 128 - len(".result.json") - 1\<close>\<close>

definition maxResultObjectPrefixBytes :: int where "maxResultObjectPrefixBytes = 883"

section \<open>What an unset field stands for\<close>

definition WindDownEnabled :: "RunConfig \<Rightarrow> bool" where
  "WindDownEnabled rc = (rcWindDown rc = Some True)"

definition DynamicContextValues :: "RunConfig \<Rightarrow> stringMap" where
  "DynamicContextValues rc = map (\<lambda>(k, e). (k, dvValue e)) (rcDynamicContext rc)"

definition ContinuesFollowUpHistory :: "RunConfig \<Rightarrow> bool" where
  "ContinuesFollowUpHistory rc = (rcFollowUpHistory rc = ''continue'')"

definition EffectiveHeartbeatSeconds :: "RunConfig \<Rightarrow> int" where
  "EffectiveHeartbeatSeconds rc =
     (if rcHeartbeatSeconds rc = 0 then DefaultHeartbeatSeconds else rcHeartbeatSeconds rc)"

definition DefaultModel :: string where "DefaultModel = ''claude-sonnet-4-6''"

definition EffectivePromptModel :: "RunConfig \<Rightarrow> string" where
  "EffectivePromptModel rc =
     (let router = rcModelRouter rc;
          fallback = (if moModel router \<noteq> [] then moModel router else DefaultModel)
      in if pbPromptModel (rcPromptBuilder rc) \<noteq> [] then pbPromptModel (rcPromptBuilder rc)
         else if moType router = ''per-mode'' then
           (case map_of (moModeModels router) (rcMode rc) of
              None \<Rightarrow> fallback
            | Some spec \<Rightarrow>
                if spec = [] then fallback
                else (case Cut spec (CHR ''/'') of Some (_, model) \<Rightarrow> model | None \<Rightarrow> spec))
         else fallback)"

definition IsBatchEnabled :: "ProviderConfig \<Rightarrow> bool" where
  "IsBatchEnabled p = (case pvBatch p of None \<Rightarrow> False | Some b \<Rightarrow> baEnabled b)"

definition DefaultSandboxIdentityEnvVar :: string where "DefaultSandboxIdentityEnvVar = ''HAYBALE_TOKEN''"

definition EffectiveEnvVar :: "SandboxIdentityConfig \<Rightarrow> string" where
  "EffectiveEnvVar c = (if siEnvVar c = [] then DefaultSandboxIdentityEnvVar else siEnvVar c)"

definition EffectiveTokenEnvVar :: "GitProxyConfig \<Rightarrow> string" where
  "EffectiveTokenEnvVar c = (if gpTokenEnvVar c = [] then DefaultSandboxIdentityEnvVar else gpTokenEnvVar c)"

definition EffectiveToolChoiceEscalationMaxRetries :: "RunConfig \<Rightarrow> int" where
  "EffectiveToolChoiceEscalationMaxRetries rc =
     (case rcToolChoiceEscalation rc of
        None \<Rightarrow> 0
      | Some c \<Rightarrow>
          if \<not> tcEnabled c then 0
          else if tcMaxRetries c = 0 then DefaultToolChoiceEscalationMaxRetries else tcMaxRetries c)"

definition EffectivePostEditTimeout :: "PostEditCheckConfig \<Rightarrow> int" where
  "EffectivePostEditTimeout c = (if peTimeoutSeconds c \<le> 0 then DefaultPostEditTimeoutSeconds else peTimeoutSeconds c)"

definition IsRemote :: "ResultSinkConfig \<Rightarrow> bool" where
  "IsRemote c = (rsType c = ''gcs'' \<or> rsType c = ''gcp-pubsub'')"

definition ResolvedMaxFinalAssistantTextBytes :: "ResultSinkConfig option \<Rightarrow> int" where
  "ResolvedMaxFinalAssistantTextBytes c =
     (case c of
        None \<Rightarrow> DefaultMaxFinalAssistantTextBytes
      | Some s \<Rightarrow>
          if rsMaxFinalAssistantTextBytes s \<le> 0 then DefaultMaxFinalAssistantTextBytes
          else rsMaxFinalAssistantTextBytes s)"

definition CommandOutputCaptureEnabled :: "ToolsConfig \<Rightarrow> bool" where
  "CommandOutputCaptureEnabled c = (cmEnabled (tlCommandOutput c) \<noteq> Some False)"

definition orInt :: "int \<Rightarrow> int \<Rightarrow> int" where
  "orInt d v = (if v = 0 then d else v)"

definition EffectiveCommandOutput :: "ToolsConfig \<Rightarrow> CommandOutputConfig" where
  "EffectiveCommandOutput c =
     (let out = tlCommandOutput c in
      out\<lparr>cmInlineMaxBytes := orInt DefaultCommandOutputInlineMaxBytes (cmInlineMaxBytes out),
          cmPreviewBytesPerStream := orInt DefaultCommandOutputPreviewBytesPerStream (cmPreviewBytesPerStream out),
          cmMaxBytesPerStream := orInt DefaultCommandOutputMaxBytesPerStream (cmMaxBytesPerStream out),
          cmMaxBytesPerRun := orInt DefaultCommandOutputMaxBytesPerRun (cmMaxBytesPerRun out),
          cmFailurePosture := (if cmFailurePosture out = [] then ''strict'' else cmFailurePosture out)\<rparr>)"

definition IsOpenAIWireProviderType :: "string \<Rightarrow> bool" where
  "IsOpenAIWireProviderType t = (t \<in> set openAIWireProviderTypes)"

definition ResolveReasoningSummary :: "string \<Rightarrow> string \<Rightarrow> string" where
  "ResolveReasoningSummary providerType configured =
     (if configured \<noteq> [] then configured
      else if providerType = ''openai-responses'' then ''off'' else ''auto'')"

definition ExecutorCanExec :: "string \<Rightarrow> bool" where
  "ExecutorCanExec t = (t \<in> set executorExecCapable)"

definition ExecutorCanArchiveWorkspace :: "string \<Rightarrow> bool" where
  "ExecutorCanArchiveWorkspace t = (t \<in> set executorWorkspaceArchiver)"

definition RequiredTraceEmitterProtocol :: "string \<Rightarrow> string" where
  "RequiredTraceEmitterProtocol platform =
     (if platform = ''cloudwatch'' \<or> platform = ''langfuse'' then ''http/protobuf'' else [])"

definition effectiveProtocol :: "TraceEmitterConfig \<Rightarrow> string" where
  "effectiveProtocol c = (if teProtocol c = [] then RequiredTraceEmitterProtocol (tePlatform c) else teProtocol c)"

definition IsBuiltInTool :: "string \<Rightarrow> bool" where
  "IsBuiltInTool name = (name \<in> set validBuiltInToolNames)"

definition DefaultReadOnlyBuiltInTools :: "string list" where
  "DefaultReadOnlyBuiltInTools =
     [''read_file'', ''list_directory'', ''grep_files'', ''find_files'', ''git_status'', ''git_changed_files'',
      ''git_diff'', ''git_show'', ''web_fetch'', ''spawn_agent'']"

definition needsExecutor :: "string \<Rightarrow> bool" where
  "needsExecutor name =
     (name \<in> set readCapabilityBuiltInTools \<or> name \<in> set mutatingTools \<or> name \<in> set execCapabilityBuiltInTools)"

definition DefaultReadOnlyBuiltInToolsForExecutor :: "string \<Rightarrow> string list" where
  "DefaultReadOnlyBuiltInToolsForExecutor executorType =
     (if executorType \<noteq> ''none'' then DefaultReadOnlyBuiltInTools
      else filter (\<lambda>name. \<not> needsExecutor name) DefaultReadOnlyBuiltInTools)"

definition EffectiveGuidanceMaxBytes :: "RepositoryGuidanceConfig option \<Rightarrow> int" where
  "EffectiveGuidanceMaxBytes c =
     (case c of
        None \<Rightarrow> DefaultRepositoryGuidanceMaxBytes
      | Some g \<Rightarrow> if rgMaxBytes g = 0 then DefaultRepositoryGuidanceMaxBytes else rgMaxBytes g)"

section \<open>Defaults validation fills in\<close>

definition applyCodeScannerDefault :: "RunConfig \<Rightarrow> RunConfig" where
  "applyCodeScannerDefault c =
     (case rcCodeScanner c of
        Some _ \<Rightarrow> c
      | None \<Rightarrow>
          c\<lparr>rcCodeScanner := Some \<lparr>scType = (if rcMode c \<in> set readOnlyModes then ''none'' else ''patterns''),
                                   scScanners = []\<rparr>\<rparr>)"

definition applyEditStrategyDefault :: "RunConfig \<Rightarrow> RunConfig" where
  "applyEditStrategyDefault c =
     (if esType (rcEditStrategy c) = [] then c\<lparr>rcEditStrategy := (rcEditStrategy c)\<lparr>esType := ''multi''\<rparr>\<rparr> else c)"

definition applyPermissionPolicyDefault :: "RunConfig \<Rightarrow> RunConfig" where
  "applyPermissionPolicyDefault c =
     (if ppType (rcPermissionPolicy c) = [] \<and> rcMode c \<in> set readOnlyModes
      then c\<lparr>rcPermissionPolicy := (rcPermissionPolicy c)\<lparr>ppType := ''deny-side-effects''\<rparr>\<rparr> else c)"

definition zeroRetry :: ProviderRetryConfig where
  "zeroRetry = \<lparr>MaxAttempts = 0, InitialDelayMs = 0, MaxDelayMs = 0, WallClockBudgetMs = 0\<rparr>"

definition retryOr :: "ProviderRetryConfig \<Rightarrow> ProviderRetryConfig" where
  "retryOr r =
     \<lparr>MaxAttempts = orInt defaultProviderRetryMaxAttempts (MaxAttempts r),
      InitialDelayMs = orInt defaultProviderRetryInitialDelayMs (InitialDelayMs r),
      MaxDelayMs = orInt defaultProviderRetryMaxDelayMs (MaxDelayMs r),
      WallClockBudgetMs = orInt defaultProviderRetryWallClockBudgetMs (WallClockBudgetMs r)\<rparr>"

definition defaultProviderRetry :: "ProviderConfig \<Rightarrow> ProviderConfig" where
  "defaultProviderRetry p =
     p\<lparr>pvRetry := Some (retryOr (case pvRetry p of None \<Rightarrow> zeroRetry | Some r \<Rightarrow> r))\<rparr>"

definition applyProviderRetryDefaults :: "RunConfig \<Rightarrow> RunConfig" where
  "applyProviderRetryDefaults c =
     c\<lparr>rcProvider := defaultProviderRetry (rcProvider c),
       rcProviders := map (\<lambda>(name, p). (name, defaultProviderRetry p)) (rcProviders c)\<rparr>"

text \<open>The four defaults, in the order \<open>ValidateRunConfig\<close> applies them.\<close>

definition applyDefaults :: "RunConfig \<Rightarrow> RunConfig" where
  "applyDefaults c =
     applyProviderRetryDefaults (applyPermissionPolicyDefault (applyEditStrategyDefault (applyCodeScannerDefault c)))"

lemma orInt_idem [simp]: "d \<noteq> 0 \<Longrightarrow> orInt d (orInt d v) = orInt d v"
  by (simp add: orInt_def)

lemma defaultProviderRetry_idem [simp]:
  "defaultProviderRetry (defaultProviderRetry p) = defaultProviderRetry p"
  by (simp add: defaultProviderRetry_def retryOr_def defaultProviderRetryMaxAttempts_def
      defaultProviderRetryInitialDelayMs_def defaultProviderRetryMaxDelayMs_def
      defaultProviderRetryWallClockBudgetMs_def)

section \<open>Sample configurations\<close>

text \<open>An environment that parses a few URLs, and a planning run on the local executor with a guard and a named provider.\<close>

definition sampleURL :: URL where
  "sampleURL = \<lparr>uScheme = ''https'', uHost = ''h'', uHostname = ''h'', uPort = [], uHasUser = False, uRawQuery = [],
     uForceQuery = False, uFragment = []\<rparr>"

definition sampleCfgEnv :: cfgEnv where
  "sampleCfgEnv =
     \<lparr>ceLower = id, ceIsPrint = (\<lambda>r. 32 \<le> r), ceParseURL = (\<lambda>s. if s = ''https://h'' then Some sampleURL else None),
      ceOrigin = (\<lambda>scheme host. scheme @ ''://'' @ host), ceGlobBad = (\<lambda>s. s = ''[''), ceTemplateBad = (\<lambda>s. s = ''{{''),
      ceParseJSON = (\<lambda>s. if s = ''{}'' then Some (JObject []) else None)\<rparr>"

definition sampleProvider :: ProviderConfig where
  "sampleProvider =
     \<lparr>pvType = ''anthropic'', pvAPIKeyRef = ''secret://K'', pvRegion = [], pvProfile = [], pvBaseURL = [],
      pvCredential = None, pvAPIKeyHeader = [], pvQueryParams = [], pvGCPProject = [], pvGCPLocation = [],
      pvGCPCredentialsFile = [], pvGeminiSafetySettings = [], pvReplayFile = [], pvRetry = None, pvBatch = None,
      pvCompatProfile = [], pvEndpointProfile = []\<rparr>"

definition sampleGuard :: GuardRailConfig where
  "sampleGuard =
     GuardRailConfig ''shieldstral'' [] [''pre_turn''] ''https://h'' ''secret://G'' ''m'' (Finite 1 (-1)) [] [] None 0 False 0"

definition sampleCommandOutput :: CommandOutputConfig where
  "sampleCommandOutput =
     \<lparr>cmEnabled = None, cmFailurePosture = [], cmInlineMaxBytes = 0, cmPreviewBytesPerStream = 0,
      cmMaxBytesPerStream = 0, cmMaxBytesPerRun = 0\<rparr>"

definition sampleTools :: ToolsConfig where
  "sampleTools =
     \<lparr>tlBuiltIn = [''read_file'', ''web_fetch''], tlMCPServers = [], tlProfile = [], tlCommandOutput = sampleCommandOutput,
      tlControlPlane = [], tlMaxResultBytes = 0, tlProtectedWriteTargets = [], tlPostEdit = [],
      tlLazyLoading = \<lparr>Strategy = [], Eager = [], MaxResults = 0\<rparr>\<rparr>"

definition sampleExecutor :: ExecutorConfig where
  "sampleExecutor =
     \<lparr>exType = ''local'', exVcsBackend = None, exWorkspace = [], exImage = [], exNetwork = None, exResources = None,
      exK8sNamespace = [], exK8sKubeconfig = [], exK8sNodeSelector = [], exK8sServiceAccount = [],
      exK8sEgressProxyURL = [], exRuntime = [], exRegistryAllowlist = [], exWorkspaceExportTo = [],
      exWorkspaceExportRequired = None, exSandboxIdentity = None, exGitProxy = None\<rparr>"

definition sampleEmitter :: TraceEmitterConfig where
  "sampleEmitter =
     \<lparr>teType = ''gcs'', teEndpoint = [], teMetricsEndpoint = [], teMetricsTemporality = [], teBucket = ''bucket'',
      teObjectPrefix = ''runs'', teCredential = None, teProtocol = [], teHeaders = [], teCaptureContent = False,
      teCaptureContentMaxBytes = 0, tePlatform = [], tePlatformOptions = [], teArchive = None\<rparr>"

definition sampleSink :: ResultSinkConfig where
  "sampleSink =
     \<lparr>rsType = ''gcs'', rsTopic = [], rsAttributes = [], rsMaxFinalAssistantTextBytes = 0, rsBucket = ''bucket'',
      rsObjectPrefix = ''runs'', rsOrderingKey = [], rsCredential = None\<rparr>"

definition sampleRunConfig :: RunConfig where
  "sampleRunConfig =
     \<lparr>rcRunID = ''r1'', rcMode = ''planning'', rcSessionName = ''s'', rcCorrelation = None, rcDynamicContext = [],
      rcProvider = sampleProvider, rcProviders = [(''second'', sampleProvider)],
      rcModelRouter = \<lparr>moType = [], moProvider = ''second'', moModel = ''m'', moModeModels = [], moCheapProvider = [],
        moCheapModel = [], moExpensiveProvider = [], moExpensiveModel = []\<rparr>,
      rcPromptBuilder = \<lparr>pbType = [], pbTemplate = [], pbPromptModel = []\<rparr>,
      rcContextStrategy = \<lparr>csType = [], csMaxTokens = 0, csKeep = None, csClearAtLeast = None, csExcludeTools = []\<rparr>,
      rcExecutor = sampleExecutor, rcEditStrategy = \<lparr>esType = [], esFuzzyThreshold = None\<rparr>,
      rcVerifier = VerifierConfig [] [],
      rcPermissionPolicy = \<lparr>ppType = [], ppTimeout = 0, ppPolicyFile = [], ppFallback = []\<rparr>,
      rcGitStrategy = [], rcTransport = ''stdio'', rcTraceEmitter = sampleEmitter, rcResultSink = Some sampleSink,
      rcTools = sampleTools, rcMaxTurns = 20, rcMaxTokenBudget = Some 1000, rcMaxCostBudget = None, rcTimeout = Some 600,
      rcTemperature = Some (Finite 1 (-1)), rcReasoningEffort = ''high'', rcReasoningSummary = [], rcFollowUpGrace = None,
      rcHeartbeatSeconds = 0, rcFollowUpHistory = [], rcSystemPromptOverride = [], rcRuleOfTwo = None,
      rcCodeScanner = None, rcSensitiveData = None, rcGuardRail = Some sampleGuard,
      rcObservability = \<lparr>obServiceName = [], obEnvironment = [], obServiceNamespace = [], obLogsType = [], obLogsEndpoint = []\<rparr>,
      rcToolDispatch = None, rcToolChoiceEscalation = None,
      rcHooks = Some \<lparr>hoPreRun = [\<lparr>hkName = ''h'', hkCommand = ''make'', hkTimeoutSeconds = 0, hkContinueOnError = False,
        hkRunOn = [], hkType = []\<rparr>], hoPostRun = []\<rparr>,
      rcOutputSchema = ''{}'', rcWindDown = None, rcRepositoryGuidance = None\<rparr>"

end
