(* ===== verification/Config_Redact.thy ===== *)
theory Config_Redact
  imports Config_Data
begin

text \<open>
  \<open>RunConfig.Redact\<close>: the copy of a configuration that traces and recordings keep. What a copy shares with the
  original is not visible in a value, so the clones it makes of untouched parts are the parts themselves.
\<close>

definition hiddenRef :: string where "hiddenRef = ''secret://[REDACTED]''"
definition hidden :: string where "hidden = ''[REDACTED]''"

definition redactRef :: "string \<Rightarrow> string" where
  "redactRef ref = (if ref \<noteq> [] then hiddenRef else ref)"

definition redactURLToOrigin :: "cfgEnv \<Rightarrow> string \<Rightarrow> string" where
  "redactURLToOrigin e raw =
     (case ceParseURL e raw of
        None \<Rightarrow> hidden
      | Some u \<Rightarrow> if uScheme u = [] \<or> uHost u = [] then hidden else ceOrigin e (uScheme u) (uHost u))"

text \<open>\<open>strings.EqualFold(key, "api-version")\<close>: besides ASCII case, only the long s, U+017F, folds to a letter of it.\<close>

fun foldLongS :: "string \<Rightarrow> string" where
  "foldLongS (a # b # s) = (if a = CHR 0xC5 \<and> b = CHR 0xBF then CHR ''s'' # foldLongS s else a # foldLongS (b # s))"
| "foldLongS s = s"

definition isRedactSafeProviderQueryParam :: "string \<Rightarrow> bool" where
  "isRedactSafeProviderQueryParam key = (map lowerByte (foldLongS key) = ''api-version'')"

definition redactProviderQueryParams :: "stringMap \<Rightarrow> stringMap" where
  "redactProviderQueryParams params =
     map (\<lambda>(key, value). (key, if isRedactSafeProviderQueryParam key then value else hidden)) params"

definition redactProviderConfig :: "cfgEnv \<Rightarrow> ProviderConfig \<Rightarrow> ProviderConfig" where
  "redactProviderConfig e p =
     p\<lparr>pvAPIKeyRef := redactRef (pvAPIKeyRef p),
       pvBaseURL := (if pvBaseURL p \<noteq> [] then redactURLToOrigin e (pvBaseURL p) else []),
       pvAPIKeyHeader := (if pvAPIKeyHeader p \<noteq> [] then hidden else []),
       pvQueryParams := redactProviderQueryParams (pvQueryParams p)\<rparr>"

fun redactGuardRailConfig :: "GuardRailConfig \<Rightarrow> GuardRailConfig" where
  "redactGuardRailConfig (GuardRailConfig t stages a b key d f h i j k l m) =
     GuardRailConfig t (map redactGuardRailConfig stages) a b (redactRef key) d f h i j k l m"

definition redactSecretValues :: "stringMap \<Rightarrow> stringMap" where
  "redactSecretValues m = map (\<lambda>(k, v). (k, if HasPrefix v ''secret://'' then hiddenRef else v)) m"

definition redactMCPServer :: "cfgEnv \<Rightarrow> MCPServerConfig \<Rightarrow> MCPServerConfig" where
  "redactMCPServer e s =
     s\<lparr>mcURI := (if mcURI s \<noteq> [] then redactURLToOrigin e (mcURI s) else []),
       mcAPIKeyRef := redactRef (mcAPIKeyRef s)\<rparr>"

definition RedactRunConfig :: "cfgEnv \<Rightarrow> RunConfig \<Rightarrow> RunConfig" where
  "RedactRunConfig e rc =
     rc\<lparr>rcProvider := redactProviderConfig e (rcProvider rc),
        rcProviders := map (\<lambda>(name, p). (name, redactProviderConfig e p)) (rcProviders rc),
        rcExecutor := (rcExecutor rc)\<lparr>exVcsBackend :=
            map_option (\<lambda>v. v\<lparr>vbAPIKeyRef := redactRef (vbAPIKeyRef v)\<rparr>) (exVcsBackend (rcExecutor rc))\<rparr>,
        rcTools := (rcTools rc)\<lparr>tlMCPServers := map (redactMCPServer e) (tlMCPServers (rcTools rc))\<rparr>,
        rcTraceEmitter := (rcTraceEmitter rc)\<lparr>teHeaders := redactSecretValues (teHeaders (rcTraceEmitter rc))\<rparr>,
        rcResultSink := map_option (\<lambda>s. s\<lparr>rsAttributes := redactSecretValues (rsAttributes s)\<rparr>) (rcResultSink rc),
        rcGuardRail := map_option redactGuardRailConfig (rcGuardRail rc)\<rparr>"

section \<open>What the copy shows\<close>

definition providerHidden :: "ProviderConfig \<Rightarrow> bool" where
  "providerHidden p =
     (pvAPIKeyRef p \<in> {[], hiddenRef} \<and> pvAPIKeyHeader p \<in> {[], hidden}
      \<and> (\<forall>(k, v) \<in> set (pvQueryParams p). v = hidden \<or> isRedactSafeProviderQueryParam k))"

fun guardHidden :: "GuardRailConfig \<Rightarrow> bool" where
  "guardHidden (GuardRailConfig t stages a b key d f h i j k l m) = (key \<in> {[], hiddenRef} \<and> list_all guardHidden stages)"

lemma redactRef_hidden [simp]: "redactRef r \<in> {[], hiddenRef}"
  by (simp add: redactRef_def)

lemma redactRef_idem [simp]: "redactRef (redactRef r) = redactRef r"
  by (simp add: redactRef_def hiddenRef_def)

lemma redactProviderConfig_hidden: "providerHidden (redactProviderConfig e p)"
  using redactRef_hidden
  by (auto simp: providerHidden_def redactProviderConfig_def redactProviderQueryParams_def simp del: insert_iff)

lemma redactGuardRailConfig_hidden: "guardHidden (redactGuardRailConfig g)"
  using redactRef_hidden
  by (induction g rule: redactGuardRailConfig.induct) (simp add: list_all_iff del: insert_iff)

lemma redactGuardRailConfig_idem [simp]: "redactGuardRailConfig (redactGuardRailConfig g) = redactGuardRailConfig g"
  by (induction g rule: redactGuardRailConfig.induct) simp

lemma redactSecretValues_hidden:
  "(k, v) \<in> set (redactSecretValues m) \<Longrightarrow> HasPrefix v ''secret://'' \<Longrightarrow> v = hiddenRef"
  by (auto simp: redactSecretValues_def split: if_splits)

lemma redactSecretValues_idem [simp]: "redactSecretValues (redactSecretValues m) = redactSecretValues m"
  by (auto simp: redactSecretValues_def hiddenRef_def)



text \<open>
  The endpoint of a guard is kept as it is, although validation lets it carry user information and a query,
  while the same parts of a provider's or an MCP server's URL are cut off.
\<close>

lemma redact_keeps_guard_endpoint: "grEndpoint (redactGuardRailConfig g) = grEndpoint g"
  by (cases g) simp

end
