(* ===== verification/Config_Provider.thy ===== *)
theory Config_Provider
  imports Config_Data
begin

text \<open>
  The checks on providers, credentials and models in \<open>types/runconfig.go\<close>. A check returns the errors it
  appends, in order. An error is the head of its message: its path and what is wrong; the values and
  bounds the message goes on to quote are left out, with the notes on which of them were defaults.
\<close>

section \<open>Closed sets\<close>

definition validateOptionalType :: "string \<Rightarrow> string \<Rightarrow> string list \<Rightarrow> string list" where
  "validateOptionalType name value valid =
     check (value \<noteq> [] \<and> value \<notin> set valid) (''unsupported '' @ name @ '' type'')"

definition validateRequiredType :: "string \<Rightarrow> string \<Rightarrow> string list \<Rightarrow> string list" where
  "validateRequiredType name value valid =
     (if value = [] then [name @ '' type is required''] else validateOptionalType name value valid)"

lemma validateOptionalType_ok: "validateOptionalType n v valid = [] \<longleftrightarrow> v = [] \<or> v \<in> set valid"
  by (auto simp: validateOptionalType_def)

lemma validateRequiredType_ok: "validateRequiredType n v valid = [] \<longleftrightarrow> v \<noteq> [] \<and> v \<in> set valid"
  by (auto simp: validateRequiredType_def validateOptionalType_ok)

section \<open>Credentials\<close>

definition validateTokenSourceConfig :: "TokenSourceConfig \<Rightarrow> string \<Rightarrow> string list" where
  "validateTokenSourceConfig c path =
     validateRequiredType path (tsType c) validTokenSourceTypes @
     (if tsType c = ''gke-metadata'' then check (tsAudience c = []) (path @ '': gke-metadata requires audience'')
      else if tsType c = ''file'' then
        (if tsPath c = [] then [path @ '': file requires path'']
         else check (pathEscapes (tsPath c)) (path @ ''.path must not contain dot-dot segments''))
      else if tsType c = ''env'' then check (tsEnvVar c = []) (path @ '': env requires envVar'')
      else if tsType c = ''azure-imds'' then check (tsResource c = []) (path @ '': azure-imds requires resource'')
      else if tsType c = ''github-actions-oidc'' then
        check (tsAudience c = []) (path @ '': github-actions-oidc requires audience'')
      else [])"

definition requireTokenSource :: "CredentialConfig \<Rightarrow> string \<Rightarrow> string list" where
  "requireTokenSource c path =
     (case crTokenSource c of
        None \<Rightarrow> [path @ '': '' @ crType c @ '' requires tokenSource'']
      | Some ts \<Rightarrow> validateTokenSourceConfig ts (path @ ''.tokenSource''))"

text \<open>A field that must be set and match; \<open>onlyFor\<close> rejects one that belongs to another credential type.\<close>

definition requireMatch :: "string \<Rightarrow> string \<Rightarrow> string \<Rightarrow> string \<Rightarrow> (string \<Rightarrow> bool) \<Rightarrow> string list" where
  "requireMatch path credential field value pattern =
     (if value = [] then [path @ '': '' @ credential @ '' requires '' @ field]
      else check (\<not> pattern value) (path @ ''.'' @ field @ '' is malformed''))"

definition onlyFor :: "string \<Rightarrow> string \<Rightarrow> string \<Rightarrow> string \<Rightarrow> string list" where
  "onlyFor path field value credential =
     check (value \<noteq> []) (path @ ''.'' @ field @ '' is only valid for credential type '' @ credential)"

definition rejectFederationFields :: "CredentialConfig \<Rightarrow> string \<Rightarrow> string list" where
  "rejectFederationFields c path =
     onlyFor path ''roleArn'' (crRoleARN c) ''web-identity'' @
     onlyFor path ''sessionName'' (crSessionName c) ''web-identity'' @
     onlyFor path ''audience'' (crAudience c) ''gcp-workload-identity-federation'' @
     onlyFor path ''serviceAccount'' (crServiceAccount c) ''gcp-workload-identity-federation''"

definition validateHTTPSURL :: "cfgEnv \<Rightarrow> string \<Rightarrow> string \<Rightarrow> string list" where
  "validateHTTPSURL e path value =
     (if value = [] then []
      else case ceParseURL e value of
             None \<Rightarrow> [path @ '' is not a valid URL'']
           | Some u \<Rightarrow> check (uScheme u \<noteq> ''https'' \<or> uHost u = []) (path @ '' must be an https:// URL with a host''))"

definition validateCredentialConfig :: "cfgEnv \<Rightarrow> CredentialConfig option \<Rightarrow> string \<Rightarrow> string list" where
  "validateCredentialConfig e cfg path =
     (case cfg of
        None \<Rightarrow> []
      | Some c \<Rightarrow>
          validateRequiredType path (crType c) validCredentialTypes @
          (if crType c = ''web-identity'' then
             check (crRoleARN c = []) (path @ '': web-identity requires roleArn'') @ requireTokenSource c path
           else if crType c = ''gcp-workload-identity-federation'' then
             requireMatch path (crType c) ''audience'' (crAudience c) gcpWIFAudiencePattern @
             requireTokenSource c path @
             check (crServiceAccount c \<noteq> [] \<and> \<not> gcpServiceAccountPattern (crServiceAccount c))
               (path @ ''.serviceAccount is not a valid service account email'')
           else if crType c = ''anthropic-wif'' then
             requireMatch path (crType c) ''federationRuleId'' (crFederationRuleID c) anthropicFederationRuleIDPattern @
             requireMatch path (crType c) ''organizationId'' (crOrganizationID c) lowerUUID @
             requireMatch path (crType c) ''serviceAccountId'' (crServiceAccountID c) anthropicServiceAccountIDPattern @
             check (crWorkspaceID c \<noteq> [] \<and> crWorkspaceID c \<noteq> ''default'' \<and> \<not> anthropicWorkspaceIDPattern (crWorkspaceID c))
               (path @ ''.workspaceId is malformed'') @
             requireTokenSource c path @ rejectFederationFields c path
           else if crType c = ''azure-workload-identity'' then
             requireMatch path (crType c) ''azureTenantId'' (crAzureTenantID c) lowerUUID @
             requireMatch path (crType c) ''azureClientId'' (crAzureClientID c) lowerUUID @
             requireTokenSource c path @
             validateHTTPSURL e (path @ ''.azureScope'') (crAzureScope c) @
             validateHTTPSURL e (path @ ''.azureTokenUrl'') (crAzureTokenURL c) @
             rejectFederationFields c path
           else if crType c = ''openai-wif'' then
             requireMatch path (crType c) ''openaiIdentityProviderId'' (crOpenAIIdentityProviderID c) openAIWIFIdentifierPattern @
             requireMatch path (crType c) ''openaiServiceAccountId'' (crOpenAIServiceAccountID c) openAIWIFIdentifierPattern @
             check (crOpenAISubjectTokenType c \<noteq> []
                    \<and> \<not> HasPrefix (crOpenAISubjectTokenType c) ''urn:ietf:params:oauth:token-type:'')
               (path @ ''.openaiSubjectTokenType must be an RFC 8693 token-type URN'') @
             requireTokenSource c path @ rejectFederationFields c path
           else []) @
          (if crType c \<noteq> ''anthropic-wif'' then
             onlyFor path ''federationRuleId'' (crFederationRuleID c) ''anthropic-wif'' @
             onlyFor path ''organizationId'' (crOrganizationID c) ''anthropic-wif'' @
             onlyFor path ''serviceAccountId'' (crServiceAccountID c) ''anthropic-wif'' @
             onlyFor path ''workspaceId'' (crWorkspaceID c) ''anthropic-wif''
           else []) @
          (if crType c \<noteq> ''azure-workload-identity'' then
             onlyFor path ''azureTenantId'' (crAzureTenantID c) ''azure-workload-identity'' @
             onlyFor path ''azureClientId'' (crAzureClientID c) ''azure-workload-identity'' @
             onlyFor path ''azureScope'' (crAzureScope c) ''azure-workload-identity'' @
             onlyFor path ''azureTokenUrl'' (crAzureTokenURL c) ''azure-workload-identity''
           else []) @
          (if crType c \<noteq> ''openai-wif'' then
             onlyFor path ''openaiIdentityProviderId'' (crOpenAIIdentityProviderID c) ''openai-wif'' @
             onlyFor path ''openaiServiceAccountId'' (crOpenAIServiceAccountID c) ''openai-wif'' @
             onlyFor path ''openaiSubjectTokenType'' (crOpenAISubjectTokenType c) ''openai-wif''
           else []))"

section \<open>Fields of one provider\<close>

definition validateOpenAIAuthFields :: "string \<Rightarrow> ProviderConfig \<Rightarrow> string list" where
  "validateOpenAIAuthFields path p =
     (if pvAPIKeyHeader p = [] then []
      else if ContainsAny (pvAPIKeyHeader p) [CHR 0x0D, CHR 0x0A, CHR 0x09, CHR '' ''] \<or> CHR '':'' \<in> set (pvAPIKeyHeader p)
      then [path @ ''.apiKeyHeader must not contain whitespace, colon or CR/LF'']
      else check (\<not> apiKeyHeaderPattern (pvAPIKeyHeader p)) (path @ ''.apiKeyHeader is malformed'')) @
     (if pvQueryParams p = [] then []
      else concat (map (\<lambda>(k, v).
               if k = [] then [path @ ''.queryParams contains an empty key'']
               else check (\<not> queryParamKeyPattern k) (path @ ''.queryParams key is malformed'') @
                    check (ContainsAny v [CHR 0x0D, CHR 0x0A]) (path @ ''.queryParams value must not contain CR/LF''))
             (pvQueryParams p)) @
           check (2048 < queryEncodeLen (filter (\<lambda>(k, v). k \<noteq> []) (pvQueryParams p)))
             (path @ ''.queryParams encoded form exceeds the byte cap''))"

definition credentialType :: "ProviderConfig \<Rightarrow> string" where
  "credentialType p = (case pvCredential p of None \<Rightarrow> [] | Some c \<Rightarrow> crType c)"

text \<open>\<open>only path field set t\<close> is the error for a field that belongs to provider type \<open>t\<close>.\<close>

definition onlyProvider :: "string \<Rightarrow> string \<Rightarrow> bool \<Rightarrow> string \<Rightarrow> string list" where
  "onlyProvider path field given t =
     check given (path @ ''.'' @ field @ '' is only valid for provider type '' @ t)"

definition validateGeminiProviderFields :: "string \<Rightarrow> ProviderConfig \<Rightarrow> string list" where
  "validateGeminiProviderFields path p =
     (if pvType p \<noteq> ''gemini'' then
        onlyProvider path ''gcpProject'' (pvGCPProject p \<noteq> []) ''gemini'' @
        onlyProvider path ''gcpLocation'' (pvGCPLocation p \<noteq> []) ''gemini'' @
        onlyProvider path ''gcpCredentialsFile'' (pvGCPCredentialsFile p \<noteq> []) ''gemini'' @
        onlyProvider path ''geminiSafetySettings'' (pvGeminiSafetySettings p \<noteq> []) ''gemini''
      else
        (if pvGCPProject p = [] then [path @ ''.gcpProject is required'']
         else check (\<not> gcpProjectIDPattern (pvGCPProject p)) (path @ ''.gcpProject is malformed'')) @
        (if pvGCPLocation p = [] then [path @ ''.gcpLocation is required'']
         else check (\<not> gcpLocationPattern (pvGCPLocation p)) (path @ ''.gcpLocation is malformed'')) @
        check (pvAPIKeyRef p \<noteq> []) (path @ ''.apiKeyRef must not be set for provider type gemini'') @
        check (credentialType p = ''gcp-service-account'' \<and> pvGCPCredentialsFile p = [])
          (path @ ''.gcpCredentialsFile is required'') @
        check (pvGCPCredentialsFile p \<noteq> [] \<and> credentialType p \<noteq> [] \<and> credentialType p \<noteq> ''gcp-service-account'')
          (path @ ''.gcpCredentialsFile is only valid when credential.type is gcp-service-account'') @
        check (pvGCPCredentialsFile p \<noteq> [] \<and> pathEscapes (pvGCPCredentialsFile p))
          (path @ ''.gcpCredentialsFile must not contain dot-dot path segments'') @
        eachAt (\<lambda>i s. let entry = subAt (path @ ''.geminiSafetySettings'') i in
            (if gsCategory s = [] then [entry @ ''.category is required'']
             else check (gsCategory s \<notin> set validGeminiSafetyCategories) (entry @ ''.category is not valid'')) @
            (if gsThreshold s = [] then [entry @ ''.threshold is required'']
             else check (gsThreshold s \<notin> set validGeminiSafetyThresholds) (entry @ ''.threshold is not valid'')))
          (pvGeminiSafetySettings p))"

definition validateReplayProviderFields :: "string \<Rightarrow> ProviderConfig \<Rightarrow> string list" where
  "validateReplayProviderFields path p =
     (let unset = (\<lambda>field given. check given (path @ ''.'' @ field @ '' must not be set for provider type replay'')) in
      if pvType p \<noteq> ''replay'' then onlyProvider path ''replayFile'' (pvReplayFile p \<noteq> []) ''replay''
      else
        (if pvReplayFile p = [] then [path @ ''.replayFile is required'']
         else if pvReplayFile p = ''-'' then [path @ ''.replayFile must be a file path'']
         else check (pathEscapes (pvReplayFile p)) (path @ ''.replayFile must not contain dot-dot path segments'')) @
        unset ''apiKeyRef'' (pvAPIKeyRef p \<noteq> []) @
        unset ''credential'' (pvCredential p \<noteq> None) @
        unset ''baseUrl'' (pvBaseURL p \<noteq> []) @
        unset ''apiKeyHeader'' (pvAPIKeyHeader p \<noteq> []) @
        unset ''queryParams'' (pvQueryParams p \<noteq> []) @
        unset ''region'' (pvRegion p \<noteq> []) @
        unset ''profile'' (pvProfile p \<noteq> []) @
        unset ''compatProfile'' (pvCompatProfile p \<noteq> []))"

definition validateAnthropicProviderFields :: "string \<Rightarrow> ProviderConfig \<Rightarrow> string list" where
  "validateAnthropicProviderFields path p =
     (case pvCredential p of
        None \<Rightarrow> []
      | Some c \<Rightarrow>
          check (HasPrefix (crType c) ''gcp-'' \<and> pvType p \<noteq> ''gemini'')
            (path @ ''.credential.type is only valid when provider.type is gemini'') @
          (if crType c = ''anthropic-wif'' \<and> pvType p \<noteq> ''anthropic''
           then [path @ ''.credential.type is only valid when provider.type is anthropic'']
           else if pvType p \<noteq> ''anthropic'' \<or> crType c \<noteq> ''anthropic-wif'' then []
           else check (pvAPIKeyRef p \<noteq> []) (path @ ''.apiKeyRef must not be set'')))"

text \<open>The two federated credentials of OpenAI-style endpoints are checked alike.\<close>

definition validateOpenAIFederation :: "string \<Rightarrow> string \<Rightarrow> ProviderConfig \<Rightarrow> string list" where
  "validateOpenAIFederation credential path p =
     (if pvCredential p = None \<or> credentialType p \<noteq> credential then []
      else check (pvType p \<noteq> ''openai-compatible'' \<and> pvType p \<noteq> ''openai-responses'')
             (path @ '': '' @ credential @ '' is only supported with openai provider types'') @
           check (pvAPIKeyRef p \<noteq> []) (path @ '': '' @ credential @ '' does not use apiKeyRef'') @
           check (pvAPIKeyHeader p = ''api-key'') (path @ '': '' @ credential @ '' requires Authorization: Bearer''))"

definition validateAzureWIFCrossField :: "string \<Rightarrow> ProviderConfig \<Rightarrow> string list" where
  "validateAzureWIFCrossField = validateOpenAIFederation ''azure-workload-identity''"

definition validateOpenAIWIFCrossField :: "string \<Rightarrow> ProviderConfig \<Rightarrow> string list" where
  "validateOpenAIWIFCrossField = validateOpenAIFederation ''openai-wif''"

definition validateProviderRetryConfig :: "string \<Rightarrow> ProviderRetryConfig option \<Rightarrow> string list" where
  "validateProviderRetryConfig path cfg =
     (case cfg of
        None \<Rightarrow> []
      | Some r \<Rightarrow>
          check (MaxAttempts r < 1 \<or> MaxAttempts r > maxProviderRetryMaxAttempts) (path @ ''.maxAttempts out of range'') @
          check (MaxDelayMs r \<le> 0 \<or> MaxDelayMs r > maxProviderRetryMaxDelayMs) (path @ ''.maxDelayMs out of range'') @
          check (InitialDelayMs r < 0) (path @ ''.initialDelayMs must be >= 0'') @
          check (MaxDelayMs r > 0 \<and> InitialDelayMs r > MaxDelayMs r) (path @ ''.initialDelayMs must be <= maxDelayMs'') @
          check (WallClockBudgetMs r \<le> 0 \<or> WallClockBudgetMs r > maxProviderRetryWallClockBudgetMs)
            (path @ ''.wallClockBudgetMs out of range'') @
          check (MaxDelayMs r > 0 \<and> WallClockBudgetMs r > 0 \<and> WallClockBudgetMs r < MaxDelayMs r)
            (path @ ''.wallClockBudgetMs must be >= maxDelayMs''))"

definition validateCompatProfile :: "string \<Rightarrow> string \<Rightarrow> string list" where
  "validateCompatProfile path value = check (value \<notin> set validCompatProfiles) (path @ '' is not a recognised compat profile'')"

definition validateEndpointProfile :: "string \<Rightarrow> ProviderConfig \<Rightarrow> string list" where
  "validateEndpointProfile path p =
     (let value = pvEndpointProfile p in
      if value = [] then []
      else if value \<notin> set validEndpointProfiles then [path @ '' is not a recognised endpoint profile'']
      else if \<not> IsOpenAIWireProviderType (pvType p) then [path @ '' is only supported for openai providers'']
      else check (value \<in> set endpointProfilesRequiringBaseURL \<and> TrimSpace (pvBaseURL p) = []) (path @ '' requires baseUrl''))"

section \<open>Models\<close>

definition providerIs :: "string \<Rightarrow> RunConfig \<Rightarrow> string \<Rightarrow> bool" where
  "providerIs t c name =
     (if name = [] then pvType (rcProvider c) = t
      else if name = t then True
      else case map_of (rcProviders c) name of Some p \<Rightarrow> pvType p = t | None \<Rightarrow> False)"

text \<open>
  The models a run may route to: the router's own with its provider, and for each mode the provider and
  model its entry names. An entry with no slash names a model of the router's provider.
\<close>

definition modeModel :: "RunConfig \<Rightarrow> string \<times> string \<Rightarrow> string \<times> string \<times> string" where
  "modeModel c = (\<lambda>(mode, spec).
     case Cut spec (CHR ''/'') of
       None \<Rightarrow> (subAt ''modelRouter.modeModels'' mode, moProvider (rcModelRouter c), spec)
     | Some (provider, model) \<Rightarrow> (subAt ''modelRouter.modeModels'' mode, provider, model))"

definition routedModels :: "RunConfig \<Rightarrow> (string \<times> string \<times> string) list" where
  "routedModels c =
     (''modelRouter.model'', moProvider (rcModelRouter c), moModel (rcModelRouter c))
     # map (modeModel c) (moModeModels (rcModelRouter c))"

definition checkGeminiModel :: "string \<Rightarrow> string \<Rightarrow> string list" where
  "checkGeminiModel label model =
     (if model = [] then []
      else if \<not> geminiModelNamePattern model then [label @ '' is malformed for provider type gemini'']
      else check (HasPrefix model ''claude-'') (label @ '' is an Anthropic model name''))"

definition validateGeminiModelName :: "RunConfig \<Rightarrow> string list" where
  "validateGeminiModelName c =
     concat (map (\<lambda>(label, provider, model).
         if providerIs ''gemini'' c provider then checkGeminiModel label model else []) (routedModels c))"

definition checkBedrockModel :: "string \<Rightarrow> string \<Rightarrow> string list" where
  "checkBedrockModel label model =
     check (model \<noteq> [] \<and> \<not> (TrimSpace model \<noteq> [] \<and> (Contains model ''.'' \<or> HasPrefix model ''arn:'')))
       (label @ '' is invalid for provider type bedrock'')"

definition validateBedrockModelID :: "RunConfig \<Rightarrow> string list" where
  "validateBedrockModelID c =
     concat (map (\<lambda>(label, provider, model).
         if providerIs ''bedrock'' c provider then checkBedrockModel label model else []) (routedModels c))"

definition resolveProviderType :: "RunConfig \<Rightarrow> string \<Rightarrow> string" where
  "resolveProviderType c name =
     (if name = [] then pvType (rcProvider c)
      else if name \<in> set validProviderTypes then name
      else case map_of (rcProviders c) name of Some p \<Rightarrow> pvType p | None \<Rightarrow> [])"

definition checkModelLabel :: "cfgEnv \<Rightarrow> string \<Rightarrow> string \<Rightarrow> string \<Rightarrow> string list" where
  "checkModelLabel e label providerType model =
     (if model = [] then []
      else if providerType = ''bedrock'' then
        (if len model > 256 then [label @ '' is too long'']
         else check (\<not> allPrintable e model) (label @ '' contains a non-printable character''))
      else check (\<not> modelLabelPattern model) (label @ '' is not a bounded metric label''))"

definition validateProviderModelLabel :: "cfgEnv \<Rightarrow> RunConfig \<Rightarrow> string list" where
  "validateProviderModelLabel e c =
     concat (map (\<lambda>(label, provider, model). checkModelLabel e label (resolveProviderType c provider) model)
       (routedModels c))"

section \<open>All providers of a run\<close>

definition validateOneProvider :: "string \<Rightarrow> ProviderConfig \<Rightarrow> string list" where
  "validateOneProvider path p =
     validateAnthropicProviderFields path p @ validateAzureWIFCrossField path p @ validateOpenAIWIFCrossField path p @
     validateProviderRetryConfig (path @ ''.retry'') (pvRetry p) @
     validateCompatProfile (path @ ''.compatProfile'') (pvCompatProfile p) @
     validateEndpointProfile (path @ ''.endpointProfile'') p"

definition validateNamedProvider :: "RunConfig \<Rightarrow> string \<Rightarrow> ProviderConfig \<Rightarrow> string list" where
  "validateNamedProvider c name p =
     (let path = subAt ''providers'' name in
      validateRequiredType path (pvType p) validProviderTypes @
      validateOpenAIAuthFields path p @ validateGeminiProviderFields path p @ validateReplayProviderFields path p @
      check (pvType p = ''replay'' \<and> pvType (rcProvider c) \<noteq> ''replay'') (path @ ''.type replay requires provider.type replay'') @
      validateOneProvider path p @
      check (pvBatch p \<noteq> None) (path @ ''.batch is not supported''))"

text \<open>The loop over \<open>Providers\<close>: its errors, and the names known after it.\<close>

fun namedProviders :: "RunConfig \<Rightarrow> (string \<times> ProviderConfig) list \<Rightarrow> string list \<Rightarrow> string list \<times> string list" where
  "namedProviders c [] known = ([], known)"
| "namedProviders c ((name, p) # rest) known =
     (if name = [] then
        (let (errs, known') = namedProviders c rest known in (''providers map contains an empty provider name'' # errs, known'))
      else if name \<in> set known then
        (let (errs, known') = namedProviders c rest known in (''provider name is defined more than once'' # errs, known'))
      else
        (let (errs, known') = namedProviders c rest (name # known) in (validateNamedProvider c name p @ errs, known')))"

definition checkProviderRef :: "string list \<Rightarrow> string \<Rightarrow> string \<Rightarrow> string list" where
  "checkProviderRef known path name = check (name \<noteq> [] \<and> name \<notin> set known) (path @ '' references unknown provider'')"

definition validateProviderConfigs :: "cfgEnv \<Rightarrow> RunConfig \<Rightarrow> string list" where
  "validateProviderConfigs e c =
     (let p = rcProvider c; router = rcModelRouter c;
          (errs, known) = namedProviders c (rcProviders c) (if pvType p = [] then [] else [pvType p])
      in validateOpenAIAuthFields ''provider'' p @ validateGeminiProviderFields ''provider'' p @
         validateReplayProviderFields ''provider'' p @ validateOneProvider ''provider'' p @
         errs @
         validateGeminiModelName c @ validateBedrockModelID c @ validateProviderModelLabel e c @
         checkProviderRef known ''modelRouter.provider'' (moProvider router) @
         checkProviderRef known ''modelRouter.cheapProvider'' (moCheapProvider router) @
         checkProviderRef known ''modelRouter.expensiveProvider'' (moExpensiveProvider router) @
         concat (map (\<lambda>(mode, spec).
             case Cut spec (CHR ''/'') of
               None \<Rightarrow> []
             | Some (name, _) \<Rightarrow> checkProviderRef known (subAt ''modelRouter.modeModels'' mode) name)
           (moModeModels router)))"

definition validateAPIKeyRef :: "string \<Rightarrow> string \<Rightarrow> string list" where
  "validateAPIKeyRef path ref =
     check (ref \<noteq> [] \<and> \<not> HasPrefix ref ''secret://'') (path @ '' must be a secret reference'')"

text \<open>Batch mode; the check also fills in the longest wait when the run's timeout bounds it.\<close>

definition batchTimeoutBound :: "RunConfig \<Rightarrow> int" where
  "batchTimeoutBound c =
     (case rcTimeout c of
        None \<Rightarrow> 0
      | Some t \<Rightarrow> if t > 0 \<and> t \<le> MaxRunTimeoutSeconds then t else 0)"

definition batchWait :: "RunConfig \<Rightarrow> BatchProviderConfig \<Rightarrow> BatchProviderConfig" where
  "batchWait c b =
     (if baEnabled b \<and> batchTimeoutBound c > 0 \<and> baMaxWaitSeconds b = None
      then b\<lparr>baMaxWaitSeconds := Some (batchTimeoutBound c)\<rparr> else b)"

definition validateBatchConfig :: "RunConfig \<Rightarrow> RunConfig \<times> string list" where
  "validateBatchConfig c =
     (case pvBatch (rcProvider c) of
        None \<Rightarrow> (c, [])
      | Some b \<Rightarrow>
          let bound = batchTimeoutBound c;
              b' = batchWait c b;
              always =
                check (baHarnessSidePolling b \<and> rcTransport c = ''grpc'')
                  ''batch.harnessSidePolling must not be set with transport=grpc'' @
                check (baCancelBundleOnRunCancel b \<and> rcTransport c = ''stdio'')
                  ''batch.cancelBundleOnRunCancel requires transport=grpc'' @
                check (bound > 0 \<and> (case baMaxWaitSeconds b of None \<Rightarrow> False | Some w \<Rightarrow> w \<le> 0 \<or> w > bound))
                  ''batch.maxWaitSeconds out of range''
          in if \<not> baEnabled b then (c, always)
             else
               (c\<lparr>rcProvider := (rcProvider c)\<lparr>pvBatch := Some b'\<rparr>\<rparr>,
                always @
                check (pvType (rcProvider c) \<in> set validProviderTypes \<and> pvType (rcProvider c) \<notin> set validBatchProviderTypes)
                  ''batch is not supported for provider type'' @
                (if rcMode c = ''execution'' then [''batch cannot be used with mode=execution'']
                 else check ((rcMode c = ''planning'' \<or> rcMode c = ''review'') \<and> \<not> baAllowInteractiveModes b)
                        ''batch requires allowInteractiveModes=true'') @
                check (rcTransport c = ''stdio'' \<and> \<not> baHarnessSidePolling b)
                  ''batch with transport=stdio requires harnessSidePolling=true'' @
                check (baHarnessSidePolling b \<and> credentialType (rcProvider c) = ''anthropic-wif'')
                  ''batch.harnessSidePolling does not support anthropic-wif credentials'' @
                check (baFallbackOnTimeout b \<and> bound > 0 \<and> baMaxWaitSeconds b' = Some bound)
                  ''batch.fallbackOnTimeout requires batch.maxWaitSeconds strictly below the run timeout''))"

end
