(* ===== verification/Config_Tools.thy ===== *)
theory Config_Tools
  imports Config_Provider Ssrf
begin

text \<open>
  The checks on where a run executes and what it may use: executor, sandbox identity, tools, edit strategy,
  hooks, guidance, verifier and guards, in \<open>types/runconfig.go\<close>, \<open>protectedwritetargets.go\<close> and
  \<open>repositoryguidance.go\<close>. Warnings that are only logged are left out.
\<close>

section \<open>Executor\<close>

definition validateExecutorRuntime :: "ExecutorConfig \<Rightarrow> string list" where
  "validateExecutorRuntime x =
     (if exRuntime x = [] then []
      else if exType x = ''container'' then
        check (exRuntime x \<notin> set validContainerRuntimes) ''unsupported executor.runtime for container''
      else if exType x = ''k8s'' then check (exRuntime x \<notin> set validK8sRuntimes) ''unsupported executor.runtime for k8s''
      else if exType x = ''k8s-sandbox'' then
        check (exRuntime x \<noteq> ''gvisor'') ''executor.runtime must be gvisor or empty''
      else [''executor.runtime is only valid for container, k8s or k8s-sandbox''])"

definition isK8sFamily :: "string \<Rightarrow> bool" where
  "isK8sFamily t = (t = ''k8s'' \<or> t = ''k8s-sandbox'')"

definition validateK8sEgressProxy :: "ExecutorConfig \<Rightarrow> NetworkConfig \<Rightarrow> string list" where
  "validateK8sEgressProxy x n =
     (if nwMode n = ''allowlist'' then check (exK8sEgressProxyURL x = []) ''executor.k8sEgressProxyUrl is required''
      else check (exK8sEgressProxyURL x \<noteq> []) ''executor.k8sEgressProxyUrl is only valid in allowlist mode'')"

definition validateK8sExecutor :: "ExecutorConfig \<Rightarrow> string list" where
  "validateK8sExecutor x =
     (if \<not> isK8sFamily (exType x) then []
      else check (exImage x = []) ''executor.image is required'' @
           check (exK8sNamespace x = []) ''executor.k8sNamespace is required'' @
           check (exWorkspace x \<noteq> []) ''executor.workspace is not valid'' @
           (case exNetwork x of
              None \<Rightarrow> [''executor.network is required'']
            | Some n \<Rightarrow> validateK8sEgressProxy x n))"

definition validateNoneExecutor :: "ExecutorConfig \<Rightarrow> string list" where
  "validateNoneExecutor x =
     (let reject = (\<lambda>field given. check given (''executor.'' @ field @ '' is not valid for the none executor'')) in
      if exType x \<noteq> ''none'' then []
      else reject ''workspace'' (exWorkspace x \<noteq> []) @
           reject ''image'' (exImage x \<noteq> []) @
           reject ''vcsBackend'' (exVcsBackend x \<noteq> None) @
           reject ''network'' (exNetwork x \<noteq> None) @
           reject ''resources'' (exResources x \<noteq> None) @
           reject ''k8sNamespace'' (exK8sNamespace x \<noteq> []) @
           reject ''k8sKubeconfig'' (exK8sKubeconfig x \<noteq> []) @
           reject ''k8sNodeSelector'' (exK8sNodeSelector x \<noteq> []) @
           reject ''k8sServiceAccount'' (exK8sServiceAccount x \<noteq> []) @
           reject ''k8sEgressProxyUrl'' (exK8sEgressProxyURL x \<noteq> []))"

definition validateVcsBackend :: "VcsBackendConfig option \<Rightarrow> string list" where
  "validateVcsBackend cfg =
     (case cfg of None \<Rightarrow> [] | Some v \<Rightarrow> validateRequiredType ''executor.vcsBackend'' (vbType v) validVcsBackendTypes)"

definition validateResourceLimits :: "ResourceLimits option \<Rightarrow> string list" where
  "validateResourceLimits cfg =
     (case cfg of
        None \<Rightarrow> []
      | Some r \<Rightarrow>
          check (fltLess (rlCPUs r) 0) ''executor.resources.cpus must not be negative'' @
          check (rlMemoryMB r < 0) ''executor.resources.memoryMb must not be negative'' @
          check (rlDiskMB r < 0) ''executor.resources.diskMb must not be negative'' @
          check (rlPIDs r < 0) ''executor.resources.pids must not be negative'')"

definition validateExecutorWorkspaceExportTo :: "ExecutorConfig \<Rightarrow> string list" where
  "validateExecutorWorkspaceExportTo x =
     (if exWorkspaceExportTo x = [] then
        check (exWorkspaceExportRequired x \<noteq> None) ''executor.workspaceExportRequired requires executor.workspaceExportTo''
      else if exType x = [] then [''executor.workspaceExportTo requires an explicit executor.type'']
      else if \<not> ExecutorCanArchiveWorkspace (exType x) then [''executor.workspaceExportTo is not valid'']
      else if \<not> HasPrefix (exWorkspaceExportTo x) ''gs://'' then [''executor.workspaceExportTo must use the gs:// scheme'']
      else let rest = TrimPrefix (exWorkspaceExportTo x) ''gs://'' in
           check (rest = [] \<or> HasPrefix rest ''/'') ''executor.workspaceExportTo must contain a non-empty bucket path'')"

definition validateExecutorRegistryAllowlist :: "cfgEnv \<Rightarrow> ExecutorConfig \<Rightarrow> string list" where
  "validateExecutorRegistryAllowlist e x =
     (if exRegistryAllowlist x = [] then []
      else check (exType x \<noteq> ''container'' \<and> exType x \<noteq> []) ''executor.registryAllowlist is only valid for container'' @
           concat (map (\<lambda>pattern.
               if pattern = [] then [''executor.registryAllowlist entries must be non-empty'']
               else check (ceGlobBad e pattern) ''executor.registryAllowlist pattern is not a valid glob'')
             (exRegistryAllowlist x)))"

definition validateGuardRailEndpoint :: "cfgEnv \<Rightarrow> string \<Rightarrow> string \<Rightarrow> string list" where
  "validateGuardRailEndpoint e endpoint path =
     (case ceParseURL e endpoint of
        None \<Rightarrow> [path @ '' must be a valid URL'']
      | Some u \<Rightarrow>
          check (uScheme u \<noteq> ''http'' \<and> uScheme u \<noteq> ''https'') (path @ '' must use scheme http or https'') @
          check (uHost u = []) (path @ '' must include a host''))"

definition validateSandboxIdentity :: "cfgEnv \<Rightarrow> RunConfig \<Rightarrow> string list" where
  "validateSandboxIdentity e c =
     (let si = exSandboxIdentity (rcExecutor c); gp = exGitProxy (rcExecutor c) in
      if si = None \<and> gp = None then []
      else check (rcTransport c \<noteq> ''grpc'') ''executor.sandboxIdentity requires transport=grpc'' @
           check (exType (rcExecutor c) \<notin> set sandboxIdentityCapableExecutors)
             ''executor.sandboxIdentity is only valid for container, k8s or k8s-sandbox'' @
           (case si of
              None \<Rightarrow> []
            | Some s \<Rightarrow>
                check (siSource s \<notin> set validSandboxIdentitySources) ''unsupported executor.sandboxIdentity.source'' @
                check (siEnvVar s \<noteq> [] \<and> \<not> posixEnvVarNamePattern (siEnvVar s))
                  ''executor.sandboxIdentity.envVar must be a valid POSIX environment variable name'') @
           (case gp of
              None \<Rightarrow> []
            | Some g \<Rightarrow>
                (if gpURL g = [] then [''executor.gitProxy.url is required'']
                 else validateGuardRailEndpoint e (gpURL g) ''executor.gitProxy.url'') @
                check (gpHosts g = []) ''executor.gitProxy.hosts must contain at least one host'' @
                check (gpTokenEnvVar g \<noteq> [] \<and> \<not> posixEnvVarNamePattern (gpTokenEnvVar g))
                  ''executor.gitProxy.tokenEnvVar must be a valid POSIX environment variable name'' @
                (case si of
                   None \<Rightarrow> [''executor.gitProxy requires executor.sandboxIdentity'']
                 | Some s \<Rightarrow>
                     check (EffectiveEnvVar s \<noteq> EffectiveTokenEnvVar g)
                       ''executor.gitProxy.tokenEnvVar must match executor.sandboxIdentity.envVar'')))"

definition validateGitStrategyExecutorCompat :: "string \<Rightarrow> string \<Rightarrow> string list" where
  "validateGitStrategyExecutorCompat gitStrategyType executorType =
     check (gitStrategyType = ''deterministic'' \<and> \<not> ExecutorCanExec executorType)
       ''gitStrategy.type=deterministic is not valid with executor.type''"

section \<open>Tools\<close>

definition validateBuiltInTools :: "string list \<Rightarrow> string list" where
  "validateBuiltInTools builtIns =
     concat (map (\<lambda>name. check (name \<notin> set validBuiltInToolNames) ''tools.builtIn contains unsupported tool'') builtIns)"

definition validateNoneExecutorTools :: "string \<Rightarrow> string list \<Rightarrow> string list" where
  "validateNoneExecutorTools executorType builtIns =
     (if executorType \<noteq> ''none'' then []
      else concat (map (\<lambda>name. check (needsExecutor name) ''tools.builtIn entry requires an execution capability'') builtIns))"

definition isLocalMCPHost :: "cfgEnv \<Rightarrow> string \<Rightarrow> bool" where
  "isLocalMCPHost e host0 =
     (let host = TrimSpace (ToLower (ceLower e) host0) in
      if host = ''localhost'' \<or> HasSuffix host ''.localhost'' then True
      else case ParseIP host of Some ip \<Rightarrow> IsLoopback ip | None \<Rightarrow> False)"

definition validateMCPURI :: "cfgEnv \<Rightarrow> string \<Rightarrow> string \<Rightarrow> string list" where
  "validateMCPURI e path uri =
     (if uri = [] then [path @ ''.uri is required'']
      else case ceParseURL e uri of
             None \<Rightarrow> [path @ ''.uri is not a valid URL'']
           | Some u \<Rightarrow>
               if uScheme u \<noteq> ''http'' \<and> uScheme u \<noteq> ''https'' then [path @ ''.uri scheme is not allowed'']
               else if uHostname u = [] then [path @ ''.uri must include a host'']
               else check (uScheme u = ''http'' \<and> \<not> isLocalMCPHost e (uHostname u))
                      (path @ ''.uri must use https for a remote host''))"

definition validateMCPServers :: "cfgEnv \<Rightarrow> MCPServerConfig list \<Rightarrow> string list" where
  "validateMCPServers e configured =
     eachAt (\<lambda>i s. let path = subAt ''tools.mcpServers'' i in
         check (mcName s = []) (path @ ''.name is required'') @
         validateMCPURI e path (mcURI s) @
         eachAt (\<lambda>j host. let trimmed = TrimSpace host in
             if trimmed = [] then [subAt (path @ ''.allowedMcpHosts'') j @ '' must not be empty'']
             else if ParseIP trimmed \<noteq> None then []
             else check (host \<noteq> trimmed \<or> ContainsAny host ''/:'')
                    (subAt (path @ ''.allowedMcpHosts'') j @ '' must be a bare hostname or IP literal''))
           (mcAllowedMCPHosts s) @
         eachAt (\<lambda>j name. check (TrimSpace name = []) (subAt (path @ ''.allowedTools'') j @ '' must not be empty''))
           (mcAllowedTools s))
       configured"

definition validateControlPlaneInputSchema :: "cfgEnv \<Rightarrow> string \<Rightarrow> string \<Rightarrow> string list" where
  "validateControlPlaneInputSchema e schema path =
     (if schema = [] then [path @ '' is required'']
      else case ceParseJSON e schema of
             Some (JObject doc) \<Rightarrow>
               check (map_of doc ''type'' \<noteq> Some (JString ''object'')) (path @ '' must declare type object'')
           | _ \<Rightarrow> [path @ '' must be a JSON Schema object''])"

text \<open>
  One control-plane tool; \<open>seen\<close> holds the names accepted before it. A name is recorded only when nothing
  else is wrong with it.
\<close>

definition controlPlaneNameProblem :: "string list \<Rightarrow> string \<Rightarrow> string option" where
  "controlPlaneNameProblem seen name =
     (if name = [] then Some ''.name is required''
      else if \<not> controlPlaneToolNamePattern name then Some ''.name is malformed''
      else if name \<in> set validBuiltInToolNames then Some ''.name collides with a built-in tool''
      else if name = ''tool_search'' then Some ''.name is reserved for the harness tool search''
      else if name \<in> set nativeToolSearchNames then Some ''.name is reserved for native tool search''
      else if HasPrefix name ''mcp_'' then Some ''.name must not use the mcp_ prefix''
      else if name \<in> set seen then Some ''.name duplicates another tool''
      else None)"

fun controlPlaneTools :: "cfgEnv \<Rightarrow> nat \<Rightarrow> ControlPlaneToolConfig list \<Rightarrow> string list \<Rightarrow> string list" where
  "controlPlaneTools e i [] seen = []"
| "controlPlaneTools e i (t # ts) seen =
     (let path = subAt ''tools.controlPlane'' (natDigits i) in
      (case controlPlaneNameProblem seen (cpName t) of None \<Rightarrow> [] | Some p \<Rightarrow> [path @ p]) @
      check (TrimSpace (cpDescription t) = []) (path @ ''.description is required'') @
      validateControlPlaneInputSchema e (cpInputSchema t) (path @ ''.inputSchema'') @
      check (cpTimeoutSeconds t < 0 \<or> cpTimeoutSeconds t > 3600) (path @ ''.timeoutSeconds out of range'') @
      controlPlaneTools e (Suc i) ts
        (if controlPlaneNameProblem seen (cpName t) = None then cpName t # seen else seen))"

definition validateControlPlaneTools :: "cfgEnv \<Rightarrow> RunConfig \<Rightarrow> string list" where
  "validateControlPlaneTools e c =
     (let tools = tlControlPlane (rcTools c) in
      if tools = [] then []
      else check (rcTransport c \<noteq> ''grpc'') ''tools.controlPlane requires transport=grpc'' @
           controlPlaneTools e 0 tools [])"

fun firstNonLocalSchemaRef :: "JSON \<Rightarrow> string option"
  and firstNonLocalIn :: "JSON list \<Rightarrow> string option"
  and firstNonLocalEntry :: "(string \<times> JSON) list \<Rightarrow> string option" where
  "firstNonLocalSchemaRef (JObject node) = firstNonLocalEntry (byKey node)"
| "firstNonLocalSchemaRef (JArray items) = firstNonLocalIn items"
| "firstNonLocalSchemaRef _ = None"
| "firstNonLocalIn [] = None"
| "firstNonLocalIn (v # vs) =
     (case firstNonLocalSchemaRef v of Some r \<Rightarrow> Some r | None \<Rightarrow> firstNonLocalIn vs)"
| "firstNonLocalEntry [] = None"
| "firstNonLocalEntry ((k, v) # rest) =
     (case (if k = ''$ref'' \<or> k = ''$dynamicRef''
            then (case v of JString ref \<Rightarrow> if HasPrefix ref ''#'' then None else Some ref | _ \<Rightarrow> None) else None) of
        Some r \<Rightarrow> Some r
      | None \<Rightarrow>
          case firstNonLocalSchemaRef v of Some r \<Rightarrow> Some r | None \<Rightarrow> firstNonLocalEntry rest)"

end
