(* ===== verification/Config_Policy.thy ===== *)
theory Config_Policy
  imports Config_Tools
begin

text \<open>
  The remaining checks on the agent's tools and on the policies of a run: output schema, command output,
  post-edit checks, write targets, lazy loading, context strategy, permission policy, the rule of two, hooks,
  guidance, verifiers and guards, in \<open>types/runconfig.go\<close>, \<open>protectedwritetargets.go\<close> and
  \<open>repositoryguidance.go\<close>.
\<close>

section \<open>Tools\<close>

definition validateOutputSchema :: "cfgEnv \<Rightarrow> string \<Rightarrow> string list" where
  "validateOutputSchema e schema =
     (if schema = [] then []
      else if len schema > 65536 then [''outputSchema is over the byte limit'']
      else case ceParseJSON e schema of
             None \<Rightarrow> [''outputSchema is not valid JSON'']
           | Some (JObject doc) \<Rightarrow>
               check (firstNonLocalSchemaRef (JObject doc) \<noteq> None) ''outputSchema must be self-contained''
           | Some _ \<Rightarrow> [''outputSchema must be a JSON Schema object''])"

definition validateToolsProfile :: "string \<Rightarrow> string list" where
  "validateToolsProfile value = check (value \<notin> set validToolsProfiles) ''tools.profile is not a recognised toolset profile''"

definition validateToolMaxResultBytes :: "int \<Rightarrow> string list" where
  "validateToolMaxResultBytes value =
     (if value < 0 then [''tools.maxResultBytes must not be negative'']
      else if value > 0 \<and> value < MinToolMaxResultBytes then [''tools.maxResultBytes is too small'']
      else check (value > MaxToolMaxResultBytes) ''tools.maxResultBytes exceeds maximum'')"

definition checkBytes :: "string \<Rightarrow> int \<Rightarrow> int \<Rightarrow> string list" where
  "checkBytes name value maximum =
     check (value < 0) (name @ '' must not be negative'') @ check (value > maximum) (name @ '' exceeds maximum'')"

definition validateCommandOutputConfig :: "ToolsConfig \<Rightarrow> string list" where
  "validateCommandOutputConfig tools =
     (let cfg = tlCommandOutput tools; eff = EffectiveCommandOutput tools in
      checkBytes ''tools.commandOutput.inlineMaxBytes'' (cmInlineMaxBytes cfg) MaxCommandOutputBytesPerStream @
      checkBytes ''tools.commandOutput.previewBytesPerStream'' (cmPreviewBytesPerStream cfg) MaxCommandOutputBytesPerStream @
      checkBytes ''tools.commandOutput.maxBytesPerStream'' (cmMaxBytesPerStream cfg) MaxCommandOutputBytesPerStream @
      checkBytes ''tools.commandOutput.maxBytesPerRun'' (cmMaxBytesPerRun cfg) MaxCommandOutputBytesPerRun @
      check (cmPreviewBytesPerStream eff > cmMaxBytesPerStream eff)
        ''tools.commandOutput.previewBytesPerStream must not exceed maxBytesPerStream'' @
      check (cmMaxBytesPerRun eff < cmMaxBytesPerStream eff)
        ''tools.commandOutput.maxBytesPerRun must be at least maxBytesPerStream'' @
      check (cmFailurePosture cfg \<notin> {[], ''strict'', ''bestEffort''}) ''tools.commandOutput.failurePosture is invalid'' @
      check (\<not> CommandOutputCaptureEnabled tools \<and> ''read_command_output'' \<in> set (tlBuiltIn tools))
        ''tools.builtIn includes read_command_output but capture is disabled'')"

definition validatePostEditChecks :: "cfgEnv \<Rightarrow> RunConfig \<Rightarrow> string list" where
  "validatePostEditChecks e c =
     (let checks = tlPostEdit (rcTools c) in
      if checks = [] then []
      else check (rcMode c \<in> set readOnlyModes) ''tools.postEdit is not allowed in read-only mode'' @
           check (\<not> ExecutorCanExec (exType (rcExecutor c))) ''tools.postEdit requires an exec-capable executor'' @
           check (len checks > 16) ''tools.postEdit has too many entries'' @
           eachAt (\<lambda>i p. let field = subAt ''tools.postEdit'' i in
               (if TrimSpace (peGlob p) = [] then [field @ ''.glob is required'']
                else if len (peGlob p) > 256 then [field @ ''.glob is too long'']
                else check (ceGlobBad e (peGlob p)) (field @ ''.glob is not a valid pattern'')) @
               (if TrimSpace (peCommand p) = [] then [field @ ''.command is required'']
                else check (len (peCommand p) > 16384) (field @ ''.command is too long'')) @
               check (Contains (peCommand p) [CHR 0x27, CHR ''{'', CHR ''p'', CHR ''a'', CHR ''t'', CHR ''h'', CHR ''}'', CHR 0x27])
                 (field @ ''.command must not wrap the placeholder in single quotes'') @
               check (Contains (ToLower (ceLower e) (peCommand p)) ''secret://'')
                 (field @ ''.command must not contain a secret:// reference'') @
               check (peTimeoutSeconds p < 0 \<or> peTimeoutSeconds p > MaxPostEditTimeoutSeconds)
                 (field @ ''.timeoutSeconds out of range''))
             checks)"

definition hasDriveLetter :: "string \<Rightarrow> bool" where
  "hasDriveLetter p = (case p of a # b # _ \<Rightarrow> b = CHR '':'' \<and> letterC a | _ \<Rightarrow> False)"

definition hasControl :: "string \<Rightarrow> bool" where
  "hasControl p = list_ex (\<lambda>r. r < 32 \<or> r = 127) (runes p)"

definition protectedWriteTargetProblem :: "string \<Rightarrow> bool" where
  "protectedWriteTargetProblem p =
     (let slashed = ReplaceByte (CHR 0x5C) (CHR ''/'') p in
      p = [] \<or> TrimSpace p \<noteq> p \<or> HasPrefix slashed ''/'' \<or> hasDriveLetter p \<or> pathHasDotDotSegment p
      \<or> Clean slashed = ''.'' \<or> ContainsAny p ''*?['' \<or> hasControl p)"

definition validateProtectedWriteTargets :: "string list \<Rightarrow> string list" where
  "validateProtectedWriteTargets targets =
     check (len targets > 64) ''tools.protectedWriteTargets has too many entries'' @
     eachAt (\<lambda>i t. check (protectedWriteTargetProblem t) (subAt ''tools.protectedWriteTargets'' i @ '' is not valid'')) targets"

definition lazyToolEagerNameProblem :: "string \<Rightarrow> bool" where
  "lazyToolEagerNameProblem name =
     (len name > 256 \<or> ContainsAny name ''*?['' \<or> list_ex (\<lambda>r. IsSpace r \<or> IsControl r) (runes name))"

fun lazyEagerNames :: "nat \<Rightarrow> string list \<Rightarrow> string list \<Rightarrow> string list" where
  "lazyEagerNames i [] seen = []"
| "lazyEagerNames i (name # names) seen =
     (let path = subAt ''tools.lazyLoading.eager'' (natDigits i) in
      if name = [] then (path @ '' must not be empty'') # lazyEagerNames (Suc i) names seen
      else if lazyToolEagerNameProblem name then (path @ '' is not a tool name'') # lazyEagerNames (Suc i) names seen
      else if name = ''tool_search'' then (path @ '' is the harness tool search'') # lazyEagerNames (Suc i) names seen
      else if name \<in> set seen then (path @ '' is a duplicate'') # lazyEagerNames (Suc i) names seen
      else lazyEagerNames (Suc i) names (name # seen))"

definition validateLazyToolLoading :: "LazyToolLoadingConfig \<Rightarrow> string list" where
  "validateLazyToolLoading cfg =
     check (Strategy cfg \<notin> set validLazyToolStrategies) ''tools.lazyLoading.strategy is not recognised'' @
     check (MaxResults cfg < 0 \<or> MaxResults cfg > MaxLazyToolSearchResults) ''tools.lazyLoading.maxResults out of range'' @
     check (len (Eager cfg) > 256) ''tools.lazyLoading.eager has too many entries'' @
     lazyEagerNames 0 (Eager cfg) []"

section \<open>Prompt, context and edits\<close>

definition validatePromptBuilderConfig :: "cfgEnv \<Rightarrow> RunConfig \<Rightarrow> string list" where
  "validatePromptBuilderConfig e c =
     (let pb = rcPromptBuilder c in
      check (rcSystemPromptOverride c \<noteq> [] \<and> pbTemplate pb \<noteq> [])
        ''systemPromptOverride and promptBuilder.template are mutually exclusive'' @
      check (rcSystemPromptOverride c \<noteq> [] \<and> pbPromptModel pb \<noteq> [])
        ''systemPromptOverride and promptBuilder.promptModel are mutually exclusive'' @
      check (pbTemplate pb \<noteq> [] \<and> ceTemplateBad e (pbTemplate pb)) ''promptBuilder.template does not parse'')"

definition validateContextStrategyBudget :: "ContextStrategyConfig \<Rightarrow> string list" where
  "validateContextStrategyBudget cfg =
     (if csMaxTokens cfg < 0 then [''contextStrategy.maxTokens must be >= 0'']
      else check (csMaxTokens cfg > 0 \<and> csMaxTokens cfg < minContextStrategyMaxTokens) ''contextStrategy.maxTokens is too small'')"

definition validateClearToolResults :: "ContextStrategyConfig \<Rightarrow> string list" where
  "validateClearToolResults cfg =
     (if csType cfg \<noteq> ''clear-tool-results'' then
        check (csKeep cfg \<noteq> None) ''contextStrategy.keep applies only to clear-tool-results'' @
        check (csClearAtLeast cfg \<noteq> None) ''contextStrategy.clearAtLeast applies only to clear-tool-results'' @
        check (csExcludeTools cfg \<noteq> []) ''contextStrategy.excludeTools applies only to clear-tool-results''
      else
        check (case csKeep cfg of None \<Rightarrow> False | Some k \<Rightarrow> k < 0) ''contextStrategy.keep must be >= 0'' @
        check (case csClearAtLeast cfg of None \<Rightarrow> False | Some k \<Rightarrow> k \<le> 0) ''contextStrategy.clearAtLeast must be > 0'' @
        eachAt (\<lambda>i name. check (TrimSpace name = []) (subAt ''contextStrategy.excludeTools'' i @ '' must be a tool name''))
          (csExcludeTools cfg))"

definition validateEditStrategyFuzzyThreshold :: "EditStrategyConfig \<Rightarrow> string list" where
  "validateEditStrategyFuzzyThreshold cfg =
     (case esFuzzyThreshold cfg of
        None \<Rightarrow> []
      | Some t \<Rightarrow> check (fltLess t 0 \<or> fltEqual t 0 \<or> fltGreater t 1) ''editStrategy.fuzzyThreshold must be > 0 and <= 1'')"

definition validateCodeScannerConfig :: "CodeScannerConfig option \<Rightarrow> string list" where
  "validateCodeScannerConfig cfg =
     (case cfg of
        None \<Rightarrow> []
      | Some s \<Rightarrow>
          if scType s \<notin> set validCodeScannerTypes then [''unsupported codeScanner.type'']
          else if scType s \<noteq> ''composite'' then []
          else if scScanners s = [] then [''codeScanner.type composite requires a non-empty scanners list'']
          else eachAt (\<lambda>i name. check (name \<notin> set validCompositeCodeScannerTypes)
                 (subAt ''codeScanner.scanners'' i @ '' is not a valid scanner type'')) (scScanners s))"

section \<open>Permissions and the rule of two\<close>

definition validatePermissionPolicyRequired :: "RunConfig \<Rightarrow> string list" where
  "validatePermissionPolicyRequired c =
     check (ppType (rcPermissionPolicy c) = [] \<and> rcMode c \<in> set validRunModes \<and> rcMode c \<notin> set readOnlyModes)
       ''permissionPolicy.type is required''"

definition validatePermissionPolicyFields :: "PermissionPolicyConfig \<Rightarrow> string list" where
  "validatePermissionPolicyFields cfg =
     check (ppType cfg = ''policy-engine'' \<and> ppPolicyFile cfg = []) ''permissionPolicy type policy-engine requires policyFile'' @
     check (ppPolicyFile cfg \<noteq> [] \<and> ppType cfg \<noteq> ''policy-engine'') ''permissionPolicy.policyFile is only used with policy-engine'' @
     check (ppPolicyFile cfg \<noteq> [] \<and> pathEscapes (ppPolicyFile cfg)) ''permissionPolicy.policyFile must not contain dot-dot path segments'' @
     check (ppFallback cfg \<noteq> [] \<and> ppFallback cfg \<notin> set validFallbackPolicyTypes) ''permissionPolicy.fallback is not valid''"

definition isToolEnabled :: "string list \<Rightarrow> string \<Rightarrow> bool" where
  "isToolEnabled enabled name = (enabled = [] \<or> name \<in> set enabled)"

definition ruleOfTwoUntrustedInput :: "RunConfig \<Rightarrow> bool" where
  "ruleOfTwoUntrustedInput c =
     (rcDynamicContext c \<noteq> [] \<or> isToolEnabled (tlBuiltIn (rcTools c)) ''web_fetch'' \<or> tlMCPServers (rcTools c) \<noteq> [])"

definition ruleOfTwoSensitiveData :: "RunConfig \<Rightarrow> bool" where
  "ruleOfTwoSensitiveData c =
     (rcSensitiveData c = Some True \<or> list_ex (\<lambda>(_, entry). dvSensitive entry) (rcDynamicContext c))"

definition ruleOfTwoExternalComm :: "RunConfig \<Rightarrow> bool" where
  "ruleOfTwoExternalComm c =
     (isToolEnabled (tlBuiltIn (rcTools c)) ''run_command'' \<or> isToolEnabled (tlBuiltIn (rcTools c)) ''web_fetch''
      \<or> tlMCPServers (rcTools c) \<noteq> []
      \<or> (case exNetwork (rcExecutor c) of None \<Rightarrow> False | Some n \<Rightarrow> nwMode n \<noteq> [] \<and> nwMode n \<noteq> ''none''))"

definition RuleOfTwoState :: "RunConfig option \<Rightarrow> bool \<times> bool \<times> bool" where
  "RuleOfTwoState config =
     (case config of
        None \<Rightarrow> (False, False, False)
      | Some c \<Rightarrow> (ruleOfTwoUntrustedInput c, ruleOfTwoSensitiveData c, ruleOfTwoExternalComm c))"

definition ruleOfTwoWaived :: "RunConfig \<Rightarrow> bool" where
  "ruleOfTwoWaived c = (case rcRuleOfTwo c of None \<Rightarrow> False | Some r \<Rightarrow> rtEnforce r = Some False)"

definition validateRuleOfTwo :: "RunConfig \<Rightarrow> string list" where
  "validateRuleOfTwo c =
     (if \<not> ruleOfTwoUntrustedInput c \<or> \<not> ruleOfTwoSensitiveData c \<or> \<not> ruleOfTwoExternalComm c then []
      else if ppType (rcPermissionPolicy c) = ''ask-upstream'' then []
      else if ruleOfTwoWaived c then []
      else [''all three of untrusted-input, sensitive-data, external-communication''])"

definition validateRuleOfTwoRuntime :: "RunConfig \<Rightarrow> string list" where
  "validateRuleOfTwoRuntime c =
     (case Option.bind (rcRuleOfTwo c) rtRuntime of
        None \<Rightarrow> []
      | Some rt \<Rightarrow>
          check (rrClassifier rt \<notin> set validRuleOfTwoClassifiers) ''unsupported ruleOfTwo.runtime.classifier'' @
          check (rrClassifier rt = ''none'' \<and> rrOnDetect rt \<noteq> []) ''ruleOfTwo.runtime.onDetect has no effect when classifier=none'' @
          (if rrOnDetect rt \<notin> set validRuleOfTwoOnDetectActions then [''unsupported ruleOfTwo.runtime.onDetect'']
           else check (rrOnDetect rt = ''ask-upstream'' \<and> rcTransport c \<noteq> ''grpc'')
                  ''ruleOfTwo.runtime.onDetect ask-upstream requires transport=grpc'') @
          check (rrOnDetect rt = ''abort'' \<and> ruleOfTwoSensitiveData c) ''ruleOfTwo.runtime.onDetect abort has no effect'' @
          eachAt (\<lambda>i criterion. check (\<not> guardRailCustomCriterionPattern criterion)
              (subAt ''ruleOfTwo.runtime.guardCriteria'' i @ '' is malformed'')) (rrGuardCriteria rt))"

section \<open>Dispatch, hooks and guidance\<close>

definition validateToolDispatchConfig :: "int option \<Rightarrow> string list" where
  "validateToolDispatchConfig cfg =
     (case cfg of
        None \<Rightarrow> []
      | Some n \<Rightarrow> check (n < 0 \<or> n > MaxToolDispatchMaxParallel) ''toolDispatch.maxParallel out of range'')"

definition validateToolChoiceEscalationConfig :: "ToolChoiceEscalationConfig option \<Rightarrow> string list" where
  "validateToolChoiceEscalationConfig cfg =
     (case cfg of
        None \<Rightarrow> []
      | Some t \<Rightarrow> check (tcMaxRetries t < 0 \<or> tcMaxRetries t > MaxToolChoiceEscalationMaxRetries)
                   ''toolChoiceEscalation.maxRetries out of range'')"

definition validateHookConfig :: "cfgEnv \<Rightarrow> string \<Rightarrow> typedHook \<Rightarrow> bool \<Rightarrow> string list" where
  "validateHookConfig e path h isPostRun =
     validateOptionalType path (hkType h) validHookTypes @
     (if TrimSpace (hkCommand h) = [] then [path @ ''.command is required'']
      else check (len (hkCommand h) > 16384) (path @ ''.command is too long'')) @
     check (Contains (ToLower (ceLower e) (hkCommand h)) ''secret://'') (path @ ''.command must not contain a secret:// reference'') @
     check (hkTimeoutSeconds h < 0 \<or> hkTimeoutSeconds h > MaxHookTimeoutSeconds) (path @ ''.timeoutSeconds out of range'') @
     (if len (hkName h) > 64 then [path @ ''.name is too long'']
      else if hkName h = [] then []
      else if \<not> ValidString (hkName h) then [path @ ''.name must be valid UTF-8'']
      else check (\<not> allPrintable e (hkName h)) (path @ ''.name contains non-printable character'')) @
     (if \<not> isPostRun then check (hkRunOn h \<noteq> []) (path @ ''.runOn must be empty on a preRun hook'')
      else check (hkRunOn h \<notin> set validHookRunOnValues) (path @ ''.runOn is not valid''))"

text \<open>A sum of Go ints, which may wrap.\<close>

definition timeoutSum :: "typedHook list \<Rightarrow> int" where
  "timeoutSum hooks = foldl (\<lambda>total h. wrap64 (total + EffectiveHookTimeout (HookConfig.truncate h))) 0 hooks"

definition validateHooksConfig :: "cfgEnv \<Rightarrow> RunConfig \<Rightarrow> string list" where
  "validateHooksConfig e c =
     (case rcHooks c of
        None \<Rightarrow> []
      | Some hooks \<Rightarrow>
          check ((hoPreRun hooks \<noteq> [] \<or> hoPostRun hooks \<noteq> []) \<and> \<not> ExecutorCanExec (exType (rcExecutor c)))
            ''hooks require an exec-capable executor'' @
          check (len (hoPreRun hooks) > 32) ''hooks.preRun has too many entries'' @
          check (len (hoPostRun hooks) > 32) ''hooks.postRun has too many entries'' @
          eachAt (\<lambda>i h. validateHookConfig e (subAt ''hooks.preRun'' i) h False) (hoPreRun hooks) @
          eachAt (\<lambda>i h. validateHookConfig e (subAt ''hooks.postRun'' i) h True) (hoPostRun hooks) @
          check (timeoutSum (hoPostRun hooks) > MaxHookTimeoutSeconds) ''sum of hooks.postRun effective timeouts is too large'')"

definition repositoryGuidancePathProblem :: "string \<Rightarrow> bool" where
  "repositoryGuidancePathProblem p =
     (p = [] \<or> TrimSpace p \<noteq> p \<or> p = ''.'' \<or> p = ''..'' \<or> ContainsAny p [CHR ''/'', CHR 0x5C]
      \<or> ContainsAny p ''*?['' \<or> hasControl p)"

definition isHexSHA256 :: "string \<Rightarrow> bool" where
  "isHexSHA256 s = (length s = 64 \<and> list_all (\<lambda>c. lowerHexC c \<or> between 65 70 c) s)"

text \<open>The files with a valid name, in the set \<open>seen\<close>, as the loop leaves it.\<close>

fun guidanceFiles :: "nat \<Rightarrow> string list \<Rightarrow> string list \<Rightarrow> string list" where
  "guidanceFiles i [] seen = []"
| "guidanceFiles i (f # fs) seen =
     (if repositoryGuidancePathProblem f
      then (subAt ''repositoryGuidance.files'' (natDigits i) @ '' is not valid'') # guidanceFiles (Suc i) fs seen
      else check (f \<in> set seen) (subAt ''repositoryGuidance.files'' (natDigits i) @ '' is listed more than once'')
           @ guidanceFiles (Suc i) fs (f # seen))"

definition validateRepositoryGuidanceConfig :: "RunConfig \<Rightarrow> string list" where
  "validateRepositoryGuidanceConfig c =
     (case rcRepositoryGuidance c of
        None \<Rightarrow> []
      | Some g \<Rightarrow>
          check (exType (rcExecutor c) = ''none'') ''repositoryGuidance requires an executor that can read the workspace'' @
          check (rgFiles g = []) ''repositoryGuidance.files must list at least one file'' @
          check (len (rgFiles g) > 16) ''repositoryGuidance.files has too many entries'' @
          guidanceFiles 0 (rgFiles g) [] @
          check (rgMaxBytes g < 0 \<or> rgMaxBytes g > MaxRepositoryGuidanceMaxBytes) ''repositoryGuidance.maxBytes out of range'' @
          concat (map (\<lambda>(path, digest).
              check (path \<notin> set (filter (\<lambda>f. \<not> repositoryGuidancePathProblem f) (rgFiles g)))
                ''repositoryGuidance.pinnedSha256 key must also appear in files'' @
              check (\<not> isHexSHA256 digest) ''repositoryGuidance.pinnedSha256 must be a 64-character hex SHA-256 digest'')
            (rgPinnedSHA256 g)))"

section \<open>Verifiers and guards\<close>

fun validateVerifierConfig :: "VerifierConfig \<Rightarrow> string \<Rightarrow> string list"
  and validateVerifiers :: "VerifierConfig list \<Rightarrow> string \<Rightarrow> nat \<Rightarrow> string list" where
  "validateVerifierConfig (VerifierConfig t subs) path =
     validateOptionalType path t validVerifierTypes @ validateVerifiers subs path 0"
| "validateVerifiers [] path i = []"
| "validateVerifiers (v # vs) path i =
     validateVerifierConfig v (subAt (path @ ''.verifiers'') (natDigits i)) @ validateVerifiers vs path (Suc i)"

fun rejectReplayLLMJudge :: "VerifierConfig \<Rightarrow> string \<Rightarrow> string list"
  and rejectReplayLLMJudges :: "VerifierConfig list \<Rightarrow> string \<Rightarrow> nat \<Rightarrow> string list" where
  "rejectReplayLLMJudge (VerifierConfig t subs) path =
     check (t = ''llm-judge'') (path @ ''.type llm-judge is not supported with provider.type replay'') @
     rejectReplayLLMJudges subs path 0"
| "rejectReplayLLMJudges [] path i = []"
| "rejectReplayLLMJudges (v # vs) path i =
     rejectReplayLLMJudge v (subAt (path @ ''.verifiers'') (natDigits i)) @ rejectReplayLLMJudges vs path (Suc i)"

fun rejectReplayCloudJudge :: "GuardRailConfig \<Rightarrow> string \<Rightarrow> string list"
  and rejectReplayCloudJudges :: "GuardRailConfig list \<Rightarrow> string \<Rightarrow> nat \<Rightarrow> string list" where
  "rejectReplayCloudJudge (GuardRailConfig t stages a b c d f g h i j k l) path =
     check (t = ''cloud-judge'') (path @ ''.type cloud-judge is not supported with provider.type replay'') @
     rejectReplayCloudJudges stages path 0"
| "rejectReplayCloudJudges [] path i = []"
| "rejectReplayCloudJudges (g # gs) path i =
     rejectReplayCloudJudge g (subAt (path @ ''.stages'') (natDigits i)) @ rejectReplayCloudJudges gs path (Suc i)"

definition validateReplayAuxiliaryCalls :: "RunConfig \<Rightarrow> string list" where
  "validateReplayAuxiliaryCalls c =
     (if pvType (rcProvider c) \<noteq> ''replay'' then []
      else check (csType (rcContextStrategy c) = ''summarise'') ''contextStrategy.type summarise is not supported with provider.type replay'' @
           rejectReplayLLMJudge (rcVerifier c) ''verifier'' @
           (case rcGuardRail c of None \<Rightarrow> [] | Some g \<Rightarrow> rejectReplayCloudJudge g ''guardRail''))"

definition guardRailHasAdapterFields :: "GuardRailConfig \<Rightarrow> bool" where
  "guardRailHasAdapterFields g =
     (grEndpoint g \<noteq> [] \<or> grAPIKeyRef g \<noteq> [] \<or> grModel g \<noteq> [] \<or> \<not> fltEqual (grThreshold g) 0 \<or> grCriteria g \<noteq> []
      \<or> grCustomCriteria g \<noteq> [] \<or> grThink g \<noteq> None \<or> grTimeoutMs g \<noteq> 0 \<or> grFailOpen g \<or> grMinChunkChars g \<noteq> 0
      \<or> grStages g \<noteq> [] \<or> grPhases g \<noteq> [])"

fun guardPhases :: "string \<Rightarrow> nat \<Rightarrow> string list \<Rightarrow> string list \<Rightarrow> string list" where
  "guardPhases path i [] seen = []"
| "guardPhases path i (p # ps) seen =
     (if p \<notin> set validGuardRailPhases
      then (subAt (path @ ''.phases'') (natDigits i) @ '' is not a valid phase'') # guardPhases path (Suc i) ps seen
      else if p \<in> set seen then (path @ ''.phases contains duplicate'') # guardPhases path (Suc i) ps seen
      else guardPhases path (Suc i) ps (p # seen))"

text \<open>The checks of a guard that depend on its type but not on its stages, and those after the stages.\<close>

definition guardAdapterChecks :: "GuardRailConfig \<Rightarrow> string \<Rightarrow> string list" where
  "guardAdapterChecks g path =
     (if grType g = ''none'' then check (grEndpoint g \<noteq> []) (path @ ''.endpoint is not valid for type=none'')
      else if grType g = ''granite-guardian'' then check (grEndpoint g = []) (path @ ''.type requires endpoint'')
      else if grType g = ''shieldstral'' then
        check (grEndpoint g = []) (path @ ''.type requires endpoint'') @
        check (grModel g = []) (path @ ''.type requires model'') @
        check (grThink g \<noteq> None) (path @ ''.think is not valid for type=shieldstral'')
      else [])"

definition guardFieldChecks :: "cfgEnv \<Rightarrow> GuardRailConfig \<Rightarrow> string \<Rightarrow> string list" where
  "guardFieldChecks e g path =
     (if grEndpoint g \<noteq> [] \<and> grType g \<noteq> ''none'' \<and> grType g \<noteq> ''composite''
      then validateGuardRailEndpoint e (grEndpoint g) (path @ ''.endpoint'') else []) @
     guardPhases path 0 (grPhases g) [] @
     check (fltLess (grThreshold g) 0 \<or> fltGreater (grThreshold g) 1) (path @ ''.threshold out of range'') @
     check (grTimeoutMs g \<noteq> 0 \<and> (grTimeoutMs g < 50 \<or> grTimeoutMs g > 30000)) (path @ ''.timeoutMs out of range'') @
     check (grMinChunkChars g < 0 \<or> grMinChunkChars g > 4096) (path @ ''.minChunkChars out of range'') @
     eachAt (\<lambda>i c. check (c = []) (subAt (path @ ''.criteria'') i @ '' is empty'')) (grCriteria g) @
     concat (map (\<lambda>(k, _).
         if k = [] then [path @ ''.customCriteria contains an empty key'']
         else check (\<not> guardRailCustomCriterionPattern k) (path @ ''.customCriteria key is malformed''))
       (grCustomCriteria g))"

fun validateGuardRailConfig :: "cfgEnv \<Rightarrow> GuardRailConfig \<Rightarrow> string \<Rightarrow> bool \<Rightarrow> string list"
  and validateGuardStages :: "cfgEnv \<Rightarrow> GuardRailConfig list \<Rightarrow> string \<Rightarrow> nat \<Rightarrow> string list" where
  "validateGuardRailConfig e (GuardRailConfig t stages a b key d f h i j k l m) path nested =
     (let g = GuardRailConfig t stages a b key d f h i j k l m in
      if t = [] then check (guardRailHasAdapterFields g) (path @ ''.type is required'')
      else if t \<notin> set (if nested then validCompositeGuardRailTypes else validGuardRailTypes) then [''unsupported '' @ path @ ''.type'']
      else check (key \<noteq> [] \<and> t \<noteq> ''shieldstral'') (path @ ''.apiKeyRef is not valid'') @
           (if t = ''composite'' then
              check (stages = []) (path @ ''.type composite requires a non-empty stages list'') @
              check (grEndpoint g \<noteq> []) (path @ ''.endpoint is not valid for type=composite'') @
              validateGuardStages e stages path 0
            else guardAdapterChecks g path) @
           guardFieldChecks e g path)"
| "validateGuardStages e [] path i = []"
| "validateGuardStages e (g # gs) path i =
     validateGuardRailConfig e g (subAt (path @ ''.stages'') (natDigits i)) True @ validateGuardStages e gs path (Suc i)"

fun guardAPIKeyRefs :: "GuardRailConfig \<Rightarrow> string \<Rightarrow> string list"
  and guardStageAPIKeyRefs :: "GuardRailConfig list \<Rightarrow> string \<Rightarrow> nat \<Rightarrow> string list" where
  "guardAPIKeyRefs (GuardRailConfig t stages a b key d f h i j k l m) path =
     validateAPIKeyRef (path @ ''.apiKeyRef'') key @ guardStageAPIKeyRefs stages path 0"
| "guardStageAPIKeyRefs [] path i = []"
| "guardStageAPIKeyRefs (g # gs) path i =
     guardAPIKeyRefs g (subAt (path @ ''.stages'') (natDigits i)) @ guardStageAPIKeyRefs gs path (Suc i)"

definition validateAPIKeyRefs :: "RunConfig \<Rightarrow> string list" where
  "validateAPIKeyRefs c =
     validateAPIKeyRef ''provider.apiKeyRef'' (pvAPIKeyRef (rcProvider c)) @
     concat (map (\<lambda>(name, p). validateAPIKeyRef (subAt ''providers'' name @ ''.apiKeyRef'') (pvAPIKeyRef p)) (rcProviders c)) @
     (case exVcsBackend (rcExecutor c) of
        None \<Rightarrow> []
      | Some v \<Rightarrow> validateAPIKeyRef ''executor.vcsBackend.apiKeyRef'' (vbAPIKeyRef v)) @
     eachAt (\<lambda>i s. validateAPIKeyRef (subAt ''tools.mcpServers'' i @ ''.apiKeyRef'') (mcAPIKeyRef s)) (tlMCPServers (rcTools c)) @
     (case rcGuardRail c of None \<Rightarrow> [] | Some g \<Rightarrow> guardAPIKeyRefs g ''guardRail'')"

end
