(* ===== verification/Config_Reporting.thy ===== *)
theory Config_Reporting
  imports Config_Provider
begin

text \<open>
  The checks on what a run is called and where its records go: session name, correlation, observability,
  trace emitter, trace archive and result sink, in \<open>types/runconfig.go\<close>. Two of them also normalise an object
  prefix, and so return the configuration they leave behind.
\<close>

section \<open>Names\<close>

definition validatePrintableField :: "cfgEnv \<Rightarrow> string \<Rightarrow> string \<Rightarrow> int \<Rightarrow> string list" where
  "validatePrintableField e field value maxBytes =
     (if value = [] then []
      else if len value > maxBytes then [field @ '' is too long'']
      else if \<not> ValidString value then [field @ '' must be valid UTF-8'']
      else check (\<not> allPrintable e value) (field @ '' contains non-printable character''))"

definition validateSessionName :: "cfgEnv \<Rightarrow> string \<Rightarrow> string list" where
  "validateSessionName e name = validatePrintableField e ''sessionName'' name maxSessionNameLength"

definition validateCorrelationURL :: "cfgEnv \<Rightarrow> string \<Rightarrow> string list" where
  "validateCorrelationURL e raw =
     (let fieldErrs = validatePrintableField e ''correlation.url'' raw 1500 in
      if raw = [] then []
      else if fieldErrs \<noteq> [] then fieldErrs
      else case ceParseURL e raw of
             None \<Rightarrow> [''correlation.url is not a valid URL'']
           | Some u \<Rightarrow>
               if uScheme u \<noteq> ''http'' \<and> uScheme u \<noteq> ''https'' then [''correlation.url must be an absolute http or https URL'']
               else if uHostname u = [] then [''correlation.url must include a host'']
               else if uHasUser u then [''correlation.url must not include userinfo'']
               else check (uFragment u \<noteq> [] \<or> Contains raw ''#'') ''correlation.url must not include a fragment'')"

definition validateCorrelationConfig :: "cfgEnv \<Rightarrow> CorrelationConfig option \<Rightarrow> string list" where
  "validateCorrelationConfig e cfg =
     (case cfg of
        None \<Rightarrow> []
      | Some c \<Rightarrow>
          (if coSessionID c = [] then []
           else if len (coSessionID c) > 199 then [''correlation.sessionId is too long'']
           else check (\<not> list_all (between 32 126) (coSessionID c)) ''correlation.sessionId must be printable US-ASCII'') @
          validatePrintableField e ''correlation.taskId'' (coTaskID c) 255 @
          validatePrintableField e ''correlation.attemptId'' (coAttemptID c) 255 @
          validatePrintableField e ''correlation.userId'' (coUserID c) 255 @
          validateCorrelationURL e (coURL c) @
          check (len (coLabels c) > 16) ''correlation.labels has too many entries'' @
          concat (map (\<lambda>(k, v).
              if \<not> correlationLabelKeyPattern k then [''correlation.labels key is malformed'']
              else validatePrintableField e (subAt ''correlation.labels'' k) v 255) (byKey (coLabels c))))"

section \<open>Telemetry\<close>

definition validateOTLPEndpoint :: "cfgEnv \<Rightarrow> string \<Rightarrow> string \<Rightarrow> string list" where
  "validateOTLPEndpoint e endpoint path =
     (if endpoint = [] then []
      else case ceParseURL e (if Contains endpoint ''://'' then endpoint else ''http://'' @ endpoint) of
             None \<Rightarrow> [path @ '' must be host:port or an http(s) URL'']
           | Some u \<Rightarrow>
               if uScheme u \<noteq> ''http'' \<and> uScheme u \<noteq> ''https'' then [path @ '' must use scheme http or https'']
               else if uHost u = [] then [path @ '' must include a host'']
               else if uHasUser u then [path @ '' must not embed user:password credentials'']
               else check (uRawQuery u \<noteq> [] \<or> uForceQuery u \<or> uFragment u \<noteq> [])
                      (path @ '' must not include a query string or fragment''))"

definition validateObservabilityConfig :: "cfgEnv \<Rightarrow> ObservabilityConfig \<Rightarrow> string list" where
  "validateObservabilityConfig e c =
     check (obServiceName c \<noteq> [] \<and> \<not> observabilityLabelPattern (obServiceName c)) ''observability.serviceName is malformed'' @
     check (obEnvironment c \<noteq> [] \<and> \<not> observabilityLabelPattern (obEnvironment c)) ''observability.environment is malformed'' @
     check (obServiceNamespace c \<noteq> [] \<and> \<not> observabilityLabelPattern (obServiceNamespace c))
       ''observability.serviceNamespace is malformed'' @
     check (obLogsType c \<notin> set validLogsExportTypes) ''unsupported observability.logsExport.type'' @
     validateOTLPEndpoint e (obLogsEndpoint c) ''observability.logsExport.endpoint''"

definition isPrintableOptionValue :: "cfgEnv \<Rightarrow> string \<Rightarrow> bool" where
  "isPrintableOptionValue e v = (ValidString v \<and> allPrintable e v)"

definition validateTraceEmitterPlatform :: "cfgEnv \<Rightarrow> TraceEmitterConfig \<Rightarrow> string list" where
  "validateTraceEmitterPlatform e c =
     check (tePlatform c \<notin> set validTraceEmitterPlatforms) ''unsupported traceEmitter.platform'' @
     check (teType c \<noteq> ''otel'' \<and> tePlatform c \<noteq> []) ''traceEmitter.platform is only valid for otel'' @
     check (teType c \<noteq> ''otel'' \<and> tePlatformOptions c \<noteq> []) ''traceEmitter.platformOptions is only valid for otel'' @
     (let required = RequiredTraceEmitterProtocol (tePlatform c) in
      check (required \<noteq> [] \<and> teProtocol c \<noteq> [] \<and> teProtocol c \<noteq> required \<and> teProtocol c \<in> set validTraceEmitterProtocols)
        ''traceEmitter.platform requires another traceEmitter.protocol'') @
     (if tePlatformOptions c = [] then []
      else check (tePlatform c = []) ''traceEmitter.platformOptions requires traceEmitter.platform'' @
           check (len (tePlatformOptions c) > 8) ''traceEmitter.platformOptions has too many entries'' @
           concat (map (\<lambda>(k, v).
               check (\<not> traceEmitterPlatformOptionKeyPattern k) ''traceEmitter.platformOptions key is malformed'' @
               (if len v > 256 then [''traceEmitter.platformOptions value is too long'']
                else if \<not> isPrintableOptionValue e v then [''traceEmitter.platformOptions value must be printable text'']
                else check (HasPrefix v ''secret://'') ''traceEmitter.platformOptions value must not be a secret:// reference''))
             (byKey (tePlatformOptions c))))"

definition prefixHasDotDot :: "string \<Rightarrow> bool" where
  "prefixHasDotDot p = list_ex (\<lambda>seg. seg = ''..'') (Split (TrimByte (CHR ''/'') p) (CHR ''/''))"

definition endInSlash :: "string \<Rightarrow> string" where
  "endInSlash p = (if p \<noteq> [] \<and> \<not> HasSuffix p ''/'' then p @ ''/'' else p)"

text \<open>Fields of the otel emitter on another type, and the fields the gcs emitter needs.\<close>

definition validateOtelFields :: "TraceEmitterConfig \<Rightarrow> string list" where
  "validateOtelFields c =
     (if teType c \<noteq> ''otel'' \<and> teType c \<noteq> [] then
        check (teProtocol c \<noteq> []) ''traceEmitter.protocol is only valid for otel'' @
        check (teHeaders c \<noteq> []) ''traceEmitter.headers is only valid for otel'' @
        check (teCaptureContent c) ''traceEmitter.captureContent is only valid for otel'' @
        check (teMetricsTemporality c \<noteq> []) ''traceEmitter.metricsTemporality is only valid for otel'' @
        check (teCaptureContentMaxBytes c \<noteq> 0) ''traceEmitter.captureContentMaxBytes is only valid for otel''
      else if teCaptureContentMaxBytes c < 0 \<or> teCaptureContentMaxBytes c > 0 \<and> teCaptureContentMaxBytes c < 256
      then [''traceEmitter.captureContentMaxBytes must be 0 or large enough'']
      else check (teCaptureContentMaxBytes c > 0 \<and> \<not> teCaptureContent c)
             ''traceEmitter.captureContentMaxBytes is only valid when captureContent is true'')"

definition validateGCSEmitter :: "cfgEnv \<Rightarrow> TraceEmitterConfig \<Rightarrow> string list" where
  "validateGCSEmitter e c =
     (if teType c = ''gcs'' then
        (if teBucket c = [] then [''traceEmitter type gcs requires bucket'']
         else check (\<not> gcsBucketNamePattern (teBucket c)) ''traceEmitter.bucket is malformed'') @
        check (teObjectPrefix c \<noteq> [] \<and> prefixHasDotDot (teObjectPrefix c)) ''traceEmitter.objectPrefix must not contain dot-dot'' @
        validateCredentialConfig e (teCredential c) ''traceEmitter.credential''
      else
        check (teBucket c \<noteq> []) ''traceEmitter.bucket is only valid for gcs'' @
        check (teObjectPrefix c \<noteq> []) ''traceEmitter.objectPrefix is only valid for gcs'' @
        check (teCredential c \<noteq> None) ''traceEmitter.credential is only valid for gcs'')"

definition validateTraceEmitterProtocolAndHeaders :: "cfgEnv \<Rightarrow> TraceEmitterConfig \<Rightarrow> TraceEmitterConfig \<times> string list" where
  "validateTraceEmitterProtocolAndHeaders e c =
     ((if teType c = ''gcs'' then c\<lparr>teObjectPrefix := endInSlash (teObjectPrefix c)\<rparr> else c),
      check (teProtocol c \<notin> set validTraceEmitterProtocols) ''unsupported traceEmitter.protocol'' @
      validateOTLPEndpoint e (teEndpoint c) ''traceEmitter.endpoint'' @
      validateOTLPEndpoint e (teMetricsEndpoint c) ''traceEmitter.metricsEndpoint'' @
      check (teMetricsTemporality c \<notin> set validTraceEmitterMetricsTemporalities) ''unsupported traceEmitter.metricsTemporality'' @
      validateOtelFields c @
      validateTraceEmitterPlatform e c @
      validateGCSEmitter e c @
      check ((effectiveProtocol c = [] \<or> effectiveProtocol c = ''grpc'') \<and> teHeaders c \<noteq> [])
        ''traceEmitter.headers requires protocol=http/protobuf'' @
      concat (map (\<lambda>(k, v).
          check (\<not> traceEmitterHeaderNamePattern k) ''traceEmitter.headers key is malformed'' @
          check (ContainsAny v [CHR 0x0D, CHR 0x0A]) ''traceEmitter.headers value must not contain CRLF'')
        (teHeaders c)))"

definition validateTraceArchiveConfig :: "TraceArchiveConfig option \<Rightarrow> string list" where
  "validateTraceArchiveConfig cfg =
     (case cfg of
        None \<Rightarrow> []
      | Some a \<Rightarrow>
          if taType a = ''local'' then
            check (taFilePath a = []) ''traceEmitter.archive.filePath is required for local archives'' @
            check (taBucket a \<noteq> [] \<or> taObjectPrefix a \<noteq> [] \<or> taCredential a \<noteq> None)
              ''traceEmitter.archive GCS fields are only valid when type is gcs''
          else if taType a = ''gcs'' then
            (if taBucket a = [] then [''traceEmitter.archive.bucket is required for gcs archives'']
             else check (\<not> gcsBucketNamePattern (taBucket a)) ''traceEmitter.archive.bucket is malformed'') @
            check (taFilePath a \<noteq> []) ''traceEmitter.archive.filePath is only valid when type is local'' @
            check (prefixHasDotDot (taObjectPrefix a)) ''traceEmitter.archive.objectPrefix must not contain dot-dot''
          else if taType a = [] then [''traceEmitter.archive.type is required'']
          else [''traceEmitter.archive.type is invalid''])"

section \<open>Result sink\<close>

definition validateGCSResultSink :: "ResultSinkConfig \<Rightarrow> ResultSinkConfig \<times> string list" where
  "validateGCSResultSink c =
     (let bucket =
        (if rsBucket c = [] then [''resultSink type gcs requires bucket'']
         else check (\<not> gcsBucketNamePattern (rsBucket c)) ''resultSink.bucket is malformed'')
      in if rsObjectPrefix c = [] then (c, bucket)
         else
           (c\<lparr>rsObjectPrefix := endInSlash (rsObjectPrefix c)\<rparr>,
            bucket @
            check (prefixHasDotDot (rsObjectPrefix c)) ''resultSink.objectPrefix must not contain dot-dot'' @
            check (list_ex IsControl (runes (rsObjectPrefix c))) ''resultSink.objectPrefix must not contain control characters'' @
            check (\<not> ValidString (rsObjectPrefix c) \<or> len (rsObjectPrefix c) > maxResultObjectPrefixBytes)
              ''resultSink.objectPrefix must be valid UTF-8 and short enough''))"

definition pubSubAttributeErrors :: "cfgEnv \<Rightarrow> string \<times> string \<Rightarrow> string list" where
  "pubSubAttributeErrors e = (\<lambda>(k, v).
     (if k = [] then [''resultSink.attributes keys must be non-empty'']
      else if k = ''runId'' then [''resultSink.attributes key is reserved'']
      else if HasPrefix (ToLower (ceLower e) k) ''stirrup'' then [''resultSink.attributes key must not start with stirrup'']
      else if HasPrefix k ''goog'' then [''resultSink.attributes key must not start with goog'']
      else check (len k > 256 \<or> \<not> ValidString k) ''resultSink.attributes key must be short valid UTF-8'') @
     (if HasPrefix v ''secret://'' then [''resultSink.attributes value is a secret:// reference'']
      else check (len v > 1024 \<or> \<not> ValidString v) ''resultSink.attributes value must be short valid UTF-8''))"

definition validatePubSubResultSink :: "cfgEnv \<Rightarrow> ResultSinkConfig \<Rightarrow> string list" where
  "validatePubSubResultSink e c =
     (if rsTopic c = [] then [''resultSink type gcp-pubsub requires topic'']
      else case pubSubTopicPattern (rsTopic c) of
             None \<Rightarrow> [''resultSink.topic must be a full topic resource name'']
           | Some t \<Rightarrow> check (HasPrefix t ''goog'') ''resultSink.topic IDs must not start with goog'') @
     check (len (rsAttributes c) > 99) ''resultSink.attributes has too many entries'' @
     concat (map (pubSubAttributeErrors e) (byKey (rsAttributes c))) @
     check (len (rsOrderingKey c) > 1024 \<or> \<not> ValidString (rsOrderingKey c)) ''resultSink.orderingKey must be short valid UTF-8''"

definition validateResultSinkConfig :: "cfgEnv \<Rightarrow> ResultSinkConfig option \<Rightarrow> ResultSinkConfig option \<times> string list" where
  "validateResultSinkConfig e cfg =
     (case cfg of
        None \<Rightarrow> (None, [])
      | Some c \<Rightarrow>
          if rsType c = [] then (cfg, [''resultSink type is required''])
          else if rsType c \<notin> set validResultSinkTypes then (cfg, [''unsupported resultSink type''])
          else
            let rejectOn = (\<lambda>field given validFor.
                  check (given \<and> rsType c \<notin> set validFor) (''resultSink.'' @ field @ '' is only valid for another type''));
                (c', adapter) =
                  (if rsType c = ''gcs'' then validateGCSResultSink c
                   else if rsType c = ''gcp-pubsub'' then (c, validatePubSubResultSink e c) else (c, []))
            in (Some c',
                rejectOn ''topic'' (rsTopic c \<noteq> []) [''gcp-pubsub''] @
                rejectOn ''attributes'' (rsAttributes c \<noteq> []) [''gcp-pubsub''] @
                rejectOn ''orderingKey'' (rsOrderingKey c \<noteq> []) [''gcp-pubsub''] @
                rejectOn ''bucket'' (rsBucket c \<noteq> []) [''gcs''] @
                rejectOn ''objectPrefix'' (rsObjectPrefix c \<noteq> []) [''gcs''] @
                rejectOn ''credential'' (rsCredential c \<noteq> None) [''gcs'', ''gcp-pubsub''] @
                adapter @
                (case rsCredential c of
                   None \<Rightarrow> []
                 | Some cr \<Rightarrow>
                     if \<not> IsRemote c then []
                     else validateCredentialConfig e (Some cr) ''resultSink.credential'' @
                          check (crType cr \<noteq> [] \<and> crType cr \<notin> set resultSinkCredentialTypes)
                            ''resultSink.credential.type is not supported'') @
                check (rsMaxFinalAssistantTextBytes c < 0) ''resultSink.maxFinalAssistantTextBytes must be non-negative''))"

section \<open>Normalised prefixes\<close>

lemma endInSlash_idem [simp]: "endInSlash (endInSlash p) = endInSlash p"
  by (simp add: endInSlash_def HasSuffix_iff)

lemma TrimByte_snoc: "TrimByte c (p @ [c]) = TrimByte c p"
  by (induction p) (simp_all add: TrimByte_def dropWhile_append)

lemma prefixHasDotDot_endInSlash [simp]: "prefixHasDotDot (endInSlash p) = prefixHasDotDot p"
  by (simp add: endInSlash_def prefixHasDotDot_def TrimByte_snoc)

lemma endInSlash_Nil [simp]: "endInSlash p = [] \<longleftrightarrow> p = []"
  by (simp add: endInSlash_def)

lemma ValidString_endInSlash: "ValidString p \<Longrightarrow> ValidString (endInSlash p)"
  by (simp add: endInSlash_def ValidString_slash)

lemma control_endInSlash:
  "ValidString p \<Longrightarrow> list_ex IsControl (runes (endInSlash p)) = list_ex IsControl (runes p)"
  by (simp add: endInSlash_def runes_slash IsControl_def)

end
