(* ===== verification/Config_Validation.thy ===== *)
theory Config_Validation
  imports Config_Policy Config_Reporting
begin

text \<open>
  \<open>ValidateRunConfig\<close>: the defaults, every check in the order of the code, and what a configuration that passes
  them guarantees. The result is the configuration as validation leaves it, with the errors; the run goes on only
  when there are none.
\<close>

section \<open>The checks in order\<close>

definition identityErrors :: "cfgEnv \<Rightarrow> RunConfig \<Rightarrow> string list" where
  "identityErrors e c =
     validateSessionName e (rcSessionName c) @
     validateCorrelationConfig e (rcCorrelation c) @
     check (rcRunID c \<noteq> [] \<and> \<not> runIDPattern (rcRunID c)) ''runId is malformed'' @
     validateRequiredType ''mode'' (rcMode c) validRunModes @
     validateRequiredType ''provider'' (pvType (rcProvider c)) validProviderTypes @
     validateOptionalType ''modelRouter'' (moType (rcModelRouter c)) validModelRouterTypes @
     validateOptionalType ''promptBuilder'' (pbType (rcPromptBuilder c)) validPromptBuilderTypes @
     validatePromptBuilderConfig e c @
     validateOptionalType ''contextStrategy'' (csType (rcContextStrategy c)) validContextStrategyTypes @
     validateContextStrategyBudget (rcContextStrategy c) @
     validateClearToolResults (rcContextStrategy c)"

definition executorErrors :: "cfgEnv \<Rightarrow> RunConfig \<Rightarrow> string list" where
  "executorErrors e c =
     (let x = rcExecutor c in
      validateOptionalType ''executor'' (exType x) validExecutorTypes @
      validateExecutorRegistryAllowlist e x @
      validateExecutorRuntime x @
      validateK8sExecutor x @
      validateNoneExecutor x @
      validateVcsBackend (exVcsBackend x) @
      validateResourceLimits (exResources x) @
      validateSandboxIdentity e c)"

definition policyErrors :: "RunConfig \<Rightarrow> string list" where
  "policyErrors c =
     validateOptionalType ''editStrategy'' (esType (rcEditStrategy c)) validEditStrategyTypes @
     validateEditStrategyFuzzyThreshold (rcEditStrategy c) @
     validateOptionalType ''permissionPolicy'' (ppType (rcPermissionPolicy c)) validPermissionPolicyTypes @
     validatePermissionPolicyRequired c @
     validatePermissionPolicyFields (rcPermissionPolicy c) @
     validateOptionalType ''gitStrategy'' (rcGitStrategy c) validGitStrategyTypes @
     validateGitStrategyExecutorCompat (rcGitStrategy c) (exType (rcExecutor c)) @
     validateOptionalType ''transport'' (rcTransport c) validTransportTypes @
     validateOptionalType ''traceEmitter'' (teType (rcTraceEmitter c)) validTraceEmitterTypes"

definition toolErrors :: "cfgEnv \<Rightarrow> RunConfig \<Rightarrow> string list" where
  "toolErrors e c =
     (let tools = rcTools c in
      validateExecutorWorkspaceExportTo (rcExecutor c) @
      validateVerifierConfig (rcVerifier c) ''verifier'' @
      validateProviderConfigs e c @
      validateReplayAuxiliaryCalls c @
      validateAPIKeyRefs c @
      validateBuiltInTools (tlBuiltIn tools) @
      validateNoneExecutorTools (exType (rcExecutor c)) (tlBuiltIn tools) @
      validateMCPServers e (tlMCPServers tools) @
      validateControlPlaneTools e c @
      validateOutputSchema e (rcOutputSchema c) @
      validateToolsProfile (tlProfile tools) @
      validateCommandOutputConfig tools @
      validateToolMaxResultBytes (tlMaxResultBytes tools) @
      validateProtectedWriteTargets (tlProtectedWriteTargets tools) @
      validatePostEditChecks e c @
      validateLazyToolLoading (tlLazyLoading tools) @
      validateTraceArchiveConfig (teArchive (rcTraceEmitter c)) @
      validateCredentialConfig e (pvCredential (rcProvider c)) ''provider.credential'' @
      (case teArchive (rcTraceEmitter c) of
         None \<Rightarrow> []
       | Some a \<Rightarrow> validateCredentialConfig e (taCredential a) ''traceEmitter.archive.credential'') @
      concat (map (\<lambda>(name, p). validateCredentialConfig e (pvCredential p) (subAt ''providers'' name @ ''.credential''))
        (rcProviders c)))"

definition readOnlyErrors :: "RunConfig \<Rightarrow> string list" where
  "readOnlyErrors c =
     (if rcMode c \<notin> set readOnlyModes then []
      else
        check (ppType (rcPermissionPolicy c) = ''allow-all'') ''mode requires a restrictive permission policy'' @
        check (ppType (rcPermissionPolicy c) = ''policy-engine'' \<and> ppFallback (rcPermissionPolicy c) = ''allow-all'')
          ''mode requires a restrictive permission policy; fallback'' @
        (if tlBuiltIn (rcTools c) = [] then [''read-only mode requires an explicit tools.builtIn list'']
         else concat (map (\<lambda>tool. check (tool \<in> set mutatingTools) ''read-only mode must not enable write tool'')
                (tlBuiltIn (rcTools c)))) @
        check (csType (rcContextStrategy c) = ''offload-to-file'') ''read-only mode does not support contextStrategy'')"

definition limitErrors :: "RunConfig \<Rightarrow> string list" where
  "limitErrors c =
     check (rcMaxTurns c > absoluteMaxTurns) ''maxTurns exceeds maximum'' @
     check (rcMaxTurns c \<le> 0) ''maxTurns must be positive'' @
     check (case rcTimeout c of None \<Rightarrow> True | Some t \<Rightarrow> t \<le> 0 \<or> t > MaxRunTimeoutSeconds) ''timeout is required'' @
     check (case rcFollowUpGrace c of None \<Rightarrow> False | Some g \<Rightarrow> g > maxFollowUpGrace) ''followUpGrace is too large'' @
     check (rcHeartbeatSeconds c \<noteq> 0
            \<and> (rcHeartbeatSeconds c < minHeartbeatSeconds \<or> rcHeartbeatSeconds c > maxHeartbeatSeconds))
       ''heartbeatSeconds out of range'' @
     check (rcFollowUpHistory c \<notin> {[], ''reset'', ''continue''}) ''followUpHistory must be one of reset, continue'' @
     check (case rcMaxCostBudget c of None \<Rightarrow> False | Some b \<Rightarrow> fltGreater b maxCostBudget) ''maxCostBudget is too large'' @
     check (case rcMaxTokenBudget c of None \<Rightarrow> False | Some b \<Rightarrow> b > maxTokenBudget) ''maxTokenBudget is too large'' @
     (case rcTemperature c of
        None \<Rightarrow> []
      | Some t \<Rightarrow>
          (case t of
             Finite m x \<Rightarrow>
               check (fltLess t 0) ''temperature must be >= 0.0'' @ check (fltGreater t maxTemperature) ''temperature is too large''
           | _ \<Rightarrow> [''temperature must be a finite number''])) @
     check (rcReasoningEffort c \<noteq> [] \<and> rcReasoningEffort c \<notin> set validReasoningEfforts) ''reasoningEffort is not valid'' @
     check (rcReasoningSummary c \<notin> {[], ''auto'', ''off''}) ''reasoningSummary must be one of auto, off''"

definition safetyErrors :: "cfgEnv \<Rightarrow> RunConfig \<Rightarrow> string list" where
  "safetyErrors e c =
     validateRuleOfTwo c @
     validateRuleOfTwoRuntime c @
     validateCodeScannerConfig (rcCodeScanner c) @
     (case rcGuardRail c of None \<Rightarrow> [] | Some g \<Rightarrow> validateGuardRailConfig e g ''guardRail'' False) @
     validateObservabilityConfig e (rcObservability c) @
     validateToolDispatchConfig (rcToolDispatch c) @
     validateToolChoiceEscalationConfig (rcToolChoiceEscalation c) @
     validateHooksConfig e c @
     validateRepositoryGuidanceConfig c"

definition ValidateRunConfig :: "cfgEnv \<Rightarrow> RunConfig \<Rightarrow> RunConfig \<times> string list" where
  "ValidateRunConfig e c0 =
     (let c = applyDefaults c0;
          (emitter, emitterErrs) = validateTraceEmitterProtocolAndHeaders e (rcTraceEmitter c);
          c1 = c\<lparr>rcTraceEmitter := emitter\<rparr>;
          (sink, sinkErrs) = validateResultSinkConfig e (rcResultSink c1);
          c2 = c1\<lparr>rcResultSink := sink\<rparr>;
          (c3, batchErrs) = validateBatchConfig c2
      in (c3,
          identityErrors e c @ executorErrors e c @ policyErrors c @ emitterErrs @ sinkErrs @
          toolErrors e c2 @ readOnlyErrors c2 @ limitErrors c2 @ safetyErrors e c2 @ batchErrs))"

section \<open>What passing means\<close>

text \<open>
  The configuration a passing validation leaves behind: the defaults, with the object prefixes ended and the wait
  of batch mode filled in.
\<close>

definition normalised :: "cfgEnv \<Rightarrow> RunConfig \<Rightarrow> RunConfig" where
  "normalised e c =
     (let c1 = c\<lparr>rcTraceEmitter := fst (validateTraceEmitterProtocolAndHeaders e (rcTraceEmitter c))\<rparr> in
      c1\<lparr>rcResultSink := fst (validateResultSinkConfig e (rcResultSink c1))\<rparr>)"

lemma ValidateRunConfig_ok:
  "ValidateRunConfig e c0 = (c', []) \<longleftrightarrow>
     (let c = applyDefaults c0; c2 = normalised e c in
      c' = fst (validateBatchConfig c2) \<and> snd (validateBatchConfig c2) = []
      \<and> identityErrors e c = [] \<and> executorErrors e c = [] \<and> policyErrors c = []
      \<and> snd (validateTraceEmitterProtocolAndHeaders e (rcTraceEmitter c)) = []
      \<and> snd (validateResultSinkConfig e (rcResultSink c)) = []
      \<and> toolErrors e c2 = [] \<and> readOnlyErrors c2 = [] \<and> limitErrors c2 = [] \<and> safetyErrors e c2 = [])"
  by (auto simp: ValidateRunConfig_def normalised_def Let_def split: prod.splits)

lemma batch_fst: "\<exists>b. fst (validateBatchConfig c) = c\<lparr>rcProvider := (rcProvider c)\<lparr>pvBatch := b\<rparr>\<rparr>"
proof (cases "pvBatch (rcProvider c)")
  case None
  then have "fst (validateBatchConfig c) = c\<lparr>rcProvider := (rcProvider c)\<lparr>pvBatch := None\<rparr>\<rparr>"
    by (simp add: validateBatchConfig_def)
  then show ?thesis ..
next
  case (Some b)
  show ?thesis
  proof (cases "baEnabled b")
    case True
    then show ?thesis
      using Some by (auto simp: validateBatchConfig_def Let_def)
  next
    case False
    then have "fst (validateBatchConfig c) = c\<lparr>rcProvider := (rcProvider c)\<lparr>pvBatch := Some b\<rparr>\<rparr>"
      using Some by (simp add: validateBatchConfig_def Let_def)
    then show ?thesis ..
  qed
qed

lemma normalised_shape:
  "\<exists>t s. normalised e c = c\<lparr>rcTraceEmitter := t, rcResultSink := s\<rparr>"
  unfolding normalised_def Let_def by blast

lemma validated:
  assumes "ValidateRunConfig e c0 = (c', [])"
  obtains c t s b where
    "c = applyDefaults c0" "c' = c\<lparr>rcTraceEmitter := t, rcResultSink := s, rcProvider := (rcProvider c)\<lparr>pvBatch := b\<rparr>\<rparr>"
    "identityErrors e c = []" "executorErrors e c = []" "policyErrors c = []"
    "toolErrors e (c\<lparr>rcTraceEmitter := t, rcResultSink := s\<rparr>) = []"
    "readOnlyErrors (c\<lparr>rcTraceEmitter := t, rcResultSink := s\<rparr>) = []"
    "limitErrors (c\<lparr>rcTraceEmitter := t, rcResultSink := s\<rparr>) = []"
    "safetyErrors e (c\<lparr>rcTraceEmitter := t, rcResultSink := s\<rparr>) = []"
proof -
  let ?c = "applyDefaults c0"
  note ok = assms [unfolded ValidateRunConfig_ok Let_def]
  obtain t s where shape: "normalised e ?c = ?c\<lparr>rcTraceEmitter := t, rcResultSink := s\<rparr>"
    using normalised_shape by blast
  obtain b where
    "c' = (normalised e ?c)\<lparr>rcProvider := (rcProvider (normalised e ?c))\<lparr>pvBatch := b\<rparr>\<rparr>"
    using batch_fst [of "normalised e ?c"] ok by auto
  then have "c' = ?c\<lparr>rcTraceEmitter := t, rcResultSink := s, rcProvider := (rcProvider ?c)\<lparr>pvBatch := b\<rparr>\<rparr>"
    by (simp add: shape)
  then show ?thesis
    using ok that unfolding shape by blast
qed

lemma applyDefaults_executor [simp]: "rcExecutor (applyDefaults c) = rcExecutor c"
  by (simp add: applyDefaults_def applyProviderRetryDefaults_def applyPermissionPolicyDefault_def
      applyEditStrategyDefault_def applyCodeScannerDefault_def split: option.split)

lemma ValidateRunConfig_executor: "rcExecutor (fst (ValidateRunConfig e c)) = rcExecutor c"
proof -
  have batch: "rcExecutor (fst (validateBatchConfig d)) = rcExecutor d" for d
  proof -
    obtain b where "fst (validateBatchConfig d) = d\<lparr>rcProvider := (rcProvider d)\<lparr>pvBatch := b\<rparr>\<rparr>"
      using batch_fst by blast
    then show ?thesis
      by simp
  qed
  have "fst (ValidateRunConfig e c) = fst (validateBatchConfig (normalised e (applyDefaults c)))"
    by (simp add: ValidateRunConfig_def normalised_def Let_def split: prod.split)
  then show ?thesis
    by (simp add: batch normalised_def Let_def)
qed

section \<open>Guarantees\<close>

lemma check_concat_Nil: "concat (map (\<lambda>x. check (P x) m) xs) = [] \<longleftrightarrow> (\<forall>x \<in> set xs. \<not> P x)"
  by auto

text \<open>
  C10: A validated read-only run can change nothing through its configuration. When validation accepts a
  configuration whose mode is read-only, its permission policy is set and is not allow-all, a policy engine does
  not fall back to allow-all, its tool list is explicit and holds only built-in tools of which none writes, it does not
  offload tool results into the workspace, and it runs no post-edit command.
\<close>

theorem validated_read_only:
  assumes ok: "ValidateRunConfig e c = (c', [])" and mode: "rcMode c \<in> set readOnlyModes"
  shows "ppType (rcPermissionPolicy c') \<in> {''deny-all'', ''deny-side-effects'', ''ask-upstream'', ''policy-engine''}
    \<and> (ppType (rcPermissionPolicy c') = ''policy-engine'' \<longrightarrow> ppFallback (rcPermissionPolicy c') \<noteq> ''allow-all'')
    \<and> tlBuiltIn (rcTools c') \<noteq> []
    \<and> (\<forall>tool \<in> set (tlBuiltIn (rcTools c')). tool \<in> set validBuiltInToolNames \<and> tool \<notin> set mutatingTools)
    \<and> csType (rcContextStrategy c') \<noteq> ''offload-to-file'' \<and> tlPostEdit (rcTools c') = []"
proof (rule validated [OF ok])
  fix d :: RunConfig and t s b
  assume d: "d = applyDefaults c" and c': "c' = d\<lparr>rcTraceEmitter := t, rcResultSink := s, rcProvider := (rcProvider d)\<lparr>pvBatch := b\<rparr>\<rparr>"
    and policy: "policyErrors d = []" and tools: "toolErrors e (d\<lparr>rcTraceEmitter := t, rcResultSink := s\<rparr>) = []"
    and ro: "readOnlyErrors (d\<lparr>rcTraceEmitter := t, rcResultSink := s\<rparr>) = []"
  have md: "rcMode d \<in> set readOnlyModes"
    using mode unfolding d by (simp add: applyDefaults_def applyProviderRetryDefaults_def applyPermissionPolicyDefault_def
        applyEditStrategyDefault_def applyCodeScannerDefault_def split: option.split)
  have set: "ppType (rcPermissionPolicy d) \<noteq> []"
    using mode unfolding d by (simp add: applyDefaults_def applyProviderRetryDefaults_def applyPermissionPolicyDefault_def
        applyEditStrategyDefault_def applyCodeScannerDefault_def split: option.split)
  have "ppType (rcPermissionPolicy d) \<in> set validPermissionPolicyTypes"
    using policy set by (simp add: policyErrors_def validateOptionalType_ok)
  moreover have "tlPostEdit (rcTools d) = []"
    using tools md by (auto simp: toolErrors_def Let_def validatePostEditChecks_def split: if_splits)
  moreover have "\<forall>tool \<in> set (tlBuiltIn (rcTools d)). tool \<in> set validBuiltInToolNames"
    using tools by (simp add: toolErrors_def Let_def validateBuiltInTools_def)
  ultimately show ?thesis
    using ro md unfolding c'
    by (auto simp: readOnlyErrors_def validPermissionPolicyTypes_def split: if_splits)
qed

text \<open>
  The rule of two holds for every run that validation accepts: untrusted input, sensitive data and a way to
  communicate do not come together in one run unless each action is asked upstream or the operator waived the
  rule explicitly.
\<close>

theorem validated_rule_of_two:
  assumes ok: "ValidateRunConfig e c = (c', [])"
  shows "\<not> (ruleOfTwoUntrustedInput c' \<and> ruleOfTwoSensitiveData c' \<and> ruleOfTwoExternalComm c')
    \<or> ppType (rcPermissionPolicy c') = ''ask-upstream'' \<or> ruleOfTwoWaived c'"
proof (rule validated [OF ok])
  fix d :: RunConfig and t s b
  assume c': "c' = d\<lparr>rcTraceEmitter := t, rcResultSink := s, rcProvider := (rcProvider d)\<lparr>pvBatch := b\<rparr>\<rparr>"
    and safe: "safetyErrors e (d\<lparr>rcTraceEmitter := t, rcResultSink := s\<rparr>) = []"
  have "validateRuleOfTwo (d\<lparr>rcTraceEmitter := t, rcResultSink := s\<rparr>) = []"
    using safe by (simp add: safetyErrors_def)
  then show ?thesis
    unfolding c' validateRuleOfTwo_def ruleOfTwoUntrustedInput_def ruleOfTwoSensitiveData_def
      ruleOfTwoExternalComm_def ruleOfTwoWaived_def
    by (auto split: if_splits)
qed

text \<open>The timeouts of hooks that passed their checks add up without wrapping.\<close>

lemma timeoutSum_exact:
  assumes "\<forall>h \<in> set hs. 0 \<le> hkTimeoutSeconds h \<and> hkTimeoutSeconds h \<le> MaxHookTimeoutSeconds" "length hs \<le> 32"
  shows "timeoutSum hs = (\<Sum>h\<leftarrow>hs. EffectiveHookTimeout (HookConfig.truncate h))"
proof -
  let ?t = "\<lambda>h. EffectiveHookTimeout (HookConfig.truncate h)"
  have bound: "0 \<le> ?t h \<and> ?t h \<le> 1800" if "h \<in> set hs" for h
    using assms(1) that
    by (auto simp: EffectiveHookTimeout_def DefaultHookTimeoutSeconds_def MaxHookTimeoutSeconds_def HookConfig.truncate_def)
  have "foldl (\<lambda>total h. wrap64 (total + ?t h)) a ks = a + (\<Sum>h\<leftarrow>ks. ?t h)"
    if "set ks \<subseteq> set hs" "0 \<le> a" "a + 1800 * int (length ks) \<le> 1000000" for a ks
    using that
  proof (induction ks arbitrary: a)
    case (Cons k ks)
    then have k: "0 \<le> ?t k" "?t k \<le> 1800"
      using bound by auto
    moreover have "wrap64 (a + ?t k) = a + ?t k"
      using Cons.prems k by (intro wrap64_id) (simp add: isInt64_def MaxInt_def MinInt_def)
    ultimately show ?case
      using Cons.IH [of "a + ?t k"] Cons.prems by simp
  qed simp
  from this [of hs 0] show ?thesis
    using assms(2) by (simp add: timeoutSum_def)
qed

lemma validated_hooks:
  assumes "validateHooksConfig e c = []" "rcHooks c = Some hooks"
  shows "(\<forall>h \<in> set (hoPreRun hooks) \<union> set (hoPostRun hooks).
           0 \<le> hkTimeoutSeconds h \<and> hkTimeoutSeconds h \<le> MaxHookTimeoutSeconds)
    \<and> (\<Sum>h\<leftarrow>hoPostRun hooks. EffectiveHookTimeout (HookConfig.truncate h)) \<le> MaxHookTimeoutSeconds"
proof -
  have each: "0 \<le> hkTimeoutSeconds h \<and> hkTimeoutSeconds h \<le> MaxHookTimeoutSeconds"
    if h: "h \<in> set (hoPreRun hooks) \<union> set (hoPostRun hooks)" for h
  proof -
    have "\<exists>i. validateHookConfig e (subAt ''hooks.preRun'' i) h False = []
        \<or> validateHookConfig e (subAt ''hooks.postRun'' i) h True = []"
      using assms h by (auto simp: validateHooksConfig_def dest!: eachAt_memberD)
    then show ?thesis
      by (auto simp: validateHookConfig_def)
  qed
  moreover have "timeoutSum (hoPostRun hooks) \<le> MaxHookTimeoutSeconds" "length (hoPostRun hooks) \<le> 32"
    using assms by (auto simp: validateHooksConfig_def)
  ultimately show ?thesis
    using timeoutSum_exact [of "hoPostRun hooks"] by simp
qed

text \<open>
  C13: Every run that validation accepts is bounded: it takes between 1 and 100 turns and has a wall-clock timeout of
  at most an hour, its token budget and follow-up grace are capped, its temperature is a number between 0 and
  2, and its post-run hooks, with their defaults, together take at most half an hour.
\<close>

theorem validated_limits:
  assumes ok: "ValidateRunConfig e c = (c', [])"
  shows "0 < rcMaxTurns c' \<and> rcMaxTurns c' \<le> 100
    \<and> (\<exists>t. rcTimeout c' = Some t \<and> 0 < t \<and> t \<le> 3600)
    \<and> (\<forall>b. rcMaxTokenBudget c' = Some b \<longrightarrow> b \<le> 50000000)
    \<and> (\<forall>g. rcFollowUpGrace c' = Some g \<longrightarrow> g \<le> 3600)
    \<and> (\<forall>t. rcTemperature c' = Some t \<longrightarrow> (\<exists>m x. t = Finite m x) \<and> \<not> fltLess t 0 \<and> \<not> fltGreater t 2)
    \<and> 5 \<le> EffectiveHeartbeatSeconds c' \<and> EffectiveHeartbeatSeconds c' \<le> 600
    \<and> (\<forall>hooks. rcHooks c' = Some hooks \<longrightarrow>
         (\<Sum>h\<leftarrow>hoPostRun hooks. EffectiveHookTimeout (HookConfig.truncate h)) \<le> 1800)"
proof (rule validated [OF ok])
  fix d :: RunConfig and t s b
  let ?d = "d\<lparr>rcTraceEmitter := t, rcResultSink := s\<rparr>"
  assume c': "c' = d\<lparr>rcTraceEmitter := t, rcResultSink := s, rcProvider := (rcProvider d)\<lparr>pvBatch := b\<rparr>\<rparr>"
    and limits: "limitErrors ?d = []" and safe: "safetyErrors e ?d = []"
  have hooks: "(\<Sum>h\<leftarrow>hoPostRun hooks. EffectiveHookTimeout (HookConfig.truncate h)) \<le> 1800" if "rcHooks d = Some hooks" for hooks
    using validated_hooks [of e ?d hooks] safe that by (simp add: safetyErrors_def MaxHookTimeoutSeconds_def)
  have temp: "(\<exists>m x. v = Finite m x) \<and> \<not> fltLess v 0 \<and> \<not> fltGreater v 2" if "rcTemperature d = Some v" for v
    using limits that by (cases v) (auto simp: limitErrors_def maxTemperature_def simp del: fltLess.simps fltGreater.simps)
  have beat: "5 \<le> EffectiveHeartbeatSeconds d \<and> EffectiveHeartbeatSeconds d \<le> 600"
    using limits by (auto simp: limitErrors_def EffectiveHeartbeatSeconds_def DefaultHeartbeatSeconds_def
        minHeartbeatSeconds_def maxHeartbeatSeconds_def)
  have turns: "0 < rcMaxTurns d \<and> rcMaxTurns d \<le> 100"
    using limits by (simp add: limitErrors_def absoluteMaxTurns_def)
  have timeout: "\<exists>v. rcTimeout d = Some v \<and> 0 < v \<and> v \<le> 3600"
    using limits by (auto simp: limitErrors_def MaxRunTimeoutSeconds_def split: option.splits)
  have "\<forall>v. rcMaxTokenBudget d = Some v \<longrightarrow> v \<le> 50000000" "\<forall>g. rcFollowUpGrace d = Some g \<longrightarrow> g \<le> 3600"
    using limits by (auto simp: limitErrors_def maxTokenBudget_def maxFollowUpGrace_def)
  moreover have "EffectiveHeartbeatSeconds c' = EffectiveHeartbeatSeconds d"
    by (simp add: c' EffectiveHeartbeatSeconds_def)
  ultimately show ?thesis
    using hooks temp beat turns timeout by (simp add: c')
qed

section \<open>Providers\<close>

lemma namedProviders_ok:
  assumes "fst (namedProviders c ps known) = []"
  shows "(\<forall>(name, p) \<in> set ps. name \<noteq> [] \<and> name \<notin> set known \<and> validateNamedProvider c name p = [])
    \<and> set (snd (namedProviders c ps known)) = set known \<union> fst ` set ps"
  using assms
proof (induction c ps known rule: namedProviders.induct)
  case (2 c name p rest known)
  then have "name \<noteq> []" "name \<notin> set known" "validateNamedProvider c name p = []"
    "fst (namedProviders c rest (name # known)) = []"
    by (auto simp: split: if_splits prod.splits)
  then show ?case
    using "2.IH"(3) by (auto split: prod.splits)
qed simp

text \<open>What the checks of one provider leave: a federated token reaches only the endpoint it was issued for.\<close>

definition credentialFits :: "ProviderConfig \<Rightarrow> bool" where
  "credentialFits p =
     ((HasPrefix (credentialType p) ''gcp-'' \<longrightarrow> pvType p = ''gemini'')
      \<and> (credentialType p = ''anthropic-wif'' \<longrightarrow> pvType p = ''anthropic'')
      \<and> (credentialType p \<in> {''azure-workload-identity'', ''openai-wif''} \<longrightarrow>
           pvType p \<in> {''openai-compatible'', ''openai-responses''})
      \<and> (credentialType p \<in> {''anthropic-wif'', ''azure-workload-identity'', ''openai-wif''} \<longrightarrow> pvAPIKeyRef p = []))"

definition retryBounded :: "ProviderConfig \<Rightarrow> bool" where
  "retryBounded p =
     (case pvRetry p of
        None \<Rightarrow> False
      | Some r \<Rightarrow>
          1 \<le> MaxAttempts r \<and> MaxAttempts r \<le> 5 \<and> 0 \<le> InitialDelayMs r \<and> InitialDelayMs r \<le> MaxDelayMs r
          \<and> 0 < MaxDelayMs r \<and> MaxDelayMs r \<le> 60000 \<and> MaxDelayMs r \<le> WallClockBudgetMs r \<and> WallClockBudgetMs r \<le> 300000)"

lemma credentialFits_pvBatch [simp]: "credentialFits (p\<lparr>pvBatch := b\<rparr>) = credentialFits p"
  by (simp add: credentialFits_def credentialType_def)

lemma retryBounded_pvBatch [simp]: "retryBounded (p\<lparr>pvBatch := b\<rparr>) = retryBounded p"
  by (simp add: retryBounded_def)

lemma credentialFits_ok:
  assumes "validateOneProvider path p = []"
  shows "credentialFits p"
proof (cases "pvCredential p")
  case (Some cr)
  have gcp: "HasPrefix (crType cr) ''gcp-'' \<longrightarrow> pvType p = ''gemini''"
    and wif: "crType cr = ''anthropic-wif'' \<longrightarrow> pvType p = ''anthropic'' \<and> pvAPIKeyRef p = []"
    using assms Some by (auto simp: validateOneProvider_def validateAnthropicProviderFields_def split: if_splits)
  have azure: "crType cr = ''azure-workload-identity'' \<longrightarrow>
      pvType p \<in> {''openai-compatible'', ''openai-responses''} \<and> pvAPIKeyRef p = []"
    using assms Some by (auto simp: validateOneProvider_def validateAzureWIFCrossField_def validateOpenAIFederation_def
        credentialType_def)
  have openai: "crType cr = ''openai-wif'' \<longrightarrow>
      pvType p \<in> {''openai-compatible'', ''openai-responses''} \<and> pvAPIKeyRef p = []"
    using assms Some by (auto simp: validateOneProvider_def validateOpenAIWIFCrossField_def validateOpenAIFederation_def
        credentialType_def)
  show ?thesis
    using gcp wif azure openai Some unfolding credentialFits_def credentialType_def by auto
qed (simp add: credentialFits_def credentialType_def HasPrefix_def)

lemma retryBounded_ok:
  assumes "validateOneProvider path p = []" "pvRetry p \<noteq> None"
  shows "retryBounded p"
  using assms
  by (auto simp: validateOneProvider_def validateProviderRetryConfig_def retryBounded_def maxProviderRetryMaxAttempts_def
      maxProviderRetryMaxDelayMs_def maxProviderRetryWallClockBudgetMs_def)

lemma defaulted_retry:
  "d = applyDefaults c \<Longrightarrow> pvRetry (rcProvider d) \<noteq> None \<and> (\<forall>(name, p) \<in> set (rcProviders d). pvRetry p \<noteq> None)"
  by (auto simp: applyDefaults_def applyProviderRetryDefaults_def defaultProviderRetry_def)

lemma validateProviderConfigs_top:
  assumes "validateProviderConfigs e c = []"
  shows "validateOneProvider ''provider'' (rcProvider c) = []"
    and "validateReplayProviderFields ''provider'' (rcProvider c) = []"
    and "fst (namedProviders c (rcProviders c) (if pvType (rcProvider c) = [] then [] else [pvType (rcProvider c)])) = []"
proof -
  obtain errs known where
    named: "namedProviders c (rcProviders c) (if pvType (rcProvider c) = [] then [] else [pvType (rcProvider c)]) = (errs, known)"
    by (rule prod.exhaust)
  show "validateOneProvider ''provider'' (rcProvider c) = []"
    and "validateReplayProviderFields ''provider'' (rcProvider c) = []"
    and "fst (namedProviders c (rcProviders c) (if pvType (rcProvider c) = [] then [] else [pvType (rcProvider c)])) = []"
    using assms unfolding validateProviderConfigs_def Let_def named prod.case append_is_Nil_conv by simp_all
qed

lemma validateAPIKeyRef_ok: "validateAPIKeyRef path ref = [] \<longleftrightarrow> ref = [] \<or> HasPrefix ref ''secret://''"
  by (auto simp: validateAPIKeyRef_def)


section \<open>Executors and models\<close>

text \<open>
  A validated run without an execution surface asks for none: with the none executor no enabled tool needs the
  file system or a shell, there are no hooks and no post-edit checks, no guidance file is read, git is left alone,
  and nothing of the workspace is configured or exported.
\<close>

theorem validated_none_executor:
  assumes ok: "ValidateRunConfig e c = (c', [])" and none: "exType (rcExecutor c') = ''none''"
  shows "(\<forall>tool \<in> set (tlBuiltIn (rcTools c')). \<not> needsExecutor tool)
    \<and> (\<forall>hooks. rcHooks c' = Some hooks \<longrightarrow> hoPreRun hooks = [] \<and> hoPostRun hooks = [])
    \<and> tlPostEdit (rcTools c') = [] \<and> rcRepositoryGuidance c' = None \<and> rcGitStrategy c' \<noteq> ''deterministic''
    \<and> exNetwork (rcExecutor c') = None \<and> exWorkspace (rcExecutor c') = [] \<and> exWorkspaceExportTo (rcExecutor c') = []"
proof (rule validated [OF ok])
  fix d :: RunConfig and t s b
  let ?d = "d\<lparr>rcTraceEmitter := t, rcResultSink := s\<rparr>"
  assume c': "c' = d\<lparr>rcTraceEmitter := t, rcResultSink := s, rcProvider := (rcProvider d)\<lparr>pvBatch := b\<rparr>\<rparr>"
    and exec: "executorErrors e d = []" and policy: "policyErrors d = []"
    and tools: "toolErrors e ?d = []" and safe: "safetyErrors e ?d = []"
  have type: "exType (rcExecutor d) = ''none''"
    using none by (simp add: c')
  have cannot: "\<not> ExecutorCanExec ''none''" "\<not> ExecutorCanArchiveWorkspace ''none''"
    by (simp_all add: ExecutorCanExec_def executorExecCapable_def ExecutorCanArchiveWorkspace_def executorWorkspaceArchiver_def)
  have "validateNoneExecutor (rcExecutor d) = []" "validateGitStrategyExecutorCompat (rcGitStrategy d) (exType (rcExecutor d)) = []"
    using exec policy by (simp_all add: executorErrors_def policyErrors_def Let_def)
  then have executor: "exNetwork (rcExecutor d) = None" "exWorkspace (rcExecutor d) = []" "rcGitStrategy d \<noteq> ''deterministic''"
    using cannot by (simp_all add: validateNoneExecutor_def validateGitStrategyExecutorCompat_def type Let_def)
  have "validateNoneExecutorTools ''none'' (tlBuiltIn (rcTools d)) = []" "validatePostEditChecks e ?d = []"
    "validateExecutorWorkspaceExportTo (rcExecutor d) = []"
    using tools by (simp_all add: toolErrors_def Let_def type)
  then have tool: "\<forall>tool \<in> set (tlBuiltIn (rcTools d)). \<not> needsExecutor tool" "tlPostEdit (rcTools d) = []"
    "exWorkspaceExportTo (rcExecutor d) = []"
    using cannot by (auto simp: validateNoneExecutorTools_def validatePostEditChecks_def
        validateExecutorWorkspaceExportTo_def type Let_def split: if_splits)
  have "validateHooksConfig e ?d = []" "validateRepositoryGuidanceConfig ?d = []"
    using safe by (simp_all add: safetyErrors_def)
  then have "\<forall>hooks. rcHooks d = Some hooks \<longrightarrow> hoPreRun hooks = [] \<and> hoPostRun hooks = []" "rcRepositoryGuidance d = None"
    using cannot by (auto simp: validateHooksConfig_def validateRepositoryGuidanceConfig_def type split: option.splits)
  then show ?thesis
    using executor tool by (simp add: c')
qed

text \<open>The name a routed model's provider has, and the names the run knows.\<close>

definition knownProvider :: "RunConfig \<Rightarrow> string \<Rightarrow> bool" where
  "knownProvider c name = (name = [] \<or> name = pvType (rcProvider c) \<or> name \<in> fst ` set (rcProviders c))"

lemma validateProviderConfigs_refs:
  assumes "validateProviderConfigs e c = []" "pvType (rcProvider c) \<noteq> []"
  shows "\<forall>(label, provider, model) \<in> set (routedModels c). knownProvider c provider"
    and "knownProvider c (moCheapProvider (rcModelRouter c))" "knownProvider c (moExpensiveProvider (rcModelRouter c))"
    and "validateGeminiModelName c = []"
proof -
  obtain errs known where named: "namedProviders c (rcProviders c) [pvType (rcProvider c)] = (errs, known)"
    by (rule prod.exhaust)
  note parts = assms(1) [unfolded validateProviderConfigs_def Let_def if_not_P [OF assms(2)] named prod.case append_is_Nil_conv]
  have "set known = insert (pvType (rcProvider c)) (fst ` set (rcProviders c))"
    using namedProviders_ok [of c "rcProviders c" "[pvType (rcProvider c)]"] parts by (simp add: named)
  then have ref: "checkProviderRef known path name = [] \<Longrightarrow> knownProvider c name" for path name
    by (auto simp: checkProviderRef_def knownProvider_def)
  show "knownProvider c (moCheapProvider (rcModelRouter c))" "knownProvider c (moExpensiveProvider (rcModelRouter c))"
    "validateGeminiModelName c = []"
    using parts ref by blast+
  have main: "knownProvider c (moProvider (rcModelRouter c))"
    using parts ref by blast
  have "knownProvider c provider" if m: "m \<in> set (moModeModels (rcModelRouter c))" and "modeModel c m = (label, provider, model)" for m label provider model
  proof (cases "Cut (snd m) (CHR ''/'')")
    case None
    then show ?thesis
      using that main by (auto simp: modeModel_def split: prod.splits)
  next
    case (Some pm)
    have "checkProviderRef known (subAt ''modelRouter.modeModels'' (fst m)) (fst pm) = []"
      using parts m Some by (cases m; cases pm) (fastforce split: prod.splits option.splits)
    then show ?thesis
      using that Some ref by (auto simp: modeModel_def split: prod.splits)
  qed
  then show "\<forall>(label, provider, model) \<in> set (routedModels c). knownProvider c provider"
    using main by (auto simp: routedModels_def)
qed


section \<open>A configuration that passes\<close>

lemma sample_valid: "snd (ValidateRunConfig sampleCfgEnv sampleRunConfig) = []"
  by code_simp

definition sampleResult :: RunConfig where
  "sampleResult = fst (ValidateRunConfig sampleCfgEnv sampleRunConfig)"

lemma sample_ok: "ValidateRunConfig sampleCfgEnv sampleRunConfig = (sampleResult, [])"
  using sample_valid by (simp add: sampleResult_def prod_eq_iff)

definition noneConfig :: RunConfig where
  "noneConfig =
     sampleRunConfig\<lparr>rcExecutor := sampleExecutor\<lparr>exType := ''none''\<rparr>, rcHooks := None,
       rcTools := sampleTools\<lparr>tlBuiltIn := [''web_fetch'']\<rparr>\<rparr>"

lemma none_valid: "snd (ValidateRunConfig sampleCfgEnv noneConfig) = []"
  by code_simp

text \<open>
  The models of the dynamic router are not among those checked: a Gemini provider may be given another vendor's
  model, or one that climbs out of its place in the request's path.
\<close>

definition dynamicConfig :: RunConfig where
  "dynamicConfig =
     sampleRunConfig\<lparr>
       rcProviders := [(''second'', sampleProvider\<lparr>pvType := ''gemini'', pvAPIKeyRef := [], pvGCPProject := ''project1'',
         pvGCPLocation := ''global''\<rparr>)],
       rcModelRouter := \<lparr>moType = ''dynamic'', moProvider = [], moModel = [], moModeModels = [], moCheapProvider = ''second'',
         moCheapModel = ''../../evil'', moExpensiveProvider = ''second'', moExpensiveModel = ''claude-x''\<rparr>\<rparr>"

lemma dynamic_models_unchecked:
  "validateProviderConfigs sampleCfgEnv (applyDefaults dynamicConfig) = []
   \<and> providerIs ''gemini'' dynamicConfig (moCheapProvider (rcModelRouter dynamicConfig))
   \<and> checkGeminiModel [] (moCheapModel (rcModelRouter dynamicConfig)) \<noteq> []
   \<and> checkGeminiModel [] (moExpensiveModel (rcModelRouter dynamicConfig)) \<noteq> []"
  by code_simp

theorem validated_read_only_witness:
  "ppType (rcPermissionPolicy sampleResult) \<in> {''deny-all'', ''deny-side-effects'', ''ask-upstream'', ''policy-engine''}
   \<and> tlBuiltIn (rcTools sampleResult) \<noteq> []"
proof -
  have "rcMode sampleRunConfig \<in> set readOnlyModes"
    by code_simp
  then show ?thesis
    using validated_read_only [OF sample_ok] by simp
qed

theorem validated_rule_of_two_witness:
  "\<not> (ruleOfTwoUntrustedInput sampleResult \<and> ruleOfTwoSensitiveData sampleResult \<and> ruleOfTwoExternalComm sampleResult)
   \<or> ppType (rcPermissionPolicy sampleResult) = ''ask-upstream'' \<or> ruleOfTwoWaived sampleResult"
  by (rule validated_rule_of_two [OF sample_ok])

theorem validated_limits_witness: "0 < rcMaxTurns sampleResult \<and> rcMaxTurns sampleResult \<le> 100"
  using validated_limits [OF sample_ok] by simp


theorem validated_none_executor_witness:
  "\<forall>tool \<in> set (tlBuiltIn (rcTools (fst (ValidateRunConfig sampleCfgEnv noneConfig)))). \<not> needsExecutor tool"
proof -
  have ok: "ValidateRunConfig sampleCfgEnv noneConfig = (fst (ValidateRunConfig sampleCfgEnv noneConfig), [])"
    using none_valid by (simp add: prod_eq_iff)
  have "exType (rcExecutor (fst (ValidateRunConfig sampleCfgEnv noneConfig))) = ''none''"
    by (simp add: ValidateRunConfig_executor noneConfig_def)
  from validated_none_executor [OF ok this] show ?thesis
    by blast
qed


end
