(* ===== verification/Config_Revalidation.thy ===== *)
theory Config_Revalidation
  imports Config_Validation
begin

text \<open>
  Validating twice. The command line validates a configuration and the factory validates the one it left
  behind, so what passed once must pass again, unchanged. It does, with one exception: the check of the result
  sink's object prefix bounds it before the slash that normalisation appends.
\<close>

section \<open>The steps that change the configuration\<close>

lemma applyDefaults_settled:
  assumes "c = applyDefaults c0"
  shows "applyDefaults (c\<lparr>rcTraceEmitter := t, rcResultSink := s, rcProvider := (rcProvider c)\<lparr>pvBatch := b\<rparr>\<rparr>)
    = c\<lparr>rcTraceEmitter := t, rcResultSink := s, rcProvider := (rcProvider c)\<lparr>pvBatch := b\<rparr>\<rparr>"
proof -
  have scanner: "rcCodeScanner c \<noteq> None" and edit: "esType (rcEditStrategy c) \<noteq> []"
    and policy: "ppType (rcPermissionPolicy c) = [] \<longrightarrow> rcMode c \<notin> set readOnlyModes"
    unfolding assms by (auto simp: applyDefaults_def applyProviderRetryDefaults_def applyPermissionPolicyDefault_def
        applyEditStrategyDefault_def applyCodeScannerDefault_def split: option.split)
  have retry: "defaultProviderRetry (rcProvider c) = rcProvider c"
    and named: "map (\<lambda>(name, p). (name, defaultProviderRetry p)) (rcProviders c) = rcProviders c"
    unfolding assms by (simp_all add: applyDefaults_def applyProviderRetryDefaults_def comp_def case_prod_unfold)
  have batch: "defaultProviderRetry ((rcProvider c)\<lparr>pvBatch := b\<rparr>) = (rcProvider c)\<lparr>pvBatch := b\<rparr>"
  proof -
    have "defaultProviderRetry ((rcProvider c)\<lparr>pvBatch := b\<rparr>) = (defaultProviderRetry (rcProvider c))\<lparr>pvBatch := b\<rparr>"
      by (simp add: defaultProviderRetry_def)
    then show ?thesis
      by (simp add: retry)
  qed
  obtain sc where sc: "rcCodeScanner c = Some sc"
    using scanner by blast
  show ?thesis
    using edit policy named batch
    by (auto simp: applyDefaults_def applyProviderRetryDefaults_def applyPermissionPolicyDefault_def
        applyEditStrategyDefault_def applyCodeScannerDefault_def sc)
qed

lemma emitter_prefix [simp]:
  "validateOtelFields (c\<lparr>teObjectPrefix := p\<rparr>) = validateOtelFields c"
  "validateTraceEmitterPlatform e (c\<lparr>teObjectPrefix := p\<rparr>) = validateTraceEmitterPlatform e c"
  "effectiveProtocol (c\<lparr>teObjectPrefix := p\<rparr>) = effectiveProtocol c"
  "validateGCSEmitter e (c\<lparr>teObjectPrefix := endInSlash (teObjectPrefix c)\<rparr>) = validateGCSEmitter e c"
  by (simp_all add: validateOtelFields_def validateTraceEmitterPlatform_def effectiveProtocol_def validateGCSEmitter_def)

lemma emitter_again:
  assumes "validateTraceEmitterProtocolAndHeaders e c = (c', errs)"
  shows "validateTraceEmitterProtocolAndHeaders e c' = (c', errs)"
proof (cases "teType c = ''gcs''")
  case True
  have c': "c' = c\<lparr>teObjectPrefix := endInSlash (teObjectPrefix c)\<rparr>"
    using assms True by (simp add: validateTraceEmitterProtocolAndHeaders_def)
  have "snd (validateTraceEmitterProtocolAndHeaders e c') = snd (validateTraceEmitterProtocolAndHeaders e c)"
    by (simp only: validateTraceEmitterProtocolAndHeaders_def snd_conv c' emitter_prefix) simp
  moreover have "fst (validateTraceEmitterProtocolAndHeaders e c') = c'"
    using True by (simp add: validateTraceEmitterProtocolAndHeaders_def c')
  ultimately show ?thesis
    using assms by (metis prod.collapse snd_conv)
next
  case False
  then have "c' = c"
    using assms by (simp add: validateTraceEmitterProtocolAndHeaders_def)
  then show ?thesis
    using assms by simp
qed

lemma IsRemote_prefix [simp]: "IsRemote (c\<lparr>rsObjectPrefix := p\<rparr>) = IsRemote c"
  by (simp add: IsRemote_def)

lemma GCSSink_again:
  assumes "validateGCSResultSink c = (c', [])" "len (rsObjectPrefix c') \<le> maxResultObjectPrefixBytes"
  shows "validateGCSResultSink c' = (c', [])"
  using assms
  by (auto simp: validateGCSResultSink_def Let_def ValidString_endInSlash control_endInSlash split: if_splits)

lemma sink_again:
  assumes "validateResultSinkConfig e r = (r', [])"
    and "\<And>s. r' = Some s \<Longrightarrow> rsType s = ''gcs'' \<Longrightarrow> len (rsObjectPrefix s) \<le> maxResultObjectPrefixBytes"
  shows "validateResultSinkConfig e r' = (r', [])"
proof (cases "r = None \<or> rsType (the r) \<noteq> ''gcs''")
  case True
  then have "r' = r"
    using assms(1) by (auto simp: validateResultSinkConfig_def Let_def split: option.splits if_splits prod.splits)
  then show ?thesis
    using assms(1) by simp
next
  case False
  then obtain c where r: "r = Some c" and gcs: "rsType c = ''gcs''"
    by auto
  obtain c' errs where adapter: "validateGCSResultSink c = (c', errs)"
    by (rule prod.exhaust)
  have r': "r' = Some c'" and errs: "errs = []"
    using assms(1) adapter gcs by (auto simp: r validateResultSinkConfig_def validResultSinkTypes_def Let_def)
  have c': "c' = c\<lparr>rsObjectPrefix := endInSlash (rsObjectPrefix c)\<rparr>"
    using adapter by (auto simp: validateGCSResultSink_def Let_def endInSlash_def split: if_splits)
  have "validateGCSResultSink c' = (c', [])"
    using GCSSink_again [of c c'] adapter errs assms(2) [OF r'] gcs by (simp add: c')
  then show ?thesis
    using assms(1) adapter gcs errs
    by (simp add: r r' validateResultSinkConfig_def validResultSinkTypes_def Let_def c' split: option.splits if_splits)
qed

lemma batch_again:
  assumes "validateBatchConfig c = (c', [])"
  shows "validateBatchConfig c' = (c', [])"
proof (cases "pvBatch (rcProvider c)")
  case None
  then show ?thesis
    using assms by (auto simp: validateBatchConfig_def)
next
  case (Some b)
  show ?thesis
  proof (cases "baEnabled b")
    case False
    then have "c' = c"
      using assms Some by (simp add: validateBatchConfig_def Let_def)
    then show ?thesis
      using assms by simp
  next
    case True
    let ?b = "batchWait c b"
    have c': "c' = c\<lparr>rcProvider := (rcProvider c)\<lparr>pvBatch := Some ?b\<rparr>\<rparr>"
      using assms Some True by (simp add: validateBatchConfig_def Let_def)
    have same: "baEnabled ?b = baEnabled b" "baHarnessSidePolling ?b = baHarnessSidePolling b"
      "baFallbackOnTimeout ?b = baFallbackOnTimeout b" "baCancelBundleOnRunCancel ?b = baCancelBundleOnRunCancel b"
      "baAllowInteractiveModes ?b = baAllowInteractiveModes b"
      by (simp_all add: batchWait_def)
    have bound: "batchTimeoutBound c' = batchTimeoutBound c"
      by (simp add: c' batchTimeoutBound_def)
    then have wait: "batchWait c' ?b = ?b"
      by (simp add: batchWait_def)
    have in_range: "\<not> (batchTimeoutBound c > 0
        \<and> (case baMaxWaitSeconds ?b of None \<Rightarrow> False | Some w \<Rightarrow> w \<le> 0 \<or> w > batchTimeoutBound c))"
      using assms Some True by (auto simp: validateBatchConfig_def batchWait_def Let_def split: option.splits)
    have cred: "credentialType (rcProvider c') = credentialType (rcProvider c)"
      by (simp add: c' credentialType_def)
    have fields: "rcTransport c' = rcTransport c" "rcMode c' = rcMode c" "pvType (rcProvider c') = pvType (rcProvider c)"
      "pvBatch (rcProvider c') = Some ?b" "c'\<lparr>rcProvider := (rcProvider c')\<lparr>pvBatch := Some ?b\<rparr>\<rparr> = c'"
      by (simp_all add: c')
    show ?thesis
      using assms Some True in_range
      unfolding validateBatchConfig_def Let_def fields option.case bound wait cred same
      by (simp add: Let_def)
  qed
qed

lemma ValidateRunConfig_sink:
  "rcResultSink (fst (ValidateRunConfig e c)) = fst (validateResultSinkConfig e (rcResultSink c))"
proof -
  obtain b where "fst (validateBatchConfig (normalised e (applyDefaults c)))
      = (normalised e (applyDefaults c))\<lparr>rcProvider := (rcProvider (normalised e (applyDefaults c)))\<lparr>pvBatch := b\<rparr>\<rparr>"
    using batch_fst by blast
  moreover have "fst (ValidateRunConfig e c) = fst (validateBatchConfig (normalised e (applyDefaults c)))"
    by (simp add: ValidateRunConfig_def normalised_def Let_def split: prod.split)
  moreover have "rcResultSink (applyDefaults c) = rcResultSink c"
    by (simp add: applyDefaults_def applyProviderRetryDefaults_def applyPermissionPolicyDefault_def
        applyEditStrategyDefault_def applyCodeScannerDefault_def split: option.split)
  ultimately show ?thesis
    by (simp add: normalised_def Let_def)
qed

section \<open>Checks do not read what changes\<close>

lemma namedProviders_same_type:
  "pvType (rcProvider c') = pvType (rcProvider c) \<Longrightarrow> namedProviders c' ps known = namedProviders c ps known"
proof (induction c' ps known rule: namedProviders.induct)
  case (2 c' name p rest known)
  have "validateNamedProvider c' name p = validateNamedProvider c name p"
    using "2.prems" by (simp add: validateNamedProvider_def)
  then show ?case
    using 2 by simp
qed simp

lemma models_same_type:
  fixes p :: ProviderConfig
  assumes "pvType p = pvType (rcProvider c)"
  shows "providerIs k (c\<lparr>rcProvider := p\<rparr>) = providerIs k c"
    and "routedModels (c\<lparr>rcProvider := p\<rparr>) = routedModels c"
    and "resolveProviderType (c\<lparr>rcProvider := p\<rparr>) = resolveProviderType c"
  using assms
  by (simp_all add: providerIs_def routedModels_def modeModel_def resolveProviderType_def fun_eq_iff
      split: option.split prod.split)

lemma validateOneProvider_pvBatch [simp]: "validateOneProvider path (p\<lparr>pvBatch := b\<rparr>) = validateOneProvider path p"
proof -
  have "validateAnthropicProviderFields path (p\<lparr>pvBatch := b\<rparr>) = validateAnthropicProviderFields path p"
    by (simp add: validateAnthropicProviderFields_def split: option.split)
  moreover have "validateOpenAIFederation k path (p\<lparr>pvBatch := b\<rparr>) = validateOpenAIFederation k path p" for k
    by (simp add: validateOpenAIFederation_def credentialType_def)
  moreover have "validateEndpointProfile q (p\<lparr>pvBatch := b\<rparr>) = validateEndpointProfile q p" for q
    by (simp add: validateEndpointProfile_def Let_def)
  ultimately show ?thesis
    by (simp add: validateOneProvider_def validateAzureWIFCrossField_def validateOpenAIWIFCrossField_def)
qed

lemma providerFields_pvBatch [simp]:
  "validateOpenAIAuthFields path (p\<lparr>pvBatch := b\<rparr>) = validateOpenAIAuthFields path p"
  "validateGeminiProviderFields path (p\<lparr>pvBatch := b\<rparr>) = validateGeminiProviderFields path p"
  "validateReplayProviderFields path (p\<lparr>pvBatch := b\<rparr>) = validateReplayProviderFields path p"
  by (simp_all add: validateOpenAIAuthFields_def validateGeminiProviderFields_def validateReplayProviderFields_def
      credentialType_def)

lemma validateProviderConfigs_pvBatch:
  "validateProviderConfigs e (c\<lparr>rcProvider := (rcProvider c)\<lparr>pvBatch := b\<rparr>\<rparr>) = validateProviderConfigs e c"
proof -
  let ?c = "c\<lparr>rcProvider := (rcProvider c)\<lparr>pvBatch := b\<rparr>\<rparr>"
  have named: "namedProviders ?c ps k = namedProviders c ps k" for ps k
    by (rule namedProviders_same_type) simp
  have models: "validateGeminiModelName ?c = validateGeminiModelName c" "validateBedrockModelID ?c = validateBedrockModelID c"
    "validateProviderModelLabel e ?c = validateProviderModelLabel e c"
    by (simp_all add: validateGeminiModelName_def validateBedrockModelID_def validateProviderModelLabel_def models_same_type)
  show ?thesis
    by (simp add: validateProviderConfigs_def Let_def named models split: prod.split)
qed

text \<open>The checks of tools, limits and safety read nothing that batch mode fills in.\<close>

lemma checks_pvBatch:
  fixes c :: RunConfig and b :: "BatchProviderConfig option"
  defines "c' \<equiv> c\<lparr>rcProvider := (rcProvider c)\<lparr>pvBatch := b\<rparr>\<rparr>"
  shows "toolErrors e c' = toolErrors e c" and "readOnlyErrors c' = readOnlyErrors c" and "limitErrors c' = limitErrors c"
    and "safetyErrors e c' = safetyErrors e c"
proof -
  have "validateReplayAuxiliaryCalls c' = validateReplayAuxiliaryCalls c" "validateAPIKeyRefs c' = validateAPIKeyRefs c"
    "validateControlPlaneTools e c' = validateControlPlaneTools e c" "validatePostEditChecks e c' = validatePostEditChecks e c"
    by (simp_all add: c'_def validateReplayAuxiliaryCalls_def validateAPIKeyRefs_def validateControlPlaneTools_def
        validatePostEditChecks_def Let_def)
  then show "toolErrors e c' = toolErrors e c"
    using validateProviderConfigs_pvBatch [where e = e and c = c and b = b] unfolding toolErrors_def by (simp add: c'_def)
  show "readOnlyErrors c' = readOnlyErrors c"
    by (simp add: c'_def readOnlyErrors_def)
  show "limitErrors c' = limitErrors c"
    by (simp add: c'_def limitErrors_def)
  have "ruleOfTwoSensitiveData c' = ruleOfTwoSensitiveData c"
    by (simp add: c'_def ruleOfTwoSensitiveData_def)
  moreover have "validateRuleOfTwo c' = validateRuleOfTwo c"
    by (simp add: c'_def validateRuleOfTwo_def ruleOfTwoUntrustedInput_def ruleOfTwoSensitiveData_def
        ruleOfTwoExternalComm_def ruleOfTwoWaived_def)
  moreover have "validateHooksConfig e c' = validateHooksConfig e c"
    "validateRepositoryGuidanceConfig c' = validateRepositoryGuidanceConfig c"
    by (simp_all add: c'_def validateHooksConfig_def validateRepositoryGuidanceConfig_def split: option.split)
  moreover have "validateRuleOfTwoRuntime c' = validateRuleOfTwoRuntime c"
    using \<open>ruleOfTwoSensitiveData c' = ruleOfTwoSensitiveData c\<close>
    by (simp add: validateRuleOfTwoRuntime_def c'_def split: option.split)
  ultimately show "safetyErrors e c' = safetyErrors e c"
    unfolding safetyErrors_def by (simp add: c'_def)
qed

text \<open>The checks made before normalisation read nothing of the emitter or sink but the emitter's type.\<close>

lemma checks_destinations:
  fixes c :: RunConfig and b :: "BatchProviderConfig option" and s :: "ResultSinkConfig option"
  assumes "teType t = teType (rcTraceEmitter c)"
  defines "c' \<equiv> c\<lparr>rcTraceEmitter := t, rcResultSink := s, rcProvider := (rcProvider c)\<lparr>pvBatch := b\<rparr>\<rparr>"
  shows "identityErrors e c' = identityErrors e c" and "executorErrors e c' = executorErrors e c"
    and "policyErrors c' = policyErrors c"
proof -
  have "validateSandboxIdentity e c' = validateSandboxIdentity e c" "validatePromptBuilderConfig e c' = validatePromptBuilderConfig e c"
    by (simp_all add: c'_def validateSandboxIdentity_def validatePromptBuilderConfig_def Let_def)
  then show "identityErrors e c' = identityErrors e c" and "executorErrors e c' = executorErrors e c"
    by (simp_all add: c'_def identityErrors_def executorErrors_def)
  show "policyErrors c' = policyErrors c"
    using assms(1) by (simp add: c'_def policyErrors_def validatePermissionPolicyRequired_def)
qed

text \<open>
  C12: Validation is stable: a configuration that validation accepted and completed passes validation again and is
  not changed by it, provided its result sink's object prefix, once ended with a slash, is still within the bound.
  Validation completes what it leaves out: defaults, prefixes and the batch wait are fixed points.
\<close>

theorem validation_stable:
  assumes ok: "ValidateRunConfig e c0 = (c', [])"
    and prefix: "\<And>s. rcResultSink c' = Some s \<Longrightarrow> rsType s = ''gcs'' \<Longrightarrow> len (rsObjectPrefix s) \<le> 883"
  shows "ValidateRunConfig e c' = (c', [])"
proof -
  let ?c = "applyDefaults c0"
  note [simp del] = endInSlash_def
  obtain t te where emitter: "validateTraceEmitterProtocolAndHeaders e (rcTraceEmitter ?c) = (t, te)"
    by (rule prod.exhaust)
  obtain s se where sink: "validateResultSinkConfig e (rcResultSink ?c) = (s, se)"
    by (rule prod.exhaust)
  let ?d = "?c\<lparr>rcTraceEmitter := t, rcResultSink := s\<rparr>"
  have d: "normalised e ?c = ?d"
    by (simp add: normalised_def Let_def emitter sink)
  note parts = ok [unfolded ValidateRunConfig_ok Let_def d emitter sink fst_conv snd_conv]
  obtain b where b: "c' = ?c\<lparr>rcTraceEmitter := t, rcResultSink := s, rcProvider := (rcProvider ?c)\<lparr>pvBatch := b\<rparr>\<rparr>"
    using batch_fst [of ?d] parts by auto
  have cd: "c' = ?d\<lparr>rcProvider := (rcProvider ?d)\<lparr>pvBatch := b\<rparr>\<rparr>"
    by (simp add: b)
  have fields: "rcTraceEmitter c' = t" "rcResultSink c' = s"
    by (simp_all add: b)
  have nil: "te = []" "se = []"
    using parts by blast+
  have settled: "applyDefaults c' = c'"
    unfolding b by (rule applyDefaults_settled) simp
  have emitter': "validateTraceEmitterProtocolAndHeaders e (rcTraceEmitter c') = (rcTraceEmitter c', [])"
    using emitter_again [OF emitter] nil by (simp add: fields)
  have sink': "validateResultSinkConfig e (rcResultSink c') = (rcResultSink c', [])"
    using sink_again [of e "rcResultSink ?c" s] sink nil prefix by (simp add: fields maxResultObjectPrefixBytes_def)
  have norm: "normalised e c' = c'"
    by (simp add: normalised_def Let_def emitter' sink')
  have batch: "validateBatchConfig c' = (c', [])"
    using batch_again [of ?d c'] parts by (metis prod.collapse)
  have "teType t = teType (rcTraceEmitter ?c)"
    using emitter by (auto simp: validateTraceEmitterProtocolAndHeaders_def)
  then have early: "identityErrors e c' = []" "executorErrors e c' = []" "policyErrors c' = []"
    using parts checks_destinations [where t = t and c = ?c and s = s and b = b] unfolding b by simp_all
  have late: "toolErrors e c' = []" "readOnlyErrors c' = []" "limitErrors c' = []" "safetyErrors e c' = []"
    using parts checks_pvBatch [where c = ?d and b = b] unfolding cd by simp_all
  show ?thesis
    unfolding ValidateRunConfig_ok Let_def settled norm emitter' sink' batch
    using early late by simp
qed

text \<open>
  The exception: a prefix of exactly the permitted length with no slash at its end is accepted, and the
  configuration it leaves behind is rejected.
\<close>

lemma validation_rejects_its_own_result:
  assumes ok: "ValidateRunConfig e c0 = (c', [])" and sink: "rcResultSink c0 = Some s" "rsType s = ''gcs''"
    and prefix: "len (rsObjectPrefix s) = 883" "\<not> HasSuffix (rsObjectPrefix s) ''/''"
  shows "snd (ValidateRunConfig e c') \<noteq> []"
proof -
  let ?s = "s\<lparr>rsObjectPrefix := rsObjectPrefix s @ ''/''\<rparr>"
  have nonempty: "rsObjectPrefix s \<noteq> []"
    using prefix(1) by auto
  have "fst (validateResultSinkConfig e (Some s)) = Some ?s"
    using sink(2) nonempty prefix(2)
    by (simp add: validateResultSinkConfig_def validResultSinkTypes_def validateGCSResultSink_def Let_def endInSlash_def)
  then have "rcResultSink c' = Some ?s"
    using ValidateRunConfig_sink [of e c0] ok sink by simp
  then have again: "rcResultSink (applyDefaults c') = Some ?s"
    by (simp add: applyDefaults_def applyProviderRetryDefaults_def applyPermissionPolicyDefault_def
        applyEditStrategyDefault_def applyCodeScannerDefault_def split: option.split)
  have "snd (validateResultSinkConfig e (Some ?s)) \<noteq> []"
    using sink(2) prefix(1)
    by (simp add: validateResultSinkConfig_def validResultSinkTypes_def validateGCSResultSink_def Let_def
        maxResultObjectPrefixBytes_def)
  then have "ValidateRunConfig e c' \<noteq> (c'', [])" for c''
    by (simp add: ValidateRunConfig_ok Let_def again)
  then show ?thesis
    by (metis prod.collapse)
qed

lemma decodeRunes_ascii: "decodeRunes (replicate n 97) = replicate n (97, True)"
proof (induction n)
  case (Suc n)
  have "validRune (97 # replicate n 97) = Some (97, 1)"
    by (simp add: validRune.simps)
  then show ?case
    using Suc by (simp add: decodeRunes.simps [of "97 # replicate n 97"])
qed (simp add: decodeRunes.simps)

lemma Split_absent: "c \<notin> set s \<Longrightarrow> Split s c = [s]"
  by (induction s) auto

text \<open>Such a prefix exists: 883 letters pass, and what is left of the sink does not.\<close>

lemma long_prefix_passes_once:
  defines "s \<equiv> sampleSink\<lparr>rsObjectPrefix := replicate 883 (CHR ''a'')\<rparr>"
  shows "snd (validateResultSinkConfig e (Some s)) = []
    \<and> snd (validateResultSinkConfig e (fst (validateResultSinkConfig e (Some s)))) \<noteq> []"
proof -
  let ?p = "replicate 883 (CHR ''a'')"
  have runes: "runes ?p = replicate 883 97" "ValidString ?p"
    using decodeRunes_ascii [of 883] by (simp_all add: runes_def ValidString_def list_all_iff)
  have trim: "TrimByte (CHR ''/'') ?p = ?p"
    by (simp add: TrimByte_def dropWhile_eq_self_iff)
  have dots: "\<not> prefixHasDotDot ?p"
  proof -
    have "Split ?p (CHR ''/'') = [?p]"
      by (rule Split_absent) simp
    moreover have "?p \<noteq> ''..''"
    proof
      assume "?p = ''..''"
      then have "length ?p = length ''..''"
        by (rule arg_cong)
      then show False
        by simp
    qed
    ultimately show ?thesis
      by (simp add: prefixHasDotDot_def trim)
  qed
  have control: "\<not> list_ex IsControl (runes ?p)"
    by (simp add: runes list_ex_iff IsControl_def)
  have slash: "endInSlash ?p = ?p @ ''/''"
    by (simp add: endInSlash_def HasSuffix_def drop_replicate)
  have "gcsBucketNamePattern ''bucket''"
    by code_simp
  then show ?thesis
    using runes(2) dots control
    by (simp add: s_def sampleSink_def validateResultSinkConfig_def validResultSinkTypes_def validateGCSResultSink_def
        Let_def slash maxResultObjectPrefixBytes_def)
qed

theorem validation_stable_witness: "ValidateRunConfig sampleCfgEnv sampleResult = (sampleResult, [])"
proof (rule validation_stable [OF sample_ok])
  fix s
  assume s: "rcResultSink sampleResult = Some s"
  have "rcResultSink sampleResult = fst (validateResultSinkConfig sampleCfgEnv (Some sampleSink))"
    by (simp add: sampleResult_def ValidateRunConfig_sink sampleRunConfig_def)
  also have "\<dots> = Some (sampleSink\<lparr>rsObjectPrefix := ''runs/''\<rparr>)"
    by code_simp
  finally show "len (rsObjectPrefix s) \<le> 883"
    using s by simp
qed

end
