(* ===== verification/Spec2Isabelle.thy ===== *)
theory Spec2Isabelle
  imports Sliding_Window Clear_Results Loop_Fit Offload Loop_Stall Turn_Request Edit_Multi
    Stream_Result Loop_History Rule_Of_Two Permission Guard_Rail Correlator Tool_Dispatch Screening
    Turn_Policy Lazy_Tools Agent_Loop Egress Ssrf Structured_Output Run_Loop Config_Redact Config_Revalidation
begin

text \<open>
  A verification library for stirrup, a harness that runs coding agents (Go, under \<open>src/\<close>).

  \<^bold>\<open>The program.\<close> A run is an agentic loop: it sends a model the conversation so far, reads the answer as a
  stream of events, runs the tools the answer calls, appends their results and asks again, until the
  model ends its turn, a budget is spent or something stops it. Around the loop stand the parts that
  make this safe to leave alone: a context strategy that keeps the request within the model's window,
  a token ledger shared with sub-agents, permission policies and guardrails that screen calls and
  content, a monitor for sensitive data, a stall detector, edit strategies that change files, a lazy
  tool catalogue, and, outside the loop, an egress proxy and an address guard for the network. Package
  \<open>core\<close> composes them; the other packages under \<open>harness/internal\<close> provide them behind interfaces.

  \<^bold>\<open>Layout.\<close> One theory per component, in the order of the imports, each with its data, its operations and its
  lemmas; paths below are under \<open>src/harness/internal\<close> unless they start with \<open>types\<close>.

    \<^item> \<open>Go_Prelude\<close>, \<open>Go_Net\<close>: the part of Go's language and standard library the modelled code uses.
    \<^item> \<open>Messages\<close> (\<open>types/messages.go\<close>, \<open>types/thinking.go\<close>, \<open>types/toolresultwire.go\<close>): conversations, and
      \<open>wf_history\<close>, the shape a provider accepts: every tool result answers a call of the message before it.
    \<^item> \<open>Context_Base\<close>, \<open>Sliding_Window\<close>, \<open>Context_Fit\<close>, \<open>Clear_Results\<close>, \<open>Offload\<close> (\<open>context/\<close>): token estimates, the
      cuts that keep calls with their results, and the strategies. The locale \<open>context_strategy\<close> is what the
      loop relies on; each strategy interprets it.
    \<^item> \<open>Loop_Fit\<close> (\<open>core/contextfit.go\<close>): the last check before a request is sent.
    \<^item> \<open>Token_Ledger\<close> (\<open>core/ledger.go\<close>, \<open>types/runtrace.go\<close>) and \<open>Turn_Request\<close> (\<open>core/turnretry.go\<close>,
      \<open>core/turnrequest.go\<close>): accounting, and the attempts of one request with their retries.
    \<^item> \<open>Stream_Result\<close>, \<open>Loop_History\<close> (\<open>core/types.go\<close>, \<open>core/userinput.go\<close>, \<open>core/outputlimit.go\<close>,
      \<open>core/followuphistory.go\<close>): reading an answer and building the history from it.
    \<^item> \<open>Loop_Stall\<close>, \<open>Turn_Policy\<close>, \<open>Lazy_Tools\<close> (\<open>core/stall.go\<close>, \<open>core/contextbudget.go\<close>, \<open>core/winddown.go\<close>,
      \<open>core/escalation_default.go\<close>, \<open>core/lazytools.go\<close>, \<open>tool/lazy.go\<close>): what the loop decides between turns.
    \<^item> \<open>Rule_Of_Two\<close>, \<open>Permission\<close>, \<open>Guard_Rail\<close>, \<open>Correlator\<close> (\<open>ruleoftwo/\<close>, \<open>permission/\<close>, \<open>guard/\<close>,
      \<open>transport/correlator.go\<close>): the gates, and the matching of asynchronous answers to their requests.
    \<^item> \<open>Tool_Dispatch\<close>, \<open>Screening\<close> (\<open>core/dispatch.go\<close>, \<open>core/loop.go\<close>): one batch of tool calls, and the screening
      of what arrives.
    \<^item> \<open>Agent_Loop\<close> (\<open>core/loop.go\<close>, \<open>core/turnrequest.go\<close>, \<open>core/transcript.go\<close>): \<open>runInnerLoop\<close>, composed from all of
      the above.
    \<^item> \<open>Edit_Diff\<close>, \<open>Edit_Strategies\<close>, \<open>Edit_Udiff\<close>, \<open>Edit_Multi\<close> (\<open>edit/\<close>): file edits. The locale \<open>edit_strategy\<close>
      states that an edit changes at most the file it names; every strategy interprets it.
    \<^item> \<open>Egress\<close>, \<open>Ssrf\<close> (\<open>executor/egressproxy/\<close>, \<open>security/ssrf.go\<close>): what may be reached on the network.
    \<^item> \<open>Structured_Output\<close> (\<open>core/structuredoutput.go\<close>, \<open>core/verification.go\<close>, \<open>types/result.go\<close>): what is kept of the
      answer and of a verifier's verdict.
    \<^item> \<open>Operator_Input\<close> (\<open>security/dynamiccontext.go\<close>, \<open>core/userinput.go\<close>, \<open>core/streamloss.go\<close>): the
      sanitisation of text from the control plane, and the routing of its events, as operations whose every
      sequence is considered.
    \<^item> \<open>Lifecycle_Hooks\<close> (\<open>hook/runner.go\<close>): the commands an operator runs before and after a run.
    \<^item> \<open>Run_Finish\<close> (\<open>core/handoff.go\<close>, \<open>core/githandoff.go\<close>, \<open>core/loop.go\<close>): the steps after the last turn. The
      locale \<open>finishing_step\<close> is what each promises; every step interprets it, and so does their composition.
    \<^item> \<open>Run_Loop\<close> (\<open>core/loop.go\<close>, \<open>core/followuphistory.go\<close>): \<open>Run\<close>, from setup through the rounds of
      corrections and verification to the trace, and the follow-up runs of a session.
    \<^item> \<open>Config_Text\<close>, \<open>Config_Sets\<close>, \<open>Config_Data\<close> (\<open>types/runconfig.go\<close>, \<open>types/correlation.go\<close>,
      \<open>types/repositoryguidance.go\<close>): the run configuration as records, its patterns, closed sets, constants, effective
      values and defaults.
    \<^item> \<open>Config_Provider\<close>, \<open>Config_Tools\<close>, \<open>Config_Policy\<close>, \<open>Config_Reporting\<close> (with
      \<open>types/protectedwritetargets.go\<close>): the checks, each returning the errors it appends, and the configuration it
      leaves where it normalises one.
    \<^item> \<open>Config_Validation\<close>, \<open>Config_Revalidation\<close>: \<open>ValidateRunConfig\<close>, what passing it guarantees, and what a second
      pass does. \<open>Config_Redact\<close>: the copy of a configuration that a trace keeps.
  \<^bold>\<open>How code becomes definitions.\<close> A struct is a \<open>record\<close>, an enumeration or an error a \<open>datatype\<close>, a method a function
  from the old state to the new one with its results; early returns are branches. A Go \<open>string\<close> is a
  list of bytes. An \<open>int\<close> is an \<^typ>\<open>int\<close> where it counts things that exist in memory; where the source
  guards against overflow (token totals, durations, the line numbers of a diff) it is kept at 64 bits. Loops are
  recursive functions with termination proofs. There is no fuel: \<open>runInnerLoop\<close> ends because its turns
  are bounded by the configuration, retries by their budget, the overflow loop by its second
  round, and a run's rounds by the retries and corrections it has. Goroutines are step relations or arbitrary interleavings (\<open>Correlator\<close>, the fan-out of
  \<open>Tool_Dispatch\<close>, \<open>stopSections\<close> of \<open>Egress\<close>). An index out of range is a value of its own where the
  code could reach one, so that \<open>no panic\<close> is a theorem.

  \<^bold>\<open>Parameters.\<close> What is not in the repository or is a table of regular expressions is an argument: providers and
  their streams, tool handlers, the resolver, SHA-256, the JSON and schema libraries, Cedar, the
  scrubber, Unicode case tables, floating point (records of operations) and everything the environment
  decides (clocks, cancellation, operator input, failures of I/O). Theorems quantify over them; what one
  assumes is in its statement.

  \<^bold>\<open>What is shown.\<close> For the loop: whatever model, tools, operator and network do, it ends within its turns,
  never sends a history a provider must refuse, and closes every turn once; a
  tool runs only after preflight, guard and permission have passed, in any schedule with the same
  results; content that arrives is screened before the model reads it. For the context: strategies cut exactly as much
  as they must, keep the prefix stable and truncate on rune boundaries, and the fit check is complete up to a
  case it refuses needlessly. For budgets: totals do not depend on order, stay spent, and
  bound sub-agents. For edits: all or nothing, local, and the reported diff patches the file. For
  the gates: a wrapper never widens a chain, a deny of any guard wins, redaction removes every
  reported span. For the network: the proxy forwards only to an allowlisted host the client's
  handshake names, the SNI parser inverts the wire format and never reads out of bounds, and the address
  guard is the table of reserved blocks.
  For a whole run: a reported success means that the verifier accepted the history the run left, that the
  structured output is the checked answer and that every finishing step succeeded; an earlier failure
  keeps its outcome and reason; \<open>done\<close> is sent once, last; the limits hold across rounds; and the
  runs of a session can each continue the one before without a request a provider must refuse. For the
  operator: no input is lost without a trace, a cancel is final, and no markup survives sanitisation. For the configuration: one that
  validation accepts bounds the run, gives a read-only run no way to write, routes every turn to a provider it
  has, keeps federated credentials to their endpoints and, up to one prefix length, passes again unchanged; its
  redacted copy names no secret.

  \<^bold>\<open>Findings.\<close> Modelling showed behaviours the code does not mean to have; each is a theorem or a lemma beside
  its component: a fittable request that is refused (\<open>fitPreparedRequest_refuses_fittable\<close>), a hunk header
  that panics (\<open>udiff_huge_start_panics\<close>), portless plain HTTP checked against one port and sent to
  another (\<open>http_default_port_mismatch\<close>), bytes lost after a hijack (\<open>connect_drops_buffered\<close>), and the dial guard
  that a changing resolver defeats (\<open>guarded_dial_rebinds\<close>), a configuration validation completes and then refuses
  (\<open>validation_rejects_its_own_result\<close>), among others.

  \<^bold>\<open>Not modelled.\<close> Telemetry (spans, metrics, logs, trace emitters) observes a run and does not change it. Provider
  adapters, transports, executors, git, MCP, credentials, exports and result sinks are I/O against
  services and processes; the model meets them as parameters. The scrubber, the sensitive-data patterns
  and the input validator are regular expressions and a schema library. Of the run
  configuration only the reflection over field paths and what validation logs are left out; the messages of its
  errors are cut to their heads. The command line, the prompt templates, the construction of components and the
  evaluation tools carry no state of a run. Generated protocol code is left aside.
\<close>

end
